(* ===== verification/MasterPrelude.thy ===== *)
theory MasterPrelude
  imports Main "HOL-Library.Word" "HOL-Library.Monad_Syntax"
begin

text \<open>
  Shared vocabulary of the development: fixed-width integers, C memory accesses, the
  total-correctness predicate \<open>ensures\<close> with its rewrite rules, and runs of operations.

  An operation of the code that may run into undefined behaviour (an access outside an
  array, a call through a NULL function pointer) or that may not return is modelled by a
  function into \<open>'a option\<close>: \<open>None\<close> stands for "no defined result", \<open>Some\<close> for
  the value the C function returns and the memory it leaves behind. Lengths, positions and
  small counters of type \<open>uint8_t\<close> or \<open>uint16_t\<close> are natural numbers and every store
  into one of them that could exceed the type is reduced by \<open>trunc8\<close> or \<open>trunc16\<close>;
  octets, 16-bit codes, 32-bit counters and time stamps are words.
\<close>

unbundle bit_operations_syntax

type_synonym u8 = "8 word"
type_synonym u16 = "16 word"
type_synonym u32 = "32 word"

named_theorems ensures_simps "rewrite rules that push ensures through a computation"
named_theorems mem_defs "definitions of the memory accesses"

subsection \<open>Conversions between integer types\<close>

definition trunc8 :: "nat \<Rightarrow> nat" where
  "trunc8 n = n mod 256"

definition trunc16 :: "nat \<Rightarrow> nat" where
  "trunc16 n = n mod 65536"

text \<open>The conversion of a possibly negative \<open>int\<close> expression to \<open>uint16_t\<close>.\<close>

definition int_to_u16 :: "int \<Rightarrow> nat" where
  "int_to_u16 i = nat (i mod 65536)"

lemma trunc8_id [simp]: "n < 256 \<Longrightarrow> trunc8 n = n"
  by (simp add: trunc8_def)

lemma trunc16_id [simp]: "n < 65536 \<Longrightarrow> trunc16 n = n"
  by (simp add: trunc16_def)

lemma trunc8_less [simp]: "trunc8 n < 256"
  by (simp add: trunc8_def)

lemma int_to_u16_of_nat [simp]: "n < 65536 \<Longrightarrow> int_to_u16 (int n) = n"
  by (simp add: int_to_u16_def)

definition u16_of_octets :: "u8 \<Rightarrow> u8 \<Rightarrow> u16" where
  "u16_of_octets hi lo = push_bit 8 (ucast hi) OR ucast lo"

definition hi_octet :: "u16 \<Rightarrow> u8" where
  "hi_octet w = ucast (drop_bit 8 w)"

definition lo_octet :: "u16 \<Rightarrow> u8" where
  "lo_octet w = ucast (w AND 255)"

lemma lo_octet_ucast: "lo_octet w = ucast w"
proof -
  have "w AND 255 = take_bit 8 w"
    by (simp add: take_bit_eq_mask mask_eq_exp_minus_1)
  then show ?thesis
    by (intro bit_word_eqI) (simp add: lo_octet_def bit_simps)
qed

lemma u16_of_octets_split: "u16_of_octets (hi_octet w) (lo_octet w) = w"
  by (rule bit_word_eqI)
    (auto simp: u16_of_octets_def hi_octet_def lo_octet_ucast bit_simps not_le)

lemma lo_octet_small: "w < 256 \<Longrightarrow> ucast (lo_octet w) = w"
  by (simp add: lo_octet_ucast word_less_nat_alt word_unat_eq_iff unsigned_ucast_eq
      unsigned_take_bit_eq take_bit_nat_eq_self)

subsection \<open>Bit fields of octets\<close>

text \<open>Masks and shifts of octets as arithmetic on their values, collected in \<open>octet_fields\<close>.\<close>

lemma unat_and_mask: "unat ((x :: 'a::len word) AND mask n) = unat x mod 2 ^ n"
proof -
  have "unat (x AND mask n) = take_bit n (unat x)"
    by (simp only: take_bit_eq_mask [symmetric] unsigned_take_bit_eq)
  then show ?thesis by (simp only: take_bit_eq_mod)
qed

lemma unat_drop_bit_div: "unat (drop_bit n (x :: 'a::len word)) = unat x div 2 ^ n"
proof -
  have "unat (drop_bit n x) = drop_bit n (take_bit LENGTH('a) (unat x))"
    by (simp only: unsigned_drop_bit_eq)
  also have "take_bit LENGTH('a) (unat x) = unat x"
    by (simp add: take_bit_nat_eq_self)
  finally show ?thesis by (simp only: drop_bit_eq_div)
qed

lemma octet_and_31: "unat ((x::u8) AND 31) = unat x mod 32"
  using unat_and_mask [of x 5] by (simp add: mask_eq_exp_minus_1)

lemma octet_and_63: "unat ((x::u8) AND 63) = unat x mod 64"
  using unat_and_mask [of x 6] by (simp add: mask_eq_exp_minus_1)

lemma octet_and_15: "unat ((x::u8) AND 15) = unat x mod 16"
  using unat_and_mask [of x 4] by (simp add: mask_eq_exp_minus_1)

lemma octet_and_7: "unat ((x::u8) AND 7) = unat x mod 8"
  using unat_and_mask [of x 3] by (simp add: mask_eq_exp_minus_1)

lemma octet_and_3: "unat ((x::u8) AND 3) = unat x mod 4"
  using unat_and_mask [of x 2] by (simp add: mask_eq_exp_minus_1)

lemma octet_div_16: "unat (drop_bit 4 (x::u8)) = unat x div 16"
  using unat_drop_bit_div [of 4 x] by simp

lemma octet_div_64: "unat (drop_bit 6 (x::u8)) = unat x div 64"
  using unat_drop_bit_div [of 6 x] by simp

lemma u8_bound: "unat (x::u8) < 256"
  using unsigned_less [of x] by simp

lemma octet_bit_7: "bit (x::u8) 7 \<longleftrightarrow> 128 \<le> unat x"
proof -
  have "bit x 7 = bit (unat x) 7"
    by (simp add: bit_unsigned_iff)
  also have "\<dots> = odd (unat x div 128)"
    by (simp add: bit_iff_odd)
  also have "\<dots> \<longleftrightarrow> unat x div 128 = 1"
  proof -
    have "unat x div 128 < 2" using u8_bound [of x] by linarith
    then have "unat x div 128 = 0 \<or> unat x div 128 = 1" by linarith
    then show ?thesis by auto
  qed
  also have "\<dots> \<longleftrightarrow> 128 \<le> unat x"
    using u8_bound [of x] by linarith
  finally show ?thesis .
qed

lemma octet_and_128: "(x::u8) AND 128 = 0 \<longleftrightarrow> unat x < 128"
  using and_exp_eq_0_iff_not_bit [of x 7] octet_bit_7 [of x] by auto

lemma unat_ucast_8_16 [simp]: "unat (ucast (x::u8) :: u16) = unat x"
  using u8_bound [of x] by (simp add: unsigned_ucast_eq take_bit_nat_eq_self)

lemma unat_ucast_8_32 [simp]: "unat (ucast (x::u8) :: u32) = unat x"
  using u8_bound [of x] by (simp add: unsigned_ucast_eq take_bit_nat_eq_self)

lemma unat_ucast_16_8: "unat (ucast (x::u16) :: u8) = unat x mod 256"
  by (simp add: unsigned_ucast_eq take_bit_eq_mod)

lemma unat_u16_of_octets: "unat (u16_of_octets hi lo) = 256 * unat hi + unat lo"
proof -
  have "u16_of_octets hi lo = push_bit 8 (ucast hi) + ucast lo"
    unfolding u16_of_octets_def
    by (rule disjunctive_add [symmetric]) (auto simp: bit_simps dest: bit_imp_le_length)
  moreover have "256 * unat hi + unat lo < 65536"
    using u8_bound [of hi] u8_bound [of lo] by linarith
  ultimately show ?thesis
    by (simp add: push_bit_eq_mult unat_word_ariths)
qed

lemma unat_u24_of_octets:
  "unat (push_bit 16 (ucast (a::u8)) OR push_bit 8 (ucast (b::u8)) OR ucast (c::u8) :: u32) =
   65536 * unat a + 256 * unat b + unat c"
proof -
  have "push_bit 16 (ucast a :: u32) OR push_bit 8 (ucast b) =
    push_bit 16 (ucast a) + push_bit 8 (ucast b)"
    by (rule disjunctive_add [symmetric]) (auto simp: bit_simps dest: bit_imp_le_length)
  moreover have "(push_bit 16 (ucast a :: u32) OR push_bit 8 (ucast b)) OR ucast c =
    (push_bit 16 (ucast a) OR push_bit 8 (ucast b)) + ucast c"
    by (rule disjunctive_add [symmetric]) (auto simp: bit_simps dest: bit_imp_le_length)
  moreover have "65536 * unat a + 256 * unat b + unat c < 4294967296"
    using u8_bound [of a] u8_bound [of b] u8_bound [of c] by linarith
  ultimately show ?thesis
    by (simp add: push_bit_eq_mult unat_word_ariths or.assoc [symmetric])
qed

lemmas octet_fields = octet_and_31 octet_and_63 octet_and_15 octet_and_7 octet_and_3
  octet_div_16 octet_div_64 octet_and_128

subsection \<open>Memory accesses\<close>

text \<open>
  An array is a list of its size. \<open>rd\<close> and \<open>wr\<close> are an indexed read and write,
  \<open>rd_slice\<close> and \<open>wr_slice\<close> the source and the destination of a block copy. Outside
  the array they have no defined result.
\<close>

definition rd :: "'a list \<Rightarrow> nat \<Rightarrow> 'a option" where
  "rd xs i = (if i < length xs then Some (xs ! i) else None)"

definition wr :: "'a list \<Rightarrow> nat \<Rightarrow> 'a \<Rightarrow> 'a list option" where
  "wr xs i x = (if i < length xs then Some (xs[i := x]) else None)"

definition rd_slice :: "'a list \<Rightarrow> nat \<Rightarrow> nat \<Rightarrow> 'a list option" where
  "rd_slice xs i n = (if i + n \<le> length xs then Some (take n (drop i xs)) else None)"

definition wr_slice :: "'a list \<Rightarrow> nat \<Rightarrow> 'a list \<Rightarrow> 'a list option" where
  "wr_slice xs i ys =
     (if i + length ys \<le> length xs then Some (take i xs @ ys @ drop (i + length ys) xs) else None)"

declare rd_def [mem_defs] wr_def [mem_defs] rd_slice_def [mem_defs] wr_slice_def [mem_defs]

text \<open>Accesses to an array that is filled from the left, \<open>p\<close> being the part filled so far.\<close>

lemma wr_slice_append:
  "length ys \<le> length q \<Longrightarrow> wr_slice (p @ q) (length p) ys = Some ((p @ ys) @ drop (length ys) q)"
  by (simp add: wr_slice_def)

lemma wr_slice_start:
  "length ys \<le> length q \<Longrightarrow> wr_slice q 0 ys = Some (ys @ drop (length ys) q)"
  by (simp add: wr_slice_def)

lemma wr_append: "q \<noteq> [] \<Longrightarrow> wr (p @ q) (length p) y = Some ((p @ [y]) @ drop 1 q)"
  by (cases q) (simp_all add: wr_def)

lemma wr_start: "q \<noteq> [] \<Longrightarrow> wr q 0 y = Some ([y] @ drop 1 q)"
  by (cases q) (simp_all add: wr_def)

lemma rd_append: "i < length p \<Longrightarrow> rd (p @ q) i = Some (p ! i)"
  by (simp add: rd_def nth_append)

lemma rd_slice_append: "rd_slice (p @ q) 0 (length p) = Some p"
  by (simp add: rd_slice_def)

subsection \<open>Total correctness of a computation\<close>

text \<open>\<open>ensures m Q\<close>: the computation has a defined result and the result satisfies \<open>Q\<close>.\<close>

definition ensures :: "'a option \<Rightarrow> ('a \<Rightarrow> bool) \<Rightarrow> bool" where
  "ensures m Q = (case m of None \<Rightarrow> False | Some x \<Rightarrow> Q x)"

lemma ensures_Some [ensures_simps, simp]: "ensures (Some x) Q = Q x"
  by (simp add: ensures_def)

lemma ensures_None [ensures_simps, simp]: "ensures None Q = False"
  by (simp add: ensures_def)

lemma ensures_bind [ensures_simps]:
  "ensures (Option.bind m f) Q = ensures m (\<lambda>x. ensures (f x) Q)"
  by (cases m) simp_all

lemma ensures_map [ensures_simps]: "ensures (map_option f m) Q = ensures m (\<lambda>x. Q (f x))"
  by (cases m) simp_all

lemma ensures_if [ensures_simps]:
  "ensures (if b then m else n) Q = (if b then ensures m Q else ensures n Q)"
  by simp

lemma ensures_prod [ensures_simps]:
  "ensures (case p of (a, b) \<Rightarrow> f a b) Q = (case p of (a, b) \<Rightarrow> ensures (f a b) Q)"
  by (cases p) simp

lemma ensures_option [ensures_simps]:
  "ensures (case m of None \<Rightarrow> f | Some x \<Rightarrow> g x) Q =
   (case m of None \<Rightarrow> ensures f Q | Some x \<Rightarrow> ensures (g x) Q)"
  by (cases m) simp_all

lemma ensures_rd [ensures_simps]: "ensures (rd xs i) Q = (i < length xs \<and> Q (xs ! i))"
  by (simp add: rd_def)

lemma ensures_wr [ensures_simps]: "ensures (wr xs i x) Q = (i < length xs \<and> Q (xs[i := x]))"
  by (simp add: wr_def)

lemma ensures_rd_slice [ensures_simps]:
  "ensures (rd_slice xs i n) Q = (i + n \<le> length xs \<and> Q (take n (drop i xs)))"
  by (simp add: rd_slice_def)

lemma ensures_wr_slice [ensures_simps]:
  "ensures (wr_slice xs i ys) Q =
   (i + length ys \<le> length xs \<and> Q (take i xs @ ys @ drop (i + length ys) xs))"
  by (simp add: wr_slice_def)

lemma ensures_mono: "ensures m P \<Longrightarrow> (\<And>x. P x \<Longrightarrow> Q x) \<Longrightarrow> ensures m Q"
  by (cases m) simp_all

lemma ensuresE:
  assumes "ensures m Q"
  obtains x where "m = Some x" and "Q x"
  using assms by (cases m) simp_all

lemma ensures_iff: "ensures m Q \<longleftrightarrow> (\<exists>x. m = Some x \<and> Q x)"
  by (cases m) simp_all

subsection \<open>Runs of operations\<close>

text \<open>
  A client of a component calls its operations one after another; \<open>run_ops\<close> collects
  their results. The run has no defined result as soon as one call has none.
\<close>

fun run_ops :: "('o \<Rightarrow> 's \<Rightarrow> ('r \<times> 's) option) \<Rightarrow> 'o list \<Rightarrow> 's \<Rightarrow> ('r list \<times> 's) option" where
  "run_ops step [] s = Some ([], s)"
| "run_ops step (x # xs) s =
     do { (r, s') \<leftarrow> step x s; (rs, s'') \<leftarrow> run_ops step xs s'; Some (r # rs, s'') }"

text \<open>
  The contract of a component with an invariant: every operation that the client may call
  (\<open>ok\<close>) has a defined result in every state of the invariant and re-establishes it. Then
  every run has a defined result, of one value per call.
\<close>

locale invariant_machine =
  fixes step :: "'o \<Rightarrow> 's \<Rightarrow> ('r \<times> 's) option"
    and ok :: "'o \<Rightarrow> bool"
    and inv :: "'s \<Rightarrow> bool"
  assumes step_inv: "ok x \<Longrightarrow> inv s \<Longrightarrow> ensures (step x s) (\<lambda>(r, s'). inv s')"
begin

lemma run_defined:
  "list_all ok xs \<Longrightarrow> inv s \<Longrightarrow>
   ensures (run_ops step xs s) (\<lambda>(rs, s'). inv s' \<and> length rs = length xs)"
proof (induction xs arbitrary: s)
  case Nil
  then show ?case by simp
next
  case (Cons x xs)
  from Cons.prems have "ensures (step x s) (\<lambda>(r, s'). inv s')"
    by (simp add: step_inv)
  then obtain r s' where step: "step x s = Some (r, s')" and "inv s'"
    by (auto elim: ensuresE)
  with Cons have "ensures (run_ops step xs s') (\<lambda>(rs, s'). inv s' \<and> length rs = length xs)"
    by simp
  then show ?case
    by (auto simp: step ensures_simps elim!: ensures_mono)
qed

lemma run_append:
  "run_ops step (xs @ ys) s =
   do { (rs, s') \<leftarrow> run_ops step xs s; (rs', s'') \<leftarrow> run_ops step ys s'; Some (rs @ rs', s'') }"
proof (induction xs arbitrary: s)
  case Nil
  then show ?case by (cases "run_ops step ys s") auto
next
  case (Cons x xs)
  then show ?case
    by (cases "step x s") (auto split: Option.bind_splits)
qed

end

subsection \<open>Streams delivered in segments\<close>

text \<open>
  A receiver that is handed one segment after another. When its treatment of two segments
  is its treatment of their concatenation, the segmentation of the stream does not matter.
\<close>

primrec feed :: "('a list \<Rightarrow> 's \<Rightarrow> 's option) \<Rightarrow> 'a list list \<Rightarrow> 's \<Rightarrow> 's option" where
  "feed consume [] s = Some s"
| "feed consume (seg # segs) s = do { s \<leftarrow> consume seg s; feed consume segs s }"

locale stream_consumer =
  fixes consume :: "'a list \<Rightarrow> 's \<Rightarrow> 's option"
  assumes consume_Nil: "consume [] s = Some s"
    and consume_append: "consume (xs @ ys) s = do { s \<leftarrow> consume xs s; consume ys s }"
begin

lemma feed_concat: "feed consume segs s = consume (concat segs) s"
proof (induction segs arbitrary: s)
  case Nil
  then show ?case by (simp add: consume_Nil)
next
  case (Cons seg segs)
  then show ?case by (simp add: consume_append)
qed

lemma feed_resegmented: "concat segs = concat segs' \<Longrightarrow> feed consume segs s = feed consume segs' s"
  by (simp add: feed_concat)

end

end
