(* ===== verification/MasterStack.thy ===== *)
theory MasterStack
  imports MasterPrelude
begin

text \<open>
  What the master uses of the companion device stack \<open>iolinki\<close> (headers \<open>crc.h\<close>,
  \<open>frame.h\<close>, \<open>protocol.h\<close>, \<open>phy.h\<close> and \<open>config.h\<close>), which is a separate
  repository: the record \<open>iolinki\<close> carries its helper functions and constants, and every
  definition of the model that uses one of them takes the record as an argument.
  \<open>iolinki_ok\<close> collects what the sources and documents of the master state about it.
\<close>

subsection \<open>Enumerations of phy.h\<close>

text \<open>
  A C object of an enumeration type can hold a value that no enumerator names; the last
  constructor stands for those, so that the range checks of the code are live.
\<close>

datatype iolink_baudrate_t = BAUDRATE_COM1 | BAUDRATE_COM2 | BAUDRATE_COM3 | BAUDRATE_OTHER

datatype iolink_phy_mode_t = PHY_MODE_INACTIVE | PHY_MODE_SIO | PHY_MODE_SDCI

fun baudrate_code :: "iolink_baudrate_t \<Rightarrow> nat" where
  "baudrate_code BAUDRATE_COM1 = 0"
| "baudrate_code BAUDRATE_COM2 = 1"
| "baudrate_code BAUDRATE_COM3 = 2"
| "baudrate_code BAUDRATE_OTHER = 3"

lemma baudrate_code_inject: "baudrate_code a = baudrate_code b \<Longrightarrow> a = b"
  by (cases a; cases b) simp_all

instantiation iolink_baudrate_t :: linorder
begin

definition less_eq_iolink_baudrate_t :: "iolink_baudrate_t \<Rightarrow> iolink_baudrate_t \<Rightarrow> bool" where
  "less_eq_iolink_baudrate_t a b = (baudrate_code a \<le> baudrate_code b)"

definition less_iolink_baudrate_t :: "iolink_baudrate_t \<Rightarrow> iolink_baudrate_t \<Rightarrow> bool" where
  "less_iolink_baudrate_t a b = (baudrate_code a < baudrate_code b)"

instance
  by standard
    (auto simp: less_eq_iolink_baudrate_t_def less_iolink_baudrate_t_def baudrate_code_inject)

end

subsection \<open>The PHY contract\<close>

text \<open>
  The state of the transceiver, the line and the application is a value of an arbitrary
  type \<open>'e\<close>; a callback is a function on it, and \<open>None\<close> is a NULL function pointer.
  \<open>recv_byte\<close> returns its result code and the octet it stores when the code is positive.
\<close>

record 'e iolink_phy_api_t =
  phy_init :: "('e \<Rightarrow> int \<times> 'e) option"
  phy_set_mode :: "(iolink_phy_mode_t \<Rightarrow> 'e \<Rightarrow> 'e) option"
  phy_set_baudrate :: "(iolink_baudrate_t \<Rightarrow> 'e \<Rightarrow> 'e) option"
  phy_send :: "(u8 list \<Rightarrow> 'e \<Rightarrow> int \<times> 'e) option"
  phy_recv_byte :: "('e \<Rightarrow> int \<times> u8 \<times> 'e) option"
  phy_set_cq_line :: "(u8 \<Rightarrow> 'e \<Rightarrow> 'e) option"
  phy_get_voltage_mv :: "('e \<Rightarrow> int \<times> 'e) option"
  phy_is_short_circuit :: "('e \<Rightarrow> bool \<times> 'e) option"

subsection \<open>Frame helpers and protocol constants\<close>

record iolink_frame_operate_response_t =
  resp_checksum_ok :: bool
  resp_status :: u8
  resp_event_pending :: bool
  resp_pd_valid :: bool
  resp_pd :: "u8 list"
  resp_pd_len :: nat
  resp_od :: "u8 list"
  resp_od_len :: nat

record iolinki =
  checksum6 :: "u8 list \<Rightarrow> u8"
  frame_encode_type0 :: "u8 \<Rightarrow> u8 list \<Rightarrow> int \<times> u8 list"
  frame_encode_type0_write :: "u8 \<Rightarrow> u8 \<Rightarrow> u8 list \<Rightarrow> int \<times> u8 list"
  frame_decode_operate_response ::
    "u8 list \<Rightarrow> nat \<Rightarrow> nat \<Rightarrow> iolink_frame_operate_response_t option"
  MC_RW_MASK :: u8
  MC_COMM_CHANNEL_MASK :: u8
  MC_ADDR_MASK :: u8
  FLOWCTRL_COUNT_MASK :: u8
  FLOWCTRL_START :: u8
  FLOWCTRL_IDLE :: u8
  FLOWCTRL_ABORT :: u8
  M_SEQ_HEADER_LEN :: nat
  M_SEQ_TYPE0_LEN :: nat
  M_SEQ_MIN_LEN :: nat
  PD_IN_MAX_SIZE :: nat
  PD_OUT_MAX_SIZE :: nat
  ISDU_BUFFER_SIZE :: nat
  ISDU_ERROR_NONE :: u16
  ISDU_ERROR_SEGMENTATION :: u16
  IDX_DIRECT_PARAMETERS_1 :: u16
  IDX_SYSTEM_COMMAND :: u16
  IDX_DATA_STORAGE :: u16
  IDX_DETAILED_DEVICE_STATUS :: u16
  CMD_DEVICE_OPERATE :: u8
  CMD_PARAM_UPLOAD_START :: u8
  CMD_PARAM_UPLOAD_END :: u8
  CMD_PARAM_DOWNLOAD_START :: u8
  CMD_PARAM_DOWNLOAD_END :: u8
  CMD_PARAM_DOWNLOAD_STORE :: u8
  DEVICE_STATUS_FAILURE :: u8

text \<open>
  Documented facts about the stack. The MC octet is \<open>R/W << 7 | channel << 5 | address\<close>
  (comment on \<open>iolink_master_isdu_channel_access\<close>, \<open>docs\<close> plan Task 2 and 3); FlowCTRL
  counts 0..15, with START, IDLE and ABORT outside the counter (Table 52); a message header
  is MC and CKT and a TYPE_0 message two octets (comment on \<open>iolink_master_build_isdu_frame\<close>);
  "no error" differs from the segmentation error; the largest OPERATE frame fits the
  64-octet scratch buffer (comment on \<open>IOLINK_MASTER_FRAME_BUF_SIZE\<close>); the encoders write
  within the buffer they are given, and the decoder of an OPERATE reply returns the
  configured number of PD and OD octets.
\<close>

definition stack_constants_ok :: "iolinki \<Rightarrow> bool" where
  "stack_constants_ok L \<longleftrightarrow>
     MC_RW_MASK L = 128 \<and> MC_COMM_CHANNEL_MASK L = 96 \<and> MC_ADDR_MASK L = 31 \<and>
     FLOWCTRL_COUNT_MASK L = 15 \<and>
     FLOWCTRL_START L > 15 \<and> FLOWCTRL_START L \<le> 31 \<and>
     FLOWCTRL_IDLE L > 15 \<and> FLOWCTRL_IDLE L \<le> 31 \<and> FLOWCTRL_IDLE L \<noteq> FLOWCTRL_START L \<and>
     FLOWCTRL_ABORT L > 15 \<and> FLOWCTRL_ABORT L \<le> 31 \<and>
     M_SEQ_HEADER_LEN L = 2 \<and> M_SEQ_TYPE0_LEN L = 2 \<and>
     PD_IN_MAX_SIZE L + 9 \<le> 64 \<and> PD_OUT_MAX_SIZE L + 10 \<le> 64 \<and>
     16 \<le> ISDU_BUFFER_SIZE L \<and> ISDU_BUFFER_SIZE L \<le> 256 \<and>
     ISDU_ERROR_NONE L \<noteq> ISDU_ERROR_SEGMENTATION L"

definition stack_frames_ok :: "iolinki \<Rightarrow> bool" where
  "stack_frames_ok L \<longleftrightarrow>
     (\<forall>mc buf. length (snd (frame_encode_type0 L mc buf)) = length buf \<and>
        fst (frame_encode_type0 L mc buf) \<le> int (length buf)) \<and>
     (\<forall>mc od buf. length (snd (frame_encode_type0_write L mc od buf)) = length buf \<and>
        fst (frame_encode_type0_write L mc od buf) \<le> int (length buf)) \<and>
     (\<forall>data pd_len od_len r. frame_decode_operate_response L data pd_len od_len = Some r \<longrightarrow>
        resp_pd_len r = pd_len \<and> length (resp_pd r) = pd_len \<and>
        resp_od_len r = od_len \<and> length (resp_od r) = od_len)"

definition iolinki_ok :: "iolinki \<Rightarrow> bool" where
  "iolinki_ok L \<longleftrightarrow> stack_constants_ok L \<and> stack_frames_ok L"

subsection \<open>A concrete stack\<close>

text \<open>
  An instance for the witnesses: the checksum is the one of the oracle in
  \<open>docs/superpowers/plans\<close>, the frames are laid out as the comments of the code say, and
  the constants are those the comments and tests of the repository mention.
\<close>

definition demo_checksum6 :: "u8 list \<Rightarrow> u8" where
  "demo_checksum6 octets =
     (let c = foldl (\<lambda>a b. a XOR b) 82 octets;
          b = (\<lambda>i. if bit c i then 1 else (0::u8))
      in push_bit 5 (b 7 XOR b 5 XOR b 3 XOR b 1) OR push_bit 4 (b 6 XOR b 4 XOR b 2 XOR b 0) OR
         push_bit 3 (b 7 XOR b 6) OR push_bit 2 (b 5 XOR b 4) OR push_bit 1 (b 3 XOR b 2) OR
         (b 1 XOR b 0))"

definition demo_encode_type0 :: "u8 \<Rightarrow> u8 list \<Rightarrow> int \<times> u8 list" where
  "demo_encode_type0 mc buf =
     (if length buf < 2 then (-1, buf)
      else (2, [mc, demo_checksum6 [mc, 0]] @ drop 2 buf))"

definition demo_encode_type0_write :: "u8 \<Rightarrow> u8 \<Rightarrow> u8 list \<Rightarrow> int \<times> u8 list" where
  "demo_encode_type0_write mc od buf =
     (if length buf < 3 then (-1, buf)
      else (3, [mc, demo_checksum6 [mc, 0, od], od] @ drop 3 buf))"

definition demo_decode_operate_response ::
  "u8 list \<Rightarrow> nat \<Rightarrow> nat \<Rightarrow> iolink_frame_operate_response_t option" where
  "demo_decode_operate_response data pd_len od_len =
     (if length data \<noteq> od_len + pd_len + 1 then None
      else let cks = last data
           in Some \<lparr>resp_checksum_ok =
                      (demo_checksum6 (butlast data @ [cks AND 192]) = cks AND 63),
                    resp_status = cks, resp_event_pending = bit cks 7,
                    resp_pd_valid = (\<not> bit cks 6),
                    resp_pd = take pd_len (drop od_len data), resp_pd_len = pd_len,
                    resp_od = take od_len data, resp_od_len = od_len\<rparr>)"

definition demo_stack :: iolinki where
  "demo_stack =
     \<lparr>checksum6 = demo_checksum6, frame_encode_type0 = demo_encode_type0,
      frame_encode_type0_write = demo_encode_type0_write,
      frame_decode_operate_response = demo_decode_operate_response,
      MC_RW_MASK = 128, MC_COMM_CHANNEL_MASK = 96, MC_ADDR_MASK = 31,
      FLOWCTRL_COUNT_MASK = 15, FLOWCTRL_START = 16, FLOWCTRL_IDLE = 17, FLOWCTRL_ABORT = 31,
      M_SEQ_HEADER_LEN = 2, M_SEQ_TYPE0_LEN = 2, M_SEQ_MIN_LEN = 3, PD_IN_MAX_SIZE = 32,
      PD_OUT_MAX_SIZE = 32,
      ISDU_BUFFER_SIZE = 64, ISDU_ERROR_NONE = 0, ISDU_ERROR_SEGMENTATION = 129,
      IDX_DIRECT_PARAMETERS_1 = 0, IDX_SYSTEM_COMMAND = 2, IDX_DATA_STORAGE = 3,
      IDX_DETAILED_DEVICE_STATUS = 37, CMD_DEVICE_OPERATE = 153, CMD_PARAM_UPLOAD_START = 1,
      CMD_PARAM_UPLOAD_END = 2, CMD_PARAM_DOWNLOAD_START = 3, CMD_PARAM_DOWNLOAD_END = 4,
      CMD_PARAM_DOWNLOAD_STORE = 5, DEVICE_STATUS_FAILURE = 4\<rparr>"

text \<open>The vectors of the oracle.\<close>

lemma demo_checksum6_vectors:
  "demo_checksum6 [0, 0] = 45" "demo_checksum6 [162, 0] = 0" "demo_checksum6 [32, 0, 153] = 6"
  "demo_checksum6 [0, 64, 165, 90] = 53" "demo_checksum6 [16, 0] = 57"
  by (simp_all add: demo_checksum6_def bit_iff_odd_drop_bit Let_def)

lemma demo_checksum6_small: "demo_checksum6 octets < 64"
  unfolding demo_checksum6_def Let_def by (simp split: if_split)

lemma demo_stack_constants: "stack_constants_ok demo_stack"
  by (simp add: stack_constants_ok_def demo_stack_def)

lemma demo_stack_frames: "stack_frames_ok demo_stack"
  by (auto simp: stack_frames_ok_def demo_stack_def demo_encode_type0_def
      demo_encode_type0_write_def demo_decode_operate_response_def Let_def split: if_splits)

lemma demo_stack_ok: "iolinki_ok demo_stack"
  by (simp add: iolinki_ok_def demo_stack_constants demo_stack_frames)

end
