(* ===== verification/MasterTypes.thy ===== *)
theory MasterTypes
  imports MasterStack
begin

text \<open>
  The data of the master: the enumerations and structures of
  \<open>include/iolinki_master/master.h\<close> and \<open>src/master_internal.h\<close>, the named constants,
  and the small inline functions of the private header.

  Result codes are the C integers, so codes that share a value are equal here as they are
  in the program. A structure field has the prefix of its structure (\<open>cfg_\<close>, \<open>dg_\<close>,
  \<open>di_\<close>, \<open>isdu_\<close>, \<open>ev_\<close>, \<open>rx_\<close>, \<open>blk_\<close>, \<open>su_\<close>, \<open>st_\<close>).
\<close>

subsection \<open>Result codes\<close>

abbreviation (input) STATUS_OK :: int where "STATUS_OK \<equiv> 0"
abbreviation (input) STATUS_PENDING :: int where "STATUS_PENDING \<equiv> 1"
abbreviation (input) ERR_INVALID_ARG :: int where "ERR_INVALID_ARG \<equiv> -1"
abbreviation (input) ERR_RETRY_LIMIT :: int where "ERR_RETRY_LIMIT \<equiv> -2"
abbreviation (input) ERR_FRAME :: int where "ERR_FRAME \<equiv> -2"
abbreviation (input) ERR_BUFFER_TOO_SMALL :: int where "ERR_BUFFER_TOO_SMALL \<equiv> -2"
abbreviation (input) ERR_CHECKSUM :: int where "ERR_CHECKSUM \<equiv> -3"
abbreviation (input) ERR_SERVICE :: int where "ERR_SERVICE \<equiv> -4"
abbreviation (input) ERR_INVALID_STATE :: int where "ERR_INVALID_STATE \<equiv> -5"
abbreviation (input) ERR_UNSUPPORTED_PHY :: int where "ERR_UNSUPPORTED_PHY \<equiv> -6"

abbreviation (input) PARAM_ERR_TOO_SHORT :: int where "PARAM_ERR_TOO_SHORT \<equiv> -2"
abbreviation (input) PARAM_ERR_REVISION :: int where "PARAM_ERR_REVISION \<equiv> -2"
abbreviation (input) PARAM_ERR_CYCLE_TIME :: int where "PARAM_ERR_CYCLE_TIME \<equiv> -3"
abbreviation (input) PARAM_ERR_PD_SIZE :: int where "PARAM_ERR_PD_SIZE \<equiv> -4"
abbreviation (input) PARAM_ERR_M_SEQUENCE :: int where "PARAM_ERR_M_SEQUENCE \<equiv> -5"
abbreviation (input) PARAM_ERR_VENDOR_ID :: int where "PARAM_ERR_VENDOR_ID \<equiv> -6"
abbreviation (input) PARAM_ERR_DEVICE_ID :: int where "PARAM_ERR_DEVICE_ID \<equiv> -7"
abbreviation (input) PARAM_ERR_PD_DESCRIPTOR :: int where "PARAM_ERR_PD_DESCRIPTOR \<equiv> -8"

abbreviation (input) ISDU_ERR_BUFFER_TOO_SMALL :: int where "ISDU_ERR_BUFFER_TOO_SMALL \<equiv> -2"
abbreviation (input) ISDU_ERR_BUSY :: int where "ISDU_ERR_BUSY \<equiv> -3"
abbreviation (input) ISDU_ERR_DEVICE :: int where "ISDU_ERR_DEVICE \<equiv> -4"
abbreviation (input) ISDU_ERR_INVALID_STATE :: int where "ISDU_ERR_INVALID_STATE \<equiv> -5"
abbreviation (input) ISDU_ERR_VERIFY_FAILED :: int where "ISDU_ERR_VERIFY_FAILED \<equiv> -6"

abbreviation (input) SIO_ERR_WRONG_MODE :: int where "SIO_ERR_WRONG_MODE \<equiv> -2"
abbreviation (input) SIO_ERR_UNSUPPORTED_PHY :: int where "SIO_ERR_UNSUPPORTED_PHY \<equiv> -3"

subsection \<open>Named constants of the private header\<close>

abbreviation (input) FRAME_BUF_SIZE :: nat where "FRAME_BUF_SIZE \<equiv> 64"
abbreviation (input) RX_RETRY_LIMIT :: nat where "RX_RETRY_LIMIT \<equiv> 2"
abbreviation (input) DPP1_LEN :: nat where "DPP1_LEN \<equiv> 16"
abbreviation (input) EVENT_MEMORY_LEN :: nat where "EVENT_MEMORY_LEN \<equiv> 19"
abbreviation (input) EVENT_SLOT_MAX :: nat where "EVENT_SLOT_MAX \<equiv> 6"
abbreviation (input) EVENT_ENTRY_LEN :: nat where "EVENT_ENTRY_LEN \<equiv> 3"
abbreviation (input) DS_RECORD_HEADER_LEN :: nat where "DS_RECORD_HEADER_LEN \<equiv> 4"
abbreviation (input) ISDU_WRITE_HEADER_MAX :: nat where "ISDU_WRITE_HEADER_MAX \<equiv> 7"
abbreviation (input) ISDU_CHKPDU_LEN :: nat where "ISDU_CHKPDU_LEN \<equiv> 1"

abbreviation (input) T_BIT_COM1_NS :: u32 where "T_BIT_COM1_NS \<equiv> 208330"
abbreviation (input) T_BIT_COM2_NS :: u32 where "T_BIT_COM2_NS \<equiv> 26040"
abbreviation (input) T_BIT_COM3_NS :: u32 where "T_BIT_COM3_NS \<equiv> 4340"
abbreviation (input) NS_PER_100US :: "64 word" where "NS_PER_100US \<equiv> 100000"
abbreviation (input) DEFAULT_T_DMT_TBIT :: u8 where "DEFAULT_T_DMT_TBIT \<equiv> 32"
abbreviation (input) DEFAULT_T_DWU_100US :: u32 where "DEFAULT_T_DWU_100US \<equiv> 400"
abbreviation (input) DEFAULT_WAKE_RETRY_LIMIT :: nat where "DEFAULT_WAKE_RETRY_LIMIT \<equiv> 2"
abbreviation (input) DEFAULT_T_SD_100US :: u32 where "DEFAULT_T_SD_100US \<equiv> 5000"
abbreviation (input) T_REN_MAX_100US :: u32 where "T_REN_MAX_100US \<equiv> 5"
abbreviation (input) TYPE0_M_SEQ_MAX_TBIT :: u32 where "TYPE0_M_SEQ_MAX_TBIT \<equiv> 58"
abbreviation (input) UART_FRAME_TBIT :: u32 where "UART_FRAME_TBIT \<equiv> 11"
abbreviation (input) T_A_MAX_TBIT :: u32 where "T_A_MAX_TBIT \<equiv> 10"
abbreviation (input) WAKEUP_BYTE :: u8 where "WAKEUP_BYTE \<equiv> 0x55"
abbreviation (input) DPP1_OFF_MASTER_COMMAND :: u8 where "DPP1_OFF_MASTER_COMMAND \<equiv> 0x00"
abbreviation (input) DPP1_OFF_MIN_CYCLE_TIME :: "'a::numeral" where "DPP1_OFF_MIN_CYCLE_TIME \<equiv> 0x02"
abbreviation (input) DPP1_OFF_MSEQ_CAPABILITY :: nat where "DPP1_OFF_MSEQ_CAPABILITY \<equiv> 0x03"
abbreviation (input) DPP1_OFF_REVISION_ID :: nat where "DPP1_OFF_REVISION_ID \<equiv> 0x04"
abbreviation (input) DPP1_OFF_PD_IN_DESC :: nat where "DPP1_OFF_PD_IN_DESC \<equiv> 0x05"
abbreviation (input) DPP1_OFF_PD_OUT_DESC :: nat where "DPP1_OFF_PD_OUT_DESC \<equiv> 0x06"
abbreviation (input) DPP1_OFF_VENDOR_ID_HI :: nat where "DPP1_OFF_VENDOR_ID_HI \<equiv> 0x07"
abbreviation (input) DPP1_OFF_VENDOR_ID_LO :: nat where "DPP1_OFF_VENDOR_ID_LO \<equiv> 0x08"
abbreviation (input) DPP1_OFF_DEVICE_ID_HI :: nat where "DPP1_OFF_DEVICE_ID_HI \<equiv> 0x09"
abbreviation (input) DPP1_OFF_DEVICE_ID_MID :: nat where "DPP1_OFF_DEVICE_ID_MID \<equiv> 0x0A"
abbreviation (input) DPP1_OFF_DEVICE_ID_LO :: nat where "DPP1_OFF_DEVICE_ID_LO \<equiv> 0x0B"
abbreviation (input) REVISION_1_0 :: u8 where "REVISION_1_0 \<equiv> 0x10"
abbreviation (input) REVISION_1_1 :: u8 where "REVISION_1_1 \<equiv> 0x11"
abbreviation (input) MIN_CYCLE_BASE_SHIFT :: nat where "MIN_CYCLE_BASE_SHIFT \<equiv> 6"
abbreviation (input) MIN_CYCLE_BASE_MASK :: u8 where "MIN_CYCLE_BASE_MASK \<equiv> 0x03"
abbreviation (input) MIN_CYCLE_MULT_MASK :: u8 where "MIN_CYCLE_MULT_MASK \<equiv> 0x3F"
abbreviation (input) MSEQ_CAP_ISDU_BIT :: u8 where "MSEQ_CAP_ISDU_BIT \<equiv> 0x01"
abbreviation (input) MSEQ_CAP_OPERATE_SHIFT :: nat where "MSEQ_CAP_OPERATE_SHIFT \<equiv> 1"
abbreviation (input) MSEQ_CAP_OPERATE_MASK :: u8 where "MSEQ_CAP_OPERATE_MASK \<equiv> 0x07"
abbreviation (input) MSEQ_CAP_PREOP_SHIFT :: nat where "MSEQ_CAP_PREOP_SHIFT \<equiv> 4"
abbreviation (input) MSEQ_CAP_PREOP_MASK :: u8 where "MSEQ_CAP_PREOP_MASK \<equiv> 0x03"
abbreviation (input) PD_DESC_BYTE_BIT :: u8 where "PD_DESC_BYTE_BIT \<equiv> 0x80"
abbreviation (input) PD_DESC_LENGTH_MASK :: u8 where "PD_DESC_LENGTH_MASK \<equiv> 0x1F"
abbreviation (input) PD_DESC_BITS_PER_OCTET :: nat where "PD_DESC_BITS_PER_OCTET \<equiv> 8"
abbreviation (input) MC_COMM_CHANNEL_SHIFT :: nat where "MC_COMM_CHANNEL_SHIFT \<equiv> 5"
abbreviation (input) ISDU_SERVICE_SHIFT :: nat where "ISDU_SERVICE_SHIFT \<equiv> 4"
abbreviation (input) ISDU_LENGTH_NIBBLE_MAX :: "'a::numeral" where "ISDU_LENGTH_NIBBLE_MAX \<equiv> 15"
abbreviation (input) ISDU_LENGTH_EXTENDED :: u8 where "ISDU_LENGTH_EXTENDED \<equiv> 0x01"
abbreviation (input) ISDU_EXT_MAX :: nat where "ISDU_EXT_MAX \<equiv> 238"
abbreviation (input) EVENT_QUALIFIER_MODE_SHIFT :: nat where "EVENT_QUALIFIER_MODE_SHIFT \<equiv> 4"
abbreviation (input) EVENT_QUALIFIER_MODE_MASK :: u8 where "EVENT_QUALIFIER_MODE_MASK \<equiv> 0x03"
abbreviation (input) EVENT_MODE_NOTIFICATION :: u8 where "EVENT_MODE_NOTIFICATION \<equiv> 1"
abbreviation (input) EVENT_MODE_WARNING :: u8 where "EVENT_MODE_WARNING \<equiv> 2"
abbreviation (input) EVENT_MODE_ERROR :: u8 where "EVENT_MODE_ERROR \<equiv> 3"

subsection \<open>Enumerations of the public header\<close>

datatype iolink_master_m_seq_type_t =
    M_SEQ_TYPE_0 | M_SEQ_TYPE_1_1 | M_SEQ_TYPE_1_2 | M_SEQ_TYPE_1_V
  | M_SEQ_TYPE_2_1 | M_SEQ_TYPE_2_2 | M_SEQ_TYPE_2_V | M_SEQ_TYPE_OTHER

datatype iolink_master_state_t =
  STATE_INACTIVE | STATE_STARTUP | STATE_PREOPERATE | STATE_OPERATE | STATE_ERROR

datatype iolink_master_port_mode_t =
    PORT_MODE_IOLINK | PORT_MODE_DI | PORT_MODE_DQ | PORT_MODE_DEACTIVATED
  | PORT_MODE_OTHER

datatype iolink_master_isdu_op_t = ISDU_OP_NONE | ISDU_OP_READ | ISDU_OP_WRITE

datatype iolink_master_event_type_t =
  EVENT_TYPE_UNKNOWN | EVENT_TYPE_NOTIFICATION | EVENT_TYPE_WARNING | EVENT_TYPE_ERROR

datatype iolink_master_tick_event_t =
  TICK_NONE | TICK_CYCLE_DUE | TICK_RESPONSE_TIMEOUT | TICK_OTHER

datatype iolink_master_inspection_level_t =
  INSPECTION_NO_CHECK | INSPECTION_TYPE_COMP | INSPECTION_IDENTICAL

datatype iolink_master_mc_channel_t =
    MC_CHANNEL_PROCESS | MC_CHANNEL_PAGE | MC_CHANNEL_DIAGNOSIS | MC_CHANNEL_ISDU
  | MC_CHANNEL_OTHER u8

text \<open>The enumerations whose values the code compares are ordered as their values are.\<close>

fun m_seq_type_code :: "iolink_master_m_seq_type_t \<Rightarrow> nat" where
  "m_seq_type_code M_SEQ_TYPE_0 = 0"
| "m_seq_type_code M_SEQ_TYPE_1_1 = 1"
| "m_seq_type_code M_SEQ_TYPE_1_2 = 2"
| "m_seq_type_code M_SEQ_TYPE_1_V = 3"
| "m_seq_type_code M_SEQ_TYPE_2_1 = 4"
| "m_seq_type_code M_SEQ_TYPE_2_2 = 5"
| "m_seq_type_code M_SEQ_TYPE_2_V = 6"
| "m_seq_type_code M_SEQ_TYPE_OTHER = 7"

fun port_mode_code :: "iolink_master_port_mode_t \<Rightarrow> nat" where
  "port_mode_code PORT_MODE_IOLINK = 0"
| "port_mode_code PORT_MODE_DI = 1"
| "port_mode_code PORT_MODE_DQ = 2"
| "port_mode_code PORT_MODE_DEACTIVATED = 3"
| "port_mode_code PORT_MODE_OTHER = 4"

fun tick_event_code :: "iolink_master_tick_event_t \<Rightarrow> nat" where
  "tick_event_code TICK_NONE = 0"
| "tick_event_code TICK_CYCLE_DUE = 1"
| "tick_event_code TICK_RESPONSE_TIMEOUT = 2"
| "tick_event_code TICK_OTHER = 3"

lemma m_seq_type_code_inject: "m_seq_type_code a = m_seq_type_code b \<Longrightarrow> a = b"
  by (cases a; cases b) simp_all

lemma port_mode_code_inject: "port_mode_code a = port_mode_code b \<Longrightarrow> a = b"
  by (cases a; cases b) simp_all

lemma tick_event_code_inject: "tick_event_code a = tick_event_code b \<Longrightarrow> a = b"
  by (cases a; cases b) simp_all

instantiation iolink_master_m_seq_type_t :: linorder
begin

definition less_eq_iolink_master_m_seq_type_t ::
  "iolink_master_m_seq_type_t \<Rightarrow> iolink_master_m_seq_type_t \<Rightarrow> bool" where
  "less_eq_iolink_master_m_seq_type_t a b = (m_seq_type_code a \<le> m_seq_type_code b)"

definition less_iolink_master_m_seq_type_t ::
  "iolink_master_m_seq_type_t \<Rightarrow> iolink_master_m_seq_type_t \<Rightarrow> bool" where
  "less_iolink_master_m_seq_type_t a b = (m_seq_type_code a < m_seq_type_code b)"

instance
  by standard (auto simp: less_eq_iolink_master_m_seq_type_t_def
      less_iolink_master_m_seq_type_t_def m_seq_type_code_inject)

end

instantiation iolink_master_port_mode_t :: linorder
begin

definition less_eq_iolink_master_port_mode_t ::
  "iolink_master_port_mode_t \<Rightarrow> iolink_master_port_mode_t \<Rightarrow> bool" where
  "less_eq_iolink_master_port_mode_t a b = (port_mode_code a \<le> port_mode_code b)"

definition less_iolink_master_port_mode_t ::
  "iolink_master_port_mode_t \<Rightarrow> iolink_master_port_mode_t \<Rightarrow> bool" where
  "less_iolink_master_port_mode_t a b = (port_mode_code a < port_mode_code b)"

instance
  by standard (auto simp: less_eq_iolink_master_port_mode_t_def
      less_iolink_master_port_mode_t_def port_mode_code_inject)

end

instantiation iolink_master_tick_event_t :: linorder
begin

definition less_eq_iolink_master_tick_event_t ::
  "iolink_master_tick_event_t \<Rightarrow> iolink_master_tick_event_t \<Rightarrow> bool" where
  "less_eq_iolink_master_tick_event_t a b = (tick_event_code a \<le> tick_event_code b)"

definition less_iolink_master_tick_event_t ::
  "iolink_master_tick_event_t \<Rightarrow> iolink_master_tick_event_t \<Rightarrow> bool" where
  "less_iolink_master_tick_event_t a b = (tick_event_code a < tick_event_code b)"

instance
  by standard (auto simp: less_eq_iolink_master_tick_event_t_def
      less_iolink_master_tick_event_t_def tick_event_code_inject)

end

lemmas enum_order_defs =
  less_eq_iolink_baudrate_t_def less_iolink_baudrate_t_def
  less_eq_iolink_master_m_seq_type_t_def less_iolink_master_m_seq_type_t_def
  less_eq_iolink_master_port_mode_t_def less_iolink_master_port_mode_t_def
  less_eq_iolink_master_tick_event_t_def less_iolink_master_tick_event_t_def

text \<open>The range checks of the code, as facts about the constructors.\<close>

lemma m_seq_type_in_range [simp]: "t > M_SEQ_TYPE_2_V \<longleftrightarrow> t = M_SEQ_TYPE_OTHER"
  by (cases t) (simp_all add: enum_order_defs)

lemma port_mode_in_range [simp]: "m > PORT_MODE_DEACTIVATED \<longleftrightarrow> m = PORT_MODE_OTHER"
  by (cases m) (simp_all add: enum_order_defs)

lemma baudrate_in_range [simp]: "b > BAUDRATE_COM3 \<longleftrightarrow> b = BAUDRATE_OTHER"
  by (cases b) (simp_all add: enum_order_defs)

lemma tick_event_in_range [simp]: "ev > TICK_RESPONSE_TIMEOUT \<longleftrightarrow> ev = TICK_OTHER"
  by (cases ev) (simp_all add: enum_order_defs)

subsection \<open>Configuration, diagnostics and device information\<close>

record iolink_master_event_t =
  evt_qualifier :: u8
  evt_type :: iolink_master_event_type_t
  evt_code :: u16

text \<open>
  The event callbacks receive \<open>event_user\<close> unchanged, so it is part of the function here.
\<close>

record 'e iolink_master_config_t =
  cfg_port_mode :: iolink_master_port_mode_t
  cfg_m_seq_type :: iolink_master_m_seq_type_t
  cfg_baudrate :: iolink_baudrate_t
  cfg_min_cycle_time :: u8
  cfg_pd_in_len :: nat
  cfg_pd_out_len :: nat
  cfg_auto_baudrate :: bool
  cfg_validate_device_info :: bool
  cfg_inspection_level :: iolink_master_inspection_level_t
  cfg_expected_vendor_id :: u16
  cfg_expected_device_id :: u32
  cfg_response_timeout_100us :: u8
  cfg_isdu_timeout_100us :: u32
  cfg_t_dmt_tbit :: u8
  cfg_t_dwu_100us :: u32
  cfg_wake_retry_limit :: nat
  cfg_t_sd_100us :: u32
  cfg_event_pending_handler :: "('e \<Rightarrow> 'e) option"
  cfg_event_handler :: "(iolink_master_event_t \<Rightarrow> 'e \<Rightarrow> 'e) option"
  cfg_set_mode_checked :: "(iolink_phy_mode_t \<Rightarrow> 'e \<Rightarrow> int \<times> 'e) option"
  cfg_set_baudrate_checked :: "(iolink_baudrate_t \<Rightarrow> 'e \<Rightarrow> int \<times> 'e) option"
  cfg_read_cq_line_checked :: "('e \<Rightarrow> int \<times> 'e) option"
  cfg_flush_rx :: "('e \<Rightarrow> int \<times> 'e) option"
  cfg_prepare_tx :: "('e \<Rightarrow> int \<times> 'e) option"
  cfg_prepare_rx :: "('e \<Rightarrow> int \<times> 'e) option"
  cfg_read_cq_line :: "('e \<Rightarrow> int \<times> 'e) option"
  cfg_wake_up :: "('e \<Rightarrow> int \<times> 'e) option"

record iolink_master_diagnostics_t =
  dg_od_status :: u8
  dg_device_status :: u8
  dg_event_pending :: bool
  dg_rx_retry_count :: nat
  dg_checksum_errors :: u32
  dg_send_errors :: u32
  dg_response_timeouts :: u32
  dg_cycle_slips :: u32
  dg_last_cycle_jitter_100us :: u32
  dg_max_cycle_jitter_100us :: u32
  dg_supply_voltage_mv :: int
  dg_short_circuit :: bool
  dg_link_quality_percent :: nat
  dg_last_service_result :: int
  dg_last_event_count :: nat
  dg_last_event_code :: u16
  dg_last_isdu_error :: u16
  dg_establish_failures :: u32

record iolink_master_timing_t =
  tm_cycle_timer_valid :: bool
  tm_awaiting_response :: bool
  tm_min_cycle_time_100us :: u8
  tm_last_cycle_start_100us :: u32
  tm_response_deadline_100us :: u32

record iolink_master_device_info_t =
  di_valid :: bool
  di_min_cycle_time :: u8
  di_min_cycle_time_100us :: u16
  di_mseq_capability :: u8
  di_isdu_supported :: bool
  di_operate_mseq_code :: u8
  di_preoperate_mseq_code :: u8
  di_revision_id :: u8
  di_pd_in_descriptor :: u8
  di_pd_out_descriptor :: u8
  di_pd_in_len :: nat
  di_pd_out_len :: nat
  di_vendor_id :: u16
  di_device_id :: u32

subsection \<open>Private state\<close>

datatype iolink_master_startup_step =
    STARTUP_STEP_WAKE | STARTUP_STEP_SEND_TYPE0 | STARTUP_STEP_AWAIT_RESPONSE
  | STARTUP_STEP_AWAIT_OPERATE_ACK | STARTUP_STEP_INACTIVE

record iolink_master_startup_state_t =
  su_step :: iolink_master_startup_step
  su_baudrate_index :: nat
  su_wake_attempts :: nat

datatype iolink_master_isdu_phase_t =
  ISDU_PHASE_NONE | ISDU_PHASE_REQUEST | ISDU_PHASE_WAIT | ISDU_PHASE_RESPONSE

record iolink_master_isdu_state_t =
  isdu_op :: iolink_master_isdu_op_t
  isdu_phase :: iolink_master_isdu_phase_t
  isdu_index :: u16
  isdu_subindex :: u8
  isdu_request :: "u8 list"
  isdu_request_len :: nat
  isdu_request_pos :: nat
  isdu_flowctrl :: u8
  isdu_chk :: u8
  isdu_expected_len :: nat
  isdu_response :: "u8 list"
  isdu_response_len :: nat
  isdu_response_pos :: nat
  isdu_done :: bool
  isdu_idle_pending :: bool
  isdu_abort_pending :: bool
  isdu_error :: u16

datatype iolink_master_event_phase_t = EVENT_PHASE_NONE | EVENT_PHASE_READ | EVENT_PHASE_WRITE

datatype iolink_master_event_req_t =
  EVENT_REQ_NONE | EVENT_REQ_CODE | EVENT_REQ_DETAILS | EVENT_REQ_ACK

record iolink_master_event_state_t =
  ev_phase :: iolink_master_event_phase_t
  ev_request :: iolink_master_event_req_t
  ev_addr :: nat
  ev_needed :: nat
  ev_memory :: "u8 list"
  ev_len :: nat
  ev_last_slot :: nat
  ev_status_seen :: bool
  ev_od_expected :: bool
  ev_result :: int

record iolink_master_rx_state_t =
  rx_buf :: "u8 list"
  rx_len :: nat

datatype iolink_master_block_step_t =
    BLOCK_STEP_NONE | BLOCK_STEP_BEGIN_DOWNLOAD | BLOCK_STEP_WRITE | BLOCK_STEP_END_DOWNLOAD
  | BLOCK_STEP_VERIFY

record iolink_master_block_state_t =
  blk_step :: iolink_master_block_step_t
  blk_index :: u16
  blk_subindex :: u8
  blk_data :: "u8 list"
  blk_len :: nat

record 'e iolink_master_port_state_t =
  st_phy :: "'e iolink_phy_api_t option"
  st_config :: "'e iolink_master_config_t"
  st_state :: iolink_master_state_t
  st_od_len :: nat
  st_tx_buf :: "u8 list"
  st_pd_in :: "u8 list"
  st_pd_in_len :: nat
  st_pd_out :: "u8 list"
  st_pd_out_len :: nat
  st_pd_valid :: bool
  st_startup :: iolink_master_startup_state_t
  st_diagnostics :: iolink_master_diagnostics_t
  st_device_info :: iolink_master_device_info_t
  st_isdu :: iolink_master_isdu_state_t
  st_event :: iolink_master_event_state_t
  st_block :: iolink_master_block_state_t
  st_rx :: iolink_master_rx_state_t
  st_cycle_count :: u32
  st_last_cycle_start_100us :: u32
  st_response_deadline_100us :: u32
  st_send_ready_at_100us :: u32
  st_send_ready_valid :: bool
  st_cycle_timer_valid :: bool
  st_awaiting_response :: bool
  st_rx_od_expected :: bool

subsection \<open>Zeroed storage\<close>

text \<open>The values \<open>memset(..., 0, ...)\<close> leaves behind.\<close>

definition zero_device_info :: iolink_master_device_info_t where
  "zero_device_info =
     \<lparr>di_valid = False, di_min_cycle_time = 0, di_min_cycle_time_100us = 0,
      di_mseq_capability = 0, di_isdu_supported = False, di_operate_mseq_code = 0,
      di_preoperate_mseq_code = 0, di_revision_id = 0, di_pd_in_descriptor = 0,
      di_pd_out_descriptor = 0, di_pd_in_len = 0, di_pd_out_len = 0, di_vendor_id = 0,
      di_device_id = 0\<rparr>"

definition zero_diagnostics :: iolink_master_diagnostics_t where
  "zero_diagnostics =
     \<lparr>dg_od_status = 0, dg_device_status = 0, dg_event_pending = False,
      dg_rx_retry_count = 0, dg_checksum_errors = 0, dg_send_errors = 0,
      dg_response_timeouts = 0, dg_cycle_slips = 0, dg_last_cycle_jitter_100us = 0,
      dg_max_cycle_jitter_100us = 0, dg_supply_voltage_mv = 0, dg_short_circuit = False,
      dg_link_quality_percent = 0, dg_last_service_result = 0, dg_last_event_count = 0,
      dg_last_event_code = 0, dg_last_isdu_error = 0, dg_establish_failures = 0\<rparr>"

definition zero_isdu :: "iolinki \<Rightarrow> iolink_master_isdu_state_t" where
  "zero_isdu L =
     \<lparr>isdu_op = ISDU_OP_NONE, isdu_phase = ISDU_PHASE_NONE, isdu_index = 0, isdu_subindex = 0,
      isdu_request = replicate (ISDU_BUFFER_SIZE L) 0, isdu_request_len = 0,
      isdu_request_pos = 0, isdu_flowctrl = 0, isdu_chk = 0, isdu_expected_len = 0,
      isdu_response = replicate (ISDU_BUFFER_SIZE L) 0, isdu_response_len = 0,
      isdu_response_pos = 0, isdu_done = False, isdu_idle_pending = False,
      isdu_abort_pending = False, isdu_error = 0\<rparr>"

definition zero_event :: iolink_master_event_state_t where
  "zero_event =
     \<lparr>ev_phase = EVENT_PHASE_NONE, ev_request = EVENT_REQ_NONE, ev_addr = 0, ev_needed = 0,
      ev_memory = replicate EVENT_MEMORY_LEN 0, ev_len = 0, ev_last_slot = 0,
      ev_status_seen = False, ev_od_expected = False, ev_result = 0\<rparr>"

definition zero_block :: "iolinki \<Rightarrow> iolink_master_block_state_t" where
  "zero_block L =
     \<lparr>blk_step = BLOCK_STEP_NONE, blk_index = 0, blk_subindex = 0,
      blk_data = replicate (ISDU_BUFFER_SIZE L) 0, blk_len = 0\<rparr>"

definition zero_config :: "'e iolink_master_config_t" where
  "zero_config =
     \<lparr>cfg_port_mode = PORT_MODE_IOLINK, cfg_m_seq_type = M_SEQ_TYPE_0,
      cfg_baudrate = BAUDRATE_COM1, cfg_min_cycle_time = 0, cfg_pd_in_len = 0,
      cfg_pd_out_len = 0, cfg_auto_baudrate = False, cfg_validate_device_info = False,
      cfg_inspection_level = INSPECTION_NO_CHECK, cfg_expected_vendor_id = 0,
      cfg_expected_device_id = 0, cfg_response_timeout_100us = 0, cfg_isdu_timeout_100us = 0,
      cfg_t_dmt_tbit = 0, cfg_t_dwu_100us = 0, cfg_wake_retry_limit = 0, cfg_t_sd_100us = 0,
      cfg_event_pending_handler = None, cfg_event_handler = None,
      cfg_set_mode_checked = None, cfg_set_baudrate_checked = None,
      cfg_read_cq_line_checked = None, cfg_flush_rx = None, cfg_prepare_tx = None,
      cfg_prepare_rx = None, cfg_read_cq_line = None, cfg_wake_up = None\<rparr>"

definition zero_port :: "iolinki \<Rightarrow> 'e iolink_master_port_state_t" where
  "zero_port L =
     \<lparr>st_phy = None, st_config = zero_config, st_state = STATE_INACTIVE, st_od_len = 0,
      st_tx_buf = replicate FRAME_BUF_SIZE 0, st_pd_in = replicate (PD_IN_MAX_SIZE L) 0,
      st_pd_in_len = 0, st_pd_out = replicate (PD_OUT_MAX_SIZE L) 0, st_pd_out_len = 0,
      st_pd_valid = False,
      st_startup = \<lparr>su_step = STARTUP_STEP_WAKE, su_baudrate_index = 0, su_wake_attempts = 0\<rparr>,
      st_diagnostics = zero_diagnostics, st_device_info = zero_device_info,
      st_isdu = zero_isdu L, st_event = zero_event, st_block = zero_block L,
      st_rx = \<lparr>rx_buf = replicate FRAME_BUF_SIZE 0, rx_len = 0\<rparr>, st_cycle_count = 0,
      st_last_cycle_start_100us = 0, st_response_deadline_100us = 0,
      st_send_ready_at_100us = 0, st_send_ready_valid = False, st_cycle_timer_valid = False,
      st_awaiting_response = False, st_rx_od_expected = False\<rparr>"

lemmas zero_defs = zero_device_info_def zero_diagnostics_def zero_isdu_def zero_event_def
  zero_block_def zero_config_def zero_port_def

subsection \<open>Inline functions of the private header\<close>

fun iolink_master_ckt_type_bits :: "iolink_master_m_seq_type_t \<Rightarrow> u8" where
  "iolink_master_ckt_type_bits M_SEQ_TYPE_1_1 = 0x40"
| "iolink_master_ckt_type_bits M_SEQ_TYPE_1_2 = 0x40"
| "iolink_master_ckt_type_bits M_SEQ_TYPE_1_V = 0x40"
| "iolink_master_ckt_type_bits M_SEQ_TYPE_2_1 = 0x80"
| "iolink_master_ckt_type_bits M_SEQ_TYPE_2_2 = 0x80"
| "iolink_master_ckt_type_bits M_SEQ_TYPE_2_V = 0x80"
| "iolink_master_ckt_type_bits _ = 0x00"

fun iolink_master_od_len_for_type :: "iolink_master_m_seq_type_t \<Rightarrow> nat" where
  "iolink_master_od_len_for_type M_SEQ_TYPE_1_2 = 2"
| "iolink_master_od_len_for_type M_SEQ_TYPE_1_V = 8"
| "iolink_master_od_len_for_type M_SEQ_TYPE_2_V = 2"
| "iolink_master_od_len_for_type _ = 1"

definition iolink_master_response_due_at :: "'e iolink_master_port_state_t \<Rightarrow> u32 \<Rightarrow> bool" where
  "iolink_master_response_due_at p now_100us =
     (st_awaiting_response p \<and> now_100us \<ge> st_response_deadline_100us p)"

lemma od_len_for_type_bounds:
  "1 \<le> iolink_master_od_len_for_type t" "iolink_master_od_len_for_type t \<le> 8"
  by (cases t; simp)+

end
