(* ===== verification/MasterParameters.thy ===== *)
theory MasterParameters
  imports MasterTypes
begin

text \<open>
  \<open>src/master_parameters.c\<close>: the MasterCommand octet, the decoding of Direct Parameter
  Page 1, and the validation and selection of a port configuration against the decoded
  device information.

  The pointers designate objects: the early returns of the public functions for a NULL
  port, page or information pointer are not modelled.
\<close>

subsection \<open>MinCycleTime and the MasterCommand octet\<close>

definition iolink_master_decode_min_cycle_time_100us :: "u8 \<Rightarrow> u16" where
  "iolink_master_decode_min_cycle_time_100us octet =
     (let time_base = drop_bit MIN_CYCLE_BASE_SHIFT octet AND MIN_CYCLE_BASE_MASK;
          multiplier = octet AND MIN_CYCLE_MULT_MASK
      in if time_base = 0 then ucast multiplier
         else if time_base = 1 then 64 + ucast multiplier * 4
         else if time_base = 2 then 320 + ucast multiplier * 16
         else ucast octet)"

fun mc_channel_code :: "iolink_master_mc_channel_t \<Rightarrow> u8" where
  "mc_channel_code MC_CHANNEL_PROCESS = 0"
| "mc_channel_code MC_CHANNEL_PAGE = 1"
| "mc_channel_code MC_CHANNEL_DIAGNOSIS = 2"
| "mc_channel_code MC_CHANNEL_ISDU = 3"
| "mc_channel_code (MC_CHANNEL_OTHER v) = v"

definition mc_channel_of_code :: "u8 \<Rightarrow> iolink_master_mc_channel_t" where
  "mc_channel_of_code v =
     (if v = 0 then MC_CHANNEL_PROCESS else if v = 1 then MC_CHANNEL_PAGE
      else if v = 2 then MC_CHANNEL_DIAGNOSIS else if v = 3 then MC_CHANNEL_ISDU
      else MC_CHANNEL_OTHER v)"

definition iolink_master_encode_master_command ::
  "iolinki \<Rightarrow> bool \<Rightarrow> iolink_master_mc_channel_t \<Rightarrow> u8 \<Rightarrow> u8" where
  "iolink_master_encode_master_command L read channel address =
     (let mc = address AND MC_ADDR_MASK L;
          mc = mc OR (push_bit MC_COMM_CHANNEL_SHIFT (mc_channel_code channel) AND MC_COMM_CHANNEL_MASK L)
      in if read then mc OR MC_RW_MASK L else mc)"

definition iolink_master_mc_is_read :: "iolinki \<Rightarrow> u8 \<Rightarrow> bool" where
  "iolink_master_mc_is_read L mc \<longleftrightarrow> mc AND MC_RW_MASK L \<noteq> 0"

definition iolink_master_mc_channel :: "iolinki \<Rightarrow> u8 \<Rightarrow> iolink_master_mc_channel_t" where
  "iolink_master_mc_channel L mc =
     mc_channel_of_code (drop_bit MC_COMM_CHANNEL_SHIFT (mc AND MC_COMM_CHANNEL_MASK L))"

definition iolink_master_mc_address :: "iolinki \<Rightarrow> u8 \<Rightarrow> u8" where
  "iolink_master_mc_address L mc = mc AND MC_ADDR_MASK L"

subsection \<open>ProcessData descriptors and M-sequence capability codes\<close>

definition iolink_master_decode_pd_descriptor :: "u8 \<Rightarrow> nat" where
  "iolink_master_decode_pd_descriptor descriptor =
     (let len = unat (descriptor AND PD_DESC_LENGTH_MASK)
      in if descriptor AND PD_DESC_BYTE_BIT \<noteq> 0 then trunc8 (len + 1)
         else trunc8 ((len + (PD_DESC_BITS_PER_OCTET - 1)) div PD_DESC_BITS_PER_OCTET))"

definition iolink_master_pd_descriptor_is_reserved :: "u8 \<Rightarrow> bool" where
  "iolink_master_pd_descriptor_is_reserved descriptor =
     (let len = unat (descriptor AND PD_DESC_LENGTH_MASK)
      in if descriptor AND PD_DESC_BYTE_BIT \<noteq> 0 then len < 2 else len \<ge> 17)"

fun iolink_master_mseq_capability_code :: "iolink_master_m_seq_type_t \<Rightarrow> nat \<Rightarrow> u8" where
  "iolink_master_mseq_capability_code M_SEQ_TYPE_1_2 od_len = 1"
| "iolink_master_mseq_capability_code M_SEQ_TYPE_1_V od_len = (if od_len = 32 then 7 else 6)"
| "iolink_master_mseq_capability_code M_SEQ_TYPE_2_V od_len =
     (if od_len = 1 then 4 else if od_len = 2 then 5 else if od_len = 8 then 6
      else if od_len = 32 then 7 else 0)"
| "iolink_master_mseq_capability_code _ od_len = 0"

fun iolink_master_mseq_code_compatible :: "iolink_master_m_seq_type_t \<Rightarrow> u8 \<Rightarrow> bool" where
  "iolink_master_mseq_code_compatible M_SEQ_TYPE_1_1 code = (code = 0 \<or> code = 1)"
| "iolink_master_mseq_code_compatible M_SEQ_TYPE_1_2 code = (code = 0 \<or> code = 1)"
| "iolink_master_mseq_code_compatible M_SEQ_TYPE_0 code = (code = 0)"
| "iolink_master_mseq_code_compatible M_SEQ_TYPE_2_1 code = (code = 0)"
| "iolink_master_mseq_code_compatible M_SEQ_TYPE_2_2 code = (code = 0)"
| "iolink_master_mseq_code_compatible M_SEQ_TYPE_1_V code = (code = 6 \<or> code = 7)"
| "iolink_master_mseq_code_compatible M_SEQ_TYPE_2_V code = (code \<ge> 4 \<and> code \<le> 7)"
| "iolink_master_mseq_code_compatible M_SEQ_TYPE_OTHER code = False"

text \<open>\<open>None\<close> is the result \<open>false\<close>; \<open>Some t\<close> is \<open>true\<close> with \<open>t\<close> stored through \<open>type\<close>.\<close>

definition iolink_master_mseq_type_from_capability_code ::
  "u8 \<Rightarrow> bool \<Rightarrow> nat \<Rightarrow> nat \<Rightarrow> iolink_master_m_seq_type_t option" where
  "iolink_master_mseq_type_from_capability_code code isdu_supported pd_in_len pd_out_len =
     (if code = 0 then
        (if pd_in_len = 0 \<and> pd_out_len = 0 then Some M_SEQ_TYPE_0
         else if isdu_supported then Some M_SEQ_TYPE_2_2
         else Some M_SEQ_TYPE_2_1)
      else if code = 1 then Some (if isdu_supported then M_SEQ_TYPE_1_2 else M_SEQ_TYPE_1_1)
      else if code = 4 \<or> code = 6 \<or> code = 7 then Some M_SEQ_TYPE_2_V
      else if code = 5 then Some M_SEQ_TYPE_2_V
      else None)"

subsection \<open>Direct Parameter Page 1\<close>

definition iolink_master_parse_direct_parameter_page1 ::
  "u8 list \<Rightarrow> nat \<Rightarrow> iolink_master_device_info_t \<Rightarrow> (int \<times> iolink_master_device_info_t) option"
where
  "iolink_master_parse_direct_parameter_page1 page len info =
     (if len < DPP1_LEN then Some (PARAM_ERR_TOO_SHORT, info)
      else do {
        page_05 \<leftarrow> rd page DPP1_OFF_PD_IN_DESC;
        page_06 \<leftarrow> rd page DPP1_OFF_PD_OUT_DESC;
        if iolink_master_pd_descriptor_is_reserved page_05 \<or>
           iolink_master_pd_descriptor_is_reserved page_06
        then Some (PARAM_ERR_PD_DESCRIPTOR, info)
        else do {
          page_02 \<leftarrow> rd page DPP1_OFF_MIN_CYCLE_TIME;
          page_03 \<leftarrow> rd page DPP1_OFF_MSEQ_CAPABILITY;
          page_04 \<leftarrow> rd page DPP1_OFF_REVISION_ID;
          page_07 \<leftarrow> rd page DPP1_OFF_VENDOR_ID_HI;
          page_08 \<leftarrow> rd page DPP1_OFF_VENDOR_ID_LO;
          page_09 \<leftarrow> rd page DPP1_OFF_DEVICE_ID_HI;
          page_0a \<leftarrow> rd page DPP1_OFF_DEVICE_ID_MID;
          page_0b \<leftarrow> rd page DPP1_OFF_DEVICE_ID_LO;
          Some (STATUS_OK,
            zero_device_info\<lparr>
              di_valid := True,
              di_min_cycle_time := page_02,
              di_min_cycle_time_100us := iolink_master_decode_min_cycle_time_100us page_02,
              di_mseq_capability := page_03,
              di_isdu_supported := (page_03 AND MSEQ_CAP_ISDU_BIT \<noteq> 0),
              di_operate_mseq_code := drop_bit MSEQ_CAP_OPERATE_SHIFT page_03 AND MSEQ_CAP_OPERATE_MASK,
              di_preoperate_mseq_code := drop_bit MSEQ_CAP_PREOP_SHIFT page_03 AND MSEQ_CAP_PREOP_MASK,
              di_revision_id := page_04,
              di_pd_in_descriptor := page_05,
              di_pd_out_descriptor := page_06,
              di_pd_in_len := iolink_master_decode_pd_descriptor page_05,
              di_pd_out_len := iolink_master_decode_pd_descriptor page_06,
              di_vendor_id := u16_of_octets page_07 page_08,
              di_device_id := push_bit 16 (ucast page_09) OR push_bit 8 (ucast page_0a) OR
                              ucast page_0b\<rparr>)
        }
      })"

definition iolink_master_apply_direct_parameter_page1 ::
  "u8 list \<Rightarrow> nat \<Rightarrow> 'e iolink_master_port_state_t \<Rightarrow> (int \<times> 'e iolink_master_port_state_t) option"
where
  "iolink_master_apply_direct_parameter_page1 page len p =
     do {
       (ret, info) \<leftarrow> iolink_master_parse_direct_parameter_page1 page len (st_device_info p);
       Some (ret, p\<lparr>st_device_info := info\<rparr>)
     }"

definition iolink_master_get_device_info ::
  "'e iolink_master_port_state_t \<Rightarrow> int \<times> iolink_master_device_info_t" where
  "iolink_master_get_device_info p =
     (let info = st_device_info p
      in if \<not> di_valid info then (STATUS_PENDING, info) else (STATUS_OK, info))"

definition iolink_master_validate_config_against_device_info ::
  "iolink_master_device_info_t \<Rightarrow> 'e iolink_master_config_t \<Rightarrow> int" where
  "iolink_master_validate_config_against_device_info info config =
     (if \<not> di_valid info then STATUS_PENDING
      else if di_revision_id info \<noteq> REVISION_1_0 \<and> di_revision_id info \<noteq> REVISION_1_1
      then PARAM_ERR_REVISION
      else if ucast (cfg_min_cycle_time config) < di_min_cycle_time_100us info
      then PARAM_ERR_CYCLE_TIME
      else if cfg_pd_in_len config \<noteq> di_pd_in_len info \<or>
              cfg_pd_out_len config \<noteq> di_pd_out_len info
      then PARAM_ERR_PD_SIZE
      else if \<not> iolink_master_mseq_code_compatible (cfg_m_seq_type config)
                 (di_operate_mseq_code info)
      then PARAM_ERR_M_SEQUENCE
      else if cfg_inspection_level config \<noteq> INSPECTION_NO_CHECK \<and>
              di_vendor_id info \<noteq> cfg_expected_vendor_id config
      then PARAM_ERR_VENDOR_ID
      else if cfg_inspection_level config \<noteq> INSPECTION_NO_CHECK \<and>
              di_device_id info \<noteq> cfg_expected_device_id config
      then PARAM_ERR_DEVICE_ID
      else STATUS_OK)"

definition iolink_master_validate_device_info :: "'e iolink_master_port_state_t \<Rightarrow> int" where
  "iolink_master_validate_device_info p =
     iolink_master_validate_config_against_device_info (st_device_info p) (st_config p)"

definition iolink_master_select_config_from_device_info ::
  "iolink_master_device_info_t \<Rightarrow> 'e iolink_master_config_t \<Rightarrow> int \<times> 'e iolink_master_config_t"
where
  "iolink_master_select_config_from_device_info info config =
     (if \<not> di_valid info then (STATUS_PENDING, config)
      else case iolink_master_mseq_type_from_capability_code (di_operate_mseq_code info)
                  (di_isdu_supported info) (di_pd_in_len info) (di_pd_out_len info) of
        None \<Rightarrow> (PARAM_ERR_M_SEQUENCE, config)
      | Some m_seq_type \<Rightarrow>
          (STATUS_OK,
           config\<lparr>cfg_m_seq_type := m_seq_type,
             cfg_min_cycle_time :=
               (if di_min_cycle_time_100us info > 255 then 255
                else ucast (di_min_cycle_time_100us info)),
             cfg_pd_in_len := di_pd_in_len info,
             cfg_pd_out_len := di_pd_out_len info\<rparr>))"

subsection \<open>The MasterCommand octet\<close>

lemma master_command_fields:
  assumes "stack_constants_ok L" and "\<forall>v. channel \<noteq> MC_CHANNEL_OTHER v"
  shows "iolink_master_mc_is_read L (iolink_master_encode_master_command L read channel address) = read"
    and "iolink_master_mc_channel L (iolink_master_encode_master_command L read channel address) = channel"
    and "iolink_master_mc_address L (iolink_master_encode_master_command L read channel address) = address AND 31"
  using assms
  by (cases channel; cases read; simp add: stack_constants_ok_def iolink_master_encode_master_command_def Let_def
      iolink_master_mc_is_read_def iolink_master_mc_channel_def iolink_master_mc_address_def
      mc_channel_of_code_def bit.conj_disj_distrib2 and.assoc)+

text \<open>C21. The MasterCommand octet round-trips: from the octet composed for a direction, a
  communication channel and a five-bit address, the decoders recover all three.\<close>

theorem master_command_roundtrip:
  assumes "stack_constants_ok L" and "\<forall>v. channel \<noteq> MC_CHANNEL_OTHER v" and "address \<le> 31"
  shows "let mc = iolink_master_encode_master_command L read channel address
    in iolink_master_mc_is_read L mc = read \<and> iolink_master_mc_channel L mc = channel \<and>
       iolink_master_mc_address L mc = address"
proof -
  have "address AND 31 = address"
    using assms(3) by (simp add: word_unat_eq_iff word_le_nat_alt octet_fields)
  then show ?thesis using master_command_fields [OF assms(1,2)] by simp
qed

theorem master_command_roundtrip_witness:
  "let mc = iolink_master_encode_master_command demo_stack True MC_CHANNEL_PAGE 2
   in iolink_master_mc_is_read demo_stack mc = True \<and>
      iolink_master_mc_channel demo_stack mc = MC_CHANNEL_PAGE \<and>
      iolink_master_mc_address demo_stack mc = 2"
  by (rule master_command_roundtrip [OF demo_stack_constants]) simp_all

subsection \<open>MinCycleTime\<close>

lemma decode_min_cycle_nat:
  "unat (iolink_master_decode_min_cycle_time_100us x) =
     (if unat x < 64 then unat x
      else if unat x < 128 then 64 + 4 * (unat x - 64)
      else if unat x < 192 then 320 + 16 * (unat x - 128)
      else unat x)"
proof -
  have "unat x div 64 < 4"
    using u8_bound [of x] by linarith
  then have base: "unat (drop_bit 6 x AND 3) = unat x div 64"
    by (simp add: octet_fields)
  have b: "(drop_bit 6 x AND 3 = 0) = (unat x div 64 = 0)"
    "(drop_bit 6 x AND 3 = 1) = (unat x div 64 = Suc 0)"
    "(drop_bit 6 x AND 3 = 2) = (unat x div 64 = 2)"
    by (simp_all add: word_unat_eq_iff base)
  have d: "unat x div 64 = 0 \<longleftrightarrow> unat x < 64"
    "unat x div 64 = Suc 0 \<longleftrightarrow> 64 \<le> unat x \<and> unat x < 128"
    "unat x div 64 = 2 \<longleftrightarrow> 128 \<le> unat x \<and> unat x < 192"
    by linarith+
  have m: "unat x mod 64 = (if unat x < 64 then unat x else if unat x < 128 then unat x - 64
      else if unat x < 192 then unat x - 128 else unat x - 192)"
    using u8_bound [of x] by (simp add: mod_if)
  show ?thesis
    using u8_bound [of x]
    by (simp add: iolink_master_decode_min_cycle_time_100us_def Let_def b d octet_fields m
        unat_word_ariths)
qed

text \<open>The encoded time is never less than the octet as a number, and more with two of the time bases.\<close>

lemma decode_min_cycle_larger:
  "ucast x < iolink_master_decode_min_cycle_time_100us x \<longleftrightarrow> 0x41 \<le> x \<and> x < 0xC0"
proof -
  have "unat (ucast x :: u16) = unat x"
    using u8_bound [of x] by (simp add: unsigned_ucast_eq take_bit_nat_eq_self)
  then show ?thesis
    by (auto simp: word_less_nat_alt word_le_nat_alt decode_min_cycle_nat)
qed

lemma time_base_not_reserved: "drop_bit 6 (x::u8) \<noteq> 3 \<longleftrightarrow> unat x < 192"
proof -
  have "drop_bit 6 x = 3 \<longleftrightarrow> unat x div 64 = 3"
    by (simp add: word_unat_eq_iff octet_fields)
  then show ?thesis using u8_bound [of x] by linarith
qed

text \<open>MinCycleTime octets that do not use the reserved time base 11 decode to strictly
  increasing times, at most 132.8 ms: the offsets 6.4 ms and 32.0 ms of the time bases leave
  no overlap, so comparing decoded values is comparing octets.\<close>

theorem min_cycle_time_strict_mono:
  assumes "drop_bit 6 b \<noteq> 3" and "a < b"
  shows "iolink_master_decode_min_cycle_time_100us a < iolink_master_decode_min_cycle_time_100us b \<and>
    iolink_master_decode_min_cycle_time_100us b \<le> 1328"
proof -
  have "unat b < 192" "unat a < unat b"
    using assms by (simp_all add: time_base_not_reserved word_less_nat_alt)
  then show ?thesis
    by (auto simp: word_less_nat_alt word_le_nat_alt decode_min_cycle_nat)
qed

theorem min_cycle_time_strict_mono_witness:
  "iolink_master_decode_min_cycle_time_100us 63 < iolink_master_decode_min_cycle_time_100us 64 \<and>
   iolink_master_decode_min_cycle_time_100us 64 \<le> 1328"
  by (rule min_cycle_time_strict_mono) simp_all

subsection \<open>Properties of Direct Parameter Page 1\<close>

lemma pd_descriptor_nat:
  "iolink_master_decode_pd_descriptor d =
     (if 128 \<le> unat d then unat d mod 32 + 1 else (unat d mod 32 + 7) div 8)"
proof -
  have "unat d mod 32 < 32" by simp
  then show ?thesis
    by (auto simp: iolink_master_decode_pd_descriptor_def octet_fields Let_def)
qed

lemma pd_descriptor_reserved_nat:
  "iolink_master_pd_descriptor_is_reserved d \<longleftrightarrow>
     (if 128 \<le> unat d then unat d mod 32 < 2 else 17 \<le> unat d mod 32)"
  by (simp add: iolink_master_pd_descriptor_is_reserved_def octet_fields Let_def not_less)

text \<open>Table B.6: a ProcessData descriptor that is not reserved decodes to at most 32
  octets; with BYTE set the length code \<open>n\<close> means \<open>n + 1 \<ge> 3\<close> octets, without it the
  result is the least number of octets that holds the given number of bits, at most 2.\<close>

theorem pd_descriptor_table:
  assumes "\<not> iolink_master_pd_descriptor_is_reserved d"
  shows "iolink_master_decode_pd_descriptor d \<le> 32 \<and>
    (d AND 0x80 \<noteq> 0 \<longrightarrow>
       iolink_master_decode_pd_descriptor d = unat (d AND 0x1F) + 1 \<and>
       3 \<le> iolink_master_decode_pd_descriptor d) \<and>
    (d AND 0x80 = 0 \<longrightarrow>
       unat (d AND 0x1F) \<le> 8 * iolink_master_decode_pd_descriptor d \<and>
       8 * iolink_master_decode_pd_descriptor d < unat (d AND 0x1F) + 8 \<and>
       iolink_master_decode_pd_descriptor d \<le> 2)"
proof (cases "128 \<le> unat d")
  case True
  moreover have "unat d mod 32 < 32" by simp
  ultimately show ?thesis
    using assms unfolding pd_descriptor_nat pd_descriptor_reserved_nat octet_fields by auto
next
  case False
  then show ?thesis
    using assms unfolding pd_descriptor_nat pd_descriptor_reserved_nat octet_fields by auto
qed

theorem pd_descriptor_table_witness:
  "iolink_master_decode_pd_descriptor 0x9F \<le> 32 \<and> iolink_master_decode_pd_descriptor 0x9F = 32"
  using pd_descriptor_table [of "0x9F"]
  by (simp add: iolink_master_pd_descriptor_is_reserved_def iolink_master_decode_pd_descriptor_def)

text \<open>
  The encodings of the page as arithmetic: the octets of a process-data descriptor, and the units
  of 100 us of a MinCycleTime.
\<close>

definition pd_descriptor_octets :: "nat \<Rightarrow> nat" where
  "pd_descriptor_octets d = (if 128 \<le> d then d mod 32 + 1 else (d mod 32 + 7) div 8)"

definition min_cycle_time_units :: "nat \<Rightarrow> nat" where
  "min_cycle_time_units x =
     (if x < 64 then x else if x < 128 then 64 + 4 * (x - 64) else if x < 192 then 320 + 16 * (x - 128) else x)"

lemma capability_fields:
  "((x :: u8) AND 1 \<noteq> 0) = odd (unat x)"
  "unat (drop_bit 1 (x :: u8) AND 7) = unat x div 2 mod 8" "unat (drop_bit 4 (x :: u8) AND 3) = unat x div 16 mod 4"
proof -
  have "(x AND 1 \<noteq> 0) = (unat (x AND 1) \<noteq> 0)" by (simp add: unat_eq_0)
  also have "unat (x AND 1) = unat x mod 2" using unat_and_mask [of x 1] by (simp add: mask_eq_exp_minus_1)
  finally show "(x AND 1 \<noteq> 0) = odd (unat x)" by (simp add: odd_iff_mod_2_eq_one)
  show "unat (drop_bit 1 x AND 7) = unat x div 2 mod 8"
    using unat_drop_bit_div [of 1 x] by (simp add: octet_fields)
  show "unat (drop_bit 4 x AND 3) = unat x div 16 mod 4"
    using unat_drop_bit_div [of 4 x] by (simp add: octet_fields)
qed

text \<open>C22. A page of fewer than 16 octets is rejected, and so is a longer one exactly when one of
  its two process-data descriptors is reserved; the device information is then unchanged. Otherwise
  every field of it is decoded: the MinCycleTime, the M-sequence capability with its ISDU flag and
  the OPERATE and PREOPERATE codes, the revision, the two descriptors and the octets they stand for,
  and the VendorID and DeviceID as the big-endian numbers of their octets.\<close>

theorem parse_page1_result:
  assumes "len \<le> length page"
  shows "ensures (iolink_master_parse_direct_parameter_page1 page len info)
    (\<lambda>(ret, info').
       if len < 16 then ret = PARAM_ERR_TOO_SHORT \<and> info' = info
       else if iolink_master_pd_descriptor_is_reserved (page ! 5) \<or>
          iolink_master_pd_descriptor_is_reserved (page ! 6)
       then ret = PARAM_ERR_PD_DESCRIPTOR \<and> info' = info
       else ret = STATUS_OK \<and> di_valid info' \<and>
            di_min_cycle_time info' = page ! 2 \<and>
            unat (di_min_cycle_time_100us info') = min_cycle_time_units (unat (page ! 2)) \<and>
            di_mseq_capability info' = page ! 3 \<and>
            di_isdu_supported info' = odd (unat (page ! 3)) \<and>
            unat (di_operate_mseq_code info') = unat (page ! 3) div 2 mod 8 \<and>
            unat (di_preoperate_mseq_code info') = unat (page ! 3) div 16 mod 4 \<and>
            di_revision_id info' = page ! 4 \<and>
            di_pd_in_descriptor info' = page ! 5 \<and> di_pd_out_descriptor info' = page ! 6 \<and>
            di_pd_in_len info' = pd_descriptor_octets (unat (page ! 5)) \<and>
            di_pd_out_len info' = pd_descriptor_octets (unat (page ! 6)) \<and>
            unat (di_vendor_id info') = 256 * unat (page ! 7) + unat (page ! 8) \<and>
            unat (di_device_id info') =
              65536 * unat (page ! 9) + 256 * unat (page ! 10) + unat (page ! 11))"
  using assms
  by (simp add: iolink_master_parse_direct_parameter_page1_def ensures_simps
      capability_fields capability_fields(2) [unfolded One_nat_def] pd_descriptor_nat pd_descriptor_octets_def decode_min_cycle_nat min_cycle_time_units_def
      unat_u16_of_octets unat_u24_of_octets)

theorem parse_page1_result_witness:
  "ensures (iolink_master_parse_direct_parameter_page1
      [0, 0, 0x45, 0x1B, 0x11, 0x10, 0x82, 1, 2, 0, 1, 0, 0, 0, 0, 0] 16 zero_device_info)
    (\<lambda>(ret, info'). ret = STATUS_OK \<and> unat (di_min_cycle_time_100us info') = 84 \<and> di_isdu_supported info' \<and>
       unat (di_operate_mseq_code info') = 5 \<and> unat (di_preoperate_mseq_code info') = 1 \<and>
       di_pd_in_len info' = 2 \<and> di_pd_out_len info' = 3 \<and>
       unat (di_vendor_id info') = 258 \<and> unat (di_device_id info') = 256)"
  using parse_page1_result
    [of 16 "[0, 0, 0x45, 0x1B, 0x11, 0x10, 0x82, 1, 2, 0, 1, 0, 0, 0, 0, 0]" zero_device_info]
  by (auto simp: iolink_master_pd_descriptor_is_reserved_def min_cycle_time_units_def pd_descriptor_octets_def
      elim!: ensures_mono)

subsection \<open>Validation and selection\<close>

definition identity_accepted :: "iolink_master_device_info_t \<Rightarrow> 'e iolink_master_config_t \<Rightarrow> bool" where
  "identity_accepted info config \<longleftrightarrow>
     cfg_inspection_level config = INSPECTION_NO_CHECK \<or>
     di_vendor_id info = cfg_expected_vendor_id config \<and>
     di_device_id info = cfg_expected_device_id config"

lemma selected_code_compatible:
  "iolink_master_mseq_type_from_capability_code code isdu pd_in pd_out = Some t \<Longrightarrow>
   iolink_master_mseq_code_compatible t code"
  by (auto simp: iolink_master_mseq_type_from_capability_code_def split: if_splits)

lemma min_cycle_clamped:
  "ucast (if (t::u16) > 255 then 255 else ucast t :: u8) < t \<longleftrightarrow> t > 255"
  by (auto simp: word_less_nat_alt unat_ucast_16_8 not_less word_le_nat_alt)

text \<open>C23. A configuration derived from the device information passes the validation against
  the same information exactly when the protocol revision is 1.0 or 1.1, MinCycleTime fits
  the 8-bit cycle-time field, and the inspection level accepts the identity: neither the PD
  sizes nor the M-sequence code can make a selected configuration fail.\<close>

theorem select_then_validate:
  assumes "iolink_master_select_config_from_device_info info config = (STATUS_OK, config')"
  shows "iolink_master_validate_config_against_device_info info config' = STATUS_OK \<longleftrightarrow>
    (di_revision_id info = 0x10 \<or> di_revision_id info = 0x11) \<and>
    di_min_cycle_time_100us info \<le> 255 \<and> identity_accepted info config"
proof -
  from assms obtain t where valid: "di_valid info"
    and t: "iolink_master_mseq_type_from_capability_code (di_operate_mseq_code info)
        (di_isdu_supported info) (di_pd_in_len info) (di_pd_out_len info) = Some t"
    and config': "config' = config\<lparr>cfg_m_seq_type := t,
        cfg_min_cycle_time := (if di_min_cycle_time_100us info > 255 then 255
          else ucast (di_min_cycle_time_100us info)),
        cfg_pd_in_len := di_pd_in_len info, cfg_pd_out_len := di_pd_out_len info\<rparr>"
    by (auto simp: iolink_master_select_config_from_device_info_def
        split: if_splits option.splits)
  show ?thesis
    using valid selected_code_compatible [OF t] min_cycle_clamped [of "di_min_cycle_time_100us info"]
    by (auto simp: config' iolink_master_validate_config_against_device_info_def
        identity_accepted_def not_less)
qed

theorem select_then_validate_witness:
  "\<exists>config'.
     iolink_master_select_config_from_device_info
       (zero_device_info\<lparr>di_valid := True, di_revision_id := 0x11, di_operate_mseq_code := 5,
          di_min_cycle_time_100us := 23\<rparr>) (zero_config :: unit iolink_master_config_t)
       = (STATUS_OK, config') \<and>
     iolink_master_validate_config_against_device_info
       (zero_device_info\<lparr>di_valid := True, di_revision_id := 0x11, di_operate_mseq_code := 5,
          di_min_cycle_time_100us := 23\<rparr>) config' = STATUS_OK"
proof -
  let ?info = "zero_device_info\<lparr>di_valid := True, di_revision_id := 0x11,
    di_operate_mseq_code := 5, di_min_cycle_time_100us := 23\<rparr>"
  obtain config' where sel: "iolink_master_select_config_from_device_info ?info
      (zero_config :: unit iolink_master_config_t) = (STATUS_OK, config')"
    by (simp add: iolink_master_select_config_from_device_info_def
        iolink_master_mseq_type_from_capability_code_def)
  then show ?thesis
    using select_then_validate [OF sel] by (auto simp: identity_accepted_def zero_config_def)
qed

text \<open>A selected configuration is in the range \<open>iolink_master_init\<close> accepts.\<close>

lemma select_admissible:
  assumes "iolink_master_select_config_from_device_info info config = (STATUS_OK, config')"
  shows "cfg_m_seq_type config' \<le> M_SEQ_TYPE_2_V \<and>
    (cfg_m_seq_type config' = M_SEQ_TYPE_0 \<longrightarrow> cfg_pd_in_len config' = 0 \<and> cfg_pd_out_len config' = 0)"
  using assms
  by (auto simp: iolink_master_select_config_from_device_info_def enum_order_defs
      iolink_master_mseq_type_from_capability_code_def split: if_splits option.splits)

end
