(* ===== verification/MasterIsdu.thy ===== *)
theory MasterIsdu
  imports MasterParameters
begin

text \<open>
  The ISDU transport of \<open>src/master_isdu.c\<close> (lines 19-594): the request and response
  octet streams, their segmentation over the OD octets of the M-sequences with the FlowCTRL
  counter, and the read and write services of the application.

  A function that touches only \<open>port->isdu\<close> is modelled on that structure; the services,
  which also latch diagnostics, are modelled on the port. The OD octets a function receives
  are the list of its \<open>od_len\<close> octets.
\<close>

subsection \<open>Service state\<close>

definition iolink_master_isdu_busy :: "iolink_master_isdu_state_t \<Rightarrow> bool" where
  "iolink_master_isdu_busy isdu \<longleftrightarrow> isdu_op isdu \<noteq> ISDU_OP_NONE \<and> \<not> isdu_done isdu"

definition iolink_master_isdu_matches ::
  "iolink_master_isdu_op_t \<Rightarrow> u16 \<Rightarrow> u8 \<Rightarrow> iolink_master_isdu_state_t \<Rightarrow> bool" where
  "iolink_master_isdu_matches op index subindex isdu \<longleftrightarrow>
     isdu_op isdu = op \<and> isdu_index isdu = index \<and> isdu_subindex isdu = subindex"

definition iolink_master_isdu_clear ::
  "iolinki \<Rightarrow> iolink_master_isdu_state_t \<Rightarrow> iolink_master_isdu_state_t" where
  "iolink_master_isdu_clear L isdu =
     isdu\<lparr>isdu_op := ISDU_OP_NONE, isdu_phase := ISDU_PHASE_NONE, isdu_index := 0,
       isdu_subindex := 0, isdu_request_len := 0, isdu_request_pos := 0,
       isdu_flowctrl := FLOWCTRL_IDLE L, isdu_chk := 0, isdu_expected_len := 0,
       isdu_response_len := 0, isdu_response_pos := 0, isdu_done := False,
       isdu_idle_pending := False, isdu_abort_pending := False,
       isdu_error := ISDU_ERROR_NONE L\<rparr>"

definition iolink_master_isdu_start ::
  "iolinki \<Rightarrow> iolink_master_isdu_op_t \<Rightarrow> u16 \<Rightarrow> u8 \<Rightarrow> iolink_master_isdu_state_t \<Rightarrow>
   iolink_master_isdu_state_t" where
  "iolink_master_isdu_start L op index subindex isdu =
     isdu\<lparr>isdu_op := op, isdu_phase := ISDU_PHASE_REQUEST, isdu_index := index,
       isdu_subindex := subindex, isdu_request_pos := 0, isdu_flowctrl := FLOWCTRL_START L,
       isdu_chk := 0, isdu_expected_len := 0, isdu_response_len := 0, isdu_response_pos := 0,
       isdu_done := False, isdu_idle_pending := False, isdu_abort_pending := False,
       isdu_error := ISDU_ERROR_NONE L\<rparr>"

definition iolink_master_service_result ::
  "int \<Rightarrow> 'e iolink_master_port_state_t \<Rightarrow> int \<times> 'e iolink_master_port_state_t" where
  "iolink_master_service_result ret p =
     (if ret \<noteq> STATUS_PENDING
      then (ret, p\<lparr>st_diagnostics := (st_diagnostics p)\<lparr>dg_last_service_result := ret\<rparr>\<rparr>)
      else (ret, p))"

subsection \<open>Octet streams\<close>

definition xor_octets :: "u8 list \<Rightarrow> u8" where
  "xor_octets octets = foldl (\<lambda>chk octet. chk XOR octet) 0 octets"

definition iolink_master_isdu_chkpdu :: "u8 list \<Rightarrow> nat \<Rightarrow> u8 option" where
  "iolink_master_isdu_chkpdu data len = map_option xor_octets (rd_slice data 0 len)"

definition iolink_master_isdu_index_len :: "u16 \<Rightarrow> u8 \<Rightarrow> nat" where
  "iolink_master_isdu_index_len index subindex =
     (if index \<le> 0xFF then (if subindex = 0 then 1 else 2) else 3)"

definition iolink_master_isdu_service :: "bool \<Rightarrow> nat \<Rightarrow> u8" where
  "iolink_master_isdu_service read index_len =
     (if read then 0x08 + of_nat index_len else of_nat index_len)"

text \<open>The Index and Subindex octets both request builders append after the header.\<close>

definition isdu_index_octets :: "u16 \<Rightarrow> u8 \<Rightarrow> nat \<Rightarrow> u8 list" where
  "isdu_index_octets index subindex idx_len =
     (if idx_len = 3 then [hi_octet index, lo_octet index, subindex]
      else if idx_len = 2 then [lo_octet index, subindex]
      else [lo_octet index])"

subsection \<open>Transport of the request\<close>

definition isdu_next_count :: "iolinki \<Rightarrow> u8 \<Rightarrow> u8" where
  "isdu_next_count L flowctrl = (flowctrl + 1) AND FLOWCTRL_COUNT_MASK L"

definition iolink_master_isdu_fill_od ::
  "iolinki \<Rightarrow> nat \<Rightarrow> iolink_master_isdu_state_t \<Rightarrow> (u8 list \<times> iolink_master_isdu_state_t) option"
where
  "iolink_master_isdu_fill_od L od_len isdu =
     (if isdu_op isdu = ISDU_OP_NONE then Some (replicate od_len 0, isdu)
      else case isdu_phase isdu of
        ISDU_PHASE_REQUEST \<Rightarrow> do {
          let remaining = int_to_u16 (int (isdu_request_len isdu) - int (isdu_request_pos isdu));
          let n = (if remaining < od_len then remaining else od_len);
          octets \<leftarrow> rd_slice (isdu_request isdu) (isdu_request_pos isdu) n;
          let od = octets @ replicate (od_len - n) 0;
          let isdu = isdu\<lparr>isdu_request_pos := trunc16 (isdu_request_pos isdu + n)\<rparr>;
          if isdu_request_pos isdu \<ge> isdu_request_len isdu
          then Some (od, isdu\<lparr>isdu_phase := ISDU_PHASE_WAIT, isdu_flowctrl := FLOWCTRL_START L\<rparr>)
          else if isdu_flowctrl isdu = FLOWCTRL_START L
          then Some (od, isdu\<lparr>isdu_flowctrl := 1\<rparr>)
          else Some (od, isdu\<lparr>isdu_flowctrl := isdu_next_count L (isdu_flowctrl isdu)\<rparr>)
        }
      | ISDU_PHASE_WAIT \<Rightarrow>
          Some (replicate od_len 0, isdu\<lparr>isdu_flowctrl := FLOWCTRL_START L\<rparr>)
      | ISDU_PHASE_RESPONSE \<Rightarrow>
          if isdu_flowctrl isdu = FLOWCTRL_START L \<or> isdu_flowctrl isdu = FLOWCTRL_IDLE L
          then Some (replicate od_len 0, isdu\<lparr>isdu_flowctrl := 1\<rparr>)
          else Some (replicate od_len 0,
                     isdu\<lparr>isdu_flowctrl := isdu_next_count L (isdu_flowctrl isdu)\<rparr>)
      | ISDU_PHASE_NONE \<Rightarrow> Some (replicate od_len 0, isdu))"

subsection \<open>Transport of the response\<close>

definition iolink_master_isdu_decode_response ::
  "iolinki \<Rightarrow> iolink_master_isdu_state_t \<Rightarrow> iolink_master_isdu_state_t option" where
  "iolink_master_isdu_decode_response L isdu = do {
     chk \<leftarrow> iolink_master_isdu_chkpdu (isdu_response isdu) (isdu_response_len isdu);
     if chk \<noteq> 0
     then Some (isdu\<lparr>isdu_error := ISDU_ERROR_SEGMENTATION L, isdu_done := True,
                     isdu_abort_pending := True, isdu_phase := ISDU_PHASE_NONE\<rparr>)
     else do {
       response_0 \<leftarrow> rd (isdu_response isdu) 0;
       let service = drop_bit ISDU_SERVICE_SHIFT response_0;
       if service = 0x4 \<or> service = 0xC
       then do {
         isdu \<leftarrow> (if isdu_response_len isdu \<ge> 4
                 then do {
                   response_1 \<leftarrow> rd (isdu_response isdu) 1;
                   response_2 \<leftarrow> rd (isdu_response isdu) 2;
                   Some (isdu\<lparr>isdu_error := u16_of_octets response_1 response_2\<rparr>)
                 }
                 else Some (isdu\<lparr>isdu_error := ISDU_ERROR_SEGMENTATION L\<rparr>));
         Some (isdu\<lparr>isdu_done := True, isdu_idle_pending := True,
                    isdu_phase := ISDU_PHASE_NONE\<rparr>)
       }
       else do {
         let payload_start = (if response_0 AND 0x0F = 0x01 then 2 else 1::nat);
         let payload_len = int_to_u16 (int (isdu_response_len isdu) - int payload_start -
                                       int ISDU_CHKPDU_LEN);
         response \<leftarrow> (if payload_len > 0
                     then do {
                       payload \<leftarrow> rd_slice (isdu_response isdu) payload_start payload_len;
                       wr_slice (isdu_response isdu) 0 payload
                     }
                     else Some (isdu_response isdu));
         Some (isdu\<lparr>isdu_response := response, isdu_response_len := payload_len,
                    isdu_done := True, isdu_idle_pending := True,
                    isdu_phase := ISDU_PHASE_NONE\<rparr>)
       }
     }
   }"

text \<open>
  One iteration of the loop of \<open>iolink_master_isdu_on_od\<close>; the flag says that the function
  returns, the alternative is the next iteration.
\<close>

definition isdu_fail :: "iolinki \<Rightarrow> iolink_master_isdu_state_t \<Rightarrow> iolink_master_isdu_state_t" where
  "isdu_fail L isdu =
     isdu\<lparr>isdu_error := ISDU_ERROR_SEGMENTATION L, isdu_done := True,
          isdu_phase := ISDU_PHASE_NONE\<rparr>"

definition isdu_check_complete ::
  "iolinki \<Rightarrow> iolink_master_isdu_state_t \<Rightarrow> (bool \<times> iolink_master_isdu_state_t) option" where
  "isdu_check_complete L isdu =
     (if isdu_response_len isdu \<ge> isdu_expected_len isdu
      then map_option (Pair True) (iolink_master_isdu_decode_response L isdu)
      else Some (False, isdu))"

definition isdu_store_octet ::
  "iolinki \<Rightarrow> u8 \<Rightarrow> iolink_master_isdu_state_t \<Rightarrow> (bool \<times> iolink_master_isdu_state_t) option" where
  "isdu_store_octet L byte isdu =
     (if isdu_response_len isdu \<ge> ISDU_BUFFER_SIZE L then Some (True, isdu_fail L isdu)
      else do {
        response \<leftarrow> wr (isdu_response isdu) (isdu_response_len isdu) byte;
        let isdu = isdu\<lparr>isdu_response := response,
                         isdu_response_len := trunc16 (isdu_response_len isdu + 1)\<rparr>;
        if isdu_expected_len isdu = 0
        then do {
          response_0 \<leftarrow> rd (isdu_response isdu) 0;
          let len_nibble = unat (response_0 AND 0x0F);
          if len_nibble \<ge> 2
          then isdu_check_complete L (isdu\<lparr>isdu_expected_len := len_nibble\<rparr>)
          else if len_nibble = 1
          then if isdu_response_len isdu < 2 then Some (False, isdu)
               else do {
                 response_1 \<leftarrow> rd (isdu_response isdu) 1;
                 isdu_check_complete L (isdu\<lparr>isdu_expected_len := unat response_1\<rparr>)
               }
          else Some (True, isdu_fail L isdu)
        }
        else isdu_check_complete L isdu
      })"

definition isdu_on_octet ::
  "iolinki \<Rightarrow> u8 \<Rightarrow> iolink_master_isdu_state_t \<Rightarrow> (bool \<times> iolink_master_isdu_state_t) option" where
  "isdu_on_octet L byte isdu =
     (if isdu_phase isdu = ISDU_PHASE_WAIT \<and> (byte = 0x00 \<or> byte = 0x01)
      then Some (False, isdu)
      else isdu_store_octet L byte
        (if isdu_phase isdu = ISDU_PHASE_WAIT
         then isdu\<lparr>isdu_phase := ISDU_PHASE_RESPONSE, isdu_response_len := 0,
                   isdu_response_pos := 0, isdu_expected_len := 0, isdu_flowctrl := 1\<rparr>
         else isdu))"

fun isdu_od_loop ::
  "iolinki \<Rightarrow> u8 list \<Rightarrow> iolink_master_isdu_state_t \<Rightarrow> iolink_master_isdu_state_t option" where
  "isdu_od_loop L [] isdu = Some isdu"
| "isdu_od_loop L (byte # od) isdu = do {
     (return, isdu) \<leftarrow> isdu_on_octet L byte isdu;
     if return then Some isdu else isdu_od_loop L od isdu
   }"

definition iolink_master_isdu_on_od ::
  "iolinki \<Rightarrow> u8 list \<Rightarrow> iolink_master_isdu_state_t \<Rightarrow> iolink_master_isdu_state_t option" where
  "iolink_master_isdu_on_od L od isdu =
     (if isdu_op isdu = ISDU_OP_NONE \<or> isdu_done isdu \<or>
         isdu_phase isdu = ISDU_PHASE_REQUEST \<or> isdu_phase isdu = ISDU_PHASE_NONE
      then Some isdu
      else isdu_od_loop L od isdu)"

subsection \<open>Channel access\<close>

text \<open>\<open>Some (read, flowctrl)\<close> is the result \<open>true\<close> with its two outputs.\<close>

definition iolink_master_isdu_channel_access ::
  "iolinki \<Rightarrow> iolink_master_isdu_state_t \<Rightarrow> (bool \<times> u8) option" where
  "iolink_master_isdu_channel_access L isdu =
     (if isdu_op isdu = ISDU_OP_NONE then None
      else if isdu_done isdu \<and> \<not> isdu_idle_pending isdu then None
      else if isdu_done isdu then Some (True, FLOWCTRL_IDLE L)
      else Some (isdu_phase isdu \<noteq> ISDU_PHASE_REQUEST, isdu_flowctrl isdu))"

definition iolink_master_isdu_take_idle ::
  "iolink_master_isdu_state_t \<Rightarrow> bool \<times> iolink_master_isdu_state_t" where
  "iolink_master_isdu_take_idle isdu =
     (if \<not> isdu_idle_pending isdu then (False, isdu)
      else (True, isdu\<lparr>isdu_idle_pending := False\<rparr>))"

definition iolink_master_isdu_take_abort ::
  "iolink_master_isdu_state_t \<Rightarrow> bool \<times> iolink_master_isdu_state_t" where
  "iolink_master_isdu_take_abort isdu =
     (if \<not> isdu_abort_pending isdu then (False, isdu)
      else (True, isdu\<lparr>isdu_abort_pending := False\<rparr>))"

subsection \<open>Read and write services\<close>

definition isdu_device_error ::
  "iolinki \<Rightarrow> 'e iolink_master_port_state_t \<Rightarrow> int \<times> 'e iolink_master_port_state_t" where
  "isdu_device_error L p =
     (let aborted = isdu_abort_pending (st_isdu p);
          p = p\<lparr>st_diagnostics := (st_diagnostics p)\<lparr>dg_last_isdu_error := isdu_error (st_isdu p)\<rparr>\<rparr>;
          p = p\<lparr>st_isdu := iolink_master_isdu_clear L (st_isdu p)\<rparr>;
          p = p\<lparr>st_isdu := (st_isdu p)\<lparr>isdu_abort_pending := aborted\<rparr>\<rparr>
      in iolink_master_service_result ISDU_ERR_DEVICE p)"

text \<open>
  The caller's buffer \<open>data\<close> and its length \<open>*len\<close> are passed and returned; the result is
  \<open>(ret, data, *len, port)\<close>.
\<close>

definition iolink_master_isdu_finish_read ::
  "iolinki \<Rightarrow> u8 list \<Rightarrow> nat \<Rightarrow> 'e iolink_master_port_state_t \<Rightarrow>
   (int \<times> u8 list \<times> nat \<times> 'e iolink_master_port_state_t) option" where
  "iolink_master_isdu_finish_read L data len p =
     (let result_len = isdu_response_len (st_isdu p)
      in if isdu_error (st_isdu p) \<noteq> ISDU_ERROR_NONE L
         then let (ret, p) = isdu_device_error L p in Some (ret, data, len, p)
         else if len < result_len
         then let (ret, p) = iolink_master_service_result ISDU_ERR_BUFFER_TOO_SMALL p
              in Some (ret, data, if result_len > 255 then 255 else result_len, p)
         else do {
           data \<leftarrow> (if result_len > 0
                   then do {
                     octets \<leftarrow> rd_slice (isdu_response (st_isdu p)) 0 result_len;
                     wr_slice data 0 octets
                   }
                   else Some data);
           let p = p\<lparr>st_isdu := iolink_master_isdu_clear L (st_isdu p)\<rparr>;
           let (ret, p) = iolink_master_service_result STATUS_OK p;
           Some (ret, data, trunc8 result_len, p)
         })"

definition iolink_master_isdu_finish_write ::
  "iolinki \<Rightarrow> 'e iolink_master_port_state_t \<Rightarrow> int \<times> 'e iolink_master_port_state_t" where
  "iolink_master_isdu_finish_write L p =
     (if isdu_error (st_isdu p) \<noteq> ISDU_ERROR_NONE L then isdu_device_error L p
      else iolink_master_service_result STATUS_OK
             (p\<lparr>st_isdu := iolink_master_isdu_clear L (st_isdu p)\<rparr>))"

definition isdu_service_state :: "'e iolink_master_port_state_t \<Rightarrow> bool" where
  "isdu_service_state p \<longleftrightarrow> st_state p = STATE_OPERATE \<or> st_state p = STATE_PREOPERATE"

text \<open>
  The part of \<open>iolink_master_read_isdu\<close> that assembles the request: I-Service and length,
  Index and Subindex, CHKPDU.
\<close>

definition isdu_build_read ::
  "iolinki \<Rightarrow> u16 \<Rightarrow> u8 \<Rightarrow> iolink_master_isdu_state_t \<Rightarrow> iolink_master_isdu_state_t option" where
  "isdu_build_read L index subindex isdu = do {
     let idx_len = iolink_master_isdu_index_len index subindex;
     let total_len = trunc8 (1 + idx_len + ISDU_CHKPDU_LEN);
     let isdu = iolink_master_isdu_start L ISDU_OP_READ index subindex isdu;
     request \<leftarrow> wr (isdu_request isdu) 0
       (push_bit ISDU_SERVICE_SHIFT (iolink_master_isdu_service True idx_len) OR
          (of_nat total_len AND ISDU_LENGTH_NIBBLE_MAX));
     request \<leftarrow> wr_slice request 1 (isdu_index_octets index subindex idx_len);
     chk \<leftarrow> iolink_master_isdu_chkpdu request (total_len - 1);
     request \<leftarrow> wr request (total_len - 1) chk;
     Some (isdu\<lparr>isdu_request := request, isdu_request_len := total_len\<rparr>)
   }"

definition iolink_master_read_isdu ::
  "iolinki \<Rightarrow> u16 \<Rightarrow> u8 \<Rightarrow> u8 list \<Rightarrow> nat \<Rightarrow> 'e iolink_master_port_state_t \<Rightarrow>
   (int \<times> u8 list \<times> nat \<times> 'e iolink_master_port_state_t) option" where
  "iolink_master_read_isdu L index subindex data len p =
     (if \<not> isdu_service_state p then Some (ISDU_ERR_INVALID_STATE, data, len, p)
      else if iolink_master_isdu_busy (st_isdu p)
      then if iolink_master_isdu_matches ISDU_OP_READ index subindex (st_isdu p)
           then Some (STATUS_PENDING, data, len, p)
           else Some (ISDU_ERR_BUSY, data, len, p)
      else if isdu_done (st_isdu p)
      then if \<not> iolink_master_isdu_matches ISDU_OP_READ index subindex (st_isdu p)
           then Some (ISDU_ERR_BUSY, data, len, p)
           else iolink_master_isdu_finish_read L data len p
      else do {
        isdu \<leftarrow> isdu_build_read L index subindex (st_isdu p);
        Some (STATUS_PENDING, data, len, p\<lparr>st_isdu := isdu\<rparr>)
      })"

text \<open>
  The part of \<open>iolink_master_write_isdu\<close> that checks the length and assembles the
  request; \<open>None\<close> inside the result is the early return for an unsupported length.
\<close>

definition isdu_write_length_ok :: "iolinki \<Rightarrow> nat \<Rightarrow> nat \<Rightarrow> bool" where
  "isdu_write_length_ok L len total_len \<longleftrightarrow>
     \<not> (len > trunc8 (ISDU_BUFFER_SIZE L - ISDU_WRITE_HEADER_MAX) \<or>
        (if total_len > 15 then total_len + 1 else total_len) > ISDU_EXT_MAX \<or> total_len = 16)"

definition isdu_build_write ::
  "iolinki \<Rightarrow> u16 \<Rightarrow> u8 \<Rightarrow> u8 list option \<Rightarrow> nat \<Rightarrow> iolink_master_isdu_state_t \<Rightarrow>
   iolink_master_isdu_state_t option option" where
  "isdu_build_write L index subindex data len isdu = do {
     let idx_len = iolink_master_isdu_index_len index subindex;
     let total_len = trunc16 (1 + idx_len + len + ISDU_CHKPDU_LEN);
     let service = push_bit ISDU_SERVICE_SHIFT (iolink_master_isdu_service False idx_len);
     if \<not> isdu_write_length_ok L len total_len then Some None
     else do {
       let isdu = iolink_master_isdu_start L ISDU_OP_WRITE index subindex isdu;
       let header = (if total_len \<le> ISDU_LENGTH_NIBBLE_MAX
                    then [service OR (of_nat total_len AND ISDU_LENGTH_NIBBLE_MAX)]
                     else [service OR ISDU_LENGTH_EXTENDED, of_nat (total_len + 1)]);
       request \<leftarrow> wr_slice (isdu_request isdu) 0 header;
       let pos = length header;
       let octets = isdu_index_octets index subindex idx_len;
       request \<leftarrow> wr_slice request pos octets;
       let pos = pos + length octets;
       request \<leftarrow> (if len > 0
                   then do {
                     src \<leftarrow> data;
                     payload \<leftarrow> rd_slice src 0 len;
                     wr_slice request pos payload
                   }
                   else Some request);
       let pos = trunc8 (pos + len);
       chk \<leftarrow> iolink_master_isdu_chkpdu request pos;
       request \<leftarrow> wr request pos chk;
       let pos = trunc8 (pos + ISDU_CHKPDU_LEN);
       Some (Some (isdu\<lparr>isdu_request := request, isdu_request_len := pos\<rparr>))
     }
   }"

definition iolink_master_write_isdu ::
  "iolinki \<Rightarrow> u16 \<Rightarrow> u8 \<Rightarrow> u8 list option \<Rightarrow> nat \<Rightarrow> 'e iolink_master_port_state_t \<Rightarrow>
   (int \<times> 'e iolink_master_port_state_t) option" where
  "iolink_master_write_isdu L index subindex data len p =
     (if data = None \<and> len > 0 then Some (ERR_INVALID_ARG, p)
      else if \<not> isdu_service_state p then Some (ISDU_ERR_INVALID_STATE, p)
      else if iolink_master_isdu_busy (st_isdu p)
      then if iolink_master_isdu_matches ISDU_OP_WRITE index subindex (st_isdu p)
           then Some (STATUS_PENDING, p)
           else Some (ISDU_ERR_BUSY, p)
      else if isdu_done (st_isdu p)
      then if \<not> iolink_master_isdu_matches ISDU_OP_WRITE index subindex (st_isdu p)
           then Some (ISDU_ERR_BUSY, p)
           else Some (iolink_master_isdu_finish_write L p)
      else do {
        built \<leftarrow> isdu_build_write L index subindex data len (st_isdu p);
        case built of
          None \<Rightarrow> Some (ISDU_ERR_BUFFER_TOO_SMALL, p)
        | Some isdu \<Rightarrow> Some (STATUS_PENDING, p\<lparr>st_isdu := isdu\<rparr>)
      })"

definition iolink_master_read_device_info ::
  "iolinki \<Rightarrow> 'e iolink_master_port_state_t \<Rightarrow> (int \<times> 'e iolink_master_port_state_t) option" where
  "iolink_master_read_device_info L p = do {
     (ret, page, len, p) \<leftarrow>
       iolink_master_read_isdu L (IDX_DIRECT_PARAMETERS_1 L) 0 (replicate DPP1_LEN 0) DPP1_LEN p;
     if ret \<noteq> 0 then Some (ret, p)
     else do {
       (ret, p) \<leftarrow> iolink_master_apply_direct_parameter_page1 page len p;
       if ret \<noteq> 0 then Some (ret, p)
       else Some (iolink_master_validate_device_info p, p)
     }
   }"

definition iolink_master_read_data_storage ::
  "iolinki \<Rightarrow> u8 list \<Rightarrow> nat \<Rightarrow> 'e iolink_master_port_state_t \<Rightarrow>
   (int \<times> u8 list \<times> nat \<times> 'e iolink_master_port_state_t) option" where
  "iolink_master_read_data_storage L data len p =
     iolink_master_read_isdu L (IDX_DATA_STORAGE L) 0 data len p"

definition iolink_master_write_data_storage ::
  "iolinki \<Rightarrow> u8 list option \<Rightarrow> nat \<Rightarrow> 'e iolink_master_port_state_t \<Rightarrow>
   (int \<times> 'e iolink_master_port_state_t) option" where
  "iolink_master_write_data_storage L data len p =
     iolink_master_write_isdu L (IDX_DATA_STORAGE L) 0 data len p"

definition iolink_master_read_detailed_device_status ::
  "iolinki \<Rightarrow> u8 list \<Rightarrow> nat \<Rightarrow> 'e iolink_master_port_state_t \<Rightarrow>
   (int \<times> u8 list \<times> nat \<times> 'e iolink_master_port_state_t) option" where
  "iolink_master_read_detailed_device_status L data len p =
     iolink_master_read_isdu L (IDX_DETAILED_DEVICE_STATUS L) 0 data len p"

subsection \<open>The invariant of the transport\<close>

definition response_incomplete :: "u8 list \<Rightarrow> nat \<Rightarrow> nat \<Rightarrow> bool" where
  "response_incomplete r n expected \<longleftrightarrow>
     (let nibble = unat (r ! 0 AND 0x0F)
      in 1 \<le> n \<and> r ! 0 \<noteq> 0 \<and> r ! 0 \<noteq> 1 \<and> nibble \<noteq> 0 \<and>
         (if nibble = 1
          then (n = 1 \<and> expected = 0) \<or> (2 \<le> n \<and> n < expected \<and> expected = unat (r ! 1))
          else n < expected \<and> expected = nibble))"

definition isdu_wf :: "iolinki \<Rightarrow> iolink_master_isdu_state_t \<Rightarrow> bool" where
  "isdu_wf L isdu \<longleftrightarrow>
     length (isdu_request isdu) = ISDU_BUFFER_SIZE L \<and>
     length (isdu_response isdu) = ISDU_BUFFER_SIZE L \<and>
     isdu_request_len isdu \<le> ISDU_BUFFER_SIZE L \<and>
     isdu_request_pos isdu \<le> isdu_request_len isdu \<and>
     isdu_response_len isdu \<le> ISDU_BUFFER_SIZE L \<and>
     (isdu_op isdu = ISDU_OP_NONE \<longrightarrow> isdu_phase isdu = ISDU_PHASE_NONE \<and> \<not> isdu_done isdu) \<and>
     (isdu_op isdu \<noteq> ISDU_OP_NONE \<longrightarrow> isdu_done isdu = (isdu_phase isdu = ISDU_PHASE_NONE)) \<and>
     (isdu_phase isdu = ISDU_PHASE_REQUEST \<longrightarrow> isdu_request_pos isdu < isdu_request_len isdu) \<and>
     (isdu_phase isdu = ISDU_PHASE_RESPONSE \<longrightarrow> 
        response_incomplete (isdu_response isdu) (isdu_response_len isdu) (isdu_expected_len isdu))"

lemma isdu_wf_zero: "isdu_wf L (zero_isdu L)"
  by (simp add: isdu_wf_def zero_isdu_def)

lemma isdu_wf_clear: "isdu_wf L isdu \<Longrightarrow> isdu_wf L (iolink_master_isdu_clear L isdu)"
  by (simp add: isdu_wf_def iolink_master_isdu_clear_def)

lemma isdu_wf_take_idle: "isdu_wf L isdu \<Longrightarrow> isdu_wf L (snd (iolink_master_isdu_take_idle isdu))"
  by (simp add: isdu_wf_def iolink_master_isdu_take_idle_def)

lemma isdu_wf_take_abort: "isdu_wf L isdu \<Longrightarrow> isdu_wf L (snd (iolink_master_isdu_take_abort isdu))"
  by (simp add: isdu_wf_def iolink_master_isdu_take_abort_def)

lemma isdu_wf_fill_od:
  assumes wf: "isdu_wf L isdu" and "stack_constants_ok L"
  shows "ensures (iolink_master_isdu_fill_od L n isdu)
    (\<lambda>(od, isdu'). length od = n \<and> isdu_wf L isdu' \<and> isdu_op isdu' = isdu_op isdu \<and>
       isdu_done isdu' = isdu_done isdu \<and> isdu_error isdu' = isdu_error isdu)"
proof (cases "isdu_op isdu = ISDU_OP_NONE")
  case True
  then show ?thesis using wf by (simp add: iolink_master_isdu_fill_od_def)
next
  case False
  have max: "ISDU_BUFFER_SIZE L \<le> 256"
    using assms(2) by (simp add: stack_constants_ok_def)
  show ?thesis
  proof (cases "isdu_phase isdu")
    case ISDU_PHASE_REQUEST
    have bounds: "isdu_request_pos isdu \<le> isdu_request_len isdu"
      "isdu_request_len isdu \<le> length (isdu_request isdu)"
      "isdu_request_len isdu \<le> 256"
      using wf max by (simp_all add: isdu_wf_def)
    then have rem: "int_to_u16 (int (isdu_request_len isdu) - int (isdu_request_pos isdu)) =
        isdu_request_len isdu - isdu_request_pos isdu"
      by (simp add: int_to_u16_def nat_diff_distrib)
    have trunc: "trunc16 (isdu_request_pos isdu + n) = isdu_request_pos isdu + n"
      if "\<not> isdu_request_len isdu - isdu_request_pos isdu < n"
      using that bounds by simp
    show ?thesis
      using bounds wf False ISDU_PHASE_REQUEST
      by (auto simp: iolink_master_isdu_fill_od_def ensures_simps rem trunc isdu_wf_def Let_def)
  qed (use wf False in \<open>simp_all add: iolink_master_isdu_fill_od_def isdu_wf_def\<close>)
qed

lemma xor_octets_pair: "xor_octets [a, b] = 0 \<longleftrightarrow> a = b"
proof
  assume "xor_octets [a, b] = 0"
  then have "a XOR (a XOR b) = a" by (simp add: xor_octets_def)
  then show "a = b" by (simp flip: xor.assoc)
qed (simp add: xor_octets_def)

lemma isdu_wf_decode:
  assumes "isdu_wf L (isdu\<lparr>isdu_phase := ISDU_PHASE_WAIT\<rparr>)" and "isdu_op isdu \<noteq> ISDU_OP_NONE"
    and "2 \<le> isdu_response_len isdu" and "stack_constants_ok L"
    and "isdu_response isdu ! 0 AND 0x0F = 1 \<and> isdu_response_len isdu = 2 \<longrightarrow>
         isdu_response isdu ! 0 \<noteq> isdu_response isdu ! 1"
  shows "ensures (iolink_master_isdu_decode_response L isdu)
    (\<lambda>isdu'. isdu_wf L isdu' \<and> isdu_done isdu' \<and> isdu_op isdu' = isdu_op isdu)"
proof -
  have len: "length (isdu_response isdu) = ISDU_BUFFER_SIZE L" "ISDU_BUFFER_SIZE L \<le> 256"
    "isdu_response_len isdu \<le> ISDU_BUFFER_SIZE L"
    using assms(1,4) by (simp_all add: isdu_wf_def stack_constants_ok_def)
  have three: "3 \<le> isdu_response_len isdu"
    if "xor_octets (take (isdu_response_len isdu) (isdu_response isdu)) = 0"
      "isdu_response isdu ! 0 AND 15 = 1"
  proof (rule ccontr)
    assume "\<not> 3 \<le> isdu_response_len isdu"
    then have two: "isdu_response_len isdu = 2" using assms(3) by simp
    have "take 2 (isdu_response isdu) = [isdu_response isdu ! 0, isdu_response isdu ! 1]"
      using len two by (simp add: numeral_2_eq_2 take_Suc_conv_app_nth)
    with that two assms(5) show False by (simp add: xor_octets_pair)
  qed
  show ?thesis
    using assms len three
    by (auto simp: iolink_master_isdu_decode_response_def iolink_master_isdu_chkpdu_def
        isdu_wf_def ensures_simps Let_def int_to_u16_def nat_mod_as_int)
qed

text \<open>The part of the invariant that concerns the buffers, for a service in progress.\<close>

definition isdu_receiving :: "iolinki \<Rightarrow> iolink_master_isdu_state_t \<Rightarrow> bool" where
  "isdu_receiving L isdu \<longleftrightarrow>
     length (isdu_request isdu) = ISDU_BUFFER_SIZE L \<and>
     length (isdu_response isdu) = ISDU_BUFFER_SIZE L \<and>
     isdu_request_len isdu \<le> ISDU_BUFFER_SIZE L \<and>
     isdu_request_pos isdu \<le> isdu_request_len isdu \<and>
     isdu_response_len isdu \<le> ISDU_BUFFER_SIZE L \<and>
     isdu_op isdu \<noteq> ISDU_OP_NONE \<and> \<not> isdu_done isdu \<and>
     isdu_phase isdu = ISDU_PHASE_RESPONSE"

definition octet_outcome ::
  "iolinki \<Rightarrow> iolink_master_isdu_state_t \<Rightarrow> bool \<times> iolink_master_isdu_state_t \<Rightarrow> bool" where
  "octet_outcome L isdu = (\<lambda>(return, isdu').
     isdu_wf L isdu' \<and> isdu_op isdu' = isdu_op isdu \<and>
     (return \<longrightarrow> isdu_done isdu') \<and> (\<not> return \<longrightarrow> isdu_phase isdu' = ISDU_PHASE_RESPONSE))"

lemma octet_outcome_fail:
  "isdu_receiving L isdu \<Longrightarrow> octet_outcome L isdu (True, isdu_fail L isdu)"
  by (simp add: octet_outcome_def isdu_receiving_def isdu_fail_def isdu_wf_def)

lemma octet_outcome_more:
  assumes "isdu_receiving L isdu"
    and "response_incomplete (isdu_response isdu) (isdu_response_len isdu) (isdu_expected_len isdu)"
  shows "octet_outcome L isdu (False, isdu)"
  using assms by (simp add: octet_outcome_def isdu_receiving_def isdu_wf_def)

lemma octet_outcome_check:
  assumes "isdu_receiving L isdu" and "stack_constants_ok L" and "2 \<le> isdu_response_len isdu"
    and "isdu_expected_len isdu \<le> isdu_response_len isdu \<Longrightarrow>
         isdu_response isdu ! 0 AND 0x0F = 1 \<and> isdu_response_len isdu = 2 \<longrightarrow>
         isdu_response isdu ! 0 \<noteq> isdu_response isdu ! 1"
    and "isdu_response_len isdu < isdu_expected_len isdu \<Longrightarrow>
         response_incomplete (isdu_response isdu) (isdu_response_len isdu) (isdu_expected_len isdu)"
  shows "ensures (isdu_check_complete L isdu) (octet_outcome L isdu)"
proof (cases "isdu_expected_len isdu \<le> isdu_response_len isdu")
  case True
  have "isdu_wf L (isdu\<lparr>isdu_phase := ISDU_PHASE_WAIT\<rparr>)" "isdu_op isdu \<noteq> ISDU_OP_NONE"
    using assms(1) by (simp_all add: isdu_receiving_def isdu_wf_def)
  from isdu_wf_decode [OF this assms(3,2) assms(4) [OF True]] show ?thesis
    using True
    by (auto simp: isdu_check_complete_def ensures_simps octet_outcome_def elim!: ensures_mono)
next
  case False
  then show ?thesis
    using octet_outcome_more assms by (simp add: isdu_check_complete_def)
qed

lemma low_nibble_one: "unat (x AND 0x0F :: u8) = Suc 0 \<longleftrightarrow> x AND 0x0F = 1"
  by (simp add: word_unat_eq_iff)

lemma nibble_one_large: "(x::u8) AND 0x0F = 1 \<Longrightarrow> x \<noteq> 1 \<Longrightarrow> 17 \<le> unat x"
proof -
  assume "x AND 0x0F = 1" and "x \<noteq> 1"
  then have "unat x mod 16 = 1" and "unat x \<noteq> 1"
    by (metis octet_and_15 unsigned_1, simp add: word_unat_eq_iff)
  then show "17 \<le> unat x" by presburger
qed

lemma isdu_store_octet_outcome:
  assumes recv: "isdu_receiving L isdu" and L: "stack_constants_ok L"
    and state: "isdu_response_len isdu = 0 \<and> isdu_expected_len isdu = 0 \<and> byte \<noteq> 0 \<and> byte \<noteq> 1 \<or>
       response_incomplete (isdu_response isdu) (isdu_response_len isdu) (isdu_expected_len isdu)"
  shows "ensures (isdu_store_octet L byte isdu) (octet_outcome L isdu)"
proof (cases "ISDU_BUFFER_SIZE L \<le> isdu_response_len isdu")
  case True
  then show ?thesis using octet_outcome_fail [OF recv] by (simp add: isdu_store_octet_def)
next
  case False
  define n where "n = isdu_response_len isdu"
  define r where "r = (isdu_response isdu)[n := byte]"
  define isdu' where "isdu' = isdu\<lparr>isdu_response := r, isdu_response_len := Suc n\<rparr>"
  have n: "n < ISDU_BUFFER_SIZE L" "ISDU_BUFFER_SIZE L \<le> 256" "length (isdu_response isdu) = ISDU_BUFFER_SIZE L"
    "16 \<le> ISDU_BUFFER_SIZE L"
    using False recv L by (simp_all add: n_def isdu_receiving_def stack_constants_ok_def)
  have recv': "isdu_receiving L (isdu'\<lparr>isdu_expected_len := k\<rparr>)" for k
    using recv n by (simp add: isdu_receiving_def isdu'_def r_def)
  have store: "isdu_store_octet L byte isdu =
     (if isdu_expected_len isdu = 0
      then if unat (r ! 0 AND 0x0F) \<ge> 2
           then isdu_check_complete L (isdu'\<lparr>isdu_expected_len := unat (r ! 0 AND 0x0F)\<rparr>)
           else if unat (r ! 0 AND 0x0F) = 1
           then if Suc n < 2 then Some (False, isdu')
                else isdu_check_complete L (isdu'\<lparr>isdu_expected_len := unat (r ! 1)\<rparr>)
           else Some (True, isdu_fail L isdu')
      else isdu_check_complete L isdu')"
    using n by (simp add: isdu_store_octet_def n_def r_def isdu'_def rd_def wr_def Let_def)
  have out: "octet_outcome L (isdu'\<lparr>isdu_expected_len := k\<rparr>) = octet_outcome L isdu" for k
    by (simp add: octet_outcome_def isdu'_def)
  have out': "octet_outcome L isdu' = octet_outcome L isdu"
    by (simp add: octet_outcome_def isdu'_def)
  have fail: "octet_outcome L isdu (True, isdu_fail L isdu')"
    using octet_outcome_fail [OF recv' [of "isdu_expected_len isdu'"]] out' by (simp add: out)
  have more: "octet_outcome L isdu (False, isdu'\<lparr>isdu_expected_len := k\<rparr>)"
    if "response_incomplete r (Suc n) k" for k
    using octet_outcome_more [OF recv' [of k]] that unfolding out by (simp add: isdu'_def)
  have check: "ensures (isdu_check_complete L (isdu'\<lparr>isdu_expected_len := k\<rparr>)) (octet_outcome L isdu)"
    if "1 \<le> n" "k \<le> Suc n \<Longrightarrow> r ! 0 AND 0x0F = 1 \<Longrightarrow> n = 1 \<Longrightarrow> r ! 0 \<noteq> r ! 1"
      "Suc n < k \<Longrightarrow> response_incomplete r (Suc n) k" for k
    using octet_outcome_check [OF recv' [of k] L] that unfolding out by (simp add: isdu'_def)
  from state show ?thesis
  proof
    assume first: "isdu_response_len isdu = 0 \<and> isdu_expected_len isdu = 0 \<and> byte \<noteq> 0 \<and> byte \<noteq> 1"
    then have r0: "r ! 0 = byte" "n = 0" using n by (auto simp: r_def n_def)
    have zero: "isdu' = isdu'\<lparr>isdu_expected_len := 0\<rparr>"
      using first by (simp add: isdu'_def)
    have length_one: "octet_outcome L isdu (False, isdu')" if "unat (byte AND 0x0F) = 1"
      using more [of 0, folded zero] that first r0 by (simp add: response_incomplete_def)
    have length_many: "octet_outcome L isdu (False, isdu'\<lparr>isdu_expected_len := unat (byte AND 0x0F)\<rparr>)"
      if "2 \<le> unat (byte AND 0x0F)"
      using more [of "unat (byte AND 0x0F)"] that first r0
      by (auto simp: response_incomplete_def Let_def)
    have "unat (byte AND 0x0F) = 1" if "\<not> 2 \<le> unat (byte AND 0x0F)" "unat (byte AND 0x0F) \<noteq> 0"
      using that by linarith
    moreover have "isdu_response_len isdu' = 1" "isdu_response isdu' = r"
      using r0 by (simp_all add: isdu'_def)
    ultimately show ?thesis
      using first r0 fail length_one length_many
      by (auto simp: store isdu_check_complete_def)
  next
    assume inc: "response_incomplete (isdu_response isdu) (isdu_response_len isdu) (isdu_expected_len isdu)"
    then have n1: "1 \<le> n" by (simp add: response_incomplete_def n_def Let_def)
    have r0: "r ! 0 = isdu_response isdu ! 0" using n1 by (simp add: r_def)
    have r1: "r ! 1 = isdu_response isdu ! 1" if "2 \<le> n" using that by (simp add: r_def)
    have same: "isdu' = isdu'\<lparr>isdu_expected_len := isdu_expected_len isdu\<rparr>"
      by (simp add: isdu'_def)
    show ?thesis
    proof (cases "isdu_expected_len isdu = 0")
      case True
      then have ext: "n = 1" "r ! 0 AND 0x0F = 1" "17 \<le> unat (r ! 0)" "r ! 0 \<noteq> 0" "r ! 0 \<noteq> 1"
        using inc nibble_one_large
        by (auto simp: response_incomplete_def Let_def n_def r0 low_nibble_one split: if_splits)
      have "ensures (isdu_check_complete L (isdu'\<lparr>isdu_expected_len := unat (r ! 1)\<rparr>))
          (octet_outcome L isdu)"
      proof (rule check)
        show "response_incomplete r (Suc n) (unat (r ! 1))" if "Suc n < unat (r ! 1)"
          using that ext by (simp add: response_incomplete_def)
      qed (use ext in auto)
      then show ?thesis
        using True ext by (simp add: store)
    next
      case False
      have later: "isdu_expected_len isdu \<le> Suc n \<Longrightarrow> r ! 0 AND 0x0F = 1 \<Longrightarrow> n = 1 \<Longrightarrow> r ! 0 \<noteq> r ! 1"
        "Suc n < isdu_expected_len isdu \<Longrightarrow>
          response_incomplete r (Suc n) (isdu_expected_len isdu)"
        using inc False r0 r1 n1
        by (auto simp: response_incomplete_def Let_def n_def low_nibble_one split: if_splits)
      have "ensures (isdu_check_complete L isdu') (octet_outcome L isdu)"
        by (subst same, rule check [OF n1 later])
      then show ?thesis
        using False by (simp add: store)
    qed
  qed
qed

lemma isdu_on_octet_wf:
  assumes wf: "isdu_wf L isdu" and L: "stack_constants_ok L"
    and active: "isdu_phase isdu = ISDU_PHASE_WAIT \<or> isdu_phase isdu = ISDU_PHASE_RESPONSE"
  shows "ensures (isdu_on_octet L byte isdu)
    (\<lambda>(return, isdu'). isdu_wf L isdu' \<and> isdu_op isdu' = isdu_op isdu \<and>
       (\<not> return \<longrightarrow> isdu_phase isdu' = ISDU_PHASE_WAIT \<or> isdu_phase isdu' = ISDU_PHASE_RESPONSE))"
proof -
  have op: "isdu_op isdu \<noteq> ISDU_OP_NONE"
    using wf active by (auto simp: isdu_wf_def)
  let ?start = "if isdu_phase isdu = ISDU_PHASE_WAIT
    then isdu\<lparr>isdu_phase := ISDU_PHASE_RESPONSE, isdu_response_len := 0,
              isdu_response_pos := 0, isdu_expected_len := 0, isdu_flowctrl := 1\<rparr>
    else isdu"
  have recv: "isdu_receiving L ?start"
    using wf active op by (auto simp: isdu_wf_def isdu_receiving_def)
  show ?thesis
  proof (cases "isdu_phase isdu = ISDU_PHASE_WAIT \<and> (byte = 0 \<or> byte = 1)")
    case True
    then show ?thesis using wf by (simp add: isdu_on_octet_def)
  next
    case False
    have state: "isdu_response_len ?start = 0 \<and> isdu_expected_len ?start = 0 \<and> byte \<noteq> 0 \<and> byte \<noteq> 1 \<or>
        response_incomplete (isdu_response ?start) (isdu_response_len ?start) (isdu_expected_len ?start)"
      using wf active False by (auto simp: isdu_wf_def)
    have "isdu_op ?start = isdu_op isdu" by simp
    with isdu_store_octet_outcome [OF recv L state] False show ?thesis
      by (auto simp: isdu_on_octet_def octet_outcome_def elim!: ensures_mono)
  qed
qed

lemma isdu_od_loop_wf:
  assumes "isdu_wf L isdu" and L: "stack_constants_ok L"
    and "isdu_phase isdu = ISDU_PHASE_WAIT \<or> isdu_phase isdu = ISDU_PHASE_RESPONSE"
  shows "ensures (isdu_od_loop L od isdu) (\<lambda>isdu'. isdu_wf L isdu' \<and> isdu_op isdu' = isdu_op isdu)"
  using assms(1,3)
proof (induction od arbitrary: isdu)
  case Nil
  then show ?case by simp
next
  case (Cons byte od)
  from isdu_on_octet_wf [OF Cons.prems(1) L Cons.prems(2), of byte]
  obtain return isdu1 where step: "isdu_on_octet L byte isdu = Some (return, isdu1)"
    "isdu_wf L isdu1" "isdu_op isdu1 = isdu_op isdu"
    "\<not> return \<longrightarrow> isdu_phase isdu1 = ISDU_PHASE_WAIT \<or> isdu_phase isdu1 = ISDU_PHASE_RESPONSE"
    by (auto simp: ensures_iff)
  with Cons.IH [of isdu1] show ?case by (cases return) simp_all
qed

lemma isdu_wf_on_od:
  assumes "isdu_wf L isdu" and "stack_constants_ok L"
  shows "ensures (iolink_master_isdu_on_od L od isdu)
    (\<lambda>isdu'. isdu_wf L isdu' \<and> isdu_op isdu' = isdu_op isdu)"
  using isdu_od_loop_wf [OF assms] assms(1)
  by (cases "isdu_phase isdu") (auto simp: iolink_master_isdu_on_od_def)

subsection \<open>The request builders\<close>

lemma index_len_bounds: "1 \<le> iolink_master_isdu_index_len i s" "iolink_master_isdu_index_len i s \<le> 3"
  by (simp_all add: iolink_master_isdu_index_len_def)

lemma index_octets_length:
  "length (isdu_index_octets i s (iolink_master_isdu_index_len i s)) = iolink_master_isdu_index_len i s"
  by (simp add: isdu_index_octets_def iolink_master_isdu_index_len_def)

text \<open>The octets of a read and of a write request, without the CHKPDU.\<close>

definition read_header :: "u16 \<Rightarrow> u8 \<Rightarrow> u8 list" where
  "read_header index subindex =
     (let n = iolink_master_isdu_index_len index subindex
      in (push_bit 4 (iolink_master_isdu_service True n) OR of_nat (n + 2))
         # isdu_index_octets index subindex n)"

definition write_header :: "u16 \<Rightarrow> u8 \<Rightarrow> u8 list \<Rightarrow> u8 list" where
  "write_header index subindex payload =
     (let n = iolink_master_isdu_index_len index subindex;
          total_len = n + length payload + 2;
          service = push_bit 4 (iolink_master_isdu_service False n)
      in (if total_len \<le> 15 then [service OR of_nat total_len]
          else [service OR 1, of_nat (total_len + 1)]) @
         isdu_index_octets index subindex n @ payload)"

definition with_chkpdu :: "u8 list \<Rightarrow> u8 list" where
  "with_chkpdu octets = octets @ [xor_octets octets]"

lemma xor_octets_snoc: "xor_octets (xs @ [x]) = xor_octets xs XOR x"
  by (simp add: xor_octets_def)

lemma xor_with_chkpdu: "xor_octets (with_chkpdu xs) = 0"
  by (simp add: with_chkpdu_def xor_octets_snoc)

lemma index_len_cases:
  obtains (one) "iolink_master_isdu_index_len i s = 1" | (two) "iolink_master_isdu_index_len i s = 2"
  | (three) "iolink_master_isdu_index_len i s = 3"
  unfolding iolink_master_isdu_index_len_def by presburger

lemma read_header_length:
  "length (read_header index subindex) = iolink_master_isdu_index_len index subindex + 1"
  by (simp add: read_header_def index_octets_length Let_def)

lemma isdu_build_read_eq:
  assumes "stack_constants_ok L" and "length (isdu_request isdu) = ISDU_BUFFER_SIZE L"
  shows "isdu_build_read L index subindex isdu = Some
    ((iolink_master_isdu_start L ISDU_OP_READ index subindex isdu)
      \<lparr>isdu_request := with_chkpdu (read_header index subindex) @
         drop (length (read_header index subindex) + 1) (isdu_request isdu),
       isdu_request_len := length (read_header index subindex) + 1\<rparr>)"
proof -
  define n where "n = iolink_master_isdu_index_len index subindex"
  define octets where "octets = isdu_index_octets index subindex n"
  define x where "x = push_bit 4 (iolink_master_isdu_service True n) OR of_nat (n + 2)"
  define q where "q = isdu_request isdu"
  define h where "h = x # octets"
  have n: "n \<le> 3" "length octets = n"
    unfolding n_def octets_def by (rule index_len_bounds, rule index_octets_length)
  have size: "16 \<le> length q"
    using assms by (simp add: stack_constants_ok_def q_def)
  have nibble: "(of_nat (n + 2) :: u8) AND 15 = of_nat (n + 2)"
    by (rule index_len_cases [of index subindex]) (simp_all add: n_def)
  have len: "trunc8 (1 + n + 1) = n + 2" using n by simp
  have "wr q 0 x = Some ([x] @ drop 1 q)"
    using size by (intro wr_start) auto
  moreover have "wr_slice ([x] @ drop 1 q) 1 octets = Some (h @ drop (n + 1) q)"
    using wr_slice_append [of octets "drop 1 q" "[x]"] n size by (simp add: h_def)
  moreover have "rd_slice (h @ drop (n + 1) q) 0 (n + 1) = Some h"
    using rd_slice_append [of h] n by (simp add: h_def)
  moreover have "wr (h @ drop (n + 1) q) (n + 1) (xor_octets h) =
      Some (with_chkpdu h @ drop (n + 2) q)"
    using wr_append [of "drop (n + 1) q" h "xor_octets h"] n size
    by (simp add: h_def with_chkpdu_def)
  moreover have "read_header index subindex = h"
    by (simp add: read_header_def h_def x_def octets_def n_def Let_def)
  ultimately show ?thesis
    unfolding isdu_build_read_def n_def [symmetric] octets_def [symmetric] Let_def len nibble
      x_def [symmetric] q_def [symmetric]
    by (simp add: n iolink_master_isdu_chkpdu_def iolink_master_isdu_start_def
        q_def [symmetric] h_def del: of_nat_add)
qed

lemma write_header_length:
  "length (write_header index subindex payload) =
     iolink_master_isdu_index_len index subindex + length payload +
     (if iolink_master_isdu_index_len index subindex + length payload + 2 \<le> 15 then 1 else 2)"
  by (simp add: write_header_def index_octets_length Let_def)

text \<open>The lengths the write service accepts, over the request it would send.\<close>

definition write_accepted :: "iolinki \<Rightarrow> u16 \<Rightarrow> u8 \<Rightarrow> nat \<Rightarrow> bool" where
  "write_accepted L index subindex len \<longleftrightarrow>
     (let total_len = iolink_master_isdu_index_len index subindex + len + 2
      in len \<le> ISDU_BUFFER_SIZE L - ISDU_WRITE_HEADER_MAX \<and> total_len \<noteq> 16 \<and> total_len \<le> 237)"

lemma nibble_of_nat: "m < 16 \<Longrightarrow> (of_nat m :: u8) AND 15 = of_nat m"
  by (simp add: word_unat_eq_iff octet_and_15 unat_of_nat)

lemma isdu_build_write_eq:
  assumes L: "stack_constants_ok L" and size: "length (isdu_request isdu) = ISDU_BUFFER_SIZE L"
    and len: "length payload < 256" and data: "payload \<noteq> [] \<longrightarrow> data = Some (payload @ unread)"
  shows "isdu_build_write L index subindex data (length payload) isdu = Some
    (if write_accepted L index subindex (length payload)
     then Some ((iolink_master_isdu_start L ISDU_OP_WRITE index subindex isdu)
      \<lparr>isdu_request := with_chkpdu (write_header index subindex payload) @
         drop (length (write_header index subindex payload) + 1) (isdu_request isdu),
       isdu_request_len := length (write_header index subindex payload) + 1\<rparr>)
     else None)"
proof -
  define n where "n = iolink_master_isdu_index_len index subindex"
  define octets where "octets = isdu_index_octets index subindex n"
  define service where "service = push_bit 4 (iolink_master_isdu_service False n)"
  define k where "k = length payload"
  define q where "q = isdu_request isdu"
  define head where "head = (if n + k + 2 \<le> 15 then [service OR of_nat (n + k + 2)]
                             else [service OR 1, of_nat (n + k + 3)])"
  have n: "n \<le> 3" "length octets = n"
    unfolding n_def octets_def by (rule index_len_bounds, rule index_octets_length)
  have k: "k < 256" using len by (simp add: k_def)
  have max: "length q = ISDU_BUFFER_SIZE L" "16 \<le> ISDU_BUFFER_SIZE L" "ISDU_BUFFER_SIZE L \<le> 256"
    using L size by (simp_all add: stack_constants_ok_def q_def)
  have total_len: "trunc16 (1 + n + k + 1) = n + k + 2" using n k by simp
  have accepted: "isdu_write_length_ok L k (n + k + 2) = write_accepted L index subindex k"
    using max by (auto simp: isdu_write_length_ok_def write_accepted_def n_def Let_def)
  show ?thesis
  proof (cases "write_accepted L index subindex k")
    case False
    then show ?thesis
      using total_len accepted by (simp add: isdu_build_write_def n_def k_def)
  next
    case True
    then have "k \<le> length q - 7"
      using max by (simp add: write_accepted_def Let_def)
    then have fit: "k + 7 \<le> length q" using max by linarith
    have head: "length head \<le> 2" by (simp add: head_def)
    have low: "(of_nat (n + k + 2) :: u8) AND 15 = of_nat (n + k + 2)" if "n + k + 2 \<le> 15"
      using that nibble_of_nat [of "n + k + 2"] by simp
    have s1: "wr_slice q 0 head = Some (head @ drop (length head) q)"
      using fit head by (intro wr_slice_start) simp
    have s2: "wr_slice (head @ drop (length head) q) (length head) octets =
        Some ((head @ octets) @ drop (length head + n) q)"
      using wr_slice_append [of octets "drop (length head) q" head] fit head n
      by (simp add: add.commute)
    have s3: "wr_slice ((head @ octets) @ drop (length head + n) q) (length head + n) payload =
        Some ((head @ octets @ payload) @ drop (length head + n + k) q)"
      using wr_slice_append [of payload "drop (length head + n) q" "head @ octets"] fit head n
      by (simp add: add.commute k_def)
    have s4: "rd_slice ((head @ octets @ payload) @ drop (length head + n + k) q) 0
        (length head + n + k) = Some (head @ octets @ payload)"
      using rd_slice_append [of "head @ octets @ payload"] n by (simp add: k_def add.assoc)
    have s5: "wr ((head @ octets @ payload) @ drop (length head + n + k) q) (length head + n + k) y =
        Some (((head @ octets @ payload) @ [y]) @ drop (length head + n + k + 1) q)" for y
      using wr_append [of "drop (length head + n + k) q" "head @ octets @ payload" y] fit head n
      by (simp add: k_def add.assoc)
    have copy: "(if k > 0 then do { src \<leftarrow> data; payload \<leftarrow> rd_slice src 0 k;
          wr_slice ((head @ octets) @ drop (length head + n) q) (length head + n) payload }
        else Some ((head @ octets) @ drop (length head + n) q)) =
        Some ((head @ octets @ payload) @ drop (length head + n + k) q)"
    proof (cases "payload = []")
      case False
      then have "data = Some (payload @ unread)" "k > 0" using data by (simp_all add: k_def)
      then show ?thesis
        using s3 rd_slice_append [of payload unread] by (simp add: k_def)
    qed (simp add: k_def)
    have header: "write_header index subindex payload = head @ octets @ payload"
      by (simp add: write_header_def head_def octets_def service_def n_def k_def Let_def
          add.assoc numeral_3_eq_3)
    have pos: "trunc8 (length head + n + k) = length head + n + k"
      "trunc8 (length head + n + k + 1) = length head + n + k + 1"
      using fit head n max by simp_all
    have head_eq: "(if n + k + 2 \<le> 15 then [service OR (of_nat (n + k + 2) AND 15)]
        else [service OR 0x01, of_nat (n + k + 2 + 1)]) = head"
      using low by (simp add: head_def add.assoc)
    have start: "isdu_request (iolink_master_isdu_start L op i j isdu) = q" for op i j
      by (simp add: iolink_master_isdu_start_def q_def)
    show ?thesis
      using True
      unfolding isdu_build_write_def n_def [symmetric] octets_def [symmetric] k_def [symmetric]
        service_def [symmetric] Let_def total_len accepted head_eq header q_def [symmetric]
      by (simp only: start s1 s2 s4 s5 copy pos n iolink_master_isdu_chkpdu_def with_chkpdu_def
          bind.bind_lunit option.map not_True_eq_False if_False if_True)
        (simp add: k_def n add.assoc)
  qed
qed

subsection \<open>The invariant of the services\<close>

lemma isdu_started_wf:
  assumes "isdu_wf L isdu" and "op \<noteq> ISDU_OP_NONE" and "length h + 1 \<le> ISDU_BUFFER_SIZE L"
  shows "isdu_wf L ((iolink_master_isdu_start L op index subindex isdu)
    \<lparr>isdu_request := with_chkpdu h @ drop (length h + 1) (isdu_request isdu),
     isdu_request_len := length h + 1\<rparr>)"
  using assms by (simp add: isdu_wf_def iolink_master_isdu_start_def with_chkpdu_def)

lemma isdu_wf_device_error:
  "isdu_wf L (st_isdu p) \<Longrightarrow> isdu_wf L (st_isdu (snd (isdu_device_error L p)))"
  by (simp add: isdu_device_error_def iolink_master_service_result_def isdu_wf_def
      iolink_master_isdu_clear_def Let_def)

lemma st_isdu_service_result [simp]:
  "st_isdu (snd (iolink_master_service_result ret p)) = st_isdu p"
  by (simp add: iolink_master_service_result_def)

lemma fst_service_result [simp]: "fst (iolink_master_service_result ret p) = ret"
  by (simp add: iolink_master_service_result_def)

lemma isdu_wf_finish_read:
  assumes "isdu_wf L (st_isdu p)" and "len \<le> length data \<or> ISDU_BUFFER_SIZE L \<le> length data"
  shows "ensures (iolink_master_isdu_finish_read L data len p)
    (\<lambda>(ret, data', len', p'). isdu_wf L (st_isdu p') \<and> length data' = length data)"
  using assms isdu_wf_device_error [OF assms(1)] isdu_wf_clear [OF assms(1)]
  by (auto simp: iolink_master_isdu_finish_read_def ensures_simps Let_def split_beta
      isdu_wf_def [of L "st_isdu p"])

lemma isdu_wf_finish_write:
  "isdu_wf L (st_isdu p) \<Longrightarrow> isdu_wf L (st_isdu (snd (iolink_master_isdu_finish_write L p)))"
  by (simp add: iolink_master_isdu_finish_write_def isdu_wf_device_error isdu_wf_clear)

lemma isdu_wf_read_isdu:
  assumes "isdu_wf L (st_isdu p)" and L: "stack_constants_ok L" and "len \<le> length data \<or> ISDU_BUFFER_SIZE L \<le> length data"
  shows "ensures (iolink_master_read_isdu L index subindex data len p)
    (\<lambda>(ret, data', len', p'). isdu_wf L (st_isdu p') \<and> length data' = length data)"
proof -
  have size: "length (isdu_request (st_isdu p)) = ISDU_BUFFER_SIZE L"
    using assms(1) by (simp add: isdu_wf_def)
  have "length (read_header index subindex) + 1 \<le> ISDU_BUFFER_SIZE L"
    using L index_len_bounds(2) [of index subindex]
    by (simp add: read_header_length stack_constants_ok_def)
  from isdu_started_wf [OF assms(1) _ this, of ISDU_OP_READ] show ?thesis
    using isdu_wf_finish_read [OF assms(1,3)] assms(1)
    by (simp add: iolink_master_read_isdu_def isdu_build_read_eq [OF L size])
qed

lemma isdu_wf_build_write:
  assumes wf: "isdu_wf L isdu" and L: "stack_constants_ok L"
    and "len < 256" and "len > 0 \<Longrightarrow> \<exists>src. data = Some src \<and> len \<le> length src"
  shows "ensures (isdu_build_write L index subindex data len isdu)
    (case_option True (isdu_wf L))"
proof -
  obtain payload unread where p: "length payload = len" "payload \<noteq> [] \<longrightarrow> data = Some (payload @ unread)"
  proof (cases "len > 0")
    case True
    then obtain src where "data = Some src" "len \<le> length src" using assms(4) by auto
    then show ?thesis by (intro that [of "take len src" "drop len src"]) simp_all
  qed (use that [of "[]"] in simp)
  have size: "length (isdu_request isdu) = ISDU_BUFFER_SIZE L"
    using wf by (simp add: isdu_wf_def)
  have fits: "length (write_header index subindex payload) + 1 \<le> ISDU_BUFFER_SIZE L"
    if "write_accepted L index subindex len"
    using that index_len_bounds(2) [of index subindex] p(1) L
    by (auto simp: write_header_length write_accepted_def stack_constants_ok_def Let_def)
  show ?thesis
    using isdu_build_write_eq [OF L size _ p(2), of index subindex] p(1) assms(3)
      isdu_started_wf [OF wf _ fits, of ISDU_OP_WRITE index subindex]
    by auto
qed

lemma isdu_wf_write_isdu:
  assumes wf: "isdu_wf L (st_isdu p)" and L: "stack_constants_ok L"
    and "len < 256" and "\<And>src. data = Some src \<Longrightarrow> len \<le> length src"
  shows "ensures (iolink_master_write_isdu L index subindex data len p)
    (\<lambda>(ret, p'). isdu_wf L (st_isdu p'))"
proof (cases "data = None \<and> len > 0")
  case True
  then show ?thesis using wf by (simp add: iolink_master_write_isdu_def)
next
  case False
  then have "len > 0 \<Longrightarrow> \<exists>src. data = Some src \<and> len \<le> length src"
    using assms(4) by auto
  from isdu_wf_build_write [OF wf L assms(3) this] show ?thesis
    using wf isdu_wf_finish_write [OF wf] False
    by (auto simp: iolink_master_write_isdu_def ensures_simps split_beta
        elim!: ensures_mono split: option.splits)
qed

subsection \<open>The response stream\<close>

lemma isdu_decode_done:
  "iolink_master_isdu_decode_response L isdu = Some isdu' \<Longrightarrow> isdu_done isdu'"
  by (auto simp: iolink_master_isdu_decode_response_def Let_def
      split: if_splits Option.bind_splits)

definition octet_returned ::
  "iolink_master_isdu_state_t \<Rightarrow> bool \<times> iolink_master_isdu_state_t \<Rightarrow> bool" where
  "octet_returned isdu = (\<lambda>(return, isdu'). if return then isdu_done isdu'
    else isdu_op isdu' = isdu_op isdu \<and> isdu_done isdu' = isdu_done isdu \<and>
         (isdu_phase isdu' = ISDU_PHASE_WAIT \<or> isdu_phase isdu' = ISDU_PHASE_RESPONSE))"

lemma octet_returned_simps [simp]:
  "octet_returned isdu (True, isdu') = isdu_done isdu'"
  "octet_returned isdu (False, isdu') =
    (isdu_op isdu' = isdu_op isdu \<and> isdu_done isdu' = isdu_done isdu \<and>
     (isdu_phase isdu' = ISDU_PHASE_WAIT \<or> isdu_phase isdu' = ISDU_PHASE_RESPONSE))"
  by (simp_all add: octet_returned_def)

lemma isdu_check_complete_return:
  "isdu_check_complete L isdu1 = Some r \<Longrightarrow> isdu_op isdu1 = isdu_op isdu \<Longrightarrow>
   isdu_done isdu1 = isdu_done isdu \<Longrightarrow> isdu_phase isdu1 = ISDU_PHASE_RESPONSE \<Longrightarrow>
   octet_returned isdu r"
  by (auto simp: isdu_check_complete_def dest: isdu_decode_done
      split: if_splits)

lemma isdu_store_octet_return:
  assumes "isdu_store_octet L byte isdu1 = Some r" and "isdu_phase isdu1 = ISDU_PHASE_RESPONSE"
    and "isdu_op isdu1 = isdu_op isdu" and "isdu_done isdu1 = isdu_done isdu"
  shows "octet_returned isdu r"
proof -
  have fail: "octet_returned isdu (True, isdu_fail L s)" for s
    by (simp add: octet_returned_def isdu_fail_def)
  show ?thesis
    using assms fail
    by (auto simp: isdu_store_octet_def Let_def
        split: if_splits Option.bind_splits intro: isdu_check_complete_return)
qed

lemma isdu_on_octet_return:
  assumes "isdu_on_octet L byte isdu = Some r"
    and "isdu_phase isdu = ISDU_PHASE_WAIT \<or> isdu_phase isdu = ISDU_PHASE_RESPONSE"
  shows "octet_returned isdu r"
  using assms isdu_store_octet_return
  by (auto simp: isdu_on_octet_def split: if_splits)

lemma isdu_od_loop_append:
  assumes "isdu_op isdu \<noteq> ISDU_OP_NONE" and "\<not> isdu_done isdu"
    and "isdu_phase isdu = ISDU_PHASE_WAIT \<or> isdu_phase isdu = ISDU_PHASE_RESPONSE"
  shows "isdu_od_loop L (xs @ ys) isdu =
    do { isdu \<leftarrow> isdu_od_loop L xs isdu; iolink_master_isdu_on_od L ys isdu }"
  using assms
proof (induction xs arbitrary: isdu)
  case Nil
  then show ?case by (auto simp: iolink_master_isdu_on_od_def)
next
  case (Cons byte xs)
  show ?case
  proof (cases "isdu_on_octet L byte isdu")
    case (Some r)
    then obtain return isdu1 where r: "isdu_on_octet L byte isdu = Some (return, isdu1)"
      by (cases r) auto
    from isdu_on_octet_return [OF this Cons.prems(3)] r Cons show ?thesis
      by (cases return) (simp_all add: iolink_master_isdu_on_od_def octet_returned_def)
  qed simp
qed

interpretation isdu_stream: stream_consumer "iolink_master_isdu_on_od L"
proof
  show "iolink_master_isdu_on_od L [] s = Some s" for s
    by (simp add: iolink_master_isdu_on_od_def)
  show "iolink_master_isdu_on_od L (xs @ ys) s =
      do { s \<leftarrow> iolink_master_isdu_on_od L xs s; iolink_master_isdu_on_od L ys s }" for xs ys s
    using isdu_od_loop_append [of s L xs ys]
    by (cases "isdu_phase s") (auto simp: iolink_master_isdu_on_od_def)
qed

text \<open>
  The length a response announces in its first octet, or in the second one when the first
  has the length code 1, and what a complete response means.
\<close>

definition response_length :: "u8 list \<Rightarrow> nat" where
  "response_length r =
     (if r ! 0 AND 0x0F = 1 then unat (r ! 1) else unat (r ! 0 AND 0x0F))"

definition complete_response :: "u8 list \<Rightarrow> bool" where
  "complete_response r \<longleftrightarrow> 2 \<le> length r \<and> r ! 0 \<noteq> 0 \<and> r ! 0 \<noteq> 1 \<and> length r = response_length r"

datatype isdu_outcome = Response_Payload "u8 list" | Response_Error u16 | Response_Corrupt

definition parse_response :: "iolinki \<Rightarrow> u8 list \<Rightarrow> isdu_outcome" where
  "parse_response L r =
     (let service = drop_bit 4 (r ! 0)
      in if xor_octets r \<noteq> 0 then Response_Corrupt
         else if service = 0x4 \<or> service = 0xC
         then Response_Error (if 4 \<le> length r then u16_of_octets (r ! 1) (r ! 2)
                              else ISDU_ERROR_SEGMENTATION L)
         else Response_Payload (butlast (drop (if r ! 0 AND 0x0F = 1 then 2 else 1) r)))"

text \<open>What the engine holds once a service is done, for a service that started without error.\<close>

definition isdu_outcome_is ::
  "iolinki \<Rightarrow> isdu_outcome \<Rightarrow> iolink_master_isdu_state_t \<Rightarrow> bool" where
  "isdu_outcome_is L out isdu \<longleftrightarrow> isdu_done isdu \<and> isdu_phase isdu = ISDU_PHASE_NONE \<and>
     (case out of
        Response_Payload payload \<Rightarrow> isdu_error isdu = ISDU_ERROR_NONE L \<and>
          take (isdu_response_len isdu) (isdu_response isdu) = payload \<and>
          isdu_response_len isdu = length payload \<and>
          isdu_idle_pending isdu \<and> \<not> isdu_abort_pending isdu
      | Response_Error code \<Rightarrow> isdu_error isdu = code \<and> isdu_idle_pending isdu \<and>
          \<not> isdu_abort_pending isdu
      | Response_Corrupt \<Rightarrow> isdu_error isdu = ISDU_ERROR_SEGMENTATION L \<and>
          \<not> isdu_idle_pending isdu \<and> isdu_abort_pending isdu)"

text \<open>The state after the first \<open>length p\<close> octets of a response.\<close>

definition isdu_partial ::
  "iolinki \<Rightarrow> u8 list \<Rightarrow> nat \<Rightarrow> iolink_master_isdu_state_t \<Rightarrow> iolink_master_isdu_state_t" where
  "isdu_partial L p expected isdu =
     isdu\<lparr>isdu_phase := ISDU_PHASE_RESPONSE, isdu_response := p @ drop (length p) (isdu_response isdu),
          isdu_response_len := length p, isdu_response_pos := 0, isdu_expected_len := expected,
          isdu_flowctrl := 1\<rparr>"

lemma isdu_store_next:
  assumes "length p < length (isdu_response isdu)" "length (isdu_response isdu) = ISDU_BUFFER_SIZE L"
    and "ISDU_BUFFER_SIZE L \<le> 256" and "expected \<noteq> 0"
  shows "isdu_store_octet L byte (isdu_partial L p expected isdu) =
    isdu_check_complete L (isdu_partial L (p @ [byte]) expected isdu)"
proof -
  have "wr (p @ drop (length p) (isdu_response isdu)) (length p) byte =
    Some ((p @ [byte]) @ drop (Suc (length p)) (isdu_response isdu))"
    using assms by (subst wr_append) auto
  then show ?thesis
    using assms by (cases isdu) (simp add: isdu_store_octet_def isdu_partial_def)
qed

lemma isdu_check_complete_partial:
  "isdu_check_complete L (isdu_partial L p expected isdu) =
     (if expected \<le> length p
      then map_option (Pair True) (iolink_master_isdu_decode_response L (isdu_partial L p expected isdu))
      else Some (False, isdu_partial L p expected isdu))"
  by (simp add: isdu_check_complete_def isdu_partial_def)

lemma isdu_loop_rest:
  assumes "length (isdu_response isdu) = ISDU_BUFFER_SIZE L" "ISDU_BUFFER_SIZE L \<le> 256"
    and "length p + length r \<le> ISDU_BUFFER_SIZE L" "r \<noteq> []"
  shows "isdu_od_loop L r (isdu_partial L p (length p + length r) isdu) =
    iolink_master_isdu_decode_response L (isdu_partial L (p @ r) (length p + length r) isdu)"
  using assms
proof (induction r arbitrary: p)
  case Nil
  then show ?case by simp
next
  case (Cons byte r)
  have step: "isdu_on_octet L byte (isdu_partial L p (length p + length (byte # r)) isdu) =
      isdu_check_complete L (isdu_partial L (p @ [byte]) (length p + length (byte # r)) isdu)"
    using Cons.prems isdu_store_next [of p isdu L "length p + length (byte # r)" byte]
    by (simp add: isdu_on_octet_def isdu_partial_def)
  show ?case
  proof (cases "r = []")
    case True
    then show ?thesis
      unfolding isdu_od_loop.simps step isdu_check_complete_partial
      by (auto simp: map_option_case split: option.splits)
  next
    case False
    with Cons.IH [of "p @ [byte]"] Cons.prems show ?thesis
      unfolding isdu_od_loop.simps step isdu_check_complete_partial by auto
  qed
qed

lemma isdu_loop_response:
  assumes r: "complete_response r" and "length r \<le> ISDU_BUFFER_SIZE L"
    and "isdu_phase isdu = ISDU_PHASE_WAIT"
    and size: "length (isdu_response isdu) = ISDU_BUFFER_SIZE L" "ISDU_BUFFER_SIZE L \<le> 256"
  shows "isdu_od_loop L r isdu = iolink_master_isdu_decode_response L (isdu_partial L r (length r) isdu)"
proof -
  obtain x y r' where r': "r = x # y # r'"
    using r by (cases r; cases "tl r") (auto simp: complete_response_def)
  have first: "isdu_on_octet L x isdu = isdu_store_octet L x (isdu_partial L [] 0 isdu)"
    using assms r' by (simp add: isdu_on_octet_def isdu_partial_def complete_response_def)
  have one: "wr (isdu_response isdu) 0 x = Some ([x] @ drop 1 (isdu_response isdu))"
    using assms r' by (intro wr_start) auto
  show ?thesis
  proof (cases "x AND 15 = 1")
    case False
    have len: "unat (x AND 15) = length r" "2 \<le> length r"
      using r False by (simp_all add: complete_response_def response_length_def r')
    then have "isdu_store_octet L x (isdu_partial L [] 0 isdu) =
        isdu_check_complete L (isdu_partial L [x] (length r) isdu)"
      using assms r' one by (cases isdu) (simp add: isdu_store_octet_def isdu_partial_def rd_def)
    then show ?thesis
      using len isdu_loop_rest [OF size, of "[x]" "y # r'"] assms(2)
      by (simp add: r' first isdu_check_complete_partial)
  next
    case True
    have len: "unat y = length r" "2 \<le> length r"
      using r True by (simp_all add: complete_response_def response_length_def r')
    have "isdu_store_octet L x (isdu_partial L [] 0 isdu) = Some (False, isdu_partial L [x] 0 isdu)"
      using assms r' one True by (cases isdu) (simp add: isdu_store_octet_def isdu_partial_def rd_def)
    moreover have "isdu_on_octet L y (isdu_partial L [x] 0 isdu) =
        isdu_store_octet L y (isdu_partial L [x] 0 isdu)"
      by (simp add: isdu_on_octet_def isdu_partial_def)
    moreover have two: "wr ([x] @ drop 1 (isdu_response isdu)) 1 y =
        Some ([x, y] @ drop 2 (isdu_response isdu))"
      using assms r' wr_append [of "drop 1 (isdu_response isdu)" "[x]" y]
      by (simp add: numeral_2_eq_2)
    then have "isdu_store_octet L y (isdu_partial L [x] 0 isdu) =
        isdu_check_complete L (isdu_partial L [x, y] (length r) isdu)"
      using assms r' True len
      by (cases isdu) (simp add: isdu_store_octet_def isdu_partial_def rd_def numeral_2_eq_2)
    ultimately show ?thesis
      using len isdu_loop_rest [OF size, of "[x, y]" r'] assms(2)
      by (cases "r' = []")
        (simp_all add: r' first isdu_check_complete_partial map_option_case split: option.splits)
  qed
qed

lemma decode_response_corrupt:
  assumes "isdu_response s = r @ q" "isdu_response_len s = length r" "xor_octets r \<noteq> 0"
  shows "iolink_master_isdu_decode_response L s = Some (s\<lparr>isdu_error := ISDU_ERROR_SEGMENTATION L,
    isdu_done := True, isdu_abort_pending := True, isdu_phase := ISDU_PHASE_NONE\<rparr>)"
  using assms
  by (simp add: iolink_master_isdu_decode_response_def iolink_master_isdu_chkpdu_def rd_slice_append)

lemma decode_response_error:
  assumes "isdu_response s = r @ q" "isdu_response_len s = length r" "xor_octets r = 0"
    and "2 \<le> length r" and "drop_bit 4 (r ! 0) = 4 \<or> drop_bit 4 (r ! 0) = 0xC"
  shows "iolink_master_isdu_decode_response L s = Some (s\<lparr>
    isdu_error := if 4 \<le> length r then u16_of_octets (r ! 1) (r ! 2) else ISDU_ERROR_SEGMENTATION L,
    isdu_done := True, isdu_idle_pending := True, isdu_phase := ISDU_PHASE_NONE\<rparr>)"
proof -
  have "rd (r @ q) 0 = Some (r ! 0)" "rd (r @ q) 1 = Some (r ! 1)"
    "4 \<le> length r \<longrightarrow> rd (r @ q) 2 = Some (r ! 2)"
    using assms(4) by (auto intro!: rd_append)
  then show ?thesis
    using assms by (auto simp: iolink_master_isdu_decode_response_def
        iolink_master_isdu_chkpdu_def rd_slice_append)
qed

lemma decode_response_payload:
  assumes "isdu_response s = r @ q" "isdu_response_len s = length r" "xor_octets r = 0"
    and "drop_bit 4 (r ! 0) \<noteq> 4 \<and> drop_bit 4 (r ! 0) \<noteq> 0xC"
    and start: "start = (if r ! 0 AND 0x0F = 1 then 2 else 1)" "start < length r" "length r \<le> 256"
  shows "\<exists>rest. iolink_master_isdu_decode_response L s = Some (s\<lparr>
    isdu_response := butlast (drop start r) @ rest, isdu_response_len := length r - start - 1,
    isdu_done := True, isdu_idle_pending := True, isdu_phase := ISDU_PHASE_NONE\<rparr>)"
proof -
  define n where "n = length r - start - 1"
  have first: "rd (r @ q) 0 = Some (r ! 0)"
    using start(2) by (intro rd_append) linarith
  have len: "int_to_u16 (int (length r) - int start - 1) = n"
    using start(2,3) by (simp add: n_def int_to_u16_def nat_mod_as_int)
  have payload: "rd_slice (r @ q) start n = Some (butlast (drop start r))"
    using start(2) by (simp add: rd_slice_def n_def butlast_conv_take)
  have length_payload: "length (butlast (drop start r)) = n"
    by (simp add: n_def)
  have n_alt: "length r - (start + 1) = n" by (simp add: n_def)
  note decode = iolink_master_isdu_decode_response_def iolink_master_isdu_chkpdu_def
    rd_slice_append Let_def start(1) [symmetric]
  show ?thesis
  proof (cases "n > 0")
    case True
    have "wr_slice (r @ q) 0 (butlast (drop start r)) =
        Some (butlast (drop start r) @ drop n (r @ q))"
      using wr_slice_start [of "butlast (drop start r)" "r @ q"] length_payload by (simp add: n_def)
    with payload True show ?thesis
      using assms(1,2,3,4) first len n_alt
      by (intro exI [of _ "drop n (r @ q)"]) (simp add: decode del: One_nat_def)
  next
    case False
    then have "butlast (drop start r) = []" using length_payload by (metis length_0_conv not_gr_zero)
    with False show ?thesis
      using assms(1,2,3,4) first len n_alt
      by (intro exI [of _ "r @ q"]) (simp add: decode del: One_nat_def)
  qed
qed

lemma isdu_decode_outcome:
  assumes r: "complete_response r" and "length r \<le> ISDU_BUFFER_SIZE L" "ISDU_BUFFER_SIZE L \<le> 256"
    and clean: "isdu_error isdu = ISDU_ERROR_NONE L" "\<not> isdu_idle_pending isdu"
      "\<not> isdu_abort_pending isdu"
  shows "ensures (iolink_master_isdu_decode_response L (isdu_partial L r (length r) isdu))
    (\<lambda>isdu'. isdu_outcome_is L (parse_response L r) isdu' \<and> isdu_op isdu' = isdu_op isdu \<and>
       isdu_index isdu' = isdu_index isdu \<and> isdu_subindex isdu' = isdu_subindex isdu)"
proof -
  define s where "s = isdu_partial L r (length r) isdu"
  have s: "isdu_response s = r @ drop (length r) (isdu_response isdu)" "isdu_response_len s = length r"
    and frame: "isdu_error s = isdu_error isdu" "isdu_idle_pending s = isdu_idle_pending isdu"
      "isdu_abort_pending s = isdu_abort_pending isdu" "isdu_op s = isdu_op isdu"
      "isdu_index s = isdu_index isdu" "isdu_subindex s = isdu_subindex isdu"
    by (simp_all add: s_def isdu_partial_def)
  have two: "2 \<le> length r" using r by (simp add: complete_response_def)
  consider (corrupt) "xor_octets r \<noteq> 0"
    | (error) "xor_octets r = 0" "drop_bit 4 (r ! 0) = 4 \<or> drop_bit 4 (r ! 0) = 0xC"
    | (payload) "xor_octets r = 0" "drop_bit 4 (r ! 0) \<noteq> 4 \<and> drop_bit 4 (r ! 0) \<noteq> 0xC"
    by blast
  then show ?thesis
    unfolding s_def [symmetric]
  proof cases
    case corrupt
    then show "ensures (iolink_master_isdu_decode_response L s) (\<lambda>isdu'.
        isdu_outcome_is L (parse_response L r) isdu' \<and> isdu_op isdu' = isdu_op isdu \<and>
        isdu_index isdu' = isdu_index isdu \<and> isdu_subindex isdu' = isdu_subindex isdu)"
      using clean frame decode_response_corrupt [OF s]
      by (simp add: isdu_outcome_is_def parse_response_def)
  next
    case error
    then show "ensures (iolink_master_isdu_decode_response L s) (\<lambda>isdu'.
        isdu_outcome_is L (parse_response L r) isdu' \<and> isdu_op isdu' = isdu_op isdu \<and>
        isdu_index isdu' = isdu_index isdu \<and> isdu_subindex isdu' = isdu_subindex isdu)"
      using clean frame decode_response_error [OF s error(1) two error(2)]
      by (auto simp: isdu_outcome_is_def parse_response_def)
  next
    case payload
    define start where "start = (if r ! 0 AND 0x0F = 1 then 2 else 1 :: nat)"
    have "start < length r"
    proof (cases "length r = 2")
      case True
      then obtain x y where xy: "r = [x, y]"
        by (auto simp: numeral_2_eq_2 length_Suc_conv)
      have "x AND 15 \<noteq> 1"
        using r payload(1) nibble_one_large [of x] xor_octets_pair [of x y]
        by (auto simp: complete_response_def response_length_def xy)
      then show ?thesis by (simp add: start_def xy)
    qed (use two in \<open>simp add: start_def\<close>)
    moreover have "length r \<le> 256" using assms(2,3) by simp
    ultimately obtain rest where "iolink_master_isdu_decode_response L s = Some (s\<lparr>
        isdu_response := butlast (drop start r) @ rest, isdu_response_len := length r - start - 1,
        isdu_done := True, isdu_idle_pending := True, isdu_phase := ISDU_PHASE_NONE\<rparr>)"
      using decode_response_payload [OF s payload start_def, of L] by blast
    then show "ensures (iolink_master_isdu_decode_response L s) (\<lambda>isdu'.
        isdu_outcome_is L (parse_response L r) isdu' \<and> isdu_op isdu' = isdu_op isdu \<and>
        isdu_index isdu' = isdu_index isdu \<and> isdu_subindex isdu' = isdu_subindex isdu)"
      using clean frame payload
      by (simp add: isdu_outcome_is_def parse_response_def start_def [symmetric])
  qed
qed

lemma isdu_on_od_done: "isdu_done isdu \<Longrightarrow> iolink_master_isdu_on_od L od isdu = Some isdu"
  by (simp add: iolink_master_isdu_on_od_def)

lemma isdu_loop_busy:
  "isdu_phase isdu = ISDU_PHASE_WAIT \<Longrightarrow> set busy \<subseteq> {0, 1} \<Longrightarrow>
   isdu_od_loop L (busy @ r) isdu = isdu_od_loop L r isdu"
  by (induction busy) (auto simp: isdu_on_octet_def)

lemma response_stream_outcome:
  assumes "stack_constants_ok L" and "isdu_wf L isdu" and "isdu_phase isdu = ISDU_PHASE_WAIT"
    and "isdu_error isdu = ISDU_ERROR_NONE L" and "\<not> isdu_idle_pending isdu"
    and "\<not> isdu_abort_pending isdu"
    and "complete_response r" and "length r \<le> ISDU_BUFFER_SIZE L" and "set busy \<subseteq> {0, 1}"
    and "concat segs = busy @ r @ trailing"
  shows "ensures (feed (iolink_master_isdu_on_od L) segs isdu)
    (\<lambda>isdu'. isdu_outcome_is L (parse_response L r) isdu' \<and> isdu_op isdu' = isdu_op isdu \<and>
       isdu_index isdu' = isdu_index isdu \<and> isdu_subindex isdu' = isdu_subindex isdu)"
proof -
  have wf: "length (isdu_response isdu) = ISDU_BUFFER_SIZE L" "ISDU_BUFFER_SIZE L \<le> 256"
    "isdu_op isdu \<noteq> ISDU_OP_NONE" "\<not> isdu_done isdu"
    using assms(1-3) by (auto simp: isdu_wf_def stack_constants_ok_def)
  have "feed (iolink_master_isdu_on_od L) segs isdu =
      do { isdu \<leftarrow> isdu_od_loop L (busy @ r) isdu; iolink_master_isdu_on_od L trailing isdu }"
    using assms(3) wf isdu_stream.consume_append [of L "busy @ r" trailing isdu]
    by (simp add: isdu_stream.feed_concat assms(10) iolink_master_isdu_on_od_def [of L _ isdu])
  also have "isdu_od_loop L (busy @ r) isdu =
      iolink_master_isdu_decode_response L (isdu_partial L r (length r) isdu)"
    using isdu_loop_busy [OF assms(3,9)] isdu_loop_response [OF assms(7,8,3) wf(1,2)] by simp
  finally show ?thesis
    using isdu_decode_outcome [OF assms(7,8) wf(2) assms(4-6)]
    by (auto simp: ensures_bind isdu_on_od_done isdu_outcome_is_def elim!: ensures_mono)
qed

text \<open>
  C10. Once a request has been sent, the outcome of the service is the meaning of the octets
  of the response (\<open>parse_response\<close>) and nothing else: it does not depend on how the
  response is cut into M-sequences, on the busy octets (0x00, 0x01) a slow device sends
  first, or on what follows the response in its last M-sequence. A correct response yields
  its payload in place, a negative one its error code, and one with a wrong CHKPDU the
  segmentation error with a pending ABORT.
\<close>

theorem response_any_segmentation:
  assumes "stack_constants_ok L" and "isdu_wf L isdu" and "isdu_phase isdu = ISDU_PHASE_WAIT"
    and "isdu_error isdu = ISDU_ERROR_NONE L" and "\<not> isdu_idle_pending isdu"
    and "\<not> isdu_abort_pending isdu"
    and "complete_response r" and "length r \<le> ISDU_BUFFER_SIZE L" and "set busy \<subseteq> {0, 1}"
    and "concat segs = busy @ r @ trailing"
  shows "ensures (feed (iolink_master_isdu_on_od L) segs isdu)
    (\<lambda>isdu'. isdu_outcome_is L (parse_response L r) isdu' \<and> isdu_op isdu' = isdu_op isdu \<and>
       isdu_index isdu' = isdu_index isdu \<and> isdu_subindex isdu' = isdu_subindex isdu)"
  using assms by (rule response_stream_outcome)

theorem response_any_segmentation_witness:
  "ensures (feed (iolink_master_isdu_on_od demo_stack) [[1], [1, 0], [0xD4], [0x41, 0x42], [0xD7, 0]]
     ((zero_isdu demo_stack)\<lparr>isdu_op := ISDU_OP_READ, isdu_phase := ISDU_PHASE_WAIT\<rparr>))
    (\<lambda>isdu'. isdu_outcome_is demo_stack (Response_Payload [0x41, 0x42]) isdu' \<and>
       isdu_op isdu' = ISDU_OP_READ \<and> isdu_index isdu' = 0 \<and> isdu_subindex isdu' = 0)"
proof -
  have "parse_response demo_stack [0xD4, 0x41, 0x42, 0xD7] = Response_Payload [0x41, 0x42]"
    by (simp add: parse_response_def xor_octets_def)
  then show ?thesis
    using response_any_segmentation [OF demo_stack_constants, of
      "(zero_isdu demo_stack)\<lparr>isdu_op := ISDU_OP_READ, isdu_phase := ISDU_PHASE_WAIT\<rparr>"
      "[0xD4, 0x41, 0x42, 0xD7]" "[1, 1, 0]"
      "[[1], [1, 0], [0xD4], [0x41, 0x42], [0xD7, 0]]" "[0]"]
    by (simp add: isdu_wf_def zero_isdu_def demo_stack_def complete_response_def response_length_def)
qed

subsection \<open>The request stream\<close>

text \<open>
  What a device understands of the octets it receives: the service, Index, Subindex and the
  payload of a request whose CHKPDU is right. Octets after the announced length are padding.
\<close>

datatype isdu_request_t = Isdu_Request bool u16 u8 "u8 list"

definition parse_request :: "u8 list \<Rightarrow> isdu_request_t option" where
  "parse_request xs =
     (let service = drop_bit 4 (xs ! 0);
          extended = (xs ! 0 AND 0x0F = 1);
          total_len = (if extended then unat (xs ! 1) else unat (xs ! 0 AND 0x0F));
          body = drop (if extended then 2 else 1) (take (total_len - 1) xs);
          read = bit service 3
      in if xs = [] \<or> length xs < total_len \<or> xor_octets (take total_len xs) \<noteq> 0 then None
         else if service AND 7 = 1
         then Some (Isdu_Request read (ucast (body ! 0)) 0 (drop 1 body))
         else if service AND 7 = 2
         then Some (Isdu_Request read (ucast (body ! 0)) (body ! 1) (drop 2 body))
         else if service AND 7 = 3
         then Some (Isdu_Request read (u16_of_octets (body ! 0) (body ! 1)) (body ! 2) (drop 3 body))
         else None)"

lemma service_octet:
  assumes "n \<in> {1, 2, 3}" and "k < 16"
  shows "(push_bit 4 (iolink_master_isdu_service read n) OR of_nat k) AND 15 = of_nat k"
    and "drop_bit 4 (push_bit 4 (iolink_master_isdu_service read n) OR of_nat k) =
      iolink_master_isdu_service read n"
proof -
  define s where "s = iolink_master_isdu_service read n"
  have "s \<in> {1, 2, 3, 9, 10, 11}"
    using assms(1) by (auto simp: s_def iolink_master_isdu_service_def)
  then have "push_bit 4 s AND 15 = 0 \<and> drop_bit 4 (push_bit 4 s) = s"
    by auto
  moreover have "drop_bit 4 (of_nat k :: u8) = 0"
    using assms(2) by (simp add: word_unat_eq_iff octet_div_16 unat_of_nat)
  ultimately show "(push_bit 4 s OR of_nat k) AND 15 = of_nat k"
    and "drop_bit 4 (push_bit 4 s OR of_nat k) = s"
    using nibble_of_nat [OF assms(2)] by (simp_all add: bit.conj_disj_distrib2 drop_bit_or)
qed

lemma service_fields:
  assumes "n \<in> {1, 2, 3}"
  shows "iolink_master_isdu_service read n AND 7 = of_nat n"
    and "bit (iolink_master_isdu_service read n) 3 = read"
proof -
  have three: "(11::u8) = 0b1011" "(10::u8) = 0b1010" by simp_all
  show "iolink_master_isdu_service read n AND 7 = of_nat n"
    using assms by (cases read) (auto simp: iolink_master_isdu_service_def)
  show "bit (iolink_master_isdu_service read n) 3 = read"
    using assms by (cases read) (auto simp: iolink_master_isdu_service_def bit_iff_odd_drop_bit)
qed

lemma index_octets_parse:
  assumes "body = isdu_index_octets index subindex (iolink_master_isdu_index_len index subindex) @ payload"
  shows "iolink_master_isdu_index_len index subindex = 1 \<Longrightarrow>
      ucast (body ! 0) = index \<and> subindex = 0 \<and> drop 1 body = payload"
    and "iolink_master_isdu_index_len index subindex = 2 \<Longrightarrow>
      ucast (body ! 0) = index \<and> body ! 1 = subindex \<and> drop 2 body = payload"
    and "iolink_master_isdu_index_len index subindex = 3 \<Longrightarrow>
      u16_of_octets (body ! 0) (body ! 1) = index \<and> body ! 2 = subindex \<and> drop 3 body = payload"
proof -
  have "index \<le> 255 \<Longrightarrow> index < 256"
    by (simp add: word_le_nat_alt word_less_nat_alt)
  then have small: "index \<le> 255 \<Longrightarrow> ucast (lo_octet index) = index"
    using lo_octet_small by simp
  then show "iolink_master_isdu_index_len index subindex = 1 \<Longrightarrow>
      ucast (body ! 0) = index \<and> subindex = 0 \<and> drop 1 body = payload"
    unfolding assms iolink_master_isdu_index_len_def
    by (cases "index \<le> 255"; cases "subindex = 0") (simp_all add: isdu_index_octets_def)
  show "iolink_master_isdu_index_len index subindex = 2 \<Longrightarrow>
      ucast (body ! 0) = index \<and> body ! 1 = subindex \<and> drop 2 body = payload"
    using small unfolding assms iolink_master_isdu_index_len_def
    by (cases "index \<le> 255"; cases "subindex = 0") (simp_all add: isdu_index_octets_def)
  show "iolink_master_isdu_index_len index subindex = 3 \<Longrightarrow>
      u16_of_octets (body ! 0) (body ! 1) = index \<and> body ! 2 = subindex \<and> drop 3 body = payload"
    unfolding assms by (simp add: isdu_index_octets_def u16_of_octets_split numeral_eq_Suc)
qed

lemma parse_request_of:
  assumes n: "n = iolink_master_isdu_index_len index subindex"
    and body: "body = isdu_index_octets index subindex n @ payload"
    and head: "head = (if total_len \<le> 15 then [service OR of_nat total_len]
                       else [service OR 1, of_nat total_len])"
    and service: "service = push_bit 4 (iolink_master_isdu_service read n)"
    and total_len: "total_len = length head + length body + 1" "total_len < 256"
  shows "parse_request (with_chkpdu (head @ body) @ padding) =
    Some (Isdu_Request read index subindex payload)"
proof -
  define stream where "stream = with_chkpdu (head @ body) @ padding"
  define extended where "extended = (total_len > 15)"
  have n123: "n \<in> {1, 2, 3}"
    by (rule index_len_cases [of index subindex]) (simp_all add: n)
  have "1 \<le> length body"
    using n123 index_octets_length [of index subindex] by (auto simp: body n)
  moreover have "1 \<le> length head" by (simp add: head)
  ultimately have big: "3 \<le> total_len" using total_len(1) by linarith
  have x: "stream ! 0 = service OR of_nat (if extended then 1 else total_len)"
    by (simp add: stream_def with_chkpdu_def head extended_def)
  have y: "extended \<Longrightarrow> unat (stream ! 1) = total_len"
    using total_len(2) by (simp add: stream_def with_chkpdu_def head extended_def unat_of_nat)
  have fields: "(service OR of_nat (if extended then 1 else total_len)) AND 15 =
      of_nat (if extended then 1 else total_len)"
    "drop_bit 4 (service OR of_nat (if extended then 1 else total_len)) = iolink_master_isdu_service read n"
    unfolding service by (rule service_octet [OF n123], simp add: extended_def)+
  have ext: "stream ! 0 AND 15 = 1 \<longleftrightarrow> extended"
    using big total_len(2) unfolding x fields
    by (auto simp: word_unat_eq_iff unat_of_nat extended_def)
  have len: "(if extended then unat (stream ! 1) else unat (stream ! 0 AND 15)) = total_len"
    using y total_len(2) unfolding x fields by (simp add: unat_of_nat)
  have head_len: "length head = (if extended then 2 else 1)"
    by (simp add: head extended_def)
  have pdu: "length (with_chkpdu (head @ body)) = total_len"
    using total_len(1) by (simp add: with_chkpdu_def)
  have "take total_len stream = with_chkpdu (head @ body)"
    using pdu by (simp add: stream_def)
  moreover have "take (total_len - 1) stream = head @ body"
    using total_len(1) by (simp add: stream_def with_chkpdu_def)
  moreover have "total_len \<le> length stream" "stream \<noteq> []"
    using pdu big by (auto simp: stream_def)
  ultimately have "parse_request stream =
     (if n = 1 then Some (Isdu_Request read (ucast (body ! 0)) 0 (drop 1 body))
      else if n = 2 then Some (Isdu_Request read (ucast (body ! 0)) (body ! 1) (drop 2 body))
      else Some (Isdu_Request read (u16_of_octets (body ! 0) (body ! 1)) (body ! 2) (drop 3 body)))"
    using ext len fields(2) head_len service_fields [OF n123, of read] n123
    unfolding parse_request_def x [symmetric]
    by (auto simp: Let_def xor_with_chkpdu)
  then show ?thesis
    using index_octets_parse [OF body [unfolded n]] n123
    unfolding stream_def [symmetric] n [symmetric] by auto
qed

text \<open>
  A sequence of ISDU M-sequences: FlowCTRL and direction come from
  \<open>iolink_master_isdu_channel_access\<close>, the OD from \<open>iolink_master_isdu_fill_od\<close>, as in the
  frame builder.
\<close>

fun isdu_frames ::
  "iolinki \<Rightarrow> nat \<Rightarrow> nat \<Rightarrow> iolink_master_isdu_state_t \<Rightarrow>
   ((bool \<times> u8 \<times> u8 list) list \<times> iolink_master_isdu_state_t) option" where
  "isdu_frames L n 0 isdu = Some ([], isdu)"
| "isdu_frames L n (Suc k) isdu = do {
     (read, flowctrl) \<leftarrow> iolink_master_isdu_channel_access L isdu;
     (od, isdu) \<leftarrow> iolink_master_isdu_fill_od L n isdu;
     (frames, isdu) \<leftarrow> isdu_frames L n k isdu;
     Some ((read, flowctrl, od) # frames, isdu)
   }"

definition flow_count :: "iolinki \<Rightarrow> nat \<Rightarrow> u8" where
  "flow_count L k = (if k = 0 then FLOWCTRL_START L else of_nat (k mod 16))"

lemma flow_count_next:
  assumes "stack_constants_ok L"
  shows "(if flow_count L k = FLOWCTRL_START L then 1 else isdu_next_count L (flow_count L k)) =
    flow_count L (Suc k)"
proof (cases "k = 0")
  case True
  then show ?thesis by (simp add: flow_count_def)
next
  case False
  have start: "FLOWCTRL_START L > 15" "FLOWCTRL_COUNT_MASK L = 15"
    using assms by (simp_all add: stack_constants_ok_def)
  have "(of_nat (k mod 16) :: u8) \<le> 15"
    by (simp add: word_le_nat_alt unat_of_nat)
  then have "(of_nat (k mod 16) :: u8) \<noteq> FLOWCTRL_START L"
    using start by auto
  moreover have "((of_nat (k mod 16) :: u8) + 1) AND 15 = of_nat (Suc k mod 16)"
  proof -
    have "(of_nat (k mod 16) :: u8) + 1 = of_nat (Suc (k mod 16))" by simp
    moreover have "unat (of_nat (Suc (k mod 16)) :: u8) = Suc (k mod 16)"
      by (simp add: unat_of_nat del: of_nat_Suc)
    ultimately show ?thesis
      by (simp add: word_unat_eq_iff octet_and_15 mod_Suc_eq unat_of_nat del: of_nat_Suc)
  qed
  ultimately show ?thesis
    using False start by (simp add: flow_count_def isdu_next_count_def)
qed

text \<open>The state of a request after \<open>k\<close> M-sequences.\<close>

definition isdu_sent :: "iolinki \<Rightarrow> nat \<Rightarrow> nat \<Rightarrow> iolink_master_isdu_state_t \<Rightarrow> iolink_master_isdu_state_t" where
  "isdu_sent L n k isdu = isdu\<lparr>isdu_request_pos := n * k, isdu_flowctrl := flow_count L k\<rparr>"

lemma isdu_frame_next:
  assumes L: "stack_constants_ok L" and op: "isdu_op isdu \<noteq> ISDU_OP_NONE" "\<not> isdu_done isdu"
    and phase: "isdu_phase isdu = ISDU_PHASE_REQUEST"
    and size: "length (isdu_request isdu) \<le> 256" "isdu_request_len isdu \<le> length (isdu_request isdu)"
    and k: "n * k < isdu_request_len isdu"
  shows "iolink_master_isdu_channel_access L (isdu_sent L n k isdu) = Some (False, flow_count L k)"
    and "iolink_master_isdu_fill_od L n (isdu_sent L n k isdu) = Some
      (take n (drop (n * k) (take (isdu_request_len isdu) (isdu_request isdu) @ replicate n 0)),
       if isdu_request_len isdu \<le> n * Suc k
       then isdu\<lparr>isdu_request_pos := isdu_request_len isdu, isdu_phase := ISDU_PHASE_WAIT,
                 isdu_flowctrl := FLOWCTRL_START L\<rparr>
       else isdu_sent L n (Suc k) isdu)"
proof -
  show "iolink_master_isdu_channel_access L (isdu_sent L n k isdu) = Some (False, flow_count L k)"
    using op phase by (simp add: iolink_master_isdu_channel_access_def isdu_sent_def)
  define m where "m = isdu_request_len isdu"
  define j where "j = n * k"
  have j: "j < m" "m \<le> length (isdu_request isdu)" "m \<le> 256"
    using k size by (simp_all add: m_def j_def)
  have rem: "int_to_u16 (int m - int j) = m - j"
    using j by (simp add: int_to_u16_def nat_diff_distrib)
  have next_flow: "isdu_sent L n (Suc k) isdu = isdu\<lparr>isdu_request_pos := j + n,
      isdu_flowctrl := if flow_count L k = FLOWCTRL_START L then 1
                       else isdu_next_count L (flow_count L k)\<rparr>"
    unfolding flow_count_next [OF L] by (simp add: isdu_sent_def j_def add.commute)
  have last: "take n (drop j (take m (isdu_request isdu) @ replicate n 0)) =
      take (m - j) (drop j (isdu_request isdu)) @ replicate (n - (m - j)) 0" if "m \<le> j + n"
    using that j by (simp add: drop_take)
  have mid: "take n (drop j (take m (isdu_request isdu) @ replicate n 0)) =
      take n (drop j (isdu_request isdu))" if "j + n < m"
  proof -
    have "n \<le> m - j" "m - j \<le> length (isdu_request isdu) - j" using that j by linarith+
    then show ?thesis using j by (simp add: drop_take)
  qed
  note fill = iolink_master_isdu_fill_od_def isdu_sent_def [of L n k] op phase
    m_def [symmetric] j_def [symmetric] rem rd_slice_def Let_def
  show "iolink_master_isdu_fill_od L n (isdu_sent L n k isdu) = Some
      (take n (drop (n * k) (take (isdu_request_len isdu) (isdu_request isdu) @ replicate n 0)),
       if isdu_request_len isdu \<le> n * Suc k
       then isdu\<lparr>isdu_request_pos := isdu_request_len isdu, isdu_phase := ISDU_PHASE_WAIT,
                 isdu_flowctrl := FLOWCTRL_START L\<rparr>
       else isdu_sent L n (Suc k) isdu)"
  proof (cases "m \<le> j + n")
    case True
    have "(if m - j < n then m - j else n) = m - j" using True by auto
    moreover have "m \<le> n * Suc k" using True by (simp add: j_def add.commute)
    ultimately show ?thesis
      using True j unfolding m_def [symmetric] j_def [symmetric] last [OF True]
      by (simp add: fill)
  next
    case False
    have "(if m - j < n then m - j else n) = n" using False by simp
    moreover have "\<not> m \<le> n * Suc k" using False by (simp add: j_def add.commute)
    moreover have "take n (drop j (take m (isdu_request isdu) @ replicate n 0)) =
      take n (drop j (isdu_request isdu))" using mid False by simp
    ultimately show ?thesis
      using False j unfolding m_def [symmetric] j_def [symmetric] next_flow
      by (simp add: fill)
  qed
qed


definition isdu_request_sent :: "iolinki \<Rightarrow> iolink_master_isdu_state_t \<Rightarrow> iolink_master_isdu_state_t" where
  "isdu_request_sent L isdu = isdu\<lparr>isdu_request_pos := isdu_request_len isdu,
     isdu_phase := ISDU_PHASE_WAIT, isdu_flowctrl := FLOWCTRL_START L\<rparr>"

lemma isdu_frames_from:
  assumes "stack_constants_ok L" "isdu_op isdu \<noteq> ISDU_OP_NONE" "\<not> isdu_done isdu"
    and "isdu_phase isdu = ISDU_PHASE_REQUEST"
    and "length (isdu_request isdu) \<le> 256" "isdu_request_len isdu \<le> length (isdu_request isdu)"
    and "n * (k + r) < isdu_request_len isdu" "isdu_request_len isdu \<le> n * Suc (k + r)"
  shows "isdu_frames L n (Suc r) (isdu_sent L n k isdu) = Some
    (map (\<lambda>i. (False, flow_count L i,
           take n (drop (n * i) (take (isdu_request_len isdu) (isdu_request isdu) @ replicate n 0))))
       [k..<Suc (k + r)], isdu_request_sent L isdu)"
  using assms(7,8)
proof (induction r arbitrary: k)
  case 0
  then show ?case
    using isdu_frame_next [OF assms(1-6), of n k] by (simp add: isdu_request_sent_def)
next
  case (Suc r)
  have "n * Suc k \<le> n * (k + Suc r)" by (intro mult_le_mono2) simp
  then have k: "n * Suc k < isdu_request_len isdu" using Suc.prems by linarith
  moreover have "n * k \<le> n * Suc k" by simp
  ultimately have "n * k < isdu_request_len isdu" by linarith
  from isdu_frame_next [OF assms(1-6) this] Suc.IH [of "Suc k"] Suc.prems k
  show ?case by (simp add: upt_rec [of k] del: isdu_frames.simps(2) upt_Suc mult_Suc_right
      add: isdu_frames.simps(2) [of _ _ "Suc r"])
qed

lemma concat_chunks:
  "concat (map (\<lambda>i. take n (drop (n * i) ys)) [0..<k]) = take (n * k) ys"
proof (induction k)
  case (Suc k)
  have "take (n * Suc k) ys = take (n * k) ys @ take n (drop (n * k) ys)"
    by (subst take_add [symmetric]) (simp add: add.commute)
  then show ?case using Suc by simp
qed simp

text \<open>The number of M-sequences of \<open>n\<close> OD octets that carry \<open>m\<close> octets.\<close>

definition frames_needed :: "nat \<Rightarrow> nat \<Rightarrow> nat" where
  "frames_needed n m = (m + n - 1) div n"

lemma frames_needed_bounds:
  assumes "0 < n" "0 < m"
  obtains r where "frames_needed n m = Suc r" "n * r < m" "m \<le> n * Suc r"
proof -
  define r where "r = (m - 1) div n"
  have "m + n - 1 = (m - 1) + n" using assms by simp
  then have "frames_needed n m = Suc r"
    using div_add_self2 [of n "m - 1"] assms by (simp only: frames_needed_def r_def)
  moreover have "n * r \<le> m - 1" by (simp add: r_def)
  moreover have "m - 1 < n * Suc r"
    using assms(1) by (metis r_def dividend_less_times_div mult_Suc_right add.commute)
  ultimately show ?thesis using assms by (intro that [of r]) linarith+
qed

lemma request_transmission:
  assumes L: "stack_constants_ok L" and wf: "isdu_wf L isdu"
    and phase: "isdu_phase isdu = ISDU_PHASE_REQUEST" "isdu_request_pos isdu = 0"
      "isdu_flowctrl isdu = FLOWCTRL_START L" and "0 < n"
  defines "m \<equiv> isdu_request_len isdu" and "k \<equiv> frames_needed n (isdu_request_len isdu)"
  shows "\<exists>frames. isdu_frames L n k isdu = Some (frames, isdu_request_sent L isdu) \<and>
    map (\<lambda>(read, flowctrl, od). (read, flowctrl)) frames = map (\<lambda>i. (False, flow_count L i)) [0..<k] \<and>
    concat (map (\<lambda>(read, flowctrl, od). od) frames) =
      take m (isdu_request isdu) @ replicate (n * k - m) 0"
proof -
  have facts: "isdu_op isdu \<noteq> ISDU_OP_NONE" "\<not> isdu_done isdu"
    "length (isdu_request isdu) \<le> 256" "isdu_request_len isdu \<le> length (isdu_request isdu)" "0 < m"
    using wf phase L by (auto simp: isdu_wf_def stack_constants_ok_def m_def)
  obtain r where r: "k = Suc r" "n * r < m" "m \<le> n * Suc r"
    using frames_needed_bounds [OF \<open>0 < n\<close> facts(5)] by (auto simp: k_def m_def)
  have start: "isdu = isdu_sent L n 0 isdu"
    using phase by (cases isdu) (simp add: isdu_sent_def flow_count_def)
  define chunk where
    "chunk = (\<lambda>i. take n (drop (n * i) (take m (isdu_request isdu) @ replicate n 0)))"
  have frames: "isdu_frames L n k isdu =
      Some (map (\<lambda>i. (False, flow_count L i, chunk i)) [0..<k], isdu_request_sent L isdu)"
    using isdu_frames_from [OF L facts(1,2) phase(1) facts(3,4), of n 0 r] r
    by (subst start) (simp add: chunk_def m_def)
  have "concat (map chunk [0..<k]) = take (n * k) (take m (isdu_request isdu) @ replicate n 0)"
    unfolding chunk_def by (rule concat_chunks)
  moreover have "n * k - m \<le> n" "m \<le> n * k" "length (take m (isdu_request isdu)) = m"
    using r facts by (auto simp: m_def)
  ultimately have "concat (map chunk [0..<k]) =
      take m (isdu_request isdu) @ replicate (n * k - m) 0"
    by simp
  then show ?thesis
    by (auto simp: frames comp_def)
qed


text \<open>What a device receives: the OD octets of the M-sequences that carry a request.\<close>

definition delivered_request ::
  "iolinki \<Rightarrow> nat \<Rightarrow> iolink_master_isdu_state_t \<Rightarrow> (u8 list \<times> iolink_master_isdu_state_t) option" where
  "delivered_request L n isdu =
     map_option (\<lambda>(frames, isdu). (concat (map (\<lambda>(read, flowctrl, od). od) frames), isdu))
       (isdu_frames L n (frames_needed n (isdu_request_len isdu)) isdu)"

text \<open>A request that has been built and not yet sent.\<close>

definition isdu_started :: "iolinki \<Rightarrow> isdu_request_t \<Rightarrow> iolink_master_isdu_state_t \<Rightarrow> bool" where
  "isdu_started L request isdu \<longleftrightarrow> isdu_wf L isdu \<and> isdu_phase isdu = ISDU_PHASE_REQUEST \<and>
     isdu_request_pos isdu = 0 \<and> isdu_flowctrl isdu = FLOWCTRL_START L \<and> isdu_error isdu = ISDU_ERROR_NONE L \<and>
     \<not> isdu_idle_pending isdu \<and> \<not> isdu_abort_pending isdu \<and>
     (\<forall>padding. parse_request (take (isdu_request_len isdu) (isdu_request isdu) @ padding) = Some request) \<and>
     (case request of Isdu_Request read index subindex payload \<Rightarrow>
        iolink_master_isdu_matches (if read then ISDU_OP_READ else ISDU_OP_WRITE) index subindex isdu)"

lemma built_started:
  assumes "isdu_wf L isdu" "length h + 1 \<le> ISDU_BUFFER_SIZE L"
    and "\<And>padding. parse_request (with_chkpdu h @ padding) = Some (Isdu_Request read index subindex payload)"
  shows "isdu_started L (Isdu_Request read index subindex payload)
    ((iolink_master_isdu_start L (if read then ISDU_OP_READ else ISDU_OP_WRITE) index subindex isdu)
      \<lparr>isdu_request := with_chkpdu h @ drop (length h + 1) (isdu_request isdu), isdu_request_len := length h + 1\<rparr>)"
proof -
  have "length (with_chkpdu h) = length h + 1" by (simp add: with_chkpdu_def)
  with isdu_started_wf [OF assms(1) _ assms(2), of "if read then ISDU_OP_READ else ISDU_OP_WRITE" index subindex] assms(3)
  show ?thesis
    by (simp add: isdu_started_def iolink_master_isdu_matches_def) (simp add: iolink_master_isdu_start_def)
qed

text \<open>The device gets the whole request, and the engine waits for its answer.\<close>

lemma started_delivered:
  assumes L: "stack_constants_ok L" and n: "0 < n"
    and started: "isdu_started L (Isdu_Request read index subindex payload) isdu"
  shows "ensures (delivered_request L n isdu) (\<lambda>(octets, isdu').
    parse_request octets = Some (Isdu_Request read index subindex payload) \<and> isdu_wf L isdu' \<and>
    isdu_phase isdu' = ISDU_PHASE_WAIT \<and> isdu_error isdu' = ISDU_ERROR_NONE L \<and>
    \<not> isdu_idle_pending isdu' \<and> \<not> isdu_abort_pending isdu' \<and>
    iolink_master_isdu_matches (if read then ISDU_OP_READ else ISDU_OP_WRITE) index subindex isdu')"
proof -
  have isdu: "isdu_wf L isdu" "isdu_phase isdu = ISDU_PHASE_REQUEST" "isdu_request_pos isdu = 0"
    "isdu_flowctrl isdu = FLOWCTRL_START L"
    and parse: "parse_request (take (isdu_request_len isdu) (isdu_request isdu) @ padding) =
      Some (Isdu_Request read index subindex payload)" for padding
    using started by (simp_all add: isdu_started_def)
  have "isdu_wf L (isdu_request_sent L isdu)"
    using isdu(1,2) by (auto simp: isdu_wf_def isdu_request_sent_def)
  with request_transmission [OF L isdu n] started show ?thesis
    by (auto simp: delivered_request_def parse isdu_started_def isdu_request_sent_def iolink_master_isdu_matches_def)
qed

lemma parse_read_header:
  "parse_request (with_chkpdu (read_header index subindex) @ padding) =
     Some (Isdu_Request True index subindex [])"
proof -
  define n where "n = iolink_master_isdu_index_len index subindex"
  define body where "body = isdu_index_octets index subindex n @ []"
  have n: "n \<le> 3" "length body = n"
    using index_octets_length index_len_bounds by (auto simp: body_def n_def)
  have "parse_request (with_chkpdu ([push_bit 4 (iolink_master_isdu_service True n) OR
      of_nat (n + 2)] @ body) @ padding) = Some (Isdu_Request True index subindex [])"
    by (rule parse_request_of [OF n_def body_def, where total_len = "n + 2"]) (use n in simp_all)
  then show ?thesis by (simp add: read_header_def n_def body_def Let_def)
qed

lemma parse_write_header:
  assumes "write_accepted L index subindex (length payload)"
  shows "parse_request (with_chkpdu (write_header index subindex payload) @ padding) =
     Some (Isdu_Request False index subindex payload)"
proof -
  define n where "n = iolink_master_isdu_index_len index subindex"
  define body where "body = isdu_index_octets index subindex n @ payload"
  define total_len where "total_len = (if length body + 2 \<le> 15 then length body + 2 else length body + 3)"
  have n: "length body = n + length payload"
    using index_octets_length by (simp add: body_def n_def)
  have limits: "length body + 2 \<noteq> 16" "length body + 2 \<le> 237"
    using assms n by (auto simp: write_accepted_def n_def Let_def)
  define head where "head = (if total_len \<le> 15
      then [push_bit 4 (iolink_master_isdu_service False n) OR of_nat total_len]
      else [push_bit 4 (iolink_master_isdu_service False n) OR 1, of_nat total_len])"
  have "parse_request (with_chkpdu (head @ body) @ padding) =
      Some (Isdu_Request False index subindex payload)"
    by (rule parse_request_of [OF n_def body_def head_def refl])
      (use limits in \<open>auto simp: head_def total_len_def\<close>)
  moreover have "write_header index subindex payload = head @ body"
    using limits n
    by (auto simp: write_header_def head_def total_len_def n_def body_def Let_def)
  ultimately show ?thesis by simp
qed

text \<open>The services build such a request.\<close>

lemma read_started:
  assumes L: "stack_constants_ok L" and "isdu_wf L (st_isdu p)" and "isdu_service_state p"
    and "isdu_op (st_isdu p) = ISDU_OP_NONE"
  shows "\<exists>isdu. iolink_master_read_isdu L index subindex data len p =
      Some (STATUS_PENDING, data, len, p\<lparr>st_isdu := isdu\<rparr>) \<and>
    isdu_started L (Isdu_Request True index subindex []) isdu"
proof -
  have idle: "length (isdu_request (st_isdu p)) = ISDU_BUFFER_SIZE L"
    "\<not> iolink_master_isdu_busy (st_isdu p)" "\<not> isdu_done (st_isdu p)"
    using assms(2,4) by (simp_all add: isdu_wf_def iolink_master_isdu_busy_def)
  have h: "length (read_header index subindex) + 1 \<le> ISDU_BUFFER_SIZE L"
    using L index_len_bounds(2) [of index subindex]
    by (simp add: read_header_length stack_constants_ok_def)
  show ?thesis
    using built_started [OF assms(2) h parse_read_header] idle assms(3)
      isdu_build_read_eq [OF L idle(1), of index subindex]
    by (auto simp: iolink_master_read_isdu_def)
qed

lemma write_started:
  assumes L: "stack_constants_ok L" and "isdu_wf L (st_isdu p)" and "isdu_service_state p"
    and "isdu_op (st_isdu p) = ISDU_OP_NONE" and "length payload < 256"
    and "write_accepted L index subindex (length payload)"
  shows "\<exists>isdu. iolink_master_write_isdu L index subindex (Some (payload @ unread)) (length payload) p =
      Some (STATUS_PENDING, p\<lparr>st_isdu := isdu\<rparr>) \<and>
    isdu_started L (Isdu_Request False index subindex payload) isdu"
proof -
  have idle: "length (isdu_request (st_isdu p)) = ISDU_BUFFER_SIZE L"
    "\<not> iolink_master_isdu_busy (st_isdu p)" "\<not> isdu_done (st_isdu p)"
    using assms(2,4) by (simp_all add: isdu_wf_def iolink_master_isdu_busy_def)
  have h: "length (write_header index subindex payload) + 1 \<le> ISDU_BUFFER_SIZE L"
    using L assms(6) index_len_bounds(2) [of index subindex]
    by (auto simp: write_header_length write_accepted_def stack_constants_ok_def Let_def)
  show ?thesis
    using built_started [OF assms(2) h parse_write_header [OF assms(6)]] idle assms(3,6)
      isdu_build_write_eq [OF L idle(1) assms(5), of "Some (payload @ unread)" unread]
    by (auto simp: iolink_master_write_isdu_def)
qed

text \<open>
  A read service that is accepted reaches the device: the call returns PENDING, and the
  OD octets of the following ISDU M-sequences, whatever their number of octets, are a
  request with a correct CHKPDU for exactly the Index and Subindex of the call; the engine
  then waits for the response.
\<close>

theorem read_request_delivered:
  assumes "stack_constants_ok L" and "isdu_wf L (st_isdu p)" and "isdu_service_state p"
    and "isdu_op (st_isdu p) = ISDU_OP_NONE" and "0 < n"
  shows "ensures (iolink_master_read_isdu L index subindex data len p)
    (\<lambda>(ret, _, _, p'). ret = STATUS_PENDING \<and>
       ensures (delivered_request L n (st_isdu p'))
         (\<lambda>(octets, isdu'). parse_request octets = Some (Isdu_Request True index subindex []) \<and>
            isdu_phase isdu' = ISDU_PHASE_WAIT \<and> isdu_op isdu' = ISDU_OP_READ \<and> isdu_wf L isdu'))"
  using read_started [OF assms(1-4), of index subindex data len]
    started_delivered [OF assms(1,5), of True index subindex "[]"]
  by (force simp: iolink_master_isdu_matches_def elim!: ensures_mono)

theorem read_request_delivered_witness:
  "ensures (iolink_master_read_isdu demo_stack 0x10 0 (replicate 8 0) 8
      ((zero_port demo_stack :: unit iolink_master_port_state_t)\<lparr>st_state := STATE_OPERATE\<rparr>))
    (\<lambda>(ret, _, _, p'). ret = STATUS_PENDING \<and>
       ensures (delivered_request demo_stack 2 (st_isdu p'))
         (\<lambda>(octets, isdu'). parse_request octets = Some (Isdu_Request True 0x10 0 []) \<and>
            isdu_phase isdu' = ISDU_PHASE_WAIT \<and> isdu_op isdu' = ISDU_OP_READ \<and>
            isdu_wf demo_stack isdu'))"
  by (rule read_request_delivered [OF demo_stack_constants])
    (simp_all add: isdu_wf_zero isdu_service_state_def zero_port_def zero_isdu_def isdu_wf_def)

text \<open>
  A write service of an accepted length reaches the device: the device receives the
  Index, the Subindex and the payload of the call, with a correct CHKPDU and a length that
  fits the request buffer.
\<close>

theorem write_request_delivered:
  assumes "stack_constants_ok L" and "isdu_wf L (st_isdu p)" and "isdu_service_state p"
    and "isdu_op (st_isdu p) = ISDU_OP_NONE" and "0 < n" and "length payload < 256"
    and "write_accepted L index subindex (length payload)"
  shows "ensures (iolink_master_write_isdu L index subindex (Some (payload @ unread)) (length payload) p)
    (\<lambda>(ret, p'). ret = STATUS_PENDING \<and>
       ensures (delivered_request L n (st_isdu p'))
         (\<lambda>(octets, isdu'). parse_request octets = Some (Isdu_Request False index subindex payload) \<and>
            isdu_phase isdu' = ISDU_PHASE_WAIT \<and> isdu_op isdu' = ISDU_OP_WRITE \<and> isdu_wf L isdu'))"
  using write_started [OF assms(1-4,6,7), of unread] started_delivered [OF assms(1,5), of False index subindex payload]
  by (force simp: iolink_master_isdu_matches_def elim!: ensures_mono)

theorem write_request_delivered_witness:
  "ensures (iolink_master_write_isdu demo_stack 0x18 0 (Some ([1, 2, 3] @ [9])) (length [1::u8, 2, 3])
      ((zero_port demo_stack :: unit iolink_master_port_state_t)\<lparr>st_state := STATE_OPERATE\<rparr>))
    (\<lambda>(ret, p'). ret = STATUS_PENDING \<and>
       ensures (delivered_request demo_stack 2 (st_isdu p'))
         (\<lambda>(octets, isdu'). parse_request octets = Some (Isdu_Request False 0x18 0 [1, 2, 3]) \<and>
            isdu_phase isdu' = ISDU_PHASE_WAIT \<and> isdu_op isdu' = ISDU_OP_WRITE \<and>
            isdu_wf demo_stack isdu'))"
  by (rule write_request_delivered [OF demo_stack_constants])
    (simp_all add: isdu_wf_zero isdu_service_state_def zero_port_def zero_isdu_def isdu_wf_def
      write_accepted_def demo_stack_def iolink_master_isdu_index_len_def)

end
