(* ===== verification/MasterEvents.thy ===== *)
theory MasterEvents
  imports MasterIsdu
begin

text \<open>
  The event engine of \<open>src/master_isdu.c\<close> (lines 764-1055): the readout of the event memory
  of a device over the diagnosis channel (StatusCode, then three octets for each of the six
  slots), the acknowledgement, and the services that report the events to the application.

  \<open>event_image\<close> and \<open>decode_events\<close> are the abstract reading of the memory; the engine
  collects the image from OD octets in any segmentation and the services report exactly its
  active slots.
\<close>

subsection \<open>The engine\<close>

definition iolink_master_event_finish ::
  "int \<Rightarrow> iolink_master_event_state_t \<Rightarrow> iolink_master_event_state_t" where
  "iolink_master_event_finish result ev =
     ev\<lparr>ev_result := result, ev_phase := EVENT_PHASE_NONE, ev_od_expected := False\<rparr>"

definition iolink_master_event_start ::
  "iolink_master_event_req_t \<Rightarrow> iolink_master_event_state_t \<Rightarrow> iolink_master_event_state_t" where
  "iolink_master_event_start request ev =
     zero_event\<lparr>ev_request := request, ev_phase := EVENT_PHASE_READ, ev_addr := 0, ev_needed := 1,
       ev_result := STATUS_PENDING\<rparr>"

text \<open>\<open>Some (read, addr, od_len)\<close> is the result \<open>true\<close> with its outputs.\<close>

definition iolink_master_event_channel_access ::
  "'e iolink_master_port_state_t \<Rightarrow> (bool \<times> nat \<times> nat) option" where
  "iolink_master_event_channel_access p =
     (let ev = st_event p
      in if ev_phase ev = EVENT_PHASE_NONE then None
         else Some (ev_phase ev = EVENT_PHASE_READ, ev_addr ev, st_od_len p))"

definition slot_active :: "u8 \<Rightarrow> nat \<Rightarrow> bool" where
  "slot_active active slot \<longleftrightarrow> active AND push_bit slot 1 \<noteq> 0"

definition event_last_slot :: "u8 \<Rightarrow> nat" where
  "event_last_slot active =
     foldl (\<lambda>last_slot slot. if slot_active active slot then slot + 1 else last_slot) 0
       [0..<EVENT_SLOT_MAX]"

definition event_store_octet ::
  "u8 \<Rightarrow> iolink_master_event_state_t \<Rightarrow> iolink_master_event_state_t option" where
  "event_store_octet octet ev =
     (if ev_addr ev < EVENT_MEMORY_LEN \<and> ev_len ev < EVENT_MEMORY_LEN
      then do {
        memory \<leftarrow> wr (ev_memory ev) (ev_addr ev) octet;
        Some (ev\<lparr>ev_memory := memory, ev_addr := trunc8 (ev_addr ev + 1),
                 ev_len := trunc8 (ev_len ev + 1)\<rparr>)
      }
      else Some ev)"

definition event_check_status ::
  "iolink_master_event_state_t \<Rightarrow> iolink_master_event_state_t option" where
  "event_check_status ev =
     (if \<not> ev_status_seen ev \<and> ev_len ev \<ge> 1
      then do {
        status \<leftarrow> rd (ev_memory ev) 0;
        let active = status AND 0x3F;
        let ev = ev\<lparr>ev_status_seen := True, ev_last_slot := event_last_slot active\<rparr>;
        Some (ev\<lparr>ev_needed := if ev_last_slot ev = 0 then 1
                             else trunc8 (EVENT_ENTRY_LEN * ev_last_slot ev + 1)\<rparr>)
      }
      else Some ev)"

fun event_od_loop ::
  "u8 list \<Rightarrow> iolink_master_event_state_t \<Rightarrow> iolink_master_event_state_t option" where
  "event_od_loop [] ev = Some ev"
| "event_od_loop (octet # od) ev = do {
     ev \<leftarrow> event_store_octet octet ev;
     ev \<leftarrow> event_check_status ev;
     event_od_loop od ev
   }"

definition iolink_master_event_on_od ::
  "u8 list \<Rightarrow> iolink_master_event_state_t \<Rightarrow> iolink_master_event_state_t option" where
  "iolink_master_event_on_od od ev =
     (if ev_phase ev \<noteq> EVENT_PHASE_READ then Some ev
      else do {
        ev \<leftarrow> event_od_loop od ev;
        Some (if ev_status_seen ev \<and> ev_len ev \<ge> ev_needed ev \<and> ev_len ev \<ge> 1
              then if ev_request ev = EVENT_REQ_ACK
                   then ev\<lparr>ev_phase := EVENT_PHASE_WRITE, ev_addr := 0\<rparr>
                   else iolink_master_event_finish STATUS_OK ev
              else ev)
      })"

definition iolink_master_event_on_written ::
  "iolink_master_event_state_t \<Rightarrow> iolink_master_event_state_t" where
  "iolink_master_event_on_written ev =
     (if ev_phase ev = EVENT_PHASE_WRITE then iolink_master_event_finish STATUS_OK ev else ev)"

definition iolink_master_event_complete :: "iolink_master_event_state_t \<Rightarrow> bool" where
  "iolink_master_event_complete ev \<longleftrightarrow>
     ev_phase ev = EVENT_PHASE_NONE \<and> ev_request ev \<noteq> EVENT_REQ_NONE"

subsection \<open>The services\<close>

fun event_first_code_loop :: "u8 list \<Rightarrow> u8 \<Rightarrow> nat list \<Rightarrow> u16 option" where
  "event_first_code_loop memory active [] = Some 0"
| "event_first_code_loop memory active (slot # slots) =
     (if slot_active active slot
      then do {
        let base = trunc8 (1 + EVENT_ENTRY_LEN * slot);
        hi \<leftarrow> rd memory (trunc8 (base + 1));
        lo \<leftarrow> rd memory (trunc8 (base + 2));
        Some (u16_of_octets hi lo)
      }
      else event_first_code_loop memory active slots)"

definition iolink_master_event_first_code :: "u8 list \<Rightarrow> u16 option" where
  "iolink_master_event_first_code memory = do {
     status \<leftarrow> rd memory 0;
     event_first_code_loop memory (status AND 0x3F) [0..<EVENT_SLOT_MAX]
   }"

text \<open>
  The first part of both \<open>iolink_master_read_event_code\<close> and \<open>iolink_master_ack_event\<close>, and of
  \<open>iolink_master_read_event_details\<close>: \<open>Inl\<close> is an early return.
\<close>

definition event_service_entry ::
  "iolink_master_event_req_t \<Rightarrow> 'e iolink_master_port_state_t \<Rightarrow>
   (int \<times> 'e iolink_master_port_state_t) + unit" where
  "event_service_entry request p =
     (if \<not> isdu_service_state p then Inl (ISDU_ERR_INVALID_STATE, p)
      else if ev_phase (st_event p) \<noteq> EVENT_PHASE_NONE then Inl (STATUS_PENDING, p)
      else if \<not> iolink_master_event_complete (st_event p)
      then Inl (STATUS_PENDING,
                p\<lparr>st_event := iolink_master_event_start request (st_event p)\<rparr>)
      else Inr ())"

definition event_consumed :: "'e iolink_master_port_state_t \<Rightarrow> 'e iolink_master_port_state_t" where
  "event_consumed p = p\<lparr>st_event := (st_event p)\<lparr>ev_request := EVENT_REQ_NONE\<rparr>\<rparr>"

text \<open>The result is \<open>(ret, *event_code, port)\<close>.\<close>

definition iolink_master_read_event_code ::
  "u16 \<Rightarrow> 'e iolink_master_port_state_t \<Rightarrow> (int \<times> u16 \<times> 'e iolink_master_port_state_t) option"
where
  "iolink_master_read_event_code event_code p =
     (case event_service_entry EVENT_REQ_CODE p of
        Inl (ret, p) \<Rightarrow> Some (ret, event_code, p)
      | Inr _ \<Rightarrow> do {
          code \<leftarrow> iolink_master_event_first_code (ev_memory (st_event p));
          let p = p\<lparr>st_diagnostics := (st_diagnostics p)\<lparr>dg_last_event_code := code\<rparr>\<rparr>;
          let p = (if ev_last_slot (st_event p) \<ge> 1
                   then p\<lparr>st_diagnostics := (st_diagnostics p)\<lparr>dg_last_event_count := 1\<rparr>\<rparr>
                   else p);
          Some (STATUS_OK, code, event_consumed p)
        })"

definition iolink_master_ack_event ::
  "u16 \<Rightarrow> 'e iolink_master_port_state_t \<Rightarrow> (int \<times> u16 \<times> 'e iolink_master_port_state_t) option"
where
  "iolink_master_ack_event event_code p =
     (case event_service_entry EVENT_REQ_ACK p of
        Inl (ret, p) \<Rightarrow> Some (ret, event_code, p)
      | Inr _ \<Rightarrow> do {
          code \<leftarrow> iolink_master_event_first_code (ev_memory (st_event p));
          let p = p\<lparr>st_diagnostics := (st_diagnostics p)\<lparr>dg_last_event_code := code\<rparr>\<rparr>;
          Some (STATUS_OK, code, event_consumed p)
        })"

definition iolink_master_event_type_from_qualifier :: "u8 \<Rightarrow> iolink_master_event_type_t" where
  "iolink_master_event_type_from_qualifier qualifier =
     (let mode = drop_bit EVENT_QUALIFIER_MODE_SHIFT qualifier AND EVENT_QUALIFIER_MODE_MASK
      in if mode = EVENT_MODE_NOTIFICATION then EVENT_TYPE_NOTIFICATION
         else if mode = EVENT_MODE_WARNING then EVENT_TYPE_WARNING
         else if mode = EVENT_MODE_ERROR then EVENT_TYPE_ERROR
         else EVENT_TYPE_UNKNOWN)"

fun event_details_loop ::
  "u8 list \<Rightarrow> u8 \<Rightarrow> nat \<Rightarrow> nat list \<Rightarrow> nat \<Rightarrow> iolink_master_event_t list \<Rightarrow>
   (nat \<times> iolink_master_event_t list) option" where
  "event_details_loop memory active max_events [] count events = Some (count, events)"
| "event_details_loop memory active max_events (slot # slots) count events =
     (if \<not> slot_active active slot
      then event_details_loop memory active max_events slots count events
      else do {
        let base = trunc8 (1 + EVENT_ENTRY_LEN * slot);
        qualifier \<leftarrow> rd memory base;
        hi \<leftarrow> rd memory (trunc8 (base + 1));
        lo \<leftarrow> rd memory (trunc8 (base + 2));
        events \<leftarrow> wr events count
          \<lparr>evt_qualifier = qualifier,
           evt_type = iolink_master_event_type_from_qualifier qualifier,
           evt_code = u16_of_octets hi lo\<rparr>;
        let count = trunc8 (count + 1);
        if count \<ge> max_events then Some (count, events)
        else event_details_loop memory active max_events slots count events
      })"

text \<open>The calls of the event handler, in order.\<close>

definition dispatch_events ::
  "(iolink_master_event_t \<Rightarrow> 'e \<Rightarrow> 'e) option \<Rightarrow> iolink_master_event_t list \<Rightarrow> 'e \<Rightarrow> 'e" where
  "dispatch_events handler events e =
     (case handler of None \<Rightarrow> e | Some h \<Rightarrow> foldl (\<lambda>e event. h event e) e events)"

text \<open>The result is \<open>(ret, events, *out_count, port, environment)\<close>.\<close>

definition iolink_master_read_event_details ::
  "iolink_master_event_t list \<Rightarrow> nat \<Rightarrow> nat \<Rightarrow> 'e iolink_master_port_state_t \<Rightarrow> 'e \<Rightarrow>
   (int \<times> iolink_master_event_t list \<times> nat \<times> 'e iolink_master_port_state_t \<times> 'e) option" where
  "iolink_master_read_event_details events max_events out_count p e =
     (case event_service_entry EVENT_REQ_DETAILS p of
        Inl (ret, p) \<Rightarrow> Some (ret, events, out_count, p, e)
      | Inr _ \<Rightarrow> do {
          status \<leftarrow> rd (ev_memory (st_event p)) 0;
          (count, events) \<leftarrow> event_details_loop (ev_memory (st_event p)) (status AND 0x3F)
             max_events [0..<EVENT_SLOT_MAX] 0 events;
          last_code \<leftarrow> (if count > 0 then map_option evt_code (rd events (count - 1)) else Some 0);
          let p = p\<lparr>st_diagnostics := (st_diagnostics p)
                     \<lparr>dg_last_event_count := count, dg_last_event_code := last_code\<rparr>\<rparr>;
          reported \<leftarrow> rd_slice events 0 count;
          let e = dispatch_events (cfg_event_handler (st_config p)) reported e;
          Some (STATUS_OK, events, count, event_consumed p, e)
        })"

subsection \<open>The abstract event memory\<close>

text \<open>Slots of the event memory image, as the address table lays them out.\<close>

definition active_slots :: "u8 \<Rightarrow> nat list" where
  "active_slots status = filter (\<lambda>slot. bit status slot) [0..<6]"

definition event_at :: "u8 list \<Rightarrow> nat \<Rightarrow> iolink_master_event_t" where
  "event_at img slot =
     \<lparr>evt_qualifier = img ! (3 * slot + 1),
      evt_type = iolink_master_event_type_from_qualifier (img ! (3 * slot + 1)),
      evt_code = u16_of_octets (img ! (3 * slot + 2)) (img ! (3 * slot + 3))\<rparr>"

definition decode_events :: "u8 list \<Rightarrow> iolink_master_event_t list" where
  "decode_events img = map (event_at img) (active_slots (img ! 0))"

definition event_image_len :: "u8 \<Rightarrow> nat" where
  "event_image_len status =
     (if active_slots status = [] then 1 else 3 * (last (active_slots status) + 1) + 1)"

text \<open>A complete image: it ends with the last active slot.\<close>

definition event_image :: "u8 list \<Rightarrow> bool" where
  "event_image img \<longleftrightarrow> img \<noteq> [] \<and> length img = event_image_len (img ! 0)"

lemma slot_active_bit: "slot < 6 \<Longrightarrow> slot_active (status AND 0x3F) slot \<longleftrightarrow> bit status slot"
proof -
  assume "slot < 6"
  then have "slot \<in> {0, 1, 2, 3, 4, 5}" by auto
  moreover have "bit (63::u8) slot" using \<open>slot < 6\<close> calculation by (auto simp: bit_iff_odd_drop_bit)
  ultimately show ?thesis
    using \<open>slot < 6\<close> by (simp add: slot_active_def and_exp_eq_0_iff_not_bit bit_and_iff push_bit_of_1)
qed

lemma six_slots: "[0..<6] = [0, 1, 2, 3, 4, 5 :: nat]"
  by (simp add: upt_conv_Cons)

lemma last_slot_eq:
  "event_last_slot (status AND 0x3F) =
     (if active_slots status = [] then 0 else last (active_slots status) + 1)"
  using slot_active_bit [of 0 status] slot_active_bit [of 1 status] slot_active_bit [of 2 status]
    slot_active_bit [of 3 status] slot_active_bit [of 4 status] slot_active_bit [of 5 status]
  by (simp add: event_last_slot_def active_slots_def six_slots)

lemma active_slots_bound: "slot \<in> set (active_slots status) \<Longrightarrow> slot < 6"
  by (simp add: active_slots_def)

lemma active_slots_last: "active_slots status \<noteq> [] \<Longrightarrow> slot \<in> set (active_slots status) \<Longrightarrow>
  slot \<le> last (active_slots status)"
  unfolding active_slots_def six_slots by (auto split: if_splits)

lemma event_image_len_bounds: "1 \<le> event_image_len status" "event_image_len status \<le> 19"
  using active_slots_bound [OF last_in_set, of status] by (auto simp: event_image_len_def)

lemma needed_eq:
  "(if event_last_slot (status AND 0x3F) = 0 then 1
    else trunc8 (EVENT_ENTRY_LEN * event_last_slot (status AND 0x3F) + 1)) = event_image_len status"
  using active_slots_bound [OF last_in_set, of status]
  by (auto simp: last_slot_eq event_image_len_def)


subsection \<open>Collection of the image\<close>

text \<open>The state of a readout that has received the octets \<open>xs\<close>.\<close>

definition event_collecting ::
  "iolink_master_event_req_t \<Rightarrow> bool \<Rightarrow> u8 list \<Rightarrow> iolink_master_event_state_t" where
  "event_collecting request od_expected xs =
     \<lparr>ev_phase = EVENT_PHASE_READ, ev_request = request, ev_addr = length xs,
      ev_needed = (if xs = [] then 1 else event_image_len (xs ! 0)),
      ev_memory = xs @ replicate (19 - length xs) 0, ev_len = length xs,
      ev_last_slot = (if xs = [] then 0 else event_last_slot (xs ! 0 AND 0x3F)),
      ev_status_seen = (xs \<noteq> []), ev_od_expected = od_expected, ev_result = STATUS_PENDING\<rparr>"

lemma event_start_collecting: "iolink_master_event_start request ev = event_collecting request False []"
  by (simp add: iolink_master_event_start_def event_collecting_def zero_event_def)

lemma event_octet_collecting:
  assumes "length xs \<le> 19"
  shows "Option.bind (event_store_octet octet (event_collecting request flag xs)) event_check_status =
    Some (event_collecting request flag (take 19 (xs @ [octet])))"
proof (cases "length xs = 19")
  case True
  then have "xs \<noteq> []" by auto
  then show ?thesis
    using True by (simp add: event_store_octet_def event_check_status_def event_collecting_def)
next
  case False
  then have short: "length xs < 19" using assms by simp
  have "wr (xs @ replicate (19 - length xs) 0) (length xs) octet =
      Some (xs @ octet # replicate (19 - Suc (length xs)) 0)"
    using short wr_append [of "replicate (19 - length xs) 0" xs octet] by simp
  then have store: "event_store_octet octet (event_collecting request flag xs) =
    Some ((event_collecting request flag xs)
      \<lparr>ev_memory := xs @ octet # replicate (19 - Suc (length xs)) 0,
       ev_addr := length xs + 1, ev_len := length xs + 1\<rparr>)"
    using short by (simp add: event_store_octet_def event_collecting_def)
  show ?thesis
  proof (cases "xs = []")
    case True
    then show ?thesis
      unfolding store bind.bind_lunit
      using needed_eq [of octet]
      by (auto simp: event_check_status_def event_collecting_def rd_def Let_def split: if_splits)
  next
    case False
    have "take 19 (xs @ [octet]) = xs @ [octet]" using short by simp
    then show ?thesis
      unfolding store bind.bind_lunit using False
      by (simp add: event_check_status_def event_collecting_def nth_append)
  qed
qed

lemma event_od_loop_collecting:
  "length xs \<le> 19 \<Longrightarrow> event_od_loop od (event_collecting request flag xs) =
     Some (event_collecting request flag (take 19 (xs @ od)))"
proof (induction od arbitrary: xs)
  case Nil
  then show ?case by simp
next
  case (Cons octet od)
  have "event_od_loop (octet # od) (event_collecting request flag xs) =
    do { ev \<leftarrow> Option.bind (event_store_octet octet (event_collecting request flag xs)) event_check_status;
         event_od_loop od ev }"
    by simp
  also have "\<dots> = Some (event_collecting request flag (take 19 (take 19 (xs @ [octet]) @ od)))"
    unfolding event_octet_collecting [OF Cons.prems] using Cons.IH [of "take 19 (xs @ [octet])"]
    by simp
  also have "take 19 (take 19 (xs @ [octet]) @ od) = take 19 (xs @ octet # od)"
    using Cons.prems by (cases "length xs = 19") (simp_all add: take_Cons')
  finally show ?case .
qed

lemma event_collecting_simps:
  "ev_phase (event_collecting request flag xs) = EVENT_PHASE_READ"
  "ev_request (event_collecting request flag xs) = request"
  "ev_len (event_collecting request flag xs) = length xs"
  "ev_needed (event_collecting request flag xs) = (if xs = [] then 1 else event_image_len (xs ! 0))"
  "ev_status_seen (event_collecting request flag xs) = (xs \<noteq> [])"
  by (simp_all add: event_collecting_def)

lemma event_on_od_collecting:
  assumes "length xs \<le> 19" and ys_def: "ys = take 19 (xs @ od)"
  shows "iolink_master_event_on_od od (event_collecting request flag xs) = Some
    (if ys \<noteq> [] \<and> event_image_len (ys ! 0) \<le> length ys
     then if request = EVENT_REQ_ACK
          then (event_collecting request flag ys)\<lparr>ev_phase := EVENT_PHASE_WRITE, ev_addr := 0\<rparr>
          else iolink_master_event_finish STATUS_OK (event_collecting request flag ys)
     else event_collecting request flag ys)"
  unfolding iolink_master_event_on_od_def event_od_loop_collecting [OF assms(1)] bind.bind_lunit
    ys_def [symmetric]
  by (cases "ys = []") (simp_all add: event_collecting_simps Suc_le_eq)

subsection \<open>Correctness of the readout\<close>

text \<open>A finished readout whose memory starts with the image.\<close>

definition event_readout_done ::
  "iolink_master_event_req_t \<Rightarrow> u8 list \<Rightarrow> iolink_master_event_state_t \<Rightarrow> bool" where
  "event_readout_done request img ev \<longleftrightarrow>
     ev_request ev = request \<and> length (ev_memory ev) = 19 \<and>
     take (length img) (ev_memory ev) = img \<and>
     ev_last_slot ev = event_last_slot (img ! 0 AND 0x3F) \<and>
     (if request = EVENT_REQ_ACK then ev_phase ev = EVENT_PHASE_WRITE \<and> ev_addr ev = 0
      else ev_phase ev = EVENT_PHASE_NONE \<and> ev_result ev = STATUS_OK)"

lemma feed_event_done:
  "event_readout_done request img ev \<Longrightarrow> feed iolink_master_event_on_od segs ev = Some ev"
proof -
  assume "event_readout_done request img ev"
  then have "ev_phase ev \<noteq> EVENT_PHASE_READ"
    by (cases "request = EVENT_REQ_ACK") (simp_all add: event_readout_done_def)
  then show ?thesis
    by (induction segs) (simp_all add: iolink_master_event_on_od_def)
qed

lemma collecting_done:
  assumes "event_image img" and "length img \<le> length ys" "length ys \<le> 19" "take (length img) ys = img"
  shows "event_readout_done request img (if request = EVENT_REQ_ACK
      then (event_collecting request flag ys)\<lparr>ev_phase := EVENT_PHASE_WRITE, ev_addr := 0\<rparr>
      else iolink_master_event_finish STATUS_OK (event_collecting request flag ys))"
    and "ys \<noteq> [] \<and> event_image_len (ys ! 0) \<le> length ys"
proof -
  have "img \<noteq> []" using assms(1) by (simp add: event_image_def)
  then have "ys ! 0 = img ! 0" "ys \<noteq> []"
    using assms(2,4) by (metis length_greater_0_conv nth_take, auto)
  then show "event_readout_done request img (if request = EVENT_REQ_ACK
      then (event_collecting request flag ys)\<lparr>ev_phase := EVENT_PHASE_WRITE, ev_addr := 0\<rparr>
      else iolink_master_event_finish STATUS_OK (event_collecting request flag ys))"
    and "ys \<noteq> [] \<and> event_image_len (ys ! 0) \<le> length ys"
    using assms
    by (simp_all add: event_readout_done_def event_collecting_def iolink_master_event_finish_def
        event_image_def)
qed

text \<open>One reply: the readout is finished, or it goes on behind its octets.\<close>

lemma collecting_step:
  assumes "event_image img" and "length xs < length img" and all: "(xs @ od) @ rest = img @ trailing"
  shows "length img \<le> length (xs @ od) \<Longrightarrow>
      ensures (iolink_master_event_on_od od (event_collecting request flag xs)) (event_readout_done request img)"
    and "\<not> length img \<le> length (xs @ od) \<Longrightarrow>
      iolink_master_event_on_od od (event_collecting request flag xs) = Some (event_collecting request flag (xs @ od))"
proof -
  have limit: "length img \<le> 19" "img \<noteq> []" "length img = event_image_len (img ! 0)"
    using assms(1) event_image_len_bounds by (auto simp: event_image_def)
  define ys where "ys = take 19 (xs @ od)"
  have step: "iolink_master_event_on_od od (event_collecting request flag xs) = Some
    (if ys \<noteq> [] \<and> event_image_len (ys ! 0) \<le> length ys
     then if request = EVENT_REQ_ACK
          then (event_collecting request flag ys)\<lparr>ev_phase := EVENT_PHASE_WRITE, ev_addr := 0\<rparr>
          else iolink_master_event_finish STATUS_OK (event_collecting request flag ys)
     else event_collecting request flag ys)"
    using assms(2) limit by (intro event_on_od_collecting) (simp_all add: ys_def)
  show "ensures (iolink_master_event_on_od od (event_collecting request flag xs)) (event_readout_done request img)"
    if long: "length img \<le> length (xs @ od)"
  proof -
    have "take (length img) ys = take (length img) (xs @ od)"
      using limit by (simp add: ys_def min_def)
    also have "\<dots> = take (length img) ((xs @ od) @ rest)"
      using long by (simp only: take_append) simp
    finally have "take (length img) ys = img" by (simp only: all) simp
    moreover have "length img \<le> length ys" "length ys \<le> 19" using long limit by (simp_all add: ys_def)
    ultimately have ys: "length img \<le> length ys" "length ys \<le> 19" "take (length img) ys = img"
      by simp_all
    show ?thesis
      unfolding step if_P [OF collecting_done(2) [OF assms(1) ys]] ensures_Some
      by (rule collecting_done(1) [OF assms(1) ys])
  qed
  show "iolink_master_event_on_od od (event_collecting request flag xs) = Some (event_collecting request flag (xs @ od))"
    if "\<not> length img \<le> length (xs @ od)"
  proof -
    have short: "length (xs @ od) < length img" using that by simp
    then have ys: "ys = xs @ od" using limit by (simp add: ys_def)
    have "xs @ od = take (length (xs @ od)) ((xs @ od) @ rest)" by simp
    then have prefix: "xs @ od = take (length (xs @ od)) img" unfolding all using short by simp
    have "\<not> (ys \<noteq> [] \<and> event_image_len (ys ! 0) \<le> length ys)"
    proof
      assume bad: "ys \<noteq> [] \<and> event_image_len (ys ! 0) \<le> length ys"
      then have "ys ! 0 = img ! 0"
        using prefix unfolding ys by (metis length_greater_0_conv nth_take)
      with bad short limit ys show False by simp
    qed
    then show ?thesis unfolding step ys [symmetric] by (simp only: if_False)
  qed
qed

lemma feed_event_collecting:
  assumes "event_image img" and "length xs < length img" and "xs @ concat segs = img @ trailing"
  shows "ensures (feed iolink_master_event_on_od segs (event_collecting request flag xs))
    (event_readout_done request img)"
  using assms(2,3)
proof (induction segs arbitrary: xs)
  case Nil
  then have "length xs = length img + length trailing" by (metis append_Nil2 concat.simps(1) length_append)
  with Nil show ?case by simp
next
  case (Cons seg segs)
  then have all: "(xs @ seg) @ concat segs = img @ trailing" by simp
  note step = collecting_step [OF assms(1) Cons.prems(1) all, of request flag]
  show ?case
  proof (cases "length img \<le> length (xs @ seg)")
    case True
    from step(1) [OF this] show ?thesis by (auto simp: feed_event_done elim!: ensuresE)
  next
    case False
    with step(2) [OF this] Cons.IH [of "xs @ seg"] all show ?thesis by simp
  qed
qed

lemma nth_prefix: "take (length img) memory = img \<Longrightarrow> i < length img \<Longrightarrow> memory ! i = img ! i"
  by (metis nth_take)

lemma slot_in_image:
  assumes "event_image img" and "slot \<in> set (active_slots (img ! 0))"
  shows "3 * slot + 3 < length img"
  using active_slots_last [of "img ! 0" slot] assms by (auto simp: event_image_def event_image_len_def)

lemma event_at_memory:
  assumes "event_image img" "slot \<in> set (active_slots (img ! 0))"
    and "take (length img) memory = img" "length img \<le> length memory"
  shows "rd memory (trunc8 (1 + EVENT_ENTRY_LEN * slot)) = Some (evt_qualifier (event_at img slot))"
    and "rd memory (trunc8 (trunc8 (1 + EVENT_ENTRY_LEN * slot) + 1)) = Some (img ! (3 * slot + 2))"
    and "rd memory (trunc8 (trunc8 (1 + EVENT_ENTRY_LEN * slot) + 2)) = Some (img ! (3 * slot + 3))"
  using slot_in_image [OF assms(1,2)] active_slots_bound [OF assms(2)] assms(4)
    nth_prefix [OF assms(3)]
  by (simp_all add: rd_def event_at_def numeral_3_eq_3)

lemma event_details_loop_eq:
  assumes img: "event_image img" "take (length img) memory = img" "length img \<le> length memory"
    and slots: "set slots \<subseteq> {0..<6}" and "count < max_events" "max_events < 256"
    and act: "filter (bit (img ! 0)) slots = act"
    and room: "count + min (max_events - count) (length act) \<le> length events"
  shows "event_details_loop memory (img ! 0 AND 0x3F) max_events slots count events =
    (let n = min (max_events - count) (length act)
     in Some (count + n, take count events @ take n (map (event_at img) act) @ drop (count + n) events))"
  using slots assms(5,7,8)
proof (induction slots arbitrary: count events act)
  case Nil
  then show ?case by simp
next
  case (Cons slot slots)
  have bit: "slot_active (img ! 0 AND 0x3F) slot = bit (img ! 0) slot"
    using Cons.prems(1) by (intro slot_active_bit) simp
  show ?case
  proof (cases "bit (img ! 0) slot")
    case False
    then show ?thesis using Cons bit by simp
  next
    case True
    define act' where "act' = filter (bit (img ! 0)) slots"
    have act': "act = slot # act'" using Cons.prems(3) True by (simp add: act'_def)
    have "slot \<in> set (active_slots (img ! 0))"
      using True Cons.prems(1) by (simp add: active_slots_def)
    note at = event_at_memory [OF img(1) this img(2,3)]
    have event: "\<lparr>evt_qualifier = evt_qualifier (event_at img slot),
        evt_type = iolink_master_event_type_from_qualifier (evt_qualifier (event_at img slot)),
        evt_code = u16_of_octets (img ! (3 * slot + 2)) (img ! (3 * slot + 3))\<rparr> = event_at img slot"
      by (simp add: event_at_def)
    have count: "count < length events" using Cons.prems(2,4) act' by simp
    define events' where "events' = events[count := event_at img slot]"
    have stored: "wr events count (event_at img slot) = Some events'"
      using count by (simp add: wr_def events'_def)
    have small: "trunc8 (count + 1) = count + 1" using Cons.prems(2) assms(6) by simp
    have step: "event_details_loop memory (img ! 0 AND 0x3F) max_events (slot # slots) count events =
      (if count + 1 \<ge> max_events then Some (count + 1, events')
       else event_details_loop memory (img ! 0 AND 0x3F) max_events slots (count + 1) events')"
      using bit True stored small
      by (simp only: event_details_loop.simps at event Let_def bind.bind_lunit not_True_eq_False
          if_False)
    have take': "take (Suc count) events' = take count events @ [event_at img slot]"
      using count by (simp add: events'_def take_Suc_conv_app_nth)
    have drop': "drop (Suc count + k) events' = drop (Suc count + k) events" for k
      by (simp add: events'_def)
    have length': "length events' = length events" by (simp add: events'_def)
    show ?thesis
    proof (cases "count + 1 \<ge> max_events")
      case True
      then have "max_events - count = 1" using Cons.prems(2) by simp
      moreover have "events' = take (Suc count) events' @ drop (Suc count) events'" by simp
      ultimately show ?thesis
        unfolding step using True act' take' drop' [of 0] by (simp add: min_def)
    next
      case False
      then have "min (max_events - count) (length act) = Suc (min (max_events - Suc count) (length act'))"
      proof -
        have "max_events - count = Suc (max_events - Suc count)" using False by simp
        then show ?thesis by (simp add: act')
      qed
      with False Cons.IH [of "Suc count" act' events'] Cons.prems take' drop' length' show ?thesis
        unfolding step by (simp add: act' act'_def [symmetric] Let_def)
    qed
  qed
qed


lemma event_details_complete:
  assumes "isdu_service_state p" and "ev_phase (st_event p) = EVENT_PHASE_NONE"
    and "event_readout_done EVENT_REQ_DETAILS img (st_event p)" and img: "event_image img"
    and "0 < max_events" "max_events < 256"
    and "min max_events (length (decode_events img)) \<le> length events"
  defines "reported \<equiv> take max_events (decode_events img)"
  shows "ensures (iolink_master_read_event_details events max_events out_count p e)
    (\<lambda>(ret, events', count, p', e'). ret = STATUS_OK \<and> count = length reported \<and>
       take count events' = reported \<and>
       e' = dispatch_events (cfg_event_handler (st_config p)) reported e \<and>
       ev_request (st_event p') = EVENT_REQ_NONE)"
proof -
  define memory where "memory = ev_memory (st_event p)"
  define n where "n = min max_events (length (decode_events img))"
  have m: "take (length img) memory = img" "length memory = 19"
    using assms(3) by (simp_all add: event_readout_done_def memory_def)
  have "length img \<le> length memory" "img \<noteq> []"
    using img event_image_len_bounds m by (auto simp: event_image_def)
  moreover have "rd memory 0 = Some (img ! 0)"
    using nth_prefix [OF m(1), of 0] m(2) \<open>img \<noteq> []\<close> by (simp add: rd_def)
  moreover have "event_service_entry EVENT_REQ_DETAILS p = Inr ()"
    using assms(1,2,3)
    by (simp add: event_service_entry_def iolink_master_event_complete_def event_readout_done_def)
  moreover have "event_details_loop memory (img ! 0 AND 0x3F) max_events [0..<6] 0 events =
      Some (n, take n (decode_events img) @ drop n events)"
    using event_details_loop_eq [OF img m(1) \<open>length img \<le> length memory\<close>, of "[0..<6]" 0 max_events
        "active_slots (img ! 0)" events] assms(5-7)
    by (simp add: active_slots_def n_def decode_events_def atLeast0LessThan Let_def)
  moreover have "length (take n (decode_events img)) = n" "reported = take n (decode_events img)"
    "length reported = n" "n \<le> length (take n (decode_events img) @ drop n events)"
    by (simp_all add: n_def reported_def min_def)
  moreover have "n - 1 < n + (length events - n)" if "0 < n" using that by linarith
  ultimately show ?thesis
    by (auto simp: iolink_master_read_event_details_def memory_def [symmetric] rd_def rd_slice_def
        event_consumed_def ensures_simps)
qed

text \<open>A readout of the event details, up to the capacity of the caller.\<close>

lemma event_details_readout:
  assumes "isdu_service_state p" and "ev_phase (st_event p) = EVENT_PHASE_NONE"
    and "ev_request (st_event p) = EVENT_REQ_NONE"
    and "event_image img" and "concat segs = img @ trailing"
    and "0 < max_events" "max_events < 256"
    and "min max_events (length (decode_events img)) \<le> length events"
  shows "ensures (do {
      (ret1, events, n, p, e) \<leftarrow> iolink_master_read_event_details events max_events out_count p e;
      ev \<leftarrow> feed iolink_master_event_on_od segs (st_event p);
      (ret2, events, n, p, e) \<leftarrow>
        iolink_master_read_event_details events max_events n (p\<lparr>st_event := ev\<rparr>) e;
      Some (ret1, ret2, events, n, p, e) })
    (\<lambda>(ret1, ret2, events', count, p', e'). ret1 = STATUS_PENDING \<and> ret2 = STATUS_OK \<and>
       take count events' = take max_events (decode_events img) \<and>
       count = min max_events (length (decode_events img)) \<and>
       e' = dispatch_events (cfg_event_handler (st_config p))
              (take max_events (decode_events img)) e \<and>
       ev_request (st_event p') = EVENT_REQ_NONE)"
proof -
  let ?p = "p\<lparr>st_event := event_collecting EVENT_REQ_DETAILS False []\<rparr>"
  have start: "iolink_master_read_event_details events max_events out_count p e =
      Some (STATUS_PENDING, events, out_count, ?p, e)"
    using assms(1-3)
    by (simp add: iolink_master_read_event_details_def event_service_entry_def
        iolink_master_event_complete_def event_start_collecting)
  have "img \<noteq> []" using assms(4) by (simp add: event_image_def)
  then have "ensures (feed iolink_master_event_on_od segs (event_collecting EVENT_REQ_DETAILS False []))
      (event_readout_done EVENT_REQ_DETAILS img)"
    using feed_event_collecting [OF assms(4), of "[]" segs trailing] assms(5) by simp
  then obtain ev where ev: "feed iolink_master_event_on_od segs (st_event ?p) = Some ev"
      "event_readout_done EVENT_REQ_DETAILS img ev"
    by (auto elim: ensuresE)
  then have "ev_phase ev = EVENT_PHASE_NONE" by (simp add: event_readout_done_def)
  then have "ensures (iolink_master_read_event_details events max_events out_count (?p\<lparr>st_event := ev\<rparr>) e)
    (\<lambda>(ret, events', count, p', e'). ret = STATUS_OK \<and>
       count = length (take max_events (decode_events img)) \<and>
       take count events' = take max_events (decode_events img) \<and>
       e' = dispatch_events (cfg_event_handler (st_config p)) (take max_events (decode_events img)) e \<and>
       ev_request (st_event p') = EVENT_REQ_NONE)"
    using event_details_complete [of "?p\<lparr>st_event := ev\<rparr>" img max_events events out_count e] assms ev
    by (simp add: isdu_service_state_def)
  then show ?thesis
    unfolding start bind.bind_lunit prod.case ev(1)
    by (auto simp: ensures_simps elim!: ensures_mono)
qed

text \<open>
  C14. A complete readout of the event details. The first call starts the readout; once the
  device has returned its event memory, in OD segments of any size and followed by anything,
  the next call of a caller with room for them returns exactly the active slots of that memory,
  in slot order, reports each of them once to the event handler, and leaves the engine ready for
  the next service.
\<close>

theorem event_details_reported:
  assumes "isdu_service_state p" and "ev_phase (st_event p) = EVENT_PHASE_NONE"
    and "ev_request (st_event p) = EVENT_REQ_NONE"
    and "event_image img" and "concat segs = img @ trailing"
    and "0 < max_events" "max_events < 256"
    and "length (decode_events img) \<le> max_events" and "max_events \<le> length events"
  shows "ensures (do {
      (ret1, events, n, p, e) \<leftarrow> iolink_master_read_event_details events max_events out_count p e;
      ev \<leftarrow> feed iolink_master_event_on_od segs (st_event p);
      (ret2, events, n, p, e) \<leftarrow>
        iolink_master_read_event_details events max_events n (p\<lparr>st_event := ev\<rparr>) e;
      Some (ret1, ret2, events, n, p, e) })
    (\<lambda>(ret1, ret2, events', count, p', e'). ret1 = STATUS_PENDING \<and> ret2 = STATUS_OK \<and>
       take count events' = decode_events img \<and> count = length (decode_events img) \<and>
       e' = dispatch_events (cfg_event_handler (st_config p)) (decode_events img) e \<and>
       ev_request (st_event p') = EVENT_REQ_NONE)"
  using event_details_readout [OF assms(1-7), of events out_count e] assms(8,9) by simp

text \<open>Slots 1 and 3 of the memory below are active.\<close>

theorem event_details_reported_witness:
  "ensures (do {
      (ret1, events, n, p, e) \<leftarrow> iolink_master_read_event_details
        (replicate 4 (event_at [0, 0, 0, 0] 0)) 4 0
        ((zero_port demo_stack)\<lparr>st_state := STATE_OPERATE\<rparr>) ();
      ev \<leftarrow> feed iolink_master_event_on_od [[0x85, 0xE4], [0x8C, 0x10, 0, 0], [0, 0xF4, 0x18, 1], [9]]
        (st_event p);
      (ret2, events, n, p, e) \<leftarrow> iolink_master_read_event_details events 4 n (p\<lparr>st_event := ev\<rparr>) e;
      Some (ret1, ret2, events, n, p, e) })
    (\<lambda>(ret1, ret2, events', count, p', e'). ret1 = STATUS_PENDING \<and> ret2 = STATUS_OK \<and>
       map evt_code (take count events') = [0x8C10, 0x1801])"
proof -
  let ?img = "[0x85, 0xE4, 0x8C, 0x10, 0, 0, 0, 0xF4, 0x18, 1]"
  have slots: "active_slots 0x85 = [0, 2]"
    by (simp add: active_slots_def six_slots bit_iff_odd_drop_bit)
  then have img: "event_image ?img" and codes: "map evt_code (decode_events ?img) = [0x8C10, 0x1801]"
    by (simp_all add: event_image_def event_image_len_def decode_events_def event_at_def
        u16_of_octets_def)
  then have len: "length (decode_events ?img) = 2" by (simp add: decode_events_def slots)
  show ?thesis
    by (rule ensures_mono [OF event_details_reported [OF _ _ _ img, where trailing = "[9]" and
            segs = "[[0x85, 0xE4], [0x8C, 0x10, 0, 0], [0, 0xF4, 0x18, 1], [9]]"]])
      (auto simp: zero_port_def zero_event_def isdu_service_state_def len codes)
qed

text \<open>
  C27. Events that do not fit are dropped without an error. A caller with room for fewer events than
  the memory has active slots gets OK, not BUFFER_TOO_SMALL, and the first ones only; neither the
  count nor the event handler tells of the others, and the readout is over.
\<close>

theorem event_details_cut_short:
  assumes "isdu_service_state p" and "ev_phase (st_event p) = EVENT_PHASE_NONE"
    and "ev_request (st_event p) = EVENT_REQ_NONE"
    and "event_image img" and "concat segs = img @ trailing"
    and "0 < max_events" "max_events < 256"
    and "max_events < length (decode_events img)" and "max_events \<le> length events"
  shows "ensures (do {
      (ret1, events, n, p, e) \<leftarrow> iolink_master_read_event_details events max_events out_count p e;
      ev \<leftarrow> feed iolink_master_event_on_od segs (st_event p);
      (ret2, events, n, p, e) \<leftarrow>
        iolink_master_read_event_details events max_events n (p\<lparr>st_event := ev\<rparr>) e;
      Some (ret1, ret2, events, n, p, e) })
    (\<lambda>(ret1, ret2, events', count, p', e'). ret1 = STATUS_PENDING \<and> ret2 = STATUS_OK \<and>
       count = max_events \<and> take count events' = take max_events (decode_events img) \<and>
       e' = dispatch_events (cfg_event_handler (st_config p)) (take max_events (decode_events img)) e \<and>
       ev_request (st_event p') = EVENT_REQ_NONE)"
  by (rule ensures_mono [OF event_details_readout [OF assms(1-7), of events out_count e]])
    (use assms(8,9) in auto)

theorem event_details_cut_short_witness:
  "ensures (do {
      (ret1, events, n, p, e) \<leftarrow> iolink_master_read_event_details [event_at [0, 0, 0, 0] 0] 1 0
        ((zero_port demo_stack)\<lparr>st_state := STATE_OPERATE\<rparr>) ();
      ev \<leftarrow> feed iolink_master_event_on_od [[0x85, 0xE4], [0x8C, 0x10, 0, 0], [0, 0xF4, 0x18, 1], [9]]
        (st_event p);
      (ret2, events, n, p, e) \<leftarrow> iolink_master_read_event_details events 1 n (p\<lparr>st_event := ev\<rparr>) e;
      Some (ret1, ret2, events, n, p, e) })
    (\<lambda>(ret1, ret2, events', count, p', e'). ret2 = STATUS_OK \<and> count = 1 \<and>
       map evt_code (take count events') = [0x8C10])"
proof -
  let ?img = "[0x85, 0xE4, 0x8C, 0x10, 0, 0, 0, 0xF4, 0x18, 1]"
  have slots: "active_slots 0x85 = [0, 2]"
    by (simp add: active_slots_def six_slots bit_iff_odd_drop_bit)
  then have img: "event_image ?img" and codes: "map evt_code (decode_events ?img) = [0x8C10, 0x1801]"
    by (simp_all add: event_image_def event_image_len_def decode_events_def event_at_def
        u16_of_octets_def)
  then have len: "length (decode_events ?img) = 2" by (simp add: decode_events_def slots)
  have first: "map evt_code (take 1 (decode_events ?img)) = [0x8C10]" by (simp add: take_map [symmetric] codes)
  show ?thesis
    by (rule ensures_mono [OF event_details_cut_short [OF _ _ _ img, where trailing = "[9]" and
            segs = "[[0x85, 0xE4], [0x8C, 0x10, 0, 0], [0, 0xF4, 0x18, 1], [9]]"]])
      (use first in \<open>auto simp: zero_port_def zero_event_def isdu_service_state_def len\<close>)
qed

lemma event_first_code_loop_eq:
  assumes img: "event_image img" "take (length img) memory = img" "length img \<le> length memory"
    and "set slots \<subseteq> {0..<6}"
  shows "event_first_code_loop memory (img ! 0 AND 0x3F) slots =
    Some (case filter (bit (img ! 0)) slots of [] \<Rightarrow> 0 | slot # _ \<Rightarrow> evt_code (event_at img slot))"
  using assms(4)
proof (induction slots)
  case Nil
  then show ?case by simp
next
  case (Cons slot slots)
  then have active: "slot_active (img ! 0 AND 0x3F) slot = bit (img ! 0) slot"
    by (intro slot_active_bit) simp
  show ?case
  proof (cases "bit (img ! 0) slot")
    case True
    then have "slot \<in> set (active_slots (img ! 0))"
      using Cons.prems by (simp add: active_slots_def)
    note at = event_at_memory [OF img(1) this img(2,3)]
    show ?thesis
      unfolding event_first_code_loop.simps active Let_def at using True by (simp add: event_at_def)
  next
    case False
    then show ?thesis using Cons active by simp
  qed
qed

lemma event_first_code_eq:
  assumes "event_image img" "take (length img) memory = img" "length img \<le> length memory"
  shows "iolink_master_event_first_code memory =
    Some (case decode_events img of [] \<Rightarrow> 0 | event # _ \<Rightarrow> evt_code event)"
proof -
  have "img \<noteq> []" using assms(1) by (simp add: event_image_def)
  then have "rd memory 0 = Some (img ! 0)"
    using nth_prefix [OF assms(2), of 0] assms(3) by (cases memory) (auto simp: rd_def)
  then show ?thesis
    using event_first_code_loop_eq [OF assms, of "[0..<6]"]
    by (simp add: iolink_master_event_first_code_def decode_events_def active_slots_def
        atLeast0LessThan split: list.splits)
qed

text \<open>
  Acknowledgement. The first call starts the readout; after the event memory has
  arrived the engine asks for a write to the StatusCode (address 0), and only after that
  write has been confirmed does the call succeed, with the code of the lowest active slot.
\<close>

theorem event_ack_confirmed:
  assumes "isdu_service_state p" and "ev_phase (st_event p) = EVENT_PHASE_NONE"
    and "ev_request (st_event p) = EVENT_REQ_NONE"
    and "event_image img" and "concat segs = img @ trailing"
  shows "ensures (do {
      (ret1, code, p) \<leftarrow> iolink_master_ack_event code p;
      ev \<leftarrow> feed iolink_master_event_on_od segs (st_event p);
      let p = p\<lparr>st_event := ev\<rparr>;
      (ret2, code, _) \<leftarrow> iolink_master_ack_event code p;
      let access = iolink_master_event_channel_access p;
      (ret3, code, p) \<leftarrow> iolink_master_ack_event code (p\<lparr>st_event := iolink_master_event_on_written ev\<rparr>);
      Some (ret1, ret2, access, ret3, code, p) })
    (\<lambda>(ret1, ret2, access, ret3, code, p'). ret1 = STATUS_PENDING \<and> ret2 = STATUS_PENDING \<and>
       access = Some (False, 0, st_od_len p) \<and> ret3 = STATUS_OK \<and>
       code = (case decode_events img of [] \<Rightarrow> 0 | event # _ \<Rightarrow> evt_code event) \<and>
       dg_last_event_code (st_diagnostics p') = code \<and> ev_request (st_event p') = EVENT_REQ_NONE)"
proof -
  let ?p = "p\<lparr>st_event := event_collecting EVENT_REQ_ACK False []\<rparr>"
  have start: "iolink_master_ack_event code p = Some (STATUS_PENDING, code, ?p)"
    using assms(1-3)
    by (simp add: iolink_master_ack_event_def event_service_entry_def
        iolink_master_event_complete_def event_start_collecting)
  have "img \<noteq> []" using assms(4) by (simp add: event_image_def)
  then have "ensures (feed iolink_master_event_on_od segs (event_collecting EVENT_REQ_ACK False []))
      (event_readout_done EVENT_REQ_ACK img)"
    using feed_event_collecting [OF assms(4), of "[]" segs trailing] assms(5) by simp
  then obtain ev where ev: "feed iolink_master_event_on_od segs (st_event ?p) = Some ev"
      "event_readout_done EVENT_REQ_ACK img ev"
    by (auto elim: ensuresE)
  then have m: "ev_phase ev = EVENT_PHASE_WRITE" "ev_addr ev = 0" "ev_request ev = EVENT_REQ_ACK"
    "take (length img) (ev_memory ev) = img" "length img \<le> length (ev_memory ev)"
    using event_image_len_bounds assms(4) by (auto simp: event_readout_done_def event_image_def)
  show ?thesis
    unfolding start bind.bind_lunit prod.case ev(1)
    using m assms(1) event_first_code_eq [OF assms(4) m(4,5)]
    by (simp add: iolink_master_ack_event_def event_service_entry_def isdu_service_state_def
        iolink_master_event_channel_access_def iolink_master_event_on_written_def
        iolink_master_event_finish_def iolink_master_event_complete_def event_consumed_def Let_def)
qed

text \<open>An event memory for the witnesses: one event in slot 0.\<close>

lemma demo_image:
  "event_image [0x81, 0xE4, 0x8C, 0x10]"
  "(case decode_events [0x81, 0xE4, 0x8C, 0x10] of [] \<Rightarrow> 0 | event # _ \<Rightarrow> evt_code event) = 0x8C10"
proof -
  have "active_slots 0x81 = [0]" by (simp add: active_slots_def six_slots bit_iff_odd_drop_bit)
  then show "event_image [0x81, 0xE4, 0x8C, 0x10]"
    "(case decode_events [0x81, 0xE4, 0x8C, 0x10] of [] \<Rightarrow> 0 | event # _ \<Rightarrow> evt_code event) = 0x8C10"
    by (simp_all add: event_image_def event_image_len_def decode_events_def event_at_def u16_of_octets_def)
qed

theorem event_ack_confirmed_witness:
  "ensures (do {
      (ret1, code, p) \<leftarrow> iolink_master_ack_event 0
        ((zero_port demo_stack :: unit iolink_master_port_state_t)\<lparr>st_state := STATE_OPERATE\<rparr>);
      ev \<leftarrow> feed iolink_master_event_on_od [[0x81], [0xE4], [0x8C], [0x10]] (st_event p);
      let p = p\<lparr>st_event := ev\<rparr>;
      (ret2, code, _) \<leftarrow> iolink_master_ack_event code p;
      let access = iolink_master_event_channel_access p;
      (ret3, code, p) \<leftarrow> iolink_master_ack_event code (p\<lparr>st_event := iolink_master_event_on_written ev\<rparr>);
      Some (ret1, ret2, access, ret3, code, p) })
    (\<lambda>(ret1, ret2, access, ret3, code, p'). ret3 = STATUS_OK \<and> code = 0x8C10)"
  by (rule ensures_mono [OF event_ack_confirmed [OF _ _ _ demo_image(1), where trailing = "[]" and
          segs = "[[0x81], [0xE4], [0x8C], [0x10]]"]])
    (auto simp: zero_port_def zero_event_def isdu_service_state_def demo_image(2))

text \<open>
  C33. A service does not ask which readout has finished. When the application has started to read
  the event code and, after the event memory has arrived, acknowledges instead of fetching the
  code, the acknowledgement succeeds at once: no write to the StatusCode is asked for, so the
  device keeps the event.
\<close>

theorem unfetched_event_code_acknowledged:
  assumes "isdu_service_state p" and "ev_phase (st_event p) = EVENT_PHASE_NONE"
    and "ev_request (st_event p) = EVENT_REQ_NONE"
    and "event_image img" and "concat segs = img @ trailing"
  shows "ensures (do {
      (ret1, code, p) \<leftarrow> iolink_master_read_event_code code p;
      ev \<leftarrow> feed iolink_master_event_on_od segs (st_event p);
      (ret2, code, p) \<leftarrow> iolink_master_ack_event code (p\<lparr>st_event := ev\<rparr>);
      Some (ret1, ret2, code, iolink_master_event_channel_access p) })
    (\<lambda>(ret1, ret2, code, access). ret1 = STATUS_PENDING \<and> ret2 = STATUS_OK \<and>
       code = (case decode_events img of [] \<Rightarrow> 0 | event # _ \<Rightarrow> evt_code event) \<and> access = None)"
proof -
  let ?p = "p\<lparr>st_event := event_collecting EVENT_REQ_CODE False []\<rparr>"
  have start: "iolink_master_read_event_code code p = Some (STATUS_PENDING, code, ?p)"
    using assms(1-3)
    by (simp add: iolink_master_read_event_code_def event_service_entry_def
        iolink_master_event_complete_def event_start_collecting)
  have "img \<noteq> []" using assms(4) by (simp add: event_image_def)
  then obtain ev where ev: "feed iolink_master_event_on_od segs (st_event ?p) = Some ev"
      "event_readout_done EVENT_REQ_CODE img ev"
    using feed_event_collecting [OF assms(4), of "[]" segs trailing EVENT_REQ_CODE False] assms(5)
    by (auto elim: ensuresE)
  then have m: "ev_phase ev = EVENT_PHASE_NONE" "ev_request ev = EVENT_REQ_CODE"
    "take (length img) (ev_memory ev) = img" "length img \<le> length (ev_memory ev)"
    using event_image_len_bounds assms(4) by (auto simp: event_readout_done_def event_image_def)
  show ?thesis
    unfolding start bind.bind_lunit prod.case ev(1)
    using m assms(1) event_first_code_eq [OF assms(4) m(3,4)]
    by (simp add: iolink_master_ack_event_def event_service_entry_def isdu_service_state_def
        iolink_master_event_channel_access_def iolink_master_event_complete_def event_consumed_def)
qed

theorem unfetched_event_code_acknowledged_witness:
  "ensures (do {
      (ret1, code, p) \<leftarrow> iolink_master_read_event_code 0
        ((zero_port demo_stack :: unit iolink_master_port_state_t)\<lparr>st_state := STATE_OPERATE\<rparr>);
      ev \<leftarrow> feed iolink_master_event_on_od [[0x81], [0xE4], [0x8C], [0x10]] (st_event p);
      (ret2, code, p) \<leftarrow> iolink_master_ack_event code (p\<lparr>st_event := ev\<rparr>);
      Some (ret1, ret2, code, iolink_master_event_channel_access p) })
    (\<lambda>(ret1, ret2, code, access). ret2 = STATUS_OK \<and> code = 0x8C10 \<and> access = None)"
  by (rule ensures_mono [OF unfetched_event_code_acknowledged [OF _ _ _ demo_image(1), where trailing = "[]" and
          segs = "[[0x81], [0xE4], [0x8C], [0x10]]"]])
    (auto simp: zero_port_def zero_event_def isdu_service_state_def demo_image(2))

text \<open>
  C25. The capacity of the caller is checked only after the first event has been written:
  with a capacity of zero and any active event the service stores outside the caller's
  array.
\<close>

theorem event_details_zero_capacity:
  assumes "isdu_service_state p" and "ev_phase (st_event p) = EVENT_PHASE_NONE"
    and "event_readout_done EVENT_REQ_DETAILS img (st_event p)" and img: "event_image img"
    and "active_slots (img ! 0) \<noteq> []"
  shows "iolink_master_read_event_details [] 0 out_count p e = None"
proof -
  define memory where "memory = ev_memory (st_event p)"
  have m: "take (length img) memory = img" "length img \<le> length memory" "img \<noteq> []"
    using assms(3) img event_image_len_bounds
    by (auto simp: event_readout_done_def memory_def event_image_def)
  then have status: "rd memory 0 = Some (img ! 0)"
    using nth_prefix [OF m(1), of 0] by (cases memory) (auto simp: rd_def)
  have "event_details_loop memory (img ! 0 AND 0x3F) 0 slots 0 [] = None"
    if "filter (bit (img ! 0)) slots \<noteq> []" "set slots \<subseteq> {0..<6}" for slots
    using that
  proof (induction slots)
    case (Cons slot slots)
    then have active: "slot_active (img ! 0 AND 0x3F) slot = bit (img ! 0) slot"
      by (intro slot_active_bit) simp
    show ?case
    proof (cases "bit (img ! 0) slot")
      case True
      then have "slot \<in> set (active_slots (img ! 0))"
        using Cons.prems by (simp add: active_slots_def)
      note at = event_at_memory [OF img this m(1,2)]
      show ?thesis
        unfolding event_details_loop.simps active Let_def at using True by (simp add: wr_def)
    next
      case False
      then show ?thesis using Cons active by simp
    qed
  qed simp
  from this [of "[0..<6]"] assms show ?thesis
    by (simp add: iolink_master_read_event_details_def event_service_entry_def memory_def [symmetric]
        iolink_master_event_complete_def event_readout_done_def status active_slots_def
        atLeast0LessThan)
qed

theorem event_details_zero_capacity_witness:
  "iolink_master_read_event_details [] 0 0
     ((zero_port demo_stack :: unit iolink_master_port_state_t)\<lparr>st_state := STATE_OPERATE,
       st_event := iolink_master_event_finish STATUS_OK
         (event_collecting EVENT_REQ_DETAILS False [0x81, 0xE4, 0x8C, 0x10])\<rparr>) () = None"
proof -
  have slots: "active_slots 0x81 = [0]"
    by (simp add: active_slots_def six_slots bit_iff_odd_drop_bit)
  show ?thesis
    by (rule event_details_zero_capacity [where img = "[0x81, 0xE4, 0x8C, 0x10]"])
      (simp_all add: isdu_service_state_def slots event_image_def event_image_len_def
        event_readout_done_def iolink_master_event_finish_def event_collecting_def)
qed

end
