(* ===== verification/MasterFrames.thy ===== *)
theory MasterFrames
  imports MasterEvents
begin

text \<open>
  Transmission of \<open>src/master_port.c\<close> (lines 181-426): the guarded send with its hooks, the
  wake-up request and the M-sequences of the ISDU and the diagnosis channel.

  These functions call the PHY, so they act on the pair of the port and the environment and
  return \<open>(result, port, environment)\<close>. A call through a NULL pointer, an access outside the
  scratch buffer and an index outside an array have no defined result.
\<close>

subsection \<open>Sending\<close>

text \<open>An optional hook of the configuration; without it the status is OK.\<close>

definition call_hook :: "('e \<Rightarrow> int \<times> 'e) option \<Rightarrow> 'e \<Rightarrow> int \<times> 'e" where
  "call_hook hook e = (case hook of None \<Rightarrow> (STATUS_OK, e) | Some f \<Rightarrow> f e)"

definition send_failed :: "'e iolink_master_port_state_t \<Rightarrow> 'e iolink_master_port_state_t" where
  "send_failed p =
     p\<lparr>st_diagnostics := (st_diagnostics p)\<lparr>dg_send_errors := dg_send_errors (st_diagnostics p) + 1\<rparr>,
       st_state := STATE_ERROR\<rparr>"

definition iolink_master_send_full ::
  "iolinki \<Rightarrow> u8 list \<Rightarrow> 'e iolink_master_port_state_t \<Rightarrow> 'e \<Rightarrow>
   (bool \<times> 'e iolink_master_port_state_t \<times> 'e) option" where
  "iolink_master_send_full L data p e = do {
     mc \<leftarrow> rd data 0;
     let od_expected = (mc AND MC_RW_MASK L \<noteq> 0);
     let (ret, e) = call_hook (cfg_prepare_tx (st_config p)) e;
     if ret \<noteq> STATUS_OK then Some (False, send_failed p, e)
     else do {
       phy \<leftarrow> st_phy p;
       send \<leftarrow> phy_send phy;
       let (sent, e) = send data e;
       let (ret, e) = call_hook (cfg_prepare_rx (st_config p)) e;
       if ret \<noteq> STATUS_OK then Some (False, send_failed p, e)
       else if sent = int (length data) then Some (True, p\<lparr>st_rx_od_expected := od_expected\<rparr>, e)
       else Some (False, send_failed p, e)
     }
   }"

text \<open>The frame of \<open>len\<close> octets in the scratch buffer.\<close>

definition send_tx ::
  "iolinki \<Rightarrow> nat \<Rightarrow> 'e iolink_master_port_state_t \<Rightarrow> 'e \<Rightarrow>
   (bool \<times> 'e iolink_master_port_state_t \<times> 'e) option" where
  "send_tx L len p e = do {
     data \<leftarrow> rd_slice (st_tx_buf p) 0 len;
     iolink_master_send_full L data p e
   }"

definition iolink_master_wake_up ::
  "iolinki \<Rightarrow> 'e iolink_master_port_state_t \<Rightarrow> 'e \<Rightarrow>
   (bool \<times> 'e iolink_master_port_state_t \<times> 'e) option" where
  "iolink_master_wake_up L p e =
     (case cfg_wake_up (st_config p) of
        None \<Rightarrow> do {
          tx \<leftarrow> wr (st_tx_buf p) 0 WAKEUP_BYTE;
          send_tx L 1 (p\<lparr>st_tx_buf := tx\<rparr>) e
        }
      | Some wake_up \<Rightarrow>
          let (ret, e) = wake_up e
          in if ret = STATUS_OK then Some (True, p, e) else Some (False, send_failed p, e))"

subsection \<open>Frames of the ISDU channel\<close>

text \<open>\<open>tx_buf[1] | iolink_checksum6(tx_buf, len)\<close>, stored in place.\<close>

definition put_checksum :: "iolinki \<Rightarrow> u8 list \<Rightarrow> nat \<Rightarrow> u8 list option" where
  "put_checksum L tx len = do {
     ckt \<leftarrow> rd tx 1;
     octets \<leftarrow> rd_slice tx 0 len;
     wr tx 1 (ckt OR checksum6 L octets)
   }"

definition copy_pd_out :: "iolinki \<Rightarrow> 'e iolink_master_port_state_t \<Rightarrow> u8 list \<Rightarrow> u8 list option" where
  "copy_pd_out L p tx =
     (if st_pd_out_len p > 0
      then do {
        pd \<leftarrow> rd_slice (st_pd_out p) 0 (st_pd_out_len p);
        wr_slice tx (M_SEQ_HEADER_LEN L) pd
      }
      else Some tx)"

definition iolink_master_build_isdu_frame ::
  "iolinki \<Rightarrow> u8 \<Rightarrow> u8 list option \<Rightarrow> bool \<Rightarrow> 'e iolink_master_port_state_t \<Rightarrow>
   (int \<times> 'e iolink_master_port_state_t) option" where
  "iolink_master_build_isdu_frame L mc od multi p =
     (if \<not> multi \<and> od = None
      then let (ret, tx) = frame_encode_type0 L mc (st_tx_buf p)
           in Some (ret, p\<lparr>st_tx_buf := tx\<rparr>)
      else do {
        tx \<leftarrow> wr (st_tx_buf p) 0 mc;
        tx \<leftarrow> wr tx 1 (if multi then iolink_master_ckt_type_bits (cfg_m_seq_type (st_config p)) else 0);
        tx \<leftarrow> (if multi then copy_pd_out L p tx else Some tx);
        let pos = M_SEQ_HEADER_LEN L + (if multi then st_pd_out_len p else 0);
        octets \<leftarrow> (case od of None \<Rightarrow> Some [] | Some od \<Rightarrow> rd_slice od 0 (st_od_len p));
        tx \<leftarrow> wr_slice tx pos octets;
        let pos = pos + length octets;
        tx \<leftarrow> put_checksum L tx pos;
        Some (int pos, p\<lparr>st_tx_buf := tx\<rparr>)
      })"

text \<open>The end of each branch of \<open>iolink_master_send_isdu\<close>: a positive length is sent.\<close>

definition send_frame ::
  "iolinki \<Rightarrow> int \<Rightarrow> 'e iolink_master_port_state_t \<Rightarrow> 'e \<Rightarrow>
   (bool \<times> 'e iolink_master_port_state_t \<times> 'e) option" where
  "send_frame L frame_len p e =
     (if frame_len > 0
      then do { (_, p, e) \<leftarrow> send_tx L (nat frame_len) p e; Some (True, p, e) }
      else Some (False, p, e))"

definition isdu_command ::
  "iolinki \<Rightarrow> bool \<Rightarrow> u8 \<Rightarrow> u8 list option \<Rightarrow> bool \<Rightarrow> 'e iolink_master_port_state_t \<Rightarrow> 'e \<Rightarrow>
   (bool \<times> 'e iolink_master_port_state_t \<times> 'e) option" where
  "isdu_command L read flowctrl od multi p e = do {
     let mc = iolink_master_encode_master_command L read MC_CHANNEL_ISDU flowctrl;
     (frame_len, p) \<leftarrow> iolink_master_build_isdu_frame L mc od multi p;
     send_frame L frame_len p e
   }"

definition iolink_master_send_isdu ::
  "iolinki \<Rightarrow> 'e iolink_master_port_state_t \<Rightarrow> 'e \<Rightarrow>
   (bool \<times> 'e iolink_master_port_state_t \<times> 'e) option" where
  "iolink_master_send_isdu L p e =
     (let multi = (st_state p = STATE_OPERATE \<and> cfg_m_seq_type (st_config p) \<noteq> M_SEQ_TYPE_0);
          (aborting, isdu) = iolink_master_isdu_take_abort (st_isdu p);
          p = p\<lparr>st_isdu := isdu\<rparr>
      in if aborting then isdu_command L True (FLOWCTRL_ABORT L) None multi p e
         else let (idling, isdu) = iolink_master_isdu_take_idle (st_isdu p);
                  p = p\<lparr>st_isdu := isdu\<rparr>
              in if idling then isdu_command L True (FLOWCTRL_IDLE L) None multi p e
                 else case iolink_master_isdu_channel_access L (st_isdu p) of
                   None \<Rightarrow> Some (False, p, e)
                 | Some (read, flowctrl) \<Rightarrow> do {
                     (octets, isdu) \<leftarrow> iolink_master_isdu_fill_od L (st_od_len p) (st_isdu p);
                     od \<leftarrow> wr_slice (replicate (ISDU_BUFFER_SIZE L) 0) 0 octets;
                     isdu_command L read flowctrl (if read then None else Some od) multi
                       (p\<lparr>st_isdu := isdu\<rparr>) e
                   })"

subsection \<open>Frames of the diagnosis channel\<close>

definition build_event_frame ::
  "iolinki \<Rightarrow> bool \<Rightarrow> u8 \<Rightarrow> nat \<Rightarrow> 'e iolink_master_port_state_t \<Rightarrow>
   (int \<times> 'e iolink_master_port_state_t) option" where
  "build_event_frame L read mc od_len p =
     (if cfg_m_seq_type (st_config p) = M_SEQ_TYPE_0
      then let (ret, tx) = (if read then frame_encode_type0 L mc (st_tx_buf p)
                            else frame_encode_type0_write L mc 0 (st_tx_buf p))
           in Some (ret, p\<lparr>st_tx_buf := tx\<rparr>)
      else do {
        let frame_len = M_SEQ_HEADER_LEN L + st_pd_out_len p + (if read then 0 else od_len);
        tx \<leftarrow> wr (st_tx_buf p) 0 mc;
        tx \<leftarrow> wr tx 1 0;
        tx \<leftarrow> copy_pd_out L p tx;
        let od_pos = M_SEQ_HEADER_LEN L + st_pd_out_len p;
        tx \<leftarrow> (if read then Some tx else wr_slice tx od_pos (replicate od_len 0));
        tx \<leftarrow> wr tx 1 (iolink_master_ckt_type_bits (cfg_m_seq_type (st_config p)));
        tx \<leftarrow> put_checksum L tx frame_len;
        Some (int frame_len, p\<lparr>st_tx_buf := tx\<rparr>)
      })"

definition iolink_master_send_event ::
  "iolinki \<Rightarrow> 'e iolink_master_port_state_t \<Rightarrow> 'e \<Rightarrow>
   (bool \<times> 'e iolink_master_port_state_t \<times> 'e) option" where
  "iolink_master_send_event L p e =
     (case iolink_master_event_channel_access p of
        None \<Rightarrow> Some (False, p, e)
      | Some (read, addr, od_len) \<Rightarrow> do {
          let mc = iolink_master_encode_master_command L read MC_CHANNEL_DIAGNOSIS (of_nat addr);
          (frame_len, p) \<leftarrow> build_event_frame L read mc od_len p;
          (sent, p, e) \<leftarrow> (if frame_len > 0 then send_tx L (nat frame_len) p e
                          else Some (False, p, e));
          let p = (if sent \<and> read then p\<lparr>st_event := (st_event p)\<lparr>ev_od_expected := True\<rparr>\<rparr> else p);
          let p = (if \<not> read
                   then p\<lparr>st_event := iolink_master_event_on_written (st_event p)\<rparr> else p);
          Some (frame_len > 0, p, e)
        })"

subsection \<open>The invariant of a port\<close>

text \<open>
  What keeps every access of the port within its arrays: the sizes of the buffers, the
  lengths they are used with, and the invariants of the ISDU, event and block engines.
\<close>

definition buffers_wf :: "iolinki \<Rightarrow> 'e iolink_master_port_state_t \<Rightarrow> bool" where
  "buffers_wf L p \<longleftrightarrow>
     length (st_tx_buf p) = FRAME_BUF_SIZE \<and>
     length (st_pd_out p) = PD_OUT_MAX_SIZE L \<and> length (st_pd_in p) = PD_IN_MAX_SIZE L \<and>
     st_pd_out_len p \<le> PD_OUT_MAX_SIZE L \<and> st_pd_in_len p \<le> PD_IN_MAX_SIZE L \<and>
     cfg_pd_in_len (st_config p) \<le> PD_IN_MAX_SIZE L \<and> st_od_len p \<le> 8 \<and>
     length (rx_buf (st_rx p)) = FRAME_BUF_SIZE \<and> rx_len (st_rx p) \<le> FRAME_BUF_SIZE \<and>
     su_baudrate_index (st_startup p) < 3"

definition event_wf :: "iolink_master_event_state_t \<Rightarrow> bool" where
  "event_wf ev \<longleftrightarrow> length (ev_memory ev) = EVENT_MEMORY_LEN"

definition block_wf :: "iolinki \<Rightarrow> iolink_master_block_state_t \<Rightarrow> bool" where
  "block_wf L block \<longleftrightarrow>
     length (blk_data block) = ISDU_BUFFER_SIZE L \<and>
     blk_len block \<le> trunc8 (ISDU_BUFFER_SIZE L - ISDU_WRITE_HEADER_MAX)"

definition port_wf :: "iolinki \<Rightarrow> 'e iolink_master_port_state_t \<Rightarrow> bool" where
  "port_wf L p \<longleftrightarrow>
     buffers_wf L p \<and> isdu_wf L (st_isdu p) \<and> event_wf (st_event p) \<and> block_wf L (st_block p)"

definition can_send :: "'e iolink_master_port_state_t \<Rightarrow> bool" where
  "can_send p \<longleftrightarrow> (case st_phy p of None \<Rightarrow> False | Some phy \<Rightarrow> phy_send phy \<noteq> None)"

text \<open>An operation keeps the invariant and the setup of the port.\<close>

definition port_kept ::
  "iolinki \<Rightarrow> 'e iolink_master_port_state_t \<Rightarrow> 'e iolink_master_port_state_t \<Rightarrow> bool" where
  "port_kept L p p' \<longleftrightarrow> port_wf L p' \<and> st_phy p' = st_phy p \<and> st_config p' = st_config p"

lemmas port_wf_defs = port_kept_def port_wf_def buffers_wf_def

lemma port_kept_trans: "port_kept L p p' \<Longrightarrow> port_kept L p' p'' \<Longrightarrow> port_kept L p p''"
  by (simp add: port_kept_def)

lemma port_kept_refl: "port_wf L p \<Longrightarrow> port_kept L p p"
  by (simp add: port_kept_def)

lemma can_send_kept: "port_kept L p p' \<Longrightarrow> can_send p' = can_send p"
  by (simp add: port_kept_def can_send_def)

lemma port_wf_tx: "port_wf L p \<Longrightarrow> length tx = FRAME_BUF_SIZE \<Longrightarrow> port_wf L (p\<lparr>st_tx_buf := tx\<rparr>)"
  by (simp add: port_wf_defs)

lemma port_wf_isdu: "port_wf L p \<Longrightarrow> isdu_wf L isdu \<Longrightarrow> port_wf L (p\<lparr>st_isdu := isdu\<rparr>)"
  by (simp add: port_wf_defs)

lemma port_wf_event: "port_wf L p \<Longrightarrow> event_wf ev \<Longrightarrow> port_wf L (p\<lparr>st_event := ev\<rparr>)"
  by (simp add: port_wf_defs)

lemma port_wf_state: "port_wf L (p\<lparr>st_state := s\<rparr>) = port_wf L p"
  by (simp add: port_wf_defs)

lemma port_wf_diagnostics: "port_wf L (p\<lparr>st_diagnostics := d\<rparr>) = port_wf L p"
  by (simp add: port_wf_defs)

lemma port_wf_od_expected: "port_wf L (p\<lparr>st_rx_od_expected := b\<rparr>) = port_wf L p"
  by (simp add: port_wf_defs)

lemma port_wf_step: "port_wf L (p\<lparr>st_startup := (st_startup p)\<lparr>su_step := s\<rparr>\<rparr>) = port_wf L p"
  by (simp add: port_wf_defs)

lemma port_wf_awaiting: "port_wf L (p\<lparr>st_awaiting_response := b\<rparr>) = port_wf L p"
  by (simp add: port_wf_defs)

lemma port_wf_sizes:
  assumes "stack_constants_ok L" and "port_wf L p"
  shows "M_SEQ_HEADER_LEN L = 2" "length (st_tx_buf p) = 64" "st_od_len p \<le> 8"
    "2 + st_pd_out_len p + st_od_len p \<le> 64" "st_pd_out_len p \<le> length (st_pd_out p)"
    "8 \<le> ISDU_BUFFER_SIZE L"
  using assms by (simp_all add: port_wf_defs stack_constants_ok_def)

lemma zero_port_wf: "stack_constants_ok L \<Longrightarrow> port_wf L (zero_port L)"
  by (simp add: port_wf_defs zero_port_def zero_config_def isdu_wf_zero event_wf_def block_wf_def
      zero_event_def zero_block_def)

subsection \<open>Sending keeps the port\<close>

lemma send_failed_kept: "port_wf L p \<Longrightarrow> port_kept L p (send_failed p)"
  by (simp add: send_failed_def port_wf_defs)

lemma send_full_kept:
  assumes "port_wf L p" "can_send p" "data \<noteq> []"
  shows "ensures (iolink_master_send_full L data p e) (\<lambda>(sent, p', e'). port_kept L p p')"
proof -
  obtain phy send where "st_phy p = Some phy" "phy_send phy = Some send"
    using assms(2) by (auto simp: can_send_def split: option.splits)
  moreover have "port_kept L p (p\<lparr>st_rx_od_expected := b\<rparr>)" for b
    using assms(1) by (simp add: port_kept_def port_wf_od_expected)
  ultimately show ?thesis
    using assms(3) send_failed_kept [OF assms(1)]
    by (simp add: iolink_master_send_full_def rd_def case_prod_unfold Let_def)
qed

lemma send_tx_kept:
  assumes "port_wf L p" "can_send p" "0 < len" "len \<le> 64"
  shows "ensures (send_tx L len p e) (\<lambda>(sent, p', e'). port_kept L p p')"
proof -
  have "length (st_tx_buf p) = 64" using assms(1) by (simp add: port_wf_defs)
  then have "rd_slice (st_tx_buf p) 0 len = Some (take len (st_tx_buf p))"
    "take len (st_tx_buf p) \<noteq> []"
    using assms(3,4) by (auto simp: rd_slice_def)
  then show ?thesis
    using send_full_kept [OF assms(1,2)] by (simp add: send_tx_def)
qed

subsection \<open>Frame layout\<close>

text \<open>
  The message an M-sequence carries: MC, a CKT octet with the type bits and the checksum
  over the message with the checksum bits zero, then the process data and the OD octets.
\<close>

definition message :: "iolinki \<Rightarrow> u8 \<Rightarrow> u8 \<Rightarrow> u8 list \<Rightarrow> u8 list" where
  "message L mc type_bits data = mc # (type_bits OR checksum6 L (mc # type_bits # data)) # data"

definition pd_out_octets :: "'e iolink_master_port_state_t \<Rightarrow> u8 list" where
  "pd_out_octets p = take (st_pd_out_len p) (st_pd_out p)"

abbreviation type_bits_of :: "'e iolink_master_port_state_t \<Rightarrow> u8" where
  "type_bits_of p \<equiv> iolink_master_ckt_type_bits (cfg_m_seq_type (st_config p))"

text \<open>The scratch buffer with a message in front.\<close>

definition tx_with :: "u8 list \<Rightarrow> 'e iolink_master_port_state_t \<Rightarrow> 'e iolink_master_port_state_t" where
  "tx_with msg p = p\<lparr>st_tx_buf := msg @ drop (length msg) (st_tx_buf p)\<rparr>"

lemma message_length [simp]: "length (message L mc bits data) = 2 + length data"
  by (simp add: message_def)

lemma message_nonempty [simp]: "message L mc bits data \<noteq> []"
  by (simp add: message_def)

lemma tx_with_kept: "port_wf L p \<Longrightarrow> length msg \<le> 64 \<Longrightarrow> port_kept L p (tx_with msg p)"
  by (simp add: tx_with_def port_kept_def port_wf_tx) (simp add: port_wf_defs)

lemma send_tx_with: "send_tx L (length msg) (tx_with msg p) e = iolink_master_send_full L msg (tx_with msg p) e"
  by (simp add: send_tx_def tx_with_def rd_slice_append)

text \<open>The two octets of the header and the space behind them.\<close>

lemma split_header: "2 \<le> length buf \<Longrightarrow> \<exists>a b rest. buf = a # b # rest"
  by (cases buf; cases "tl buf") auto

lemma put_checksum_message:
  "put_checksum L (mc # type_bits # data @ rest) (2 + length data) =
    Some (message L mc type_bits data @ rest)"
  by (simp add: put_checksum_def rd_def rd_slice_def wr_def message_def)

lemma wr_slice_behind_header:
  "length ys \<le> length rest \<Longrightarrow>
   wr_slice (a # b # xs @ rest) (2 + length xs) ys = Some (a # b # (xs @ ys) @ drop (length ys) rest)"
  by (simp add: wr_slice_def)

lemma copy_pd_out_header:
  assumes "stack_constants_ok L" "port_wf L p" "length rest = 62"
  shows "copy_pd_out L p (a # b # rest) =
    Some (a # b # pd_out_octets p @ drop (length (pd_out_octets p)) rest)"
    and "length (pd_out_octets p) = st_pd_out_len p"
proof -
  note sizes = port_wf_sizes [OF assms(1,2)]
  show len: "length (pd_out_octets p) = st_pd_out_len p"
    using sizes(5) by (simp add: pd_out_octets_def)
  have "wr_slice (a # b # rest) 2 (pd_out_octets p) =
    Some (a # b # pd_out_octets p @ drop (length (pd_out_octets p)) rest)"
    using wr_slice_behind_header [of "pd_out_octets p" rest a b "[]"] sizes(4) assms(3) len
    by simp
  then show "copy_pd_out L p (a # b # rest) =
    Some (a # b # pd_out_octets p @ drop (length (pd_out_octets p)) rest)"
    using sizes(1,5) len by (cases "st_pd_out_len p = 0")
      (simp_all add: copy_pd_out_def rd_slice_def pd_out_octets_def)
qed

text \<open>The OD octets a frame carries, none on a read.\<close>

definition frame_od :: "'e iolink_master_port_state_t \<Rightarrow> u8 list option \<Rightarrow> u8 list" where
  "frame_od p od = (case od of None \<Rightarrow> [] | Some od \<Rightarrow> take (st_od_len p) od)"

lemma build_isdu_frame_message:
  assumes L: "stack_constants_ok L" and wf: "port_wf L p"
    and od: "\<And>o'. od = Some o' \<Longrightarrow> st_od_len p \<le> length o'" and "multi \<or> od \<noteq> None"
    and msg: "msg = message L mc (if multi then type_bits_of p else 0)
      ((if multi then pd_out_octets p else []) @ frame_od p od)"
  shows "iolink_master_build_isdu_frame L mc od multi p = Some (int (length msg), tx_with msg p)"
    and "length msg \<le> 64"
proof -
  note sizes = port_wf_sizes [OF L wf]
  obtain a b rest where tx: "st_tx_buf p = a # b # rest" "length rest = 62"
    using split_header [of "st_tx_buf p"] sizes(2) by auto
  define pd where "pd = (if multi then pd_out_octets p else [])"
  define octets where "octets = frame_od p od"
  have len: "length pd = (if multi then st_pd_out_len p else 0)"
    using copy_pd_out_header(2) [OF L wf tx(2)] by (simp add: pd_def)
  have "length octets \<le> st_od_len p"
    by (cases od) (simp_all add: octets_def frame_od_def)
  then have fit: "length octets \<le> length (drop (length pd) rest)" "2 + length (pd @ octets) \<le> 64"
    using sizes(4) len tx(2) by (auto split: if_splits)
  show "length msg \<le> 64" using fit(2) by (simp add: msg pd_def octets_def)
  have copy: "(if multi then copy_pd_out L p (mc # t # rest) else Some (mc # t # rest)) =
      Some (mc # t # pd @ drop (length pd) rest)" for t
    using copy_pd_out_header(1) [OF L wf tx(2)] by (simp add: pd_def)
  have src: "(case od of None \<Rightarrow> Some [] | Some od \<Rightarrow> rd_slice od 0 (st_od_len p)) = Some octets"
    using od by (cases od) (simp_all add: rd_slice_def octets_def frame_od_def)
  have app: "wr_slice (mc # t # pd @ drop (length pd) rest) (2 + length pd) octets =
      Some (mc # t # (pd @ octets) @ drop (length octets) (drop (length pd) rest))" for t
    using wr_slice_behind_header [OF fit(1), of mc t pd] by simp
  have chk: "put_checksum L (mc # t # (pd @ octets) @ drop (length octets) (drop (length pd) rest))
      (2 + length pd + length octets) =
      Some (message L mc t (pd @ octets) @ drop (length octets) (drop (length pd) rest))" for t
    using put_checksum_message [of L mc t "pd @ octets"] by (simp add: add.assoc)
  have hdr: "wr (st_tx_buf p) 0 mc = Some (mc # b # rest)" "wr (mc # b # rest) 1 t = Some (mc # t # rest)" for t
    by (simp_all add: tx wr_def)
  define bits where "bits = (if multi then type_bits_of p else 0)"
  have m: "msg = message L mc bits (pd @ octets)"
    by (simp add: msg pd_def octets_def bits_def)
  have "iolink_master_build_isdu_frame L mc od multi p =
      Some (int (2 + length pd + length octets),
        p\<lparr>st_tx_buf := msg @ drop (length octets) (drop (length pd) rest)\<rparr>)"
    using assms(4)
    unfolding iolink_master_build_isdu_frame_def Let_def sizes(1) hdr bind.bind_lunit
      bits_def [symmetric] copy src len [symmetric] app chk m by auto
  then show "iolink_master_build_isdu_frame L mc od multi p = Some (int (length msg), tx_with msg p)"
    by (simp add: tx_with_def tx m add.commute)
qed

lemma build_event_frame_message:
  assumes L: "stack_constants_ok L" and wf: "port_wf L p" and "od_len = st_od_len p"
    and "cfg_m_seq_type (st_config p) \<noteq> M_SEQ_TYPE_0"
    and msg: "msg = message L mc (type_bits_of p)
      (pd_out_octets p @ (if read then [] else replicate od_len 0))"
  shows "build_event_frame L read mc od_len p = Some (int (length msg), tx_with msg p)"
    and "length msg \<le> 64"
proof -
  note sizes = port_wf_sizes [OF L wf]
  obtain a b rest where tx: "st_tx_buf p = a # b # rest" "length rest = 62"
    using split_header [of "st_tx_buf p"] sizes(2) by auto
  define pd where "pd = pd_out_octets p"
  define octets :: "u8 list" where "octets = (if read then [] else replicate od_len 0)"
  have len: "length pd = st_pd_out_len p" and
    copy: "copy_pd_out L p (mc # t # rest) = Some (mc # t # pd @ drop (length pd) rest)" for t
    using copy_pd_out_header [OF L wf tx(2)] by (simp_all add: pd_def)
  have olen: "length octets = (if read then 0 else od_len)" by (simp add: octets_def)
  then have fit: "length octets \<le> length (drop (length pd) rest)" "2 + length (pd @ octets) \<le> 64"
    using sizes(4) len tx(2) assms(3) by auto
  show "length msg \<le> 64" using fit(2) by (simp add: msg pd_def octets_def)
  have app: "(if read then Some (mc # t # pd @ drop (length pd) rest)
       else wr_slice (mc # t # pd @ drop (length pd) rest) (2 + length pd) (replicate od_len 0)) =
      Some (mc # t # (pd @ octets) @ drop (length octets) (drop (length pd) rest))" for t
    using wr_slice_behind_header [OF fit(1), of mc t pd]
    by (cases read) (simp_all add: octets_def)
  have bits: "wr (mc # t # xs) 1 t' = Some (mc # t' # xs)" for t t' :: u8 and xs
    by (simp add: wr_def)
  have chk: "put_checksum L (mc # t # (pd @ octets) @ drop (length octets) (drop (length pd) rest))
      (2 + length pd + length octets) =
      Some (message L mc t (pd @ octets) @ drop (length octets) (drop (length pd) rest))" for t
    using put_checksum_message [of L mc t "pd @ octets"] by (simp add: add.assoc)
  have hdr: "wr (st_tx_buf p) 0 mc = Some (mc # b # rest)"
    by (simp add: tx wr_def)
  have m: "msg = message L mc (type_bits_of p) (pd @ octets)"
    by (simp add: msg pd_def octets_def)
  have "build_event_frame L read mc od_len p =
      Some (int (2 + length pd + length octets),
        p\<lparr>st_tx_buf := msg @ drop (length octets) (drop (length pd) rest)\<rparr>)"
    unfolding build_event_frame_def if_not_P [OF assms(4)] Let_def sizes(1) hdr bits bind.bind_lunit
      copy len [symmetric] olen [symmetric] app chk m ..
  then show "build_event_frame L read mc od_len p = Some (int (length msg), tx_with msg p)"
    by (simp add: tx_with_def tx m add.commute)
qed

subsection \<open>What the channels send\<close>

text \<open>
  The next M-sequence of the ISDU channel: its MC octet, its OD octets and the engine after
  it. ABORT comes before IDLE, and both before the service.
\<close>

definition isdu_mc :: "iolinki \<Rightarrow> bool \<Rightarrow> u8 \<Rightarrow> u8" where
  "isdu_mc L read flowctrl = iolink_master_encode_master_command L read MC_CHANNEL_ISDU flowctrl"

definition isdu_next ::
  "iolinki \<Rightarrow> nat \<Rightarrow> iolink_master_isdu_state_t \<Rightarrow>
   (u8 \<times> u8 list option \<times> iolink_master_isdu_state_t) option" where
  "isdu_next L n isdu =
     (if isdu_abort_pending isdu
      then Some (isdu_mc L True (FLOWCTRL_ABORT L), None, isdu\<lparr>isdu_abort_pending := False\<rparr>)
      else if isdu_idle_pending isdu
      then Some (isdu_mc L True (FLOWCTRL_IDLE L), None, isdu\<lparr>isdu_idle_pending := False\<rparr>)
      else case iolink_master_isdu_channel_access L isdu of
        None \<Rightarrow> None
      | Some (read, flowctrl) \<Rightarrow>
          map_option (\<lambda>(od, isdu'). (isdu_mc L read flowctrl, if read then None else Some od, isdu'))
            (iolink_master_isdu_fill_od L n isdu))"

definition multi_frames :: "'e iolink_master_port_state_t \<Rightarrow> bool" where
  "multi_frames p \<longleftrightarrow> st_state p = STATE_OPERATE \<and> cfg_m_seq_type (st_config p) \<noteq> M_SEQ_TYPE_0"

lemma isdu_next_wf:
  assumes "isdu_wf L isdu" "stack_constants_ok L" "isdu_next L n isdu = Some (mc, od, isdu')"
  shows "isdu_wf L isdu'" "od = Some o' \<Longrightarrow> length o' = n"
proof -
  obtain octets isdu1 where fill: "iolink_master_isdu_fill_od L n isdu = Some (octets, isdu1)"
      "length octets = n" "isdu_wf L isdu1"
    using isdu_wf_fill_od [OF assms(1,2), of n] by (auto elim: ensuresE)
  have flags: "isdu_wf L (isdu\<lparr>isdu_abort_pending := False\<rparr>)" "isdu_wf L (isdu\<lparr>isdu_idle_pending := False\<rparr>)"
    using assms(1) by (simp_all add: isdu_wf_def)
  show "isdu_wf L isdu'"
    using assms(3) fill flags by (auto simp: isdu_next_def split: if_splits option.splits)
  show "od = Some o' \<Longrightarrow> length o' = n"
    using assms(3) fill by (auto simp: isdu_next_def split: if_splits option.splits)
qed

lemma send_isdu_next:
  assumes L: "stack_constants_ok L" and wf: "port_wf L p"
  shows "iolink_master_send_isdu L p e =
    (case isdu_next L (st_od_len p) (st_isdu p) of
       None \<Rightarrow> Some (False, p, e)
     | Some (mc, od, isdu) \<Rightarrow> do {
         (frame_len, p') \<leftarrow> iolink_master_build_isdu_frame L mc
           (map_option (\<lambda>octets. octets @ replicate (ISDU_BUFFER_SIZE L - length octets) 0) od)
           (multi_frames p) (p\<lparr>st_isdu := isdu\<rparr>);
         send_frame L frame_len p' e })"
proof -
  have isdu: "isdu_wf L (st_isdu p)" using wf by (simp add: port_wf_def)
  obtain octets isdu1 where fill: "iolink_master_isdu_fill_od L (st_od_len p) (st_isdu p) = Some (octets, isdu1)"
      "length octets = st_od_len p"
    using isdu_wf_fill_od [OF isdu L, of "st_od_len p"] by (auto elim: ensuresE)
  have fits: "st_od_len p \<le> ISDU_BUFFER_SIZE L" using port_wf_sizes [OF L wf] by linarith
  have take: "iolink_master_isdu_take_abort (st_isdu p) =
      (isdu_abort_pending (st_isdu p), (st_isdu p)\<lparr>isdu_abort_pending := False\<rparr>)"
    "iolink_master_isdu_take_idle (st_isdu p) =
      (isdu_idle_pending (st_isdu p), (st_isdu p)\<lparr>isdu_idle_pending := False\<rparr>)"
    by (cases "st_isdu p"; simp add: iolink_master_isdu_take_abort_def iolink_master_isdu_take_idle_def)+
  have same: "(st_isdu p)\<lparr>isdu_abort_pending := False\<rparr> = st_isdu p" if "\<not> isdu_abort_pending (st_isdu p)"
    using that by (cases "st_isdu p") simp
  have same': "(st_isdu p)\<lparr>isdu_idle_pending := False\<rparr> = st_isdu p" if "\<not> isdu_idle_pending (st_isdu p)"
    using that by (cases "st_isdu p") simp
  consider "isdu_abort_pending (st_isdu p)"
    | "\<not> isdu_abort_pending (st_isdu p)" "isdu_idle_pending (st_isdu p)"
    | "\<not> isdu_abort_pending (st_isdu p)" "\<not> isdu_idle_pending (st_isdu p)" by blast
  then show ?thesis
  proof cases
    case 3
    then show ?thesis
      by (auto simp: iolink_master_send_isdu_def isdu_next_def take same same' isdu_command_def fill
          isdu_mc_def wr_slice_def fits multi_frames_def Let_def split: option.splits)
  qed (simp_all add: iolink_master_send_isdu_def isdu_next_def take same isdu_command_def isdu_mc_def
      multi_frames_def)
qed

lemma send_frame_message:
  assumes "port_wf L p" "can_send p" "msg \<noteq> []" "length msg \<le> 64"
  shows "send_frame L (int (length msg)) (tx_with msg p) e =
    map_option (\<lambda>(_, p', e'). (True, p', e')) (iolink_master_send_full L msg (tx_with msg p) e)"
    and "ensures (send_frame L (int (length msg)) (tx_with msg p) e)
      (\<lambda>(sent, p', e'). sent \<and> port_kept L p p')"
proof -
  show eq: "send_frame L (int (length msg)) (tx_with msg p) e =
    map_option (\<lambda>(_, p', e'). (True, p', e')) (iolink_master_send_full L msg (tx_with msg p) e)"
    using assms(3) by (cases "iolink_master_send_full L msg (tx_with msg p) e")
      (simp_all add: send_frame_def send_tx_with case_prod_unfold)
  have kept: "port_kept L p (tx_with msg p)" by (rule tx_with_kept [OF assms(1,4)])
  then have "ensures (iolink_master_send_full L msg (tx_with msg p) e)
      (\<lambda>(sent, p', e'). port_kept L (tx_with msg p) p')"
    using assms(2,3) can_send_kept [OF kept] by (intro send_full_kept) (simp_all add: port_kept_def)
  then show "ensures (send_frame L (int (length msg)) (tx_with msg p) e)
      (\<lambda>(sent, p', e'). sent \<and> port_kept L p p')"
    unfolding eq ensures_simps
    by (rule ensures_mono) (auto intro: port_kept_trans [OF kept])
qed

lemma encoded_frame_kept:
  assumes L: "iolinki_ok L" and "port_wf L p"
  shows "port_kept L p (p\<lparr>st_tx_buf := snd (frame_encode_type0 L mc (st_tx_buf p))\<rparr>)"
    and "fst (frame_encode_type0 L mc (st_tx_buf p)) \<le> 64"
    and "port_kept L p (p\<lparr>st_tx_buf := snd (frame_encode_type0_write L mc od (st_tx_buf p))\<rparr>)"
    and "fst (frame_encode_type0_write L mc od (st_tx_buf p)) \<le> 64"
proof -
  have len: "length (st_tx_buf p) = 64" using assms(2) by (simp add: port_wf_defs)
  have frames: "length (snd (frame_encode_type0 L mc buf)) = length buf"
    "fst (frame_encode_type0 L mc buf) \<le> int (length buf)"
    "length (snd (frame_encode_type0_write L mc od buf)) = length buf"
    "fst (frame_encode_type0_write L mc od buf) \<le> int (length buf)" for buf
    using L unfolding iolinki_ok_def stack_frames_ok_def by blast+
  from frames [of "st_tx_buf p"]
  have f: "length (snd (frame_encode_type0 L mc (st_tx_buf p))) = 64"
    "fst (frame_encode_type0 L mc (st_tx_buf p)) \<le> 64"
    "length (snd (frame_encode_type0_write L mc od (st_tx_buf p))) = 64"
    "fst (frame_encode_type0_write L mc od (st_tx_buf p)) \<le> 64"
    unfolding len by simp_all
  then show "port_kept L p (p\<lparr>st_tx_buf := snd (frame_encode_type0 L mc (st_tx_buf p))\<rparr>)"
    "fst (frame_encode_type0 L mc (st_tx_buf p)) \<le> 64"
    "port_kept L p (p\<lparr>st_tx_buf := snd (frame_encode_type0_write L mc od (st_tx_buf p))\<rparr>)"
    "fst (frame_encode_type0_write L mc od (st_tx_buf p)) \<le> 64"
    using assms(2) by (simp_all add: port_kept_def port_wf_tx)
qed

text \<open>A frame of the stack's encoders is sent when its length is positive.\<close>

lemma send_tx_of_kept:
  assumes "port_wf L p" "can_send p" "port_kept L p p1" "0 < len" "len \<le> 64"
  shows "ensures (send_tx L (nat len) p1 e) (\<lambda>(sent, p', e'). port_kept L p p')"
proof -
  have "ensures (send_tx L (nat len) p1 e) (\<lambda>(sent, p', e'). port_kept L p1 p')"
    using assms can_send_kept [OF assms(3)] by (intro send_tx_kept) (auto simp: port_kept_def)
  then show ?thesis by (rule ensures_mono) (auto intro: port_kept_trans [OF assms(3)])
qed

lemma send_frame_kept:
  assumes "port_wf L p" "can_send p" "port_kept L p p1" "len \<le> 64"
  shows "ensures (send_frame L len p1 e) (\<lambda>(sent, p', e'). port_kept L p p')"
proof (cases "0 < len")
  case True
  from send_tx_of_kept [OF assms(1-3) True assms(4)] True show ?thesis
    by (auto simp: send_frame_def ensures_simps elim!: ensures_mono)
next
  case False
  then show ?thesis using assms(3) by (simp add: send_frame_def)
qed

lemma send_isdu_kept:
  assumes L: "iolinki_ok L" and wf: "port_wf L p" and "can_send p"
  shows "ensures (iolink_master_send_isdu L p e) (\<lambda>(sent, p', e'). port_kept L p p')"
proof (cases "isdu_next L (st_od_len p) (st_isdu p)")
  case None
  then show ?thesis
    using L by (simp add: send_isdu_next [OF _ wf] iolinki_ok_def port_kept_refl [OF wf])
next
  case (Some n)
  obtain mc od isdu where n: "n = (mc, od, isdu)" by (cases n)
  have L': "stack_constants_ok L" using L by (simp add: iolinki_ok_def)
  have "isdu_wf L (st_isdu p)" using wf by (simp add: port_wf_def)
  note next_wf = isdu_next_wf [OF this L' Some [unfolded n]]
  define p1 where "p1 = p\<lparr>st_isdu := isdu\<rparr>"
  define od1 where "od1 = map_option (\<lambda>octets. octets @ replicate (ISDU_BUFFER_SIZE L - length octets) 0) od"
  have kept: "port_kept L p p1" using wf next_wf(1) by (simp add: p1_def port_kept_def port_wf_isdu)
  then have wf1: "port_wf L p1" by (simp add: port_kept_def)
  have od1: "st_od_len p1 \<le> length o'" if "od1 = Some o'" for o'
    using that next_wf(2) by (auto simp: od1_def p1_def)
  have "ensures (iolink_master_build_isdu_frame L mc od1 (multi_frames p) p1)
      (\<lambda>(frame_len, p2). frame_len \<le> 64 \<and> port_kept L p p2)"
  proof (cases "multi_frames p \<or> od1 \<noteq> None")
    case True
    note b = build_isdu_frame_message [OF L' wf1 od1 True refl, of mc]
    show ?thesis
      using b(2) tx_with_kept [OF wf1 b(2)] by (simp add: b(1) port_kept_trans [OF kept])
  next
    case False
    then show ?thesis
      using encoded_frame_kept [OF L wf1, where mc = mc]
      by (simp add: iolink_master_build_isdu_frame_def case_prod_unfold Let_def
          port_kept_trans [OF kept])
  qed
  then show ?thesis
    unfolding send_isdu_next [OF L' wf] Some n option.case prod.case p1_def [symmetric] od1_def [symmetric]
    using send_frame_kept [OF wf assms(3)] by (auto simp: ensures_simps elim!: ensures_mono)
qed

lemma port_wf_event_sent:
  "port_wf L (p\<lparr>st_event := (st_event p)\<lparr>ev_od_expected := b\<rparr>\<rparr>) = port_wf L p"
  "port_wf L (p\<lparr>st_event := iolink_master_event_on_written (st_event p)\<rparr>) = port_wf L p"
  by (simp_all add: port_wf_def event_wf_def iolink_master_event_on_written_def
      iolink_master_event_finish_def buffers_wf_def)

lemma send_event_kept:
  assumes L: "iolinki_ok L" and wf: "port_wf L p" and "can_send p"
  shows "ensures (iolink_master_send_event L p e) (\<lambda>(sent, p', e'). port_kept L p p')"
proof (cases "iolink_master_event_channel_access p")
  case None
  then show ?thesis by (simp add: iolink_master_send_event_def port_kept_refl [OF wf])
next
  case (Some access)
  have L': "stack_constants_ok L" using L by (simp add: iolinki_ok_def)
  obtain read addr where access: "access = (read, addr, st_od_len p)"
    using Some by (auto simp: iolink_master_event_channel_access_def Let_def split: if_splits)
  define mc where "mc = iolink_master_encode_master_command L read MC_CHANNEL_DIAGNOSIS (of_nat addr)"
  obtain frame_len p1 where b: "build_event_frame L read mc (st_od_len p) p = Some (frame_len, p1)"
    "frame_len \<le> 64" "port_kept L p p1"
  proof (cases "cfg_m_seq_type (st_config p) = M_SEQ_TYPE_0")
    case True
    then show ?thesis
      using encoded_frame_kept [OF L wf, where mc = mc] that
      by (cases read) (simp_all add: build_event_frame_def case_prod_unfold Let_def)
  next
    case False
    note b = build_event_frame_message [OF L' wf refl False refl, where mc = mc and read = read]
    show ?thesis using that [OF b(1)] b(2) tx_with_kept [OF wf b(2)] by simp
  qed
  have "ensures (if frame_len > 0 then send_tx L (nat frame_len) p1 e else Some (False, p1, e))
      (\<lambda>(sent, p', e'). port_kept L p p')"
    using send_tx_of_kept [OF wf assms(3) b(3) _ b(2)] b(3) by (simp add: ensures_if)
  then show ?thesis
    unfolding iolink_master_send_event_def Some access option.case prod.case Let_def
      mc_def [symmetric] b(1) bind.bind_lunit ensures_bind
    by (rule ensures_mono)
      (auto simp: Let_def port_kept_def port_wf_event_sent)
qed

end
