(* ===== verification/MasterStartup.thy ===== *)
theory MasterStartup
  imports MasterFrames
begin

text \<open>
  Establishing communication, from \<open>src/master_port.c\<close> (lines 21-179 and 731-914): the rate
  scan, the time base, the checked PHY hooks, and what happens when nobody answers, from
  the next rate over the next wake-up to the failed sequence and to COMLOST.

  Functions that reach the PHY act on the port and the environment, as in \<open>MasterFrames\<close>.
  The hooks are called with their raw fallbacks; a time stamp is a 32-bit word that wraps.
\<close>

subsection \<open>Rates and times\<close>

definition g_iolink_master_baudrate_scan :: "iolink_baudrate_t list" where
  "g_iolink_master_baudrate_scan = [BAUDRATE_COM3, BAUDRATE_COM2, BAUDRATE_COM1]"

definition iolink_master_type0_reply_ok :: "iolinki \<Rightarrow> u8 list \<Rightarrow> bool option" where
  "iolink_master_type0_reply_ok L frame = do {
     od \<leftarrow> rd frame 0;
     cks \<leftarrow> rd frame 1;
     Some (checksum6 L [od, cks AND 0xC0] = cks AND 0x3F)
   }"

definition iolink_master_startup_validation_required :: "'e iolink_master_config_t \<Rightarrow> bool" where
  "iolink_master_startup_validation_required config \<longleftrightarrow>
     cfg_validate_device_info config \<or> cfg_inspection_level config \<noteq> INSPECTION_NO_CHECK"

definition iolink_master_startup_baudrate ::
  "'e iolink_master_port_state_t \<Rightarrow> iolink_baudrate_t option" where
  "iolink_master_startup_baudrate p =
     (if cfg_auto_baudrate (st_config p)
      then rd g_iolink_master_baudrate_scan (su_baudrate_index (st_startup p))
      else Some (cfg_baudrate (st_config p)))"

fun iolink_master_t_bit_ns :: "iolink_baudrate_t \<Rightarrow> u32" where
  "iolink_master_t_bit_ns BAUDRATE_COM1 = T_BIT_COM1_NS"
| "iolink_master_t_bit_ns BAUDRATE_COM2 = T_BIT_COM2_NS"
| "iolink_master_t_bit_ns _ = T_BIT_COM3_NS"

definition iolink_master_tbit_to_100us :: "iolink_baudrate_t \<Rightarrow> u32 \<Rightarrow> u32" where
  "iolink_master_tbit_to_100us baudrate t_bit =
     (let ns = ucast (iolink_master_t_bit_ns baudrate) * ucast t_bit :: 64 word
      in ucast ((ns + NS_PER_100US - 1) div NS_PER_100US))"

definition iolink_master_response_timeout_100us :: "'e iolink_master_port_state_t \<Rightarrow> u32 option" where
  "iolink_master_response_timeout_100us p = do {
     baudrate \<leftarrow> iolink_master_startup_baudrate p;
     let frame_100us = iolink_master_tbit_to_100us baudrate (UART_FRAME_TBIT + T_A_MAX_TBIT);
     let configured = ucast (cfg_response_timeout_100us (st_config p));
     let configured = (if configured < frame_100us then frame_100us else configured);
     Some (if configured = 0 then 1 else configured)
   }"

definition iolink_master_t_dmt_100us ::
  "'e iolink_master_port_state_t \<Rightarrow> iolink_baudrate_t \<Rightarrow> u32" where
  "iolink_master_t_dmt_100us p baudrate =
     (let t_dmt = cfg_t_dmt_tbit (st_config p);
          t_dmt = (if t_dmt = 0 then DEFAULT_T_DMT_TBIT else t_dmt)
      in iolink_master_tbit_to_100us baudrate (ucast t_dmt))"

definition iolink_master_test_message_timeout_100us ::
  "'e iolink_master_port_state_t \<Rightarrow> u32 option" where
  "iolink_master_test_message_timeout_100us p = do {
     baudrate \<leftarrow> iolink_master_startup_baudrate p;
     let window = iolink_master_tbit_to_100us baudrate TYPE0_M_SEQ_MAX_TBIT;
     let configured = ucast (cfg_response_timeout_100us (st_config p));
     let window = (if configured > window then configured else window);
     Some (if window = 0 then 1 else window)
   }"

definition iolink_master_wake_retry_limit :: "'e iolink_master_port_state_t \<Rightarrow> nat" where
  "iolink_master_wake_retry_limit p =
     (if cfg_wake_retry_limit (st_config p) = 0 then DEFAULT_WAKE_RETRY_LIMIT else cfg_wake_retry_limit (st_config p))"

definition iolink_master_t_dwu_100us :: "'e iolink_master_port_state_t \<Rightarrow> u32" where
  "iolink_master_t_dwu_100us p =
     (if cfg_t_dwu_100us (st_config p) = 0 then DEFAULT_T_DWU_100US else cfg_t_dwu_100us (st_config p))"

definition iolink_master_t_sd_100us :: "'e iolink_master_port_state_t \<Rightarrow> u32" where
  "iolink_master_t_sd_100us p =
     (if cfg_t_sd_100us (st_config p) = 0 then DEFAULT_T_SD_100US else cfg_t_sd_100us (st_config p))"

subsection \<open>PHY hooks\<close>

definition set_error :: "'e iolink_master_port_state_t \<Rightarrow> 'e iolink_master_port_state_t" where
  "set_error p = p\<lparr>st_state := STATE_ERROR\<rparr>"

definition iolink_master_set_mode ::
  "iolink_phy_mode_t \<Rightarrow> 'e iolink_master_port_state_t \<Rightarrow> 'e \<Rightarrow> int \<times> 'e" where
  "iolink_master_set_mode mode p e =
     (case cfg_set_mode_checked (st_config p) of
        Some set_mode_checked \<Rightarrow> set_mode_checked mode e
      | None \<Rightarrow> (STATUS_OK,
          case Option.bind (st_phy p) phy_set_mode of None \<Rightarrow> e | Some set_mode \<Rightarrow> set_mode mode e))"

definition iolink_master_set_baudrate ::
  "iolink_baudrate_t \<Rightarrow> 'e iolink_master_port_state_t \<Rightarrow> 'e \<Rightarrow> int \<times> 'e" where
  "iolink_master_set_baudrate baudrate p e =
     (case cfg_set_baudrate_checked (st_config p) of
        Some set_baudrate_checked \<Rightarrow> set_baudrate_checked baudrate e
      | None \<Rightarrow> (STATUS_OK,
          case Option.bind (st_phy p) phy_set_baudrate of
            None \<Rightarrow> e | Some set_baudrate \<Rightarrow> set_baudrate baudrate e))"

definition iolink_master_flush_rx ::
  "'e iolink_master_port_state_t \<Rightarrow> 'e \<Rightarrow> int \<times> 'e iolink_master_port_state_t \<times> 'e" where
  "iolink_master_flush_rx p e =
     (let p = p\<lparr>st_rx := (st_rx p)\<lparr>rx_len := 0\<rparr>\<rparr>;
          (ret, e) = call_hook (cfg_flush_rx (st_config p)) e
      in (ret, p, e))"

subsection \<open>Retries\<close>

definition iolink_master_arm_send_gate ::
  "u32 \<Rightarrow> u32 \<Rightarrow> bool \<Rightarrow> 'e iolink_master_port_state_t \<Rightarrow> 'e iolink_master_port_state_t" where
  "iolink_master_arm_send_gate now_100us delay_100us timed p =
     (if timed
      then p\<lparr>st_send_ready_at_100us := now_100us + delay_100us, st_send_ready_valid := True\<rparr>
      else p)"

definition iolink_master_reset_rate_scan ::
  "'e iolink_master_port_state_t \<Rightarrow> 'e \<Rightarrow> (int \<times> 'e iolink_master_port_state_t \<times> 'e) option" where
  "iolink_master_reset_rate_scan p e =
     (if \<not> cfg_auto_baudrate (st_config p) \<or> su_baudrate_index (st_startup p) = 0
      then Some (STATUS_OK, p, e)
      else do {
        let p = p\<lparr>st_startup := (st_startup p)\<lparr>su_baudrate_index := 0\<rparr>\<rparr>;
        baudrate \<leftarrow> iolink_master_startup_baudrate p;
        let (ret, e) = iolink_master_set_baudrate baudrate p e;
        Some (ret, p, e)
      })"

definition iolink_master_restart_establish ::
  "u32 \<Rightarrow> bool \<Rightarrow> 'e iolink_master_port_state_t \<Rightarrow> 'e \<Rightarrow>
   (int \<times> 'e iolink_master_port_state_t \<times> 'e) option" where
  "iolink_master_restart_establish now_100us timed p e = do {
     let p = p\<lparr>st_state := STATE_STARTUP\<rparr>;
     let p = p\<lparr>st_startup := (st_startup p)\<lparr>su_step := STARTUP_STEP_WAKE, su_wake_attempts := 0\<rparr>\<rparr>;
     let p = p\<lparr>st_diagnostics := (st_diagnostics p)\<lparr>dg_rx_retry_count := 0\<rparr>\<rparr>;
     let p = p\<lparr>st_awaiting_response := False\<rparr>;
     (ret, p, e) \<leftarrow> iolink_master_reset_rate_scan p e;
     if ret \<noteq> STATUS_OK then Some (ret, set_error p, e)
     else Some (STATUS_PENDING,
       iolink_master_arm_send_gate now_100us (iolink_master_t_dwu_100us p) timed p, e)
   }"

text \<open>The three outcomes of a failed test message.\<close>

definition establish_next_rate ::
  "u32 \<Rightarrow> bool \<Rightarrow> 'e iolink_master_port_state_t \<Rightarrow> 'e \<Rightarrow>
   (int \<times> 'e iolink_master_port_state_t \<times> 'e) option" where
  "establish_next_rate now_100us timed p e = do {
     let p = p\<lparr>st_startup := (st_startup p)\<lparr>su_baudrate_index := trunc8 (su_baudrate_index (st_startup p) + 1)\<rparr>\<rparr>;
     baudrate \<leftarrow> iolink_master_startup_baudrate p;
     let (ret, e) = iolink_master_set_baudrate baudrate p e;
     if ret \<noteq> STATUS_OK then Some (ret, set_error p, e)
     else do {
       let p = p\<lparr>st_startup := (st_startup p)\<lparr>su_step := STARTUP_STEP_SEND_TYPE0\<rparr>\<rparr>;
       Some (STATUS_PENDING,
         iolink_master_arm_send_gate now_100us (iolink_master_t_dmt_100us p baudrate) timed p, e)
     }
   }"

definition establish_sequence_failed ::
  "u32 \<Rightarrow> bool \<Rightarrow> 'e iolink_master_port_state_t \<Rightarrow> 'e \<Rightarrow> int \<times> 'e iolink_master_port_state_t \<times> 'e" where
  "establish_sequence_failed now_100us timed p e =
     (let p = p\<lparr>st_startup := (st_startup p)\<lparr>su_wake_attempts := 0\<rparr>\<rparr>;
          p = p\<lparr>st_diagnostics := (st_diagnostics p)
                  \<lparr>dg_establish_failures := dg_establish_failures (st_diagnostics p) + 1\<rparr>\<rparr>;
          (ret, e) = iolink_master_set_mode PHY_MODE_INACTIVE p e
      in if ret \<noteq> STATUS_OK then (ret, set_error p, e)
         else let p = p\<lparr>st_startup := (st_startup p)\<lparr>su_step := STARTUP_STEP_INACTIVE\<rparr>\<rparr>
              in (ERR_RETRY_LIMIT,
                  iolink_master_arm_send_gate now_100us (iolink_master_t_sd_100us p) timed p, e))"

definition iolink_master_establish_attempt_failed ::
  "u32 \<Rightarrow> bool \<Rightarrow> 'e iolink_master_port_state_t \<Rightarrow> 'e \<Rightarrow>
   (int \<times> 'e iolink_master_port_state_t \<times> 'e) option" where
  "iolink_master_establish_attempt_failed now_100us timed p e =
     (let last_rate = length g_iolink_master_baudrate_scan - 1;
          p = p\<lparr>st_awaiting_response := False\<rparr>
      in if cfg_auto_baudrate (st_config p) \<and> su_baudrate_index (st_startup p) < last_rate
         then establish_next_rate now_100us timed p e
         else do {
           let p = p\<lparr>st_startup := (st_startup p)\<lparr>su_wake_attempts := trunc8 (su_wake_attempts (st_startup p) + 1)\<rparr>\<rparr>;
           (ret, p, e) \<leftarrow> iolink_master_reset_rate_scan p e;
           if ret \<noteq> STATUS_OK then Some (ret, set_error p, e)
           else if su_wake_attempts (st_startup p) \<le> iolink_master_wake_retry_limit p
           then do {
             let p = p\<lparr>st_startup := (st_startup p)\<lparr>su_step := STARTUP_STEP_WAKE\<rparr>\<rparr>;
             Some (STATUS_PENDING,
               iolink_master_arm_send_gate now_100us (iolink_master_t_dwu_100us p) timed p, e)
           }
           else Some (establish_sequence_failed now_100us timed p e)
         })"

definition iolink_master_on_timeout_at ::
  "u32 \<Rightarrow> bool \<Rightarrow> 'e iolink_master_port_state_t \<Rightarrow> 'e \<Rightarrow>
   (int \<times> 'e iolink_master_port_state_t \<times> 'e) option" where
  "iolink_master_on_timeout_at now_100us timed p e =
     (let (ret, p, e) = iolink_master_flush_rx p e
      in if ret \<noteq> STATUS_OK then Some (ret, set_error p, e)
         else if st_state p \<noteq> STATE_STARTUP
         then if st_state p = STATE_OPERATE
              then let p = p\<lparr>st_diagnostics := (st_diagnostics p)
                             \<lparr>dg_response_timeouts := dg_response_timeouts (st_diagnostics p) + 1\<rparr>\<rparr>
                   in if dg_rx_retry_count (st_diagnostics p) < RX_RETRY_LIMIT
                      then Some (STATUS_PENDING,
                        p\<lparr>st_diagnostics := (st_diagnostics p)
                          \<lparr>dg_rx_retry_count := trunc8 (dg_rx_retry_count (st_diagnostics p) + 1)\<rparr>\<rparr>, e)
                      else iolink_master_restart_establish now_100us timed p e
              else Some (STATUS_OK, p, e)
         else if st_phy p = None then Some (ERR_INVALID_ARG, p, e)
         else if su_step (st_startup p) = STARTUP_STEP_INACTIVE then Some (STATUS_PENDING, p, e)
         else iolink_master_establish_attempt_failed now_100us timed p e)"

definition iolink_master_on_timeout ::
  "'e iolink_master_port_state_t \<Rightarrow> 'e \<Rightarrow> (int \<times> 'e iolink_master_port_state_t \<times> 'e) option" where
  "iolink_master_on_timeout p e = iolink_master_on_timeout_at 0 False p e"

subsection \<open>The port keeps its invariant\<close>

lemma last_rate:
  "length g_iolink_master_baudrate_scan - 1 = 2" "length g_iolink_master_baudrate_scan - Suc 0 = 2"
  by (simp_all add: g_iolink_master_baudrate_scan_def)

lemma set_error_kept: "port_kept L p (set_error p') = port_kept L p p'"
  by (simp add: set_error_def port_kept_def port_wf_state)

lemma set_error_fields [simp]:
  "st_phy (set_error p) = st_phy p" "st_config (set_error p) = st_config p"
  "st_state (set_error p) = STATE_ERROR"
  by (simp_all add: set_error_def)

lemma port_wf_error [simp]: "port_wf L (set_error p) = port_wf L p"
  by (simp add: set_error_def port_wf_state)

lemma arm_send_gate_kept:
  "port_kept L p (iolink_master_arm_send_gate now delay timed p') = port_kept L p p'"
  by (simp add: iolink_master_arm_send_gate_def port_wf_defs)

lemma startup_baudrate_defined: "port_wf L p \<Longrightarrow> \<exists>b. iolink_master_startup_baudrate p = Some b"
  by (simp add: iolink_master_startup_baudrate_def port_wf_defs rd_def g_iolink_master_baudrate_scan_def)

lemma timeouts_defined:
  assumes "port_wf L p"
  shows "\<exists>t. iolink_master_response_timeout_100us p = Some t"
    and "\<exists>t. iolink_master_test_message_timeout_100us p = Some t"
  using startup_baudrate_defined [OF assms]
  by (auto simp: iolink_master_response_timeout_100us_def iolink_master_test_message_timeout_100us_def
      Let_def)

lemma flush_rx_kept:
  assumes "port_wf L p" and "iolink_master_flush_rx p e = (ret, p', e')"
  shows "port_kept L p p'"
  using assms by (auto simp: iolink_master_flush_rx_def Let_def case_prod_unfold port_wf_defs)

text \<open>
  The environment after an operation is the one before it or one that setting the rate has
  produced; \<open>quiet d p\<close> says that neither that nor the event notification makes octets
  available, and that reading an octet consumes one.
\<close>

definition quiet :: "('e \<Rightarrow> nat) \<Rightarrow> 'e iolink_master_port_state_t \<Rightarrow> bool" where
  "quiet d p \<longleftrightarrow>
     (\<forall>phy recv e r octet e'. st_phy p = Some phy \<longrightarrow> phy_recv_byte phy = Some recv \<longrightarrow>
        recv e = (r, octet, e') \<longrightarrow> 0 < r \<longrightarrow> d e' < d e) \<and>
     (\<forall>b e. d (snd (iolink_master_set_baudrate b p e)) \<le> d e) \<and>
     (\<forall>handler e. cfg_event_pending_handler (st_config p) = Some handler \<longrightarrow> d (handler e) \<le> d e)"

lemma quiet_kept: "port_kept L p p' \<Longrightarrow> quiet d p' = quiet d p"
proof -
  assume kept: "port_kept L p p'"
  then have "iolink_master_set_baudrate b p' e = iolink_master_set_baudrate b p e" for b e
    by (auto simp: port_kept_def iolink_master_set_baudrate_def split: option.splits)
  with kept show ?thesis by (simp add: quiet_def port_kept_def)
qed

definition rx_kept ::
  "iolinki \<Rightarrow> ('e \<Rightarrow> nat) \<Rightarrow> 'e iolink_master_port_state_t \<Rightarrow> 'e \<Rightarrow>
   'e iolink_master_port_state_t \<Rightarrow> 'e \<Rightarrow> bool" where
  "rx_kept L d p e p' e' \<longleftrightarrow> port_kept L p p' \<and> (quiet d p \<longrightarrow> d e' \<le> d e)"

lemma rx_kept_same: "rx_kept L d p e p' e = port_kept L p p'"
  by (simp add: rx_kept_def)

lemma rx_kept_trans: "rx_kept L d p e p' e' \<Longrightarrow> rx_kept L d p' e' p'' e'' \<Longrightarrow> rx_kept L d p e p'' e''"
  by (auto simp: rx_kept_def quiet_kept intro: port_kept_trans)

lemma rx_kept_error: "rx_kept L d p e (set_error p') e' = rx_kept L d p e p' e'"
  by (simp add: rx_kept_def set_error_kept)

lemma rx_kept_gate:
  "rx_kept L d p e (iolink_master_arm_send_gate now delay timed p') e' = rx_kept L d p e p' e'"
  by (simp add: rx_kept_def arm_send_gate_kept)

lemma reset_rate_scan_kept:
  assumes "port_wf L p"
  shows "ensures (iolink_master_reset_rate_scan p e) (\<lambda>(ret, p', e'). rx_kept L d p e p' e')"
proof -
  define p1 where "p1 = p\<lparr>st_startup := (st_startup p)\<lparr>su_baudrate_index := 0\<rparr>\<rparr>"
  have kept: "port_kept L p p1" using assms by (simp add: p1_def port_wf_defs)
  then obtain b where b: "iolink_master_startup_baudrate p1 = Some b"
    using startup_baudrate_defined by (auto simp: port_kept_def)
  have "quiet d p \<Longrightarrow> d (snd (iolink_master_set_baudrate b p1 e)) \<le> d e"
    using quiet_kept [OF kept, of d] by (simp add: quiet_def)
  then show ?thesis
    using kept port_kept_refl [OF assms]
    by (simp add: iolink_master_reset_rate_scan_def Let_def case_prod_unfold p1_def [symmetric] b
        rx_kept_def)
qed

lemma restart_establish_kept:
  assumes "port_wf L p"
  shows "ensures (iolink_master_restart_establish now timed p e) (\<lambda>(ret, p', e'). rx_kept L d p e p' e')"
proof -
  define p1 where "p1 = p\<lparr>st_state := STATE_STARTUP,
    st_startup := (st_startup p)\<lparr>su_step := STARTUP_STEP_WAKE, su_wake_attempts := 0\<rparr>,
    st_diagnostics := (st_diagnostics p)\<lparr>dg_rx_retry_count := 0\<rparr>, st_awaiting_response := False\<rparr>"
  have kept: "port_kept L p p1" using assms by (simp add: p1_def port_wf_defs)
  then have "ensures (iolink_master_reset_rate_scan p1 e) (\<lambda>(ret, p', e'). rx_kept L d p1 e p' e')"
    by (intro reset_rate_scan_kept) (simp add: port_kept_def)
  then have "ensures (iolink_master_reset_rate_scan p1 e) (\<lambda>(ret, p', e'). rx_kept L d p e p' e')"
    by (rule ensures_mono) (auto intro: rx_kept_trans [OF kept [folded rx_kept_same [of L d p e]]])
  moreover have "iolink_master_restart_establish now timed p e = do {
     (ret, p, e) \<leftarrow> iolink_master_reset_rate_scan p1 e;
     if ret \<noteq> STATUS_OK then Some (ret, set_error p, e)
     else Some (STATUS_PENDING,
       iolink_master_arm_send_gate now (iolink_master_t_dwu_100us p) timed p, e) }"
    by (simp add: iolink_master_restart_establish_def p1_def)
  ultimately show ?thesis
    by (auto simp: ensures_simps rx_kept_error rx_kept_gate elim!: ensures_mono)
qed

lemma establish_next_rate_kept:
  assumes "port_wf L p" and "su_baudrate_index (st_startup p) < 2"
  shows "ensures (establish_next_rate now timed p e) (\<lambda>(ret, p', e'). port_kept L p p')"
proof -
  define p1 where "p1 = p\<lparr>st_startup := (st_startup p)
    \<lparr>su_baudrate_index := trunc8 (su_baudrate_index (st_startup p) + 1)\<rparr>\<rparr>"
  have kept: "port_kept L p p1" using assms by (simp add: p1_def port_wf_defs)
  then obtain b where b: "iolink_master_startup_baudrate p1 = Some b"
    using startup_baudrate_defined by (auto simp: port_kept_def)
  have "port_kept L p (p1\<lparr>st_startup := (st_startup p1)\<lparr>su_step := STARTUP_STEP_SEND_TYPE0\<rparr>\<rparr>)"
    using kept by (simp add: port_kept_def port_wf_step)
  then show ?thesis
    using kept unfolding establish_next_rate_def Let_def p1_def [symmetric] b bind.bind_lunit
    by (simp add: case_prod_unfold set_error_kept arm_send_gate_kept)
qed

lemma establish_sequence_failed_kept:
  assumes "port_wf L p" and "establish_sequence_failed now timed p e = (ret, p', e')"
  shows "port_kept L p p'"
  using assms
  by (auto simp: establish_sequence_failed_def Let_def case_prod_unfold set_error_kept arm_send_gate_kept
      split: if_splits) (simp_all add: port_wf_defs)

lemma establish_attempt_failed_kept:
  assumes "port_wf L p"
  shows "ensures (iolink_master_establish_attempt_failed now timed p e)
    (\<lambda>(ret, p', e'). port_kept L p p')"
proof (cases "cfg_auto_baudrate (st_config p) \<and> su_baudrate_index (st_startup p) < 2")
  case True
  define p1 where "p1 = p\<lparr>st_awaiting_response := False\<rparr>"
  have kept: "port_kept L p p1" using assms by (simp add: p1_def port_wf_defs)
  moreover have "ensures (establish_next_rate now timed p1 e) (\<lambda>(ret, p', e'). port_kept L p1 p')"
    using True kept by (intro establish_next_rate_kept) (simp_all add: port_kept_def p1_def)
  ultimately show ?thesis
    using True
    by (auto simp: iolink_master_establish_attempt_failed_def p1_def [symmetric]
        last_rate elim!: ensures_mono intro: port_kept_trans)
       (simp_all add: p1_def)
next
  case False
  define p1 where "p1 = p\<lparr>st_awaiting_response := False, st_startup := (st_startup p)
    \<lparr>su_wake_attempts := trunc8 (su_wake_attempts (st_startup p) + 1)\<rparr>\<rparr>"
  have kept: "port_kept L p p1" using assms by (simp add: p1_def port_wf_defs)
  have "ensures (iolink_master_reset_rate_scan p1 e) (\<lambda>(ret, p', e'). rx_kept L (\<lambda>_. 0) p1 e p' e')"
    using kept by (intro reset_rate_scan_kept) (simp add: port_kept_def)
  then obtain ret p2 e2 where reset: "iolink_master_reset_rate_scan p1 e = Some (ret, p2, e2)"
    "port_kept L p p2"
    using port_kept_trans [OF kept] by (auto simp: rx_kept_def elim!: ensuresE)
  then have "port_wf L p2" by (simp add: port_kept_def)
  note failed = port_kept_trans [OF reset(2) establish_sequence_failed_kept [OF this]]
  have "iolink_master_establish_attempt_failed now timed p e =
    (if ret \<noteq> STATUS_OK then Some (ret, set_error p2, e2)
     else if su_wake_attempts (st_startup p2) \<le> iolink_master_wake_retry_limit p2
     then let p = p2\<lparr>st_startup := (st_startup p2)\<lparr>su_step := STARTUP_STEP_WAKE\<rparr>\<rparr>
          in Some (STATUS_PENDING,
               iolink_master_arm_send_gate now (iolink_master_t_dwu_100us p) timed p, e2)
     else Some (establish_sequence_failed now timed p2 e2))"
    using False reset(1)
    by (auto simp: iolink_master_establish_attempt_failed_def last_rate p1_def Let_def)
  moreover have "port_kept L p (p2\<lparr>st_startup := (st_startup p2)\<lparr>su_step := STARTUP_STEP_WAKE\<rparr>\<rparr>)"
    using reset(2) by (simp add: port_kept_def port_wf_step)
  ultimately show ?thesis
    using reset(2) failed
    by (cases "establish_sequence_failed now timed p2 e2")
      (auto simp: set_error_kept arm_send_gate_kept Let_def)
qed

lemma on_timeout_kept:
  assumes "port_wf L p"
  shows "ensures (iolink_master_on_timeout_at now timed p e) (\<lambda>(ret, p', e'). port_kept L p p')"
proof -
  obtain ret p1 e1 where flush: "iolink_master_flush_rx p e = (ret, p1, e1)"
    by (cases "iolink_master_flush_rx p e") auto
  note kept = flush_rx_kept [OF assms flush]
  define p2 where "p2 = p1\<lparr>st_diagnostics := (st_diagnostics p1)
    \<lparr>dg_response_timeouts := dg_response_timeouts (st_diagnostics p1) + 1\<rparr>\<rparr>"
  have kept2: "port_kept L p (p2\<lparr>st_diagnostics := x\<rparr>)" "port_kept L p p2" for x
    using kept by (simp_all add: p2_def port_kept_def port_wf_diagnostics)
  have restart: "ensures (iolink_master_restart_establish now timed p2 e1) (\<lambda>(ret, p', e'). port_kept L p p')"
    using restart_establish_kept [of L p2 now timed e1 "\<lambda>_. 0"] kept2(2)
    by (auto simp: rx_kept_def port_kept_def elim!: ensures_mono)
  have failed: "ensures (iolink_master_establish_attempt_failed now timed p1 e1)
      (\<lambda>(ret, p', e'). port_kept L p p')"
    using establish_attempt_failed_kept [of L p1 now timed e1] kept
    by (auto elim!: ensures_mono intro: port_kept_trans simp: port_kept_def)
  show ?thesis
    using kept kept2 restart failed
    by (simp add: iolink_master_on_timeout_at_def flush Let_def p2_def [symmetric] set_error_kept)
qed

end
