(* ===== verification/MasterReceive.thy ===== *)
theory MasterReceive
  imports MasterStartup
begin

text \<open>
  Reception, from \<open>src/master_port.c\<close> (lines 1113-1386): framing of the received octets
  into replies, the checks of a reply in each state of the port, and the routing of its OD
  octets to the event engine or the ISDU engine.

  \<open>poll_loop\<close> is the endless loop of \<open>iolink_master_poll_rx\<close>; it has no result when the PHY
  never reports an empty receive queue.
\<close>

subsection \<open>Routing of OD octets\<close>

definition iolink_master_route_od ::
  "iolinki \<Rightarrow> u8 list \<Rightarrow> 'e iolink_master_port_state_t \<Rightarrow> 'e iolink_master_port_state_t option" where
  "iolink_master_route_od L od p =
     (case iolink_master_event_channel_access p of
        Some (read, addr, event_od_len) \<Rightarrow>
          if read \<and> ev_od_expected (st_event p)
          then do {
            ev \<leftarrow> iolink_master_event_on_od od ((st_event p)\<lparr>ev_od_expected := False\<rparr>);
            Some (p\<lparr>st_event := ev\<rparr>)
          }
          else Some p
      | None \<Rightarrow> do {
          isdu \<leftarrow> iolink_master_isdu_on_od L od (st_isdu p);
          Some (p\<lparr>st_isdu := isdu\<rparr>)
        })"

subsection \<open>Checks of a reply\<close>

definition rx_checksum_error :: "'e iolink_master_port_state_t \<Rightarrow> 'e iolink_master_port_state_t" where
  "rx_checksum_error p =
     p\<lparr>st_diagnostics := (st_diagnostics p)
        \<lparr>dg_checksum_errors := dg_checksum_errors (st_diagnostics p) + 1\<rparr>\<rparr>"

text \<open>A reply that fails its checksum: two retries, then the communication is lost.\<close>

definition rx_retry ::
  "'e iolink_master_port_state_t \<Rightarrow> 'e \<Rightarrow> (int \<times> 'e iolink_master_port_state_t \<times> 'e) option" where
  "rx_retry p e =
     (let p = rx_checksum_error p
      in if dg_rx_retry_count (st_diagnostics p) < RX_RETRY_LIMIT
         then Some (ERR_CHECKSUM,
           p\<lparr>st_diagnostics := (st_diagnostics p)
              \<lparr>dg_rx_retry_count := trunc8 (dg_rx_retry_count (st_diagnostics p) + 1)\<rparr>\<rparr>, e)
         else do {
           (_, p, e) \<leftarrow> iolink_master_restart_establish 0 False p e;
           Some (ERR_CHECKSUM, p, e)
         })"

definition rx_accepted :: "'e iolink_master_port_state_t \<Rightarrow> 'e iolink_master_port_state_t" where
  "rx_accepted p =
     p\<lparr>st_diagnostics := (st_diagnostics p)\<lparr>dg_rx_retry_count := 0\<rparr>, st_awaiting_response := False\<rparr>"

definition on_rx_startup ::
  "iolinki \<Rightarrow> u8 list \<Rightarrow> 'e iolink_master_port_state_t \<Rightarrow> 'e \<Rightarrow>
   (int \<times> 'e iolink_master_port_state_t \<times> 'e) option" where
  "on_rx_startup L data p e =
     (if su_step (st_startup p) \<noteq> STARTUP_STEP_AWAIT_RESPONSE then Some (ERR_FRAME, p, e)
      else if length data \<noteq> M_SEQ_TYPE0_LEN L then Some (ERR_FRAME, p, e)
      else do {
        ok \<leftarrow> iolink_master_type0_reply_ok L data;
        if \<not> ok then Some (ERR_CHECKSUM, rx_checksum_error p, e)
        else do {
          octet \<leftarrow> rd data 0;
          let p = rx_accepted p;
          let p = p\<lparr>st_startup := (st_startup p)\<lparr>su_wake_attempts := 0\<rparr>\<rparr>;
          let p = p\<lparr>st_device_info := (st_device_info p)\<lparr>di_min_cycle_time := octet\<rparr>\<rparr>;
          Some (STATUS_OK, p\<lparr>st_state := STATE_PREOPERATE\<rparr>, e)
        }
      })"

definition on_rx_operate_ack ::
  "iolinki \<Rightarrow> u8 list \<Rightarrow> 'e iolink_master_port_state_t \<Rightarrow> 'e \<Rightarrow>
   (int \<times> 'e iolink_master_port_state_t \<times> 'e) option" where
  "on_rx_operate_ack L data p e = do {
     cks \<leftarrow> rd data 0;
     let flags = cks AND 0xC0;
     if length data \<noteq> 1 then Some (ERR_FRAME, p, e)
     else if checksum6 L [flags] \<noteq> cks AND 0x3F then rx_retry p e
     else do {
       let p = rx_accepted p;
       let p = p\<lparr>st_diagnostics := (st_diagnostics p)\<lparr>dg_event_pending := (cks AND 0x80 \<noteq> 0)\<rparr>\<rparr>;
       Some (STATUS_OK, p\<lparr>st_state := STATE_OPERATE\<rparr>, e)
     }
   }"

text \<open>The TYPE_0 replies of PREOPERATE and of an OPERATE port without process data.\<close>

definition on_rx_type0 ::
  "iolinki \<Rightarrow> u8 list \<Rightarrow> 'e iolink_master_port_state_t \<Rightarrow> 'e \<Rightarrow>
   (int \<times> 'e iolink_master_port_state_t \<times> 'e) option" where
  "on_rx_type0 L data p e =
     (if length data \<noteq> M_SEQ_TYPE0_LEN L then Some (ERR_FRAME, p, e)
      else do {
        ok \<leftarrow> iolink_master_type0_reply_ok L data;
        if \<not> ok then rx_retry p e
        else do {
          od \<leftarrow> rd_slice data 0 1;
          p \<leftarrow> iolink_master_route_od L od (rx_accepted p);
          Some (STATUS_OK, p, e)
        }
      })"

definition rx_store_pd ::
  "iolink_frame_operate_response_t \<Rightarrow> 'e iolink_master_port_state_t \<Rightarrow>
   'e iolink_master_port_state_t option" where
  "rx_store_pd resp p =
     (if resp_pd_valid resp
      then do {
        pd \<leftarrow> rd_slice (resp_pd resp) 0 (resp_pd_len resp);
        pd_in \<leftarrow> wr_slice (st_pd_in p) 0 pd;
        Some (p\<lparr>st_pd_in := pd_in, st_pd_in_len := resp_pd_len resp, st_pd_valid := True\<rparr>)
      }
      else Some p)"

definition rx_dispatch_event ::
  "iolink_frame_operate_response_t \<Rightarrow> 'e iolink_master_port_state_t \<Rightarrow> 'e \<Rightarrow> 'e" where
  "rx_dispatch_event resp p e =
     (if resp_event_pending resp \<and> \<not> dg_event_pending (st_diagnostics p)
      then case cfg_event_pending_handler (st_config p) of None \<Rightarrow> e | Some handler \<Rightarrow> handler e
      else e)"

definition on_rx_operate ::
  "iolinki \<Rightarrow> u8 list \<Rightarrow> 'e iolink_master_port_state_t \<Rightarrow> 'e \<Rightarrow>
   (int \<times> 'e iolink_master_port_state_t \<times> 'e) option" where
  "on_rx_operate L data p e =
     (case frame_decode_operate_response L data (cfg_pd_in_len (st_config p))
             (if st_rx_od_expected p then st_od_len p else 0) of
        None \<Rightarrow> Some (ERR_FRAME, p, e)
      | Some resp \<Rightarrow>
          if \<not> resp_checksum_ok resp then rx_retry p e
          else do {
            let p = rx_accepted p;
            let p = p\<lparr>st_diagnostics := (st_diagnostics p)\<lparr>dg_od_status := resp_status resp\<rparr>\<rparr>;
            let e = rx_dispatch_event resp p e;
            let p = p\<lparr>st_diagnostics := (st_diagnostics p)\<lparr>dg_event_pending := resp_event_pending resp\<rparr>\<rparr>;
            p \<leftarrow> rx_store_pd resp p;
            od \<leftarrow> rd_slice (resp_od resp) 0 (resp_od_len resp);
            p \<leftarrow> iolink_master_route_od L od p;
            Some (STATUS_OK, p, e)
          })"

text \<open>An OPERATE port without process data, whose replies are TYPE_0 replies.\<close>

definition type0_operate :: "'e iolink_master_port_state_t \<Rightarrow> bool" where
  "type0_operate p \<longleftrightarrow>
     cfg_m_seq_type (st_config p) = M_SEQ_TYPE_0 \<and> cfg_pd_in_len (st_config p) = 0 \<and>
     st_pd_out_len p = 0"

definition iolink_master_on_rx ::
  "iolinki \<Rightarrow> u8 list option \<Rightarrow> 'e iolink_master_port_state_t \<Rightarrow> 'e \<Rightarrow>
   (int \<times> 'e iolink_master_port_state_t \<times> 'e) option" where
  "iolink_master_on_rx L data p e =
     (case data of
        None \<Rightarrow> Some (ERR_INVALID_ARG, p, e)
      | Some data \<Rightarrow>
          if data = [] then Some (ERR_INVALID_ARG, p, e)
          else if st_state p = STATE_STARTUP then on_rx_startup L data p e
          else if st_state p = STATE_PREOPERATE \<and>
                  su_step (st_startup p) = STARTUP_STEP_AWAIT_OPERATE_ACK
          then on_rx_operate_ack L data p e
          else if st_state p = STATE_PREOPERATE then on_rx_type0 L data p e
          else if st_state p = STATE_OPERATE \<and> type0_operate p then on_rx_type0 L data p e
          else on_rx_operate L data p e)"

subsection \<open>Polling\<close>

text \<open>The length of the next reply; \<open>None\<close> is the early return when no reply is framed.\<close>

definition rx_expected_len :: "iolinki \<Rightarrow> 'e iolink_master_port_state_t \<Rightarrow> nat option" where
  "rx_expected_len L p =
     (if st_state p = STATE_STARTUP \<and> su_step (st_startup p) = STARTUP_STEP_AWAIT_RESPONSE
      then Some (M_SEQ_TYPE0_LEN L)
      else if st_state p = STATE_PREOPERATE
      then Some (if su_step (st_startup p) = STARTUP_STEP_AWAIT_OPERATE_ACK then 1
                 else M_SEQ_TYPE0_LEN L)
      else if st_state p = STATE_OPERATE
      then let od_octets = (if type0_operate p \<or> st_rx_od_expected p then st_od_len p else 0)
           in Some (trunc8 (cfg_pd_in_len (st_config p) + od_octets + 1))
      else None)"

definition rx_clear :: "'e iolink_master_port_state_t \<Rightarrow> 'e iolink_master_port_state_t" where
  "rx_clear p = p\<lparr>st_rx := (st_rx p)\<lparr>rx_len := 0\<rparr>\<rparr>"

text \<open>One received octet: \<open>Inl\<close> is the result of the poll, \<open>Inr frames\<close> goes on.\<close>

definition rx_octet ::
  "iolinki \<Rightarrow> nat \<Rightarrow> u8 \<Rightarrow> int \<Rightarrow> 'e iolink_master_port_state_t \<Rightarrow> 'e \<Rightarrow>
   ((int + int) \<times> 'e iolink_master_port_state_t \<times> 'e) option" where
  "rx_octet L expected_len byte frames p e =
     (if rx_len (st_rx p) \<ge> FRAME_BUF_SIZE then Some (Inl ERR_CHECKSUM, rx_clear (set_error p), e)
      else do {
        buf \<leftarrow> wr (rx_buf (st_rx p)) (rx_len (st_rx p)) byte;
        let p = p\<lparr>st_rx := \<lparr>rx_buf = buf, rx_len = trunc8 (rx_len (st_rx p) + 1)\<rparr>\<rparr>;
        if rx_len (st_rx p) \<ge> expected_len
        then do {
          data \<leftarrow> rd_slice (rx_buf (st_rx p)) 0 (rx_len (st_rx p));
          (frame_ret, p, e) \<leftarrow> iolink_master_on_rx L (Some data) p e;
          let p = rx_clear p;
          Some (if frame_ret \<noteq> 0 then Inl frame_ret else Inr (frames + 1), p, e)
        }
        else Some (Inr frames, p, e)
      })"

partial_function (option) poll_loop ::
  "iolinki \<Rightarrow> ('e \<Rightarrow> int \<times> u8 \<times> 'e) \<Rightarrow> nat \<Rightarrow> int \<Rightarrow> 'e iolink_master_port_state_t \<Rightarrow> 'e \<Rightarrow>
   (int \<times> 'e iolink_master_port_state_t \<times> 'e) option" where
  "poll_loop L recv_byte expected_len frames p e =
     (let (recv_ret, byte, e) = recv_byte e
      in if recv_ret < 0 then Some (ERR_FRAME, rx_clear (set_error p), e)
         else if recv_ret = 0 then Some (frames, p, e)
         else do {
           (ret, p, e) \<leftarrow> rx_octet L expected_len byte frames p e;
           case ret of
             Inl ret \<Rightarrow> Some (ret, p, e)
           | Inr frames \<Rightarrow> poll_loop L recv_byte expected_len frames p e
         })"

definition iolink_master_poll_rx ::
  "iolinki \<Rightarrow> 'e iolink_master_port_state_t \<Rightarrow> 'e \<Rightarrow> (int \<times> 'e iolink_master_port_state_t \<times> 'e) option"
where
  "iolink_master_poll_rx L p e =
     (case st_phy p of
        None \<Rightarrow> Some (ERR_INVALID_ARG, p, e)
      | Some phy \<Rightarrow>
          case phy_recv_byte phy of
            None \<Rightarrow> Some (STATUS_OK, p, e)
          | Some recv_byte \<Rightarrow>
              case rx_expected_len L p of
                None \<Rightarrow> Some (STATUS_OK, p, e)
              | Some expected_len \<Rightarrow> poll_loop L recv_byte expected_len 0 p e)"

subsection \<open>The port keeps its invariant\<close>

lemma event_wf_octet:
  assumes "event_wf ev"
  shows "ensures (event_store_octet octet ev) event_wf" and "ensures (event_check_status ev) event_wf"
  using assms
  by (auto simp: event_wf_def event_store_octet_def event_check_status_def ensures_simps Let_def)

lemma event_wf_loop: "event_wf ev \<Longrightarrow> ensures (event_od_loop od ev) event_wf"
proof (induction od arbitrary: ev)
  case (Cons octet od)
  have "ensures (event_store_octet octet ev) (\<lambda>ev. ensures (event_check_status ev)
      (\<lambda>ev. ensures (event_od_loop od ev) event_wf))"
    using event_wf_octet Cons by (blast intro: ensures_mono)
  then show ?case by (simp add: ensures_bind)
qed simp

lemma event_wf_on_od: "event_wf ev \<Longrightarrow> ensures (iolink_master_event_on_od od ev) event_wf"
  using event_wf_loop [of ev od]
  by (auto simp: iolink_master_event_on_od_def ensures_simps event_wf_def iolink_master_event_finish_def
      elim!: ensures_mono)

lemma route_od_kept:
  assumes "stack_constants_ok L" and "port_wf L p"
  shows "ensures (iolink_master_route_od L od p) (port_kept L p)"
proof -
  have wf: "event_wf ((st_event p)\<lparr>ev_od_expected := False\<rparr>)" "isdu_wf L (st_isdu p)"
    using assms(2) by (simp_all add: port_wf_def event_wf_def)
  have "ensures (iolink_master_isdu_on_od L od (st_isdu p)) (\<lambda>isdu. port_kept L p (p\<lparr>st_isdu := isdu\<rparr>))"
    using isdu_wf_on_od [OF wf(2) assms(1), of od] assms(2)
    by (auto simp: port_kept_def port_wf_isdu elim!: ensures_mono)
  moreover have "ensures (iolink_master_event_on_od od ((st_event p)\<lparr>ev_od_expected := False\<rparr>))
      (\<lambda>ev. port_kept L p (p\<lparr>st_event := ev\<rparr>))"
    using event_wf_on_od [OF wf(1), of od] assms(2)
    by (auto simp: port_kept_def port_wf_event elim!: ensures_mono)
  ultimately show ?thesis
    using assms(2)
    by (auto simp: iolink_master_route_od_def ensures_simps port_kept_refl split: option.splits)
qed

lemma rx_checksum_error_kept: "port_wf L p \<Longrightarrow> port_kept L p (rx_checksum_error p)"
  by (simp add: rx_checksum_error_def port_kept_def port_wf_diagnostics)

lemma rx_accepted_kept: "port_wf L p \<Longrightarrow> port_kept L p (rx_accepted p)"
  by (simp add: rx_accepted_def port_wf_defs)

lemma rx_clear_kept: "port_kept L p p' \<Longrightarrow> port_kept L p (rx_clear p')"
  by (auto simp: rx_clear_def port_wf_defs)

lemma rx_retry_kept:
  assumes "port_wf L p"
  shows "ensures (rx_retry p e) (\<lambda>(ret, p', e'). rx_kept L d p e p' e')"
proof -
  note kept = rx_checksum_error_kept [OF assms]
  then have "ensures (iolink_master_restart_establish 0 False (rx_checksum_error p) e)
      (\<lambda>(ret, p', e'). rx_kept L d (rx_checksum_error p) e p' e')"
    by (intro restart_establish_kept) (simp add: port_kept_def)
  then have "ensures (iolink_master_restart_establish 0 False (rx_checksum_error p) e)
      (\<lambda>(ret, p', e'). rx_kept L d p e p' e')"
    by (rule ensures_mono) (auto intro: rx_kept_trans [OF kept [folded rx_kept_same [of L d p e]]])
  moreover have "port_kept L p (rx_checksum_error p\<lparr>st_diagnostics := x\<rparr>)" for x
    using kept by (simp add: port_kept_def port_wf_diagnostics)
  ultimately show ?thesis
    by (auto simp: rx_retry_def Let_def ensures_simps rx_kept_same elim!: ensures_mono)
qed

lemma type0_reply_defined:
  "length data = 2 \<Longrightarrow> \<exists>ok. iolink_master_type0_reply_ok L data = Some ok"
  by (simp add: iolink_master_type0_reply_ok_def rd_def)

lemma on_rx_startup_kept:
  assumes "stack_constants_ok L" "port_wf L p"
  shows "ensures (on_rx_startup L data p e) (\<lambda>(ret, p', e'). rx_kept L d p e p' e')"
proof (cases "length data = 2")
  case True
  then obtain ok where ok: "iolink_master_type0_reply_ok L data = Some ok"
    using type0_reply_defined by blast
  have "port_kept L p (rx_accepted p\<lparr>st_startup := (st_startup (rx_accepted p))\<lparr>su_wake_attempts := 0\<rparr>,
      st_device_info := x, st_state := STATE_PREOPERATE\<rparr>)" for x
    using rx_accepted_kept [OF assms(2)] by (auto simp: port_wf_defs)
  then show ?thesis
    using True assms rx_checksum_error_kept [OF assms(2)] ok
    by (auto simp: on_rx_startup_def rx_kept_same port_kept_refl ensures_simps stack_constants_ok_def
        rd_def Let_def)
next
  case False
  then show ?thesis
    using assms by (simp add: on_rx_startup_def rx_kept_same port_kept_refl stack_constants_ok_def)
qed

lemma on_rx_operate_ack_kept:
  assumes "port_wf L p" "data \<noteq> []"
  shows "ensures (on_rx_operate_ack L data p e) (\<lambda>(ret, p', e'). rx_kept L d p e p' e')"
proof -
  have "port_kept L p (rx_accepted p\<lparr>st_diagnostics := x, st_state := STATE_OPERATE\<rparr>)" for x
    using rx_accepted_kept [OF assms(1)] by (auto simp: port_wf_defs)
  then show ?thesis
    using assms rx_retry_kept [OF assms(1)]
    by (simp add: on_rx_operate_ack_def rx_kept_same port_kept_refl rd_def Let_def)
qed

lemma on_rx_type0_kept:
  assumes "stack_constants_ok L" "port_wf L p"
  shows "ensures (on_rx_type0 L data p e) (\<lambda>(ret, p', e'). rx_kept L d p e p' e')"
proof (cases "length data = 2")
  case True
  then obtain ok where ok: "iolink_master_type0_reply_ok L data = Some ok"
    using type0_reply_defined by blast
  note kept = rx_accepted_kept [OF assms(2)]
  then have "ensures (iolink_master_route_od L od (rx_accepted p)) (port_kept L p)" for od
    using route_od_kept [OF assms(1), of "rx_accepted p" od]
    by (auto simp: port_kept_def elim!: ensures_mono)
  then show ?thesis
    using True assms rx_retry_kept [OF assms(2)] ok
    by (simp add: on_rx_type0_def rx_kept_same ensures_simps stack_constants_ok_def rd_slice_def)
next
  case False
  then show ?thesis
    using assms by (simp add: on_rx_type0_def rx_kept_same port_kept_refl stack_constants_ok_def)
qed

lemma rx_store_pd_kept:
  assumes "port_wf L p" "resp_pd_len resp = cfg_pd_in_len (st_config p)"
    "length (resp_pd resp) = resp_pd_len resp"
  shows "ensures (rx_store_pd resp p) (port_kept L p)"
  using assms by (auto simp: rx_store_pd_def ensures_simps port_kept_refl) (simp_all add: port_wf_defs)

lemma on_rx_operate_kept:
  assumes L: "iolinki_ok L" and wf: "port_wf L p"
  shows "ensures (on_rx_operate L data p e) (\<lambda>(ret, p', e'). rx_kept L d p e p' e')"
proof (cases "frame_decode_operate_response L data (cfg_pd_in_len (st_config p))
    (if st_rx_od_expected p then st_od_len p else 0)")
  case None
  then show ?thesis using wf by (simp add: on_rx_operate_def rx_kept_same port_kept_refl)
next
  case (Some resp)
  define p1 where "p1 = rx_accepted p\<lparr>st_diagnostics := (st_diagnostics (rx_accepted p))
    \<lparr>dg_od_status := resp_status resp\<rparr>\<rparr>"
  define p2 where "p2 = p1\<lparr>st_diagnostics := (st_diagnostics p1)
    \<lparr>dg_event_pending := resp_event_pending resp\<rparr>\<rparr>"
  have kept: "port_kept L p p2"
    using rx_accepted_kept [OF wf] by (simp add: p2_def p1_def port_kept_def port_wf_diagnostics)
  have lens: "resp_pd_len resp = cfg_pd_in_len (st_config p)" "length (resp_pd resp) = resp_pd_len resp"
    "length (resp_od resp) = resp_od_len resp"
    using L Some by (auto simp: iolinki_ok_def stack_frames_ok_def)
  have "ensures (rx_store_pd resp p2) (port_kept L p2)"
    using kept lens by (intro rx_store_pd_kept) (simp_all add: port_kept_def)
  then obtain p3 where p3: "rx_store_pd resp p2 = Some p3" "port_kept L p p3"
    using port_kept_trans [OF kept] by (auto elim: ensuresE)
  then have "port_wf L p3" by (simp add: port_kept_def)
  then have route: "ensures (iolink_master_route_od L od p3) (port_kept L p)" for od
    using L route_od_kept [of L p3 od] port_kept_trans [OF p3(2)]
    by (auto simp: iolinki_ok_def elim!: ensures_mono)
  have "st_config p1 = st_config p" by (simp add: p1_def rx_accepted_def)
  then have quiet: "quiet d p \<longrightarrow> d (rx_dispatch_event resp p1 e) \<le> d e"
    by (simp add: rx_dispatch_event_def quiet_def split: option.split)
  show ?thesis
    using route quiet rx_retry_kept [OF wf, of e d]
    unfolding on_rx_operate_def Some option.case Let_def p1_def [symmetric] p2_def [symmetric]
      p3(1) bind.bind_lunit
    by (simp add: rd_slice_def lens ensures_simps rx_kept_def)
qed

lemma on_rx_kept:
  assumes L: "iolinki_ok L" and wf: "port_wf L p"
  shows "ensures (iolink_master_on_rx L data p e) (\<lambda>(ret, p', e'). rx_kept L d p e p' e')"
  using wf L on_rx_operate_kept [OF L wf] on_rx_type0_kept [OF _ wf] on_rx_startup_kept [OF _ wf]
    on_rx_operate_ack_kept [OF wf]
  by (simp add: iolink_master_on_rx_def iolinki_ok_def rx_kept_same port_kept_refl split: option.split)

lemma rx_octet_kept:
  assumes L: "iolinki_ok L" and wf: "port_wf L p"
  shows "ensures (rx_octet L n byte frames p e) (\<lambda>(ret, p', e'). rx_kept L d p e p' e')"
proof (cases "rx_len (st_rx p) \<ge> 64")
  case True
  then show ?thesis
    using port_kept_refl [OF wf]
    by (simp add: rx_octet_def rx_kept_same rx_clear_kept set_error_kept)
next
  case False
  define p1 where "p1 = p\<lparr>st_rx := \<lparr>rx_buf = (rx_buf (st_rx p))[rx_len (st_rx p) := byte],
    rx_len = rx_len (st_rx p) + 1\<rparr>\<rparr>"
  have kept: "port_kept L p p1" and len: "length (rx_buf (st_rx p)) = 64"
    using wf False by (simp_all add: p1_def port_wf_defs)
  have "ensures (iolink_master_on_rx L data p1 e) (\<lambda>(ret, p', e'). rx_kept L d p1 e p' e')" for data
    using kept by (intro on_rx_kept [OF L]) (simp add: port_kept_def)
  then have on_rx: "ensures (iolink_master_on_rx L data p1 e) (\<lambda>(ret, p', e'). rx_kept L d p e p' e')" for data
    by (rule ensures_mono) (auto intro: rx_kept_trans [OF kept [folded rx_kept_same [of L d p e]]])
  have cleared: "ensures (iolink_master_on_rx L data p1 e) (\<lambda>(ret, p', e'). rx_kept L d p e (rx_clear p') e')" for data
    using on_rx by (rule ensures_mono) (auto simp: rx_kept_def rx_clear_kept)
  have "rx_octet L n byte frames p e =
    (if n \<le> rx_len (st_rx p1)
     then do {
       data \<leftarrow> rd_slice (rx_buf (st_rx p1)) 0 (rx_len (st_rx p1));
       (frame_ret, p, e) \<leftarrow> iolink_master_on_rx L (Some data) p1 e;
       Some (if frame_ret \<noteq> 0 then Inl frame_ret else Inr (frames + 1), rx_clear p, e)
     }
     else Some (Inr frames, p1, e))"
    using False len by (simp add: rx_octet_def wr_def p1_def Let_def)
  moreover have "rx_len (st_rx p1) \<le> length (rx_buf (st_rx p1))"
    using False len by (simp add: p1_def)
  ultimately show ?thesis
    using cleared kept by (simp add: ensures_simps rx_kept_same)
qed

text \<open>
  Polling returns: each turn of the loop consumes an octet, so it ends with the receive
  queue empty, with an error of the PHY or with a reply that is not accepted.
\<close>

lemma poll_loop_kept:
  assumes L: "iolinki_ok L"
  shows "\<lbrakk>port_wf L p; quiet d p; st_phy p = Some phy; phy_recv_byte phy = Some recv\<rbrakk> \<Longrightarrow>
    ensures (poll_loop L recv n frames p e) (\<lambda>(ret, p', e'). port_kept L p p')"
proof (induction "d e" arbitrary: p e frames rule: less_induct)
  case less
  obtain r octet e1 where recv: "recv e = (r, octet, e1)" by (cases "recv e")
  have less_d: "0 < r \<Longrightarrow> d e1 < d e"
    using less.prems recv unfolding quiet_def by blast
  show ?case
  proof (cases "0 < r")
    case False
    then show ?thesis
      using port_kept_refl [OF less.prems(1)]
      by (subst poll_loop.simps) (simp add: recv rx_clear_kept set_error_kept)
  next
    case True
    obtain ret p1 e2 where octet: "rx_octet L n octet frames p e1 = Some (ret, p1, e2)"
      "rx_kept L d p e1 p1 e2"
      using rx_octet_kept [OF L less.prems(1), of n octet frames e1 d] by (auto elim: ensuresE)
    then have kept: "port_kept L p p1" and d: "d e2 < d e"
      using less_d [OF True] less.prems(2) by (auto simp: rx_kept_def)
    have "ensures (poll_loop L recv n frames' p1 e2) (\<lambda>(ret, p', e'). port_kept L p p')" for frames'
      using less.hyps [OF d, of p1 frames'] less.prems kept quiet_kept [OF kept, of d]
      by (auto simp: port_kept_def elim!: ensures_mono)
    then show ?thesis
      using True kept
      by (subst poll_loop.simps) (simp add: recv octet(1) split: sum.split)
  qed
qed

lemma poll_rx_kept:
  assumes "iolinki_ok L" "port_wf L p" "quiet d p"
  shows "ensures (iolink_master_poll_rx L p e) (\<lambda>(ret, p', e'). port_kept L p p')"
  using assms poll_loop_kept [OF assms]
  by (auto simp: iolink_master_poll_rx_def port_kept_refl split: option.split)

end
