(* ===== verification/MasterDataStorage.thy ===== *)
theory MasterDataStorage
  imports MasterIsdu
begin

text \<open>
  Read-back verification of \<open>src/master_isdu.c\<close> (lines 611-756): the comparison of a
  parameter with its expected value, and the order-independent comparison of Data Storage
  images, which are sequences of records \<open>index (2), subindex (1), length (1), value\<close>.

  The loops of the code are partial functions: \<open>None\<close> is an access outside a buffer or a
  loop that does not end. \<open>ds_records\<close> is the abstract reading of an image; the loops
  implement it for every image an 8-bit length can describe.
\<close>

subsection \<open>The record cursor and the loops over images\<close>

text \<open>
  A pointer to octets is \<open>None\<close> for NULL. \<open>Some None\<close> is the result \<open>false\<close>; otherwise the
  record is the \<open>record_len\<close> octets that \<open>*record\<close> points at, with the new position.
\<close>

definition iolink_master_ds_next_record ::
  "u8 list option \<Rightarrow> nat \<Rightarrow> nat \<Rightarrow> (u8 list \<times> nat \<times> nat) option option" where
  "iolink_master_ds_next_record img len pos =
     (case img of
        None \<Rightarrow> Some None
      | Some data \<Rightarrow>
          if pos > len \<or> trunc8 (len - pos) < DS_RECORD_HEADER_LEN then Some None
          else do {
            value_octet \<leftarrow> rd data (trunc8 (pos + (DS_RECORD_HEADER_LEN - 1)));
            let value_len = unat value_octet;
            if value_len > trunc8 (len - pos - DS_RECORD_HEADER_LEN) then Some None
            else do {
              let record_len = trunc8 (DS_RECORD_HEADER_LEN + value_len);
              record \<leftarrow> rd_slice data pos record_len;
              Some (Some (record, record_len, trunc8 (pos + record_len)))
            }
          })"

partial_function (option) ds_valid_loop :: "u8 list option \<Rightarrow> nat \<Rightarrow> nat \<Rightarrow> bool option" where
  "ds_valid_loop img len pos =
     (if pos < len
      then Option.bind (iolink_master_ds_next_record img len pos)
        (\<lambda>found. case found of
             None \<Rightarrow> Some False
           | Some (record, record_len, pos) \<Rightarrow> ds_valid_loop img len pos)
      else Some True)"

definition iolink_master_ds_image_is_valid :: "u8 list option \<Rightarrow> nat \<Rightarrow> bool option" where
  "iolink_master_ds_image_is_valid img len =
     (if img = None \<and> len > 0 then Some False else ds_valid_loop img len 0)"

text \<open>
  The inner loop searches the actual image for one record; \<open>Some None\<close> is the early
  \<open>return false\<close>, \<open>Some (Some found)\<close> its normal end.
\<close>

partial_function (option) ds_search_loop ::
  "u8 list option \<Rightarrow> nat \<Rightarrow> u8 list \<Rightarrow> nat \<Rightarrow> nat \<Rightarrow> bool option option" where
  "ds_search_loop actual actual_len expected_record expected_record_len actual_pos =
     (if actual_pos < actual_len
      then Option.bind (iolink_master_ds_next_record actual actual_len actual_pos)
        (\<lambda>next. case next of
             None \<Rightarrow> Some None
           | Some (actual_record, actual_record_len, actual_pos) \<Rightarrow>
               if actual_record_len = expected_record_len \<and> actual_record = expected_record
               then Some (Some True)
               else ds_search_loop actual actual_len expected_record expected_record_len actual_pos)
      else Some (Some False))"

partial_function (option) ds_contains_loop ::
  "u8 list option \<Rightarrow> nat \<Rightarrow> u8 list option \<Rightarrow> nat \<Rightarrow> nat \<Rightarrow> bool option" where
  "ds_contains_loop actual actual_len expected expected_len expected_pos =
     (if expected_pos < expected_len
      then Option.bind (iolink_master_ds_next_record expected expected_len expected_pos)
        (\<lambda>next. case next of
             None \<Rightarrow> Some False
           | Some (expected_record, expected_record_len, expected_pos) \<Rightarrow>
               Option.bind (ds_search_loop actual actual_len expected_record expected_record_len 0)
                 (\<lambda>found. if found = Some True
                    then ds_contains_loop actual actual_len expected expected_len expected_pos
                    else Some False))
      else Some True)"

definition iolink_master_ds_image_contains_records ::
  "u8 list option \<Rightarrow> nat \<Rightarrow> u8 list option \<Rightarrow> nat \<Rightarrow> bool option" where
  "iolink_master_ds_image_contains_records actual actual_len expected expected_len =
     (if expected = None \<and> expected_len > 0 then Some False
      else ds_contains_loop actual actual_len expected expected_len 0)"

subsection \<open>Verification services\<close>

text \<open>The comparison \<open>(len > 0U) && (memcmp(data, expected, len) != 0)\<close>.\<close>

definition octets_differ :: "u8 list \<Rightarrow> u8 list option \<Rightarrow> nat \<Rightarrow> bool option" where
  "octets_differ data expected len =
     (if len > 0
      then do {
        src \<leftarrow> expected;
        a \<leftarrow> rd_slice data 0 len;
        b \<leftarrow> rd_slice src 0 len;
        Some (a \<noteq> b)
      }
      else Some False)"

definition verify_mismatch :: "u8 list \<Rightarrow> nat \<Rightarrow> u8 list option \<Rightarrow> nat \<Rightarrow> bool option" where
  "verify_mismatch data read_len expected len =
     (if read_len \<noteq> len then Some True else octets_differ data expected len)"

definition iolink_master_verify_isdu ::
  "iolinki \<Rightarrow> u16 \<Rightarrow> u8 \<Rightarrow> u8 list option \<Rightarrow> nat \<Rightarrow> 'e iolink_master_port_state_t \<Rightarrow>
   (int \<times> 'e iolink_master_port_state_t) option" where
  "iolink_master_verify_isdu L index subindex expected len p =
     (if expected = None \<and> len > 0 then Some (ERR_INVALID_ARG, p)
      else do {
        (ret, data, read_len, p) \<leftarrow>
          iolink_master_read_isdu L index subindex (replicate (ISDU_BUFFER_SIZE L) 0) 255 p;
        if ret \<noteq> STATUS_OK then Some (ret, p)
        else do {
          mismatch \<leftarrow> verify_mismatch data read_len expected len;
          Some (iolink_master_service_result
                  (if mismatch then ISDU_ERR_VERIFY_FAILED else STATUS_OK) p)
        }
      })"

definition iolink_master_verify_data_storage ::
  "iolinki \<Rightarrow> u8 list option \<Rightarrow> nat \<Rightarrow> 'e iolink_master_port_state_t \<Rightarrow>
   (int \<times> 'e iolink_master_port_state_t) option" where
  "iolink_master_verify_data_storage L expected len p =
     (if expected = None \<and> len > 0 then Some (ERR_INVALID_ARG, p)
      else do {
        (ret, data, read_len, p) \<leftarrow>
          iolink_master_read_isdu L (IDX_DATA_STORAGE L) 0 (replicate (ISDU_BUFFER_SIZE L) 0) 255 p;
        if ret \<noteq> STATUS_OK then Some (ret, p)
        else do {
          expected_valid \<leftarrow> iolink_master_ds_image_is_valid expected len;
          both_valid \<leftarrow> (if expected_valid
                        then iolink_master_ds_image_is_valid (Some data) read_len
                        else Some False);
          failed \<leftarrow> (if both_valid
                    then map_option Not
                      (iolink_master_ds_image_contains_records (Some data) read_len expected len)
                    else verify_mismatch data read_len expected len);
          Some (iolink_master_service_result
                  (if failed then ISDU_ERR_VERIFY_FAILED else STATUS_OK) p)
        }
      })"

subsection \<open>The abstract reading of an image\<close>

function ds_records :: "u8 list \<Rightarrow> u8 list list option" where
  "ds_records octets =
     (if octets = [] then Some []
      else if length octets < 4 \<or> length octets < 4 + unat (octets ! 3) then None
      else map_option (Cons (take (4 + unat (octets ! 3)) octets))
             (ds_records (drop (4 + unat (octets ! 3)) octets)))"
  by pat_completeness auto
termination
  by (relation "measure length") auto

declare ds_records.simps [simp del]

text \<open>A stored parameter and its octets in the image.\<close>

record ds_parameter =
  ds_index :: u16
  ds_subindex :: u8
  ds_value :: "u8 list"

definition ds_encode :: "ds_parameter \<Rightarrow> u8 list" where
  "ds_encode d = hi_octet (ds_index d) # lo_octet (ds_index d) # ds_subindex d #
     of_nat (length (ds_value d)) # ds_value d"

lemma ds_records_Cons:
  "unat l = length v \<Longrightarrow> ds_records ((a # b # c # l # v) @ rest) =
     map_option (Cons (a # b # c # l # v)) (ds_records rest)"
  by (subst ds_records.simps) (simp add: numeral_eq_Suc)

lemma ds_records_encode:
  "\<forall>d \<in> set ds. length (ds_value d) < 256 \<Longrightarrow>
   ds_records (concat (map ds_encode ds)) = Some (map ds_encode ds)"
proof (induction ds)
  case Nil
  then show ?case by (simp add: ds_records.simps)
next
  case (Cons d ds)
  then have "unat (of_nat (length (ds_value d)) :: u8) = length (ds_value d)"
    by (simp add: unat_of_nat)
  from ds_records_Cons [OF this] Cons show ?case
    by (simp add: ds_encode_def)
qed

lemma ds_encode_inject:
  assumes "ds_encode a = ds_encode b"
  shows "a = b"
proof -
  have "ds_index a = ds_index b"
    using assms u16_of_octets_split by (simp add: ds_encode_def) metis
  with assms show ?thesis by (simp add: ds_encode_def)
qed

subsection \<open>The loops implement the abstract reading\<close>

text \<open>The cursor at a position reads the first record of the rest of the image.\<close>

lemma ds_next_record_eq:
  assumes len: "len \<le> length data" "len < 256" and pos: "pos < len"
  defines "octets \<equiv> drop pos (take len data)"
  defines "n \<equiv> 4 + unat (octets ! 3)"
  shows "iolink_master_ds_next_record (Some data) len pos = Some
    (if length octets < 4 \<or> length octets < n then None
     else Some (take n octets, n, pos + n))"
proof -
  have octets: "length octets = len - pos" using len by (simp add: octets_def)
  show ?thesis
  proof (cases "length octets < 4")
    case True
    then show ?thesis using octets len by (simp add: iolink_master_ds_next_record_def)
  next
    case False
    then have at: "octets ! 3 = data ! (pos + 3)" "pos + 3 < len"
      using len octets by (simp_all add: octets_def)
    have "rd_slice data pos n = Some (take n octets)" if "n \<le> length octets"
    proof -
      have "pos + n \<le> len" using that octets pos by linarith
      then have "min n (len - pos) = n" "pos + n \<le> length data" using len by linarith+
      then show ?thesis by (simp add: rd_slice_def octets_def drop_take)
    qed
    then show ?thesis
      using False octets len pos at
      by (auto simp: iolink_master_ds_next_record_def rd_def n_def not_less Let_def)
  qed
qed

lemma ds_records_step:
  assumes "len \<le> length data" "len < 256" "pos < len"
  shows "ds_records (drop pos (take len data)) =
    (case iolink_master_ds_next_record (Some data) len pos of
       Some (Some (record, n, pos')) \<Rightarrow> map_option (Cons record) (ds_records (drop pos' (take len data)))
     | _ \<Rightarrow> None)"
  unfolding ds_next_record_eq [OF assms] using assms
  by (subst ds_records.simps) (simp add: add.commute)

lemma ds_next_record_progress:
  assumes "len \<le> length data" "len < 256" "pos < len"
    and found: "iolink_master_ds_next_record (Some data) len pos = Some (Some (rcd, n, pos'))"
  shows "pos < pos' \<and> pos' \<le> len \<and> n = length rcd"
proof -
  define octets where "octets = drop pos (take len data)"
  define m where "m = 4 + unat (octets ! 3)"
  have "length octets = len - pos" using assms(1) by (simp add: octets_def)
  moreover have "\<not> length octets < m \<and> rcd = take m octets \<and> n = m \<and> pos' = pos + m"
    using found ds_next_record_eq [OF assms(1-3)]
    by (auto simp: Let_def simp flip: octets_def m_def split: if_splits)
  moreover have "0 < m" by (simp add: m_def)
  ultimately show ?thesis by auto
qed

lemma ds_next_record_defined:
  assumes "len \<le> length data" "len < 256" "pos < len"
  obtains (bad) "iolink_master_ds_next_record (Some data) len pos = Some None"
  | (ok) rcd n pos' where "iolink_master_ds_next_record (Some data) len pos = Some (Some (rcd, n, pos'))"
proof -
  obtain found where "iolink_master_ds_next_record (Some data) len pos = Some found"
    using ds_next_record_eq [OF assms] by blast
  then show ?thesis using bad ok by (cases found) auto
qed

lemma ds_valid_loop_eq:
  assumes "len \<le> length data" "len < 256" "pos \<le> len"
  shows "ds_valid_loop (Some data) len pos = Some (ds_records (drop pos (take len data)) \<noteq> None)"
  using assms(3)
proof (induction "len - pos" arbitrary: pos rule: less_induct)
  case less
  show ?case
  proof (cases "pos < len")
    case False
    then show ?thesis using less.prems assms by (simp add: ds_valid_loop.simps ds_records.simps)
  next
    case pos: True
    show ?thesis
    proof (cases rule: ds_next_record_defined [OF assms(1,2) pos])
      case 1
      then show ?thesis
        using ds_records_step [OF assms(1,2) pos] pos by (simp add: ds_valid_loop.simps)
    next
      case ok: (2 rcd n pos')
      from ds_next_record_progress [OF assms(1,2) pos ok] pos have "len - pos' < len - pos" "pos' \<le> len"
        by linarith+
      with less.hyps [of pos'] ds_records_step [OF assms(1,2) pos] ok pos
      show ?thesis by (subst ds_valid_loop.simps) simp
    qed
  qed
qed


lemma ds_search_loop_eq:
  assumes "len \<le> length data" "len < 256" "pos \<le> len"
    and "ds_records (drop pos (take len data)) = Some rs" "n = length rcd"
  shows "ds_search_loop (Some data) len rcd n pos = Some (Some (rcd \<in> set rs))"
  using assms(3,4)
proof (induction "len - pos" arbitrary: pos rs rule: less_induct)
  case less
  show ?case
  proof (cases "pos < len")
    case False
    then show ?thesis using less.prems assms by (simp add: ds_search_loop.simps ds_records.simps)
  next
    case pos: True
    show ?thesis
    proof (cases rule: ds_next_record_defined [OF assms(1,2) pos])
      case 1
      then show ?thesis
        using ds_records_step [OF assms(1,2) pos] less.prems by simp
    next
      case ok: (2 rcd' n' pos')
      then obtain rs' where rs': "ds_records (drop pos' (take len data)) = Some rs'" "rs = rcd' # rs'"
        using ds_records_step [OF assms(1,2) pos] less.prems
        by (cases "ds_records (drop pos' (take len data))") auto
      from ds_next_record_progress [OF assms(1,2) pos ok] less.hyps [of pos' rs'] pos rs' ok assms(5)
      show ?thesis by (subst ds_search_loop.simps) auto
    qed
  qed
qed

lemma ds_contains_loop_eq:
  assumes "actual_len \<le> length actual" "actual_len < 256"
    and as: "ds_records (take actual_len actual) = Some as"
    and "len \<le> length data" "len < 256" "pos \<le> len"
    and "ds_records (drop pos (take len data)) = Some es"
  shows "ds_contains_loop (Some actual) actual_len (Some data) len pos = Some (set es \<subseteq> set as)"
  using assms(6,7)
proof (induction "len - pos" arbitrary: pos es rule: less_induct)
  case less
  show ?case
  proof (cases "pos < len")
    case False
    then show ?thesis using less.prems assms by (simp add: ds_contains_loop.simps ds_records.simps)
  next
    case pos: True
    show ?thesis
    proof (cases rule: ds_next_record_defined [OF assms(4,5) pos])
      case 1
      then show ?thesis
        using ds_records_step [OF assms(4,5) pos] less.prems by simp
    next
      case ok: (2 rcd n pos')
      then obtain es' where es': "ds_records (drop pos' (take len data)) = Some es'" "es = rcd # es'"
        using ds_records_step [OF assms(4,5) pos] less.prems
        by (cases "ds_records (drop pos' (take len data))") auto
      have progress: "pos < pos' \<and> pos' \<le> len \<and> n = length rcd"
        using ds_next_record_progress [OF assms(4,5) pos ok] .
      have "ds_search_loop (Some actual) actual_len rcd n 0 = Some (Some (rcd \<in> set as))"
        using ds_search_loop_eq [OF assms(1,2), of 0 as n rcd] as progress by simp
      with progress less.hyps [of pos' es'] pos es' ok show ?thesis
        by (subst ds_contains_loop.simps) auto
    qed
  qed
qed

subsection \<open>Correctness of the verification services\<close>

text \<open>
  The relation the verification decides: two images that both parse are compared as sets of
  records (the expected ones must be present), any other pair octet by octet.
\<close>

definition ds_verifies :: "u8 list \<Rightarrow> u8 list \<Rightarrow> bool" where
  "ds_verifies actual expected =
     (case (ds_records actual, ds_records expected) of
        (Some as, Some es) \<Rightarrow> set es \<subseteq> set as
      | _ \<Rightarrow> actual = expected)"

lemma image_valid_eq:
  assumes "len \<le> length data" "len < 256"
  shows "iolink_master_ds_image_is_valid (Some data) len = Some (ds_records (take len data) \<noteq> None)"
  using ds_valid_loop_eq [OF assms, of 0] by (simp add: iolink_master_ds_image_is_valid_def)

lemma image_contains_eq:
  assumes "actual_len \<le> length actual" "actual_len < 256" "len \<le> length data" "len < 256"
    and "ds_records (take actual_len actual) = Some as" "ds_records (take len data) = Some es"
  shows "iolink_master_ds_image_contains_records (Some actual) actual_len (Some data) len =
    Some (set es \<subseteq> set as)"
  using ds_contains_loop_eq [OF assms(1,2,5,3,4), of 0 es] assms(6)
  by (simp add: iolink_master_ds_image_contains_records_def)

lemma verify_mismatch_eq:
  assumes "read_len \<le> length data" "len \<le> length expected"
  shows "verify_mismatch data read_len (Some expected) len = Some (take read_len data \<noteq> take len expected)"
  using assms
  by (auto simp: verify_mismatch_def octets_differ_def rd_slice_def)
    (metis length_take min.absorb2)

text \<open>
  The image loops always end and never read outside the two buffers, and together they
  decide \<open>ds_verifies\<close>: for well-formed images the expected records must all be present in
  the image read back, in any order; an image that does not parse is compared as raw octets.
\<close>

lemma ds_image_checks_refine:
  assumes "actual_len \<le> length actual" "actual_len < 256" "len \<le> length expected" "len < 256"
  shows "ensures (do {
      expected_valid \<leftarrow> iolink_master_ds_image_is_valid (Some expected) len;
      both_valid \<leftarrow> (if expected_valid then iolink_master_ds_image_is_valid (Some actual) actual_len
                    else Some False);
      if both_valid
      then map_option Not
        (iolink_master_ds_image_contains_records (Some actual) actual_len (Some expected) len)
      else verify_mismatch actual actual_len (Some expected) len })
    (\<lambda>failed. failed \<longleftrightarrow> \<not> ds_verifies (take actual_len actual) (take len expected))"
  using assms verify_mismatch_eq [OF assms(1,3)]
  by (auto simp: image_valid_eq ensures_simps ds_verifies_def image_contains_eq split: option.splits)


text \<open>A read that has completed with the octets \<open>actual\<close>.\<close>

definition isdu_read_back ::
  "iolinki \<Rightarrow> u16 \<Rightarrow> u8 \<Rightarrow> u8 list \<Rightarrow> 'e iolink_master_port_state_t \<Rightarrow> bool" where
  "isdu_read_back L index subindex actual p \<longleftrightarrow>
     isdu_wf L (st_isdu p) \<and> isdu_service_state p \<and> isdu_done (st_isdu p) \<and>
     iolink_master_isdu_matches ISDU_OP_READ index subindex (st_isdu p) \<and>
     isdu_error (st_isdu p) = ISDU_ERROR_NONE L \<and> isdu_response_len (st_isdu p) < 256 \<and>
     take (isdu_response_len (st_isdu p)) (isdu_response (st_isdu p)) = actual"

definition ds_read_back :: "iolinki \<Rightarrow> u8 list \<Rightarrow> 'e iolink_master_port_state_t \<Rightarrow> bool" where
  "ds_read_back L actual p \<longleftrightarrow> isdu_read_back L (IDX_DATA_STORAGE L) 0 actual p"

text \<open>The port once the result of a service has been collected.\<close>

definition isdu_collected :: "iolinki \<Rightarrow> 'e iolink_master_port_state_t \<Rightarrow> 'e iolink_master_port_state_t" where
  "isdu_collected L p = p\<lparr>st_isdu := iolink_master_isdu_clear L (st_isdu p),
     st_diagnostics := (st_diagnostics p)\<lparr>dg_last_service_result := STATUS_OK\<rparr>\<rparr>"

lemma isdu_read_back_finish:
  assumes "isdu_read_back L index subindex actual p"
  shows "\<exists>rest. iolink_master_read_isdu L index subindex (replicate (ISDU_BUFFER_SIZE L) 0) 255 p =
    Some (STATUS_OK, actual @ rest, length actual, isdu_collected L p)"
proof -
  define n where "n = isdu_response_len (st_isdu p)"
  have n: "n \<le> ISDU_BUFFER_SIZE L" "length (isdu_response (st_isdu p)) = ISDU_BUFFER_SIZE L" "n < 256"
    and idle: "\<not> iolink_master_isdu_busy (st_isdu p)"
    and actual: "take n (isdu_response (st_isdu p)) = actual"
    using assms by (auto simp: isdu_read_back_def isdu_wf_def iolink_master_isdu_busy_def n_def)
  have len: "length actual = n" using n actual by auto
  have copy: "(if n > 0 then do { octets \<leftarrow> rd_slice (isdu_response (st_isdu p)) 0 n;
        wr_slice (replicate (ISDU_BUFFER_SIZE L) 0) 0 octets }
      else Some (replicate (ISDU_BUFFER_SIZE L) 0)) =
      Some (actual @ drop n (replicate (ISDU_BUFFER_SIZE L) 0))"
    using n actual len by (cases "n > 0") (auto simp: rd_slice_def wr_slice_def)
  have "\<not> 255 < n" using n by simp
  then have "iolink_master_isdu_finish_read L (replicate (ISDU_BUFFER_SIZE L) 0) 255 p =
    Some (STATUS_OK, actual @ drop n (replicate (ISDU_BUFFER_SIZE L) 0), n, isdu_collected L p)"
    using assms n copy unfolding iolink_master_isdu_finish_read_def n_def [symmetric] Let_def copy
    by (simp add: iolink_master_service_result_def isdu_read_back_def isdu_collected_def)
  then show ?thesis
    using assms idle len by (simp add: iolink_master_read_isdu_def isdu_read_back_def)
qed

lemma verify_data_storage_decides:
  assumes "ds_read_back L actual p" and "len \<le> length expected" and "len < 256"
  shows "ensures (iolink_master_verify_data_storage L (Some expected) len p) (\<lambda>(ret, p').
    ret = (if ds_verifies actual (take len expected) then STATUS_OK else ISDU_ERR_VERIFY_FAILED) \<and>
    p' = (isdu_collected L p)\<lparr>st_diagnostics :=
      (st_diagnostics (isdu_collected L p))\<lparr>dg_last_service_result := ret\<rparr>\<rparr>)"
proof -
  obtain rest where read: "iolink_master_read_isdu L (IDX_DATA_STORAGE L) 0
      (replicate (ISDU_BUFFER_SIZE L) 0) 255 p =
    Some (STATUS_OK, actual @ rest, length actual, isdu_collected L p)"
    using isdu_read_back_finish assms(1) unfolding ds_read_back_def by blast
  have "length actual < 256"
    using assms(1) by (auto simp: ds_read_back_def isdu_read_back_def)
  with ds_image_checks_refine [of "length actual" "actual @ rest" len expected] assms(2,3)
  show ?thesis
    by (auto simp: iolink_master_verify_data_storage_def read ensures_simps split_beta
        iolink_master_service_result_def isdu_collected_def elim!: ensures_mono)
qed

text \<open>
  C17. When the read-back of the Data Storage image has arrived, the verification returns OK
  exactly for an image that \<open>ds_verifies\<close> the expected one and VERIFY_FAILED otherwise: the
  loops over the records end, stay within both images, and accept the records in any order.
  The result is latched in the diagnostics and the ISDU engine is free again.
\<close>

theorem verify_data_storage_result:
  assumes "ds_read_back L actual p" and "len \<le> length expected" and "len < 256"
  shows "ensures (iolink_master_verify_data_storage L (Some expected) len p) (\<lambda>(ret, p').
    ret = (if ds_verifies actual (take len expected) then STATUS_OK else ISDU_ERR_VERIFY_FAILED) \<and>
    isdu_op (st_isdu p') = ISDU_OP_NONE \<and> dg_last_service_result (st_diagnostics p') = ret)"
  by (rule ensures_mono [OF verify_data_storage_decides [OF assms]])
    (auto simp: isdu_collected_def iolink_master_isdu_clear_def)

lemma ds_verifies_encode:
  assumes "\<forall>d \<in> set stored. length (ds_value d) < 256" "\<forall>d \<in> set wanted. length (ds_value d) < 256"
  shows "ds_verifies (concat (map ds_encode stored)) (concat (map ds_encode wanted)) \<longleftrightarrow>
    set wanted \<subseteq> set stored"
  using inj_image_subset_iff [of ds_encode] ds_encode_inject
  by (simp add: ds_verifies_def ds_records_encode [OF assms(1)] ds_records_encode [OF assms(2)]
      injI)

text \<open>
  Over images of parameters (Index, Subindex, value): verification succeeds exactly when
  every expected parameter is stored in the device with the expected value, whatever the
  order of the records and whatever else the device stores.
\<close>

theorem verify_data_storage_parameters:
  assumes "ds_read_back L (concat (map ds_encode stored)) p"
    and "length (concat (map ds_encode wanted)) < 256"
    and "\<forall>d \<in> set stored. length (ds_value d) < 256"
    and "\<forall>d \<in> set wanted. length (ds_value d) < 256"
  shows "ensures (iolink_master_verify_data_storage L (Some (concat (map ds_encode wanted)))
      (length (concat (map ds_encode wanted))) p)
    (\<lambda>(ret, p'). ret = (if set wanted \<subseteq> set stored then STATUS_OK else ISDU_ERR_VERIFY_FAILED))"
proof -
  have "ds_verifies (concat (map ds_encode stored))
      (take (length (concat (map ds_encode wanted))) (concat (map ds_encode wanted))) =
      (set wanted \<subseteq> set stored)"
    using ds_verifies_encode [OF assms(3,4)] by simp
  from verify_data_storage_decides [OF assms(1) order_refl assms(2), unfolded this]
  show ?thesis by (rule ensures_mono) (simp only: split_beta)
qed

text \<open>A port whose Data Storage read has completed with \<open>octets\<close>.\<close>

definition demo_read_back :: "u8 list \<Rightarrow> unit iolink_master_port_state_t" where
  "demo_read_back octets = (zero_port demo_stack)\<lparr>st_state := STATE_OPERATE,
     st_isdu := (zero_isdu demo_stack)\<lparr>isdu_op := ISDU_OP_READ, isdu_index := 3, isdu_done := True,
       isdu_response := octets @ replicate (64 - length octets) 0,
       isdu_response_len := length octets\<rparr>\<rparr>"

lemma demo_read_back:
  "length octets \<le> 64 \<Longrightarrow> ds_read_back demo_stack octets (demo_read_back octets)"
  by (simp add: ds_read_back_def isdu_read_back_def demo_read_back_def zero_port_def zero_isdu_def demo_stack_def
      isdu_wf_def isdu_service_state_def iolink_master_isdu_matches_def)

theorem verify_data_storage_result_witness:
  "ensures (iolink_master_verify_data_storage demo_stack (Some [9, 9, 7]) 2 (demo_read_back [9, 9]))
    (\<lambda>(ret, p'). ret = STATUS_OK \<and> isdu_op (st_isdu p') = ISDU_OP_NONE \<and>
      dg_last_service_result (st_diagnostics p') = ret)"
  using verify_data_storage_result [OF demo_read_back [of "[9, 9]"], of 2 "[9, 9, 7]"]
  by (simp add: ds_verifies_def ds_records.simps)

theorem verify_data_storage_parameters_witness:
  "ensures (iolink_master_verify_data_storage demo_stack (Some [0, 0x18, 0, 2, 1, 2]) 6
      (demo_read_back [0, 0x20, 1, 1, 7, 0, 0x18, 0, 2, 1, 2]))
    (\<lambda>(ret, p'). ret = STATUS_OK)"
proof -
  let ?a = "\<lparr>ds_index = 0x18, ds_subindex = 0, ds_value = [1, 2]\<rparr>"
  let ?b = "\<lparr>ds_index = 0x20, ds_subindex = 1, ds_value = [7]\<rparr>"
  have octets: "ds_encode ?a = [0, 0x18, 0, 2, 1, 2]" "ds_encode ?b = [0, 0x20, 1, 1, 7]"
    by (simp_all add: ds_encode_def hi_octet_def lo_octet_ucast)
  have "ds_read_back demo_stack (concat (map ds_encode [?b, ?a]))
      (demo_read_back [0, 0x20, 1, 1, 7, 0, 0x18, 0, 2, 1, 2])"
    using demo_read_back [of "ds_encode ?b @ ds_encode ?a"] by (simp add: octets)
  moreover have "length [0, 0x18, 0, 2, 1, 2 :: u8] = 6" by simp
  ultimately show ?thesis
    using verify_data_storage_parameters [of demo_stack "[?b, ?a]" _ "[?a]"]
    by (simp add: octets del: list.size) simp
qed

end
