(* ===== verification/MasterPort.thy ===== *)
theory MasterPort
  imports MasterReceive MasterDataStorage
begin

text \<open>
  The port state machine, from \<open>src/master_port.c\<close> (lines 428-602 and 916-1111): what a port
  transmits in each state, the tick engine that polls, times out and paces the cycles, and
  the time of the next tick.
\<close>

subsection \<open>Transmission in each state\<close>

text \<open>STARTUP: the PHY returns from inactivity, the wake-up request, the test message.\<close>

definition process_wake ::
  "iolinki \<Rightarrow> u32 \<Rightarrow> bool \<Rightarrow> 'e iolink_master_port_state_t \<Rightarrow> 'e \<Rightarrow>
   ('e iolink_master_port_state_t \<times> 'e) option" where
  "process_wake L now_100us timed p e = do {
     (ok, p, e) \<leftarrow> iolink_master_wake_up L p e;
     if ok
     then do {
       let p = p\<lparr>st_startup := (st_startup p)\<lparr>su_step := STARTUP_STEP_SEND_TYPE0\<rparr>\<rparr>;
       baudrate \<leftarrow> iolink_master_startup_baudrate p;
       Some (iolink_master_arm_send_gate now_100us (T_REN_MAX_100US + iolink_master_t_dmt_100us p baudrate) timed p, e)
     }
     else Some (p, e)
   }"

definition process_test_message ::
  "iolinki \<Rightarrow> u32 \<Rightarrow> bool \<Rightarrow> 'e iolink_master_port_state_t \<Rightarrow> 'e \<Rightarrow>
   ('e iolink_master_port_state_t \<times> 'e) option" where
  "process_test_message L now_100us timed p e = do {
     let (frame_len, tx) = frame_encode_type0 L
       (iolink_master_encode_master_command L True MC_CHANNEL_PAGE DPP1_OFF_MIN_CYCLE_TIME)
       (st_tx_buf p);
     let p = p\<lparr>st_tx_buf := tx\<rparr>;
     if frame_len > 0
     then do {
       (sent, p, e) \<leftarrow> send_tx L (nat frame_len) p e;
       if sent
       then do {
         let p = p\<lparr>st_startup := (st_startup p)\<lparr>su_step := STARTUP_STEP_AWAIT_RESPONSE\<rparr>\<rparr>;
         if timed
         then do {
           timeout \<leftarrow> iolink_master_test_message_timeout_100us p;
           Some (p\<lparr>st_response_deadline_100us := now_100us + timeout, st_awaiting_response := True\<rparr>, e)
         }
         else Some (p, e)
       }
       else Some (p, e)
     }
     else Some (p, e)
   }"

definition process_startup ::
  "iolinki \<Rightarrow> u32 \<Rightarrow> bool \<Rightarrow> 'e iolink_master_port_state_t \<Rightarrow> 'e \<Rightarrow>
   ('e iolink_master_port_state_t \<times> 'e) option" where
  "process_startup L now_100us timed p e =
     (let (ret, p, e) =
        (if su_step (st_startup p) = STARTUP_STEP_INACTIVE
         then let (ret, e) = iolink_master_set_mode PHY_MODE_SDCI p e
              in if ret \<noteq> STATUS_OK then (ret, set_error p, e)
                 else (ret, p\<lparr>st_startup := (st_startup p)\<lparr>su_step := STARTUP_STEP_WAKE\<rparr>\<rparr>, e)
         else (STATUS_OK, p, e))
      in if ret \<noteq> STATUS_OK then Some (p, e)
         else if su_step (st_startup p) = STARTUP_STEP_WAKE then process_wake L now_100us timed p e
         else if su_step (st_startup p) = STARTUP_STEP_SEND_TYPE0
         then process_test_message L now_100us timed p e
         else Some (p, e))"

text \<open>
  PREOPERATE: an event readout, an ISDU service, the device information and its check, and
  then the command to operate. The first component tells whether the function has returned.
\<close>

definition process_services ::
  "iolinki \<Rightarrow> 'e iolink_master_port_state_t \<Rightarrow> 'e \<Rightarrow>
   (bool \<times> 'e iolink_master_port_state_t \<times> 'e) option" where
  "process_services L p e = do {
     (sent, p, e) \<leftarrow> iolink_master_send_event L p e;
     if sent then Some (True, p, e) else iolink_master_send_isdu L p e
   }"

definition process_inspection ::
  "iolinki \<Rightarrow> 'e iolink_master_port_state_t \<Rightarrow> (bool \<times> 'e iolink_master_port_state_t) option" where
  "process_inspection L p =
     (let required = iolink_master_startup_validation_required (st_config p)
      in do {
        (returned, p) \<leftarrow>
          (if required \<and> \<not> di_valid (st_device_info p)
           then do {
             (ret, p) \<leftarrow> iolink_master_read_device_info L p;
             if ret = STATUS_PENDING then Some (True, p)
             else if ret < 0 then Some (True, set_error p)
             else Some (False, p)
           }
           else Some (False, p));
        if returned then Some (True, p)
        else if required \<and> iolink_master_validate_device_info p \<noteq> 0 then Some (True, set_error p)
        else Some (False, p)
      })"

definition process_operate_command ::
  "iolinki \<Rightarrow> 'e iolink_master_port_state_t \<Rightarrow> 'e \<Rightarrow> ('e iolink_master_port_state_t \<times> 'e) option" where
  "process_operate_command L p e = do {
     let (frame_len, tx) = frame_encode_type0_write L
       (iolink_master_encode_master_command L False MC_CHANNEL_PAGE DPP1_OFF_MASTER_COMMAND) (CMD_DEVICE_OPERATE L)
       (st_tx_buf p);
     let p = p\<lparr>st_tx_buf := tx\<rparr>;
     if frame_len > 0
     then do {
       (sent, p, e) \<leftarrow> send_tx L (nat frame_len) p e;
       Some (if sent then p\<lparr>st_startup := (st_startup p)\<lparr>su_step := STARTUP_STEP_AWAIT_OPERATE_ACK\<rparr>\<rparr>
             else p, e)
     }
     else Some (p, e)
   }"

definition process_preoperate ::
  "iolinki \<Rightarrow> 'e iolink_master_port_state_t \<Rightarrow> 'e \<Rightarrow> ('e iolink_master_port_state_t \<times> 'e) option" where
  "process_preoperate L p e = do {
     (returned, p, e) \<leftarrow> process_services L p e;
     if returned then Some (p, e)
     else do {
       (returned, p) \<leftarrow> process_inspection L p;
       if returned then Some (p, e) else process_operate_command L p e
     }
   }"

text \<open>OPERATE: an event readout, an ISDU service, otherwise the cyclic exchange.\<close>

definition count_cycle ::
  "bool \<times> 'e iolink_master_port_state_t \<times> 'e \<Rightarrow> ('e iolink_master_port_state_t \<times> 'e)" where
  "count_cycle result =
     (let (sent, p, e) = result
      in (if sent then p\<lparr>st_cycle_count := st_cycle_count p + 1\<rparr> else p, e))"

definition process_cycle_type0 ::
  "iolinki \<Rightarrow> 'e iolink_master_port_state_t \<Rightarrow> 'e \<Rightarrow> ('e iolink_master_port_state_t \<times> 'e) option" where
  "process_cycle_type0 L p e = do {
     (octets, isdu) \<leftarrow> iolink_master_isdu_fill_od L 1 (st_isdu p);
     od \<leftarrow> rd octets 0;
     let (frame_len, tx) = frame_encode_type0 L od (st_tx_buf p);
     let p = p\<lparr>st_isdu := isdu, st_tx_buf := tx\<rparr>;
     if frame_len > 0 then map_option count_cycle (send_tx L (nat frame_len) p e) else Some (p, e)
   }"

definition process_cycle ::
  "iolinki \<Rightarrow> 'e iolink_master_port_state_t \<Rightarrow> 'e \<Rightarrow> ('e iolink_master_port_state_t \<times> 'e) option" where
  "process_cycle L p e = do {
     let frame_len = M_SEQ_HEADER_LEN L + st_pd_out_len p + st_od_len p;
     tx \<leftarrow> wr (st_tx_buf p) 0 (iolink_master_encode_master_command L False MC_CHANNEL_PROCESS 0);
     tx \<leftarrow> wr tx 1 0;
     let od_pos = M_SEQ_HEADER_LEN L + st_pd_out_len p;
     tx \<leftarrow> copy_pd_out L p tx;
     (octets, isdu) \<leftarrow> iolink_master_isdu_fill_od L (st_od_len p) (st_isdu p);
     tx \<leftarrow> wr_slice tx od_pos octets;
     tx \<leftarrow> wr tx 1 (iolink_master_ckt_type_bits (cfg_m_seq_type (st_config p)));
     tx \<leftarrow> put_checksum L tx frame_len;
     map_option count_cycle (send_tx L frame_len (p\<lparr>st_isdu := isdu, st_tx_buf := tx\<rparr>) e)
   }"

definition process_operate ::
  "iolinki \<Rightarrow> 'e iolink_master_port_state_t \<Rightarrow> 'e \<Rightarrow> ('e iolink_master_port_state_t \<times> 'e) option" where
  "process_operate L p e = do {
     (returned, p, e) \<leftarrow> process_services L p e;
     if returned then Some (p, e)
     else if type0_operate p then process_cycle_type0 L p e
     else process_cycle L p e
   }"

definition iolink_master_process_at ::
  "iolinki \<Rightarrow> u32 \<Rightarrow> bool \<Rightarrow> 'e iolink_master_port_state_t \<Rightarrow> 'e \<Rightarrow>
   ('e iolink_master_port_state_t \<times> 'e) option" where
  "iolink_master_process_at L now_100us timed p e =
     (if \<not> can_send p then Some (p, e)
      else if timed \<and> st_send_ready_valid p \<and> now_100us < st_send_ready_at_100us p
      then Some (p, e)
      else if st_state p = STATE_STARTUP then process_startup L now_100us timed p e
      else if st_state p = STATE_PREOPERATE then process_preoperate L p e
      else if st_state p = STATE_OPERATE then process_operate L p e
      else Some (p, e))"

definition iolink_master_process ::
  "iolinki \<Rightarrow> 'e iolink_master_port_state_t \<Rightarrow> 'e \<Rightarrow> ('e iolink_master_port_state_t \<times> 'e) option" where
  "iolink_master_process L p e = iolink_master_process_at L 0 False p e"

subsection \<open>Cycle pacing\<close>

definition cycle_unpaced :: "'e iolink_master_port_state_t \<Rightarrow> bool" where
  "cycle_unpaced p \<longleftrightarrow>
     st_state p \<noteq> STATE_OPERATE \<or> cfg_min_cycle_time (st_config p) = 0 \<or> \<not> st_cycle_timer_valid p"

definition iolink_master_cycle_due_at :: "'e iolink_master_port_state_t \<Rightarrow> u32 \<Rightarrow> bool" where
  "iolink_master_cycle_due_at p now_100us =
     (if cycle_unpaced p then True
      else now_100us - st_last_cycle_start_100us p \<ge> ucast (cfg_min_cycle_time (st_config p)))"

definition iolink_master_cycle_slipped_at :: "'e iolink_master_port_state_t \<Rightarrow> u32 \<Rightarrow> bool" where
  "iolink_master_cycle_slipped_at p now_100us =
     (if cycle_unpaced p then False
      else now_100us - st_last_cycle_start_100us p > ucast (cfg_min_cycle_time (st_config p)))"

definition iolink_master_cycle_jitter_at :: "'e iolink_master_port_state_t \<Rightarrow> u32 \<Rightarrow> u32" where
  "iolink_master_cycle_jitter_at p now_100us =
     (if cycle_unpaced p then 0
      else let elapsed = now_100us - st_last_cycle_start_100us p
           in if elapsed \<le> ucast (cfg_min_cycle_time (st_config p)) then 0
              else elapsed - ucast (cfg_min_cycle_time (st_config p)))"

text \<open>The result is \<open>(ret, *out_next_100us)\<close>.\<close>

definition iolink_master_get_next_tick_time ::
  "'e iolink_master_port_state_t \<Rightarrow> u32 \<Rightarrow> int \<times> u32" where
  "iolink_master_get_next_tick_time p now_100us =
     (if st_state p = STATE_INACTIVE \<or> st_state p = STATE_ERROR then (STATUS_OK, now_100us)
      else if st_awaiting_response p
      then (STATUS_OK, if now_100us \<ge> st_response_deadline_100us p then now_100us
                       else st_response_deadline_100us p)
      else if st_state p = STATE_STARTUP \<and> st_send_ready_valid p \<and>
              now_100us < st_send_ready_at_100us p
      then (STATUS_OK, st_send_ready_at_100us p)
      else if cycle_unpaced p then (STATUS_OK, now_100us)
      else let cycle_due = st_last_cycle_start_100us p + ucast (cfg_min_cycle_time (st_config p))
           in (STATUS_OK, if now_100us \<ge> cycle_due then now_100us else cycle_due))"

subsection \<open>The tick engine\<close>

text \<open>The handling of a response timeout: \<open>Some ret\<close> is an early return.\<close>

definition tick_timeout ::
  "bool \<Rightarrow> u32 \<Rightarrow> int \<Rightarrow> 'e iolink_master_port_state_t \<Rightarrow> 'e \<Rightarrow>
   (int option \<times> 'e iolink_master_port_state_t \<times> 'e) option" where
  "tick_timeout pace_cycles now_100us rx_ret p e =
     (if pace_cycles \<and> \<not> st_awaiting_response p then Some (Some rx_ret, p, e)
      else do {
        let (p, e) = (if st_awaiting_response p then snd (iolink_master_flush_rx p e) else (p, e));
        let p = p\<lparr>st_awaiting_response := False\<rparr>;
        (timeout_ret, p, e) \<leftarrow> iolink_master_on_timeout_at now_100us pace_cycles p e;
        Some (if timeout_ret \<noteq> STATUS_OK then Some timeout_ret else None, p, e)
      })"

text \<open>The bookkeeping of a cycle that was sent.\<close>

definition tick_cycle_sent ::
  "u32 \<Rightarrow> 'e iolink_master_port_state_t \<Rightarrow> 'e iolink_master_port_state_t option" where
  "tick_cycle_sent now_100us p = do {
     let jitter_100us = iolink_master_cycle_jitter_at p now_100us;
     let slipped = iolink_master_cycle_slipped_at p now_100us;
     let d = st_diagnostics p;
     let d = (if slipped then d\<lparr>dg_cycle_slips := dg_cycle_slips d + 1\<rparr> else d);
     let d = d\<lparr>dg_last_cycle_jitter_100us := jitter_100us\<rparr>;
     let d = (if jitter_100us > dg_max_cycle_jitter_100us d
              then d\<lparr>dg_max_cycle_jitter_100us := jitter_100us\<rparr> else d);
     let p = p\<lparr>st_diagnostics := d, st_last_cycle_start_100us := now_100us\<rparr>;
     timeout \<leftarrow> iolink_master_response_timeout_100us p;
     Some (p\<lparr>st_response_deadline_100us := now_100us + timeout, st_cycle_timer_valid := True,
              st_awaiting_response := True\<rparr>)
   }"

definition tick_cycle ::
  "iolinki \<Rightarrow> bool \<Rightarrow> u32 \<Rightarrow> int \<Rightarrow> 'e iolink_master_port_state_t \<Rightarrow> 'e \<Rightarrow>
   (int \<times> 'e iolink_master_port_state_t \<times> 'e) option" where
  "tick_cycle L pace_cycles now_100us rx_ret p e =
     (if st_awaiting_response p then Some (rx_ret, p, e)
      else if pace_cycles \<and> \<not> iolink_master_cycle_due_at p now_100us then Some (rx_ret, p, e)
      else do {
        let cycle_count_before = st_cycle_count p;
        (p, e) \<leftarrow> iolink_master_process_at L now_100us pace_cycles p e;
        p \<leftarrow> (if pace_cycles \<and> st_cycle_count p \<noteq> cycle_count_before
             then tick_cycle_sent now_100us p else Some p);
        Some (rx_ret, p, e)
      })"

definition iolink_master_tick_common ::
  "iolinki \<Rightarrow> iolink_master_tick_event_t \<Rightarrow> bool \<Rightarrow> u32 \<Rightarrow> 'e iolink_master_port_state_t \<Rightarrow> 'e \<Rightarrow>
   (int \<times> 'e iolink_master_port_state_t \<times> 'e) option" where
  "iolink_master_tick_common L event pace_cycles now_100us p e =
     (if event > TICK_RESPONSE_TIMEOUT then Some (ERR_INVALID_ARG, p, e)
      else do {
        (rx_ret, p, e) \<leftarrow> iolink_master_poll_rx L p e;
        if rx_ret < 0 then Some (rx_ret, p, e)
        else do {
          (early, p, e) \<leftarrow>
            (if event = TICK_RESPONSE_TIMEOUT then tick_timeout pace_cycles now_100us rx_ret p e
             else Some (None, p, e));
          case early of
            Some ret \<Rightarrow> Some (ret, p, e)
          | None \<Rightarrow>
              if event \<noteq> TICK_CYCLE_DUE then Some (rx_ret, p, e)
              else tick_cycle L pace_cycles now_100us rx_ret p e
        }
      })"

definition iolink_master_tick_event ::
  "iolinki \<Rightarrow> iolink_master_tick_event_t \<Rightarrow> 'e iolink_master_port_state_t \<Rightarrow> 'e \<Rightarrow>
   (int \<times> 'e iolink_master_port_state_t \<times> 'e) option" where
  "iolink_master_tick_event L event p e = iolink_master_tick_common L event False 0 p e"

definition iolink_master_tick ::
  "iolinki \<Rightarrow> bool \<Rightarrow> 'e iolink_master_port_state_t \<Rightarrow> 'e \<Rightarrow>
   (int \<times> 'e iolink_master_port_state_t \<times> 'e) option" where
  "iolink_master_tick L response_timeout p e =
     iolink_master_tick_event L (if response_timeout then TICK_RESPONSE_TIMEOUT else TICK_CYCLE_DUE) p e"

definition iolink_master_tick_at ::
  "iolinki \<Rightarrow> iolink_master_tick_event_t \<Rightarrow> u32 \<Rightarrow> 'e iolink_master_port_state_t \<Rightarrow> 'e \<Rightarrow>
   (int \<times> 'e iolink_master_port_state_t \<times> 'e) option" where
  "iolink_master_tick_at L event now_100us p e = iolink_master_tick_common L event True now_100us p e"

subsection \<open>The port keeps its invariant\<close>

text \<open>An ISDU service changes the ISDU engine and the diagnostics only.\<close>

definition service_frame ::
  "'e iolink_master_port_state_t \<Rightarrow> 'e iolink_master_port_state_t \<Rightarrow> bool" where
  "service_frame p p' \<longleftrightarrow> p' = p\<lparr>st_isdu := st_isdu p', st_diagnostics := st_diagnostics p'\<rparr>"

lemma service_frame_updates [simp]:
  "service_frame p p" "service_frame p (p\<lparr>st_isdu := isdu\<rparr>)" "service_frame p (p\<lparr>st_diagnostics := d\<rparr>)"
  "service_frame p (p\<lparr>st_isdu := isdu, st_diagnostics := d\<rparr>)"
  "service_frame p (p\<lparr>st_diagnostics := d, st_isdu := isdu\<rparr>)"
  by (cases p; simp add: service_frame_def)+

lemma service_frame_result: "service_frame p (snd (iolink_master_service_result ret p))"
  by (simp add: iolink_master_service_result_def)

lemma service_frame_trans: "service_frame p p' \<Longrightarrow> service_frame p' p'' \<Longrightarrow> service_frame p p''"
  by (cases p; cases p'; cases p'') (simp add: service_frame_def)

lemma service_frame_kept:
  "port_wf L p \<Longrightarrow> service_frame p p' \<Longrightarrow> isdu_wf L (st_isdu p') \<Longrightarrow> port_kept L p p'"
  unfolding service_frame_def by (erule ssubst) (simp add: port_wf_defs)

lemma device_error_frame: "service_frame p (snd (isdu_device_error L p))"
  by (simp add: isdu_device_error_def Let_def iolink_master_service_result_def)

lemma finish_read_frame:
  "iolink_master_isdu_finish_read L data len p = Some (ret, data', len', p') \<Longrightarrow> service_frame p p'"
  using device_error_frame [of p L]
  by (auto simp: iolink_master_isdu_finish_read_def Let_def case_prod_unfold
      iolink_master_service_result_def split: if_splits bind_splits)

lemma read_isdu_frame:
  assumes "iolink_master_read_isdu L index subindex data len p = Some (ret, data', len', p')"
  shows "service_frame p p'"
  using assms
  by (auto simp: iolink_master_read_isdu_def split: if_splits bind_splits dest: finish_read_frame)

lemma finish_write_frame: "service_frame p (snd (iolink_master_isdu_finish_write L p))"
  using device_error_frame [of p L]
  by (simp add: iolink_master_isdu_finish_write_def iolink_master_service_result_def Let_def)

lemma write_isdu_frame:
  assumes "iolink_master_write_isdu L index subindex data len p = Some (ret, p')"
  shows "service_frame p p'"
  using assms finish_write_frame [of p L]
  by (auto simp: iolink_master_write_isdu_def split: if_splits bind_splits option.splits)

lemma read_isdu_kept:
  assumes "stack_constants_ok L" "port_wf L p" "len \<le> length data \<or> ISDU_BUFFER_SIZE L \<le> length data"
  shows "ensures (iolink_master_read_isdu L index subindex data len p)
    (\<lambda>(ret, data', len', p'). port_kept L p p' \<and> length data' = length data)"
proof -
  have "isdu_wf L (st_isdu p)" using assms(2) by (simp add: port_wf_def)
  from isdu_wf_read_isdu [OF this assms(1,3), of index subindex]
  obtain ret data' len' p' where "iolink_master_read_isdu L index subindex data len p = Some (ret, data', len', p')"
    "isdu_wf L (st_isdu p')" "length data' = length data"
    by (auto elim: ensuresE)
  with service_frame_kept [OF assms(2) read_isdu_frame] show ?thesis by simp
qed

lemma write_isdu_kept:
  assumes "stack_constants_ok L" "port_wf L p" "len < 256" "\<And>src. data = Some src \<Longrightarrow> len \<le> length src"
  shows "ensures (iolink_master_write_isdu L index subindex data len p)
    (\<lambda>(ret, p'). port_kept L p p')"
proof -
  have "isdu_wf L (st_isdu p)" using assms(2) by (simp add: port_wf_def)
  from isdu_wf_write_isdu [OF this assms(1,3), of data index subindex] assms(4)
  obtain ret p' where "iolink_master_write_isdu L index subindex data len p = Some (ret, p')"
    "isdu_wf L (st_isdu p')"
    by (auto elim: ensuresE)
  with service_frame_kept [OF assms(2) write_isdu_frame] show ?thesis by simp
qed

lemma parse_page1_defined:
  "16 \<le> length page \<Longrightarrow> ensures (iolink_master_parse_direct_parameter_page1 page len info) (\<lambda>_. True)"
  by (simp add: iolink_master_parse_direct_parameter_page1_def ensures_simps)

lemma port_wf_device_info: "port_wf L (p\<lparr>st_device_info := info\<rparr>) = port_wf L p"
  by (simp add: port_wf_defs)

lemma read_device_info_kept:
  assumes L: "stack_constants_ok L" and wf: "port_wf L p"
  shows "ensures (iolink_master_read_device_info L p) (\<lambda>(ret, p'). port_kept L p p')"
proof -
  have "ensures (iolink_master_read_isdu L (IDX_DIRECT_PARAMETERS_1 L) 0 (replicate DPP1_LEN 0) DPP1_LEN p)
      (\<lambda>(ret, data', len', p'). port_kept L p p' \<and> length data' = length (replicate DPP1_LEN (0::u8)))"
    by (rule read_isdu_kept [OF L wf]) simp
  then obtain ret page len p1 where read: "iolink_master_read_isdu L (IDX_DIRECT_PARAMETERS_1 L) 0
      (replicate DPP1_LEN 0) DPP1_LEN p = Some (ret, page, len, p1)" "port_kept L p p1" "length page = 16"
    by (auto elim: ensuresE)
  obtain ret' info where "iolink_master_parse_direct_parameter_page1 page len (st_device_info p1) = Some (ret', info)"
    using parse_page1_defined [of page len "st_device_info p1"] read(3) by (auto elim: ensuresE)
  then show ?thesis
    using read(2)
    by (simp add: iolink_master_read_device_info_def read(1)
        iolink_master_apply_direct_parameter_page1_def port_kept_def port_wf_device_info)
qed

lemma step_kept:
  "port_kept L p (p'\<lparr>st_startup := (st_startup p')\<lparr>su_step := x\<rparr>\<rparr>) = port_kept L p p'"
  by (simp add: port_kept_def port_wf_step)

lemma ensures_kept_trans:
  assumes "port_kept L p p1" and "ensures m (\<lambda>(x, p', e'). port_kept L p1 p')"
  shows "ensures m (\<lambda>(x, p', e'). port_kept L p p')"
  using assms(2) by (rule ensures_mono) (auto intro: port_kept_trans [OF assms(1)])

lemma ensures_kept_trans2:
  assumes "port_kept L p p1" and "ensures m (\<lambda>(p', e'). port_kept L p1 p')"
  shows "ensures m (\<lambda>(p', e'). port_kept L p p')"
  using assms(2) by (rule ensures_mono) (auto intro: port_kept_trans [OF assms(1)])

text \<open>Sequencing: what follows an operation that keeps the port starts from a kept port.\<close>

lemma ensures_bind_kept:
  assumes "ensures m (\<lambda>(x, p1, e1). port_kept L p p1)"
    and "\<And>x p1 e1. port_kept L p p1 \<Longrightarrow> ensures (f x p1 e1) Q"
  shows "ensures (Option.bind m (\<lambda>(x, p1, e1). f x p1 e1)) Q"
  using assms(1) unfolding ensures_bind by (rule ensures_mono) (auto intro: assms(2))

lemma ensures_bind_kept2:
  assumes "ensures m (\<lambda>(x, p1). port_kept L p p1)"
    and "\<And>x p1. port_kept L p p1 \<Longrightarrow> ensures (f x p1) Q"
  shows "ensures (Option.bind m (\<lambda>(x, p1). f x p1)) Q"
  using assms(1) unfolding ensures_bind by (rule ensures_mono) (auto intro: assms(2))

lemma kept_start:
  "port_kept L p p1 \<Longrightarrow> can_send p \<Longrightarrow> port_wf L p1 \<and> can_send p1"
  by (simp add: can_send_kept) (simp add: port_kept_def)

lemma wake_up_kept:
  assumes "port_wf L p" "can_send p"
  shows "ensures (iolink_master_wake_up L p e) (\<lambda>(ok, p', e'). port_kept L p p')"
proof -
  define p1 where "p1 = p\<lparr>st_tx_buf := (st_tx_buf p)[0 := 0x55]\<rparr>"
  have kept: "port_kept L p p1" and len: "length (st_tx_buf p) = 64"
    using assms(1) by (simp_all add: p1_def port_wf_defs)
  have "ensures (send_tx L 1 p1 e) (\<lambda>(sent, p', e'). port_kept L p1 p')"
    using kept assms(2) can_send_kept [OF kept]
    by (intro send_tx_kept) (simp_all add: port_kept_def)
  then have "ensures (send_tx L 1 p1 e) (\<lambda>(sent, p', e'). port_kept L p p')"
    by (rule ensures_kept_trans [OF kept])
  then show ?thesis
    using port_kept_refl [OF assms(1)] send_failed_kept [OF assms(1)] len
    by (auto simp: iolink_master_wake_up_def wr_def p1_def case_prod_unfold Let_def split: option.split)
qed

lemma process_wake_kept:
  assumes "port_wf L p" "can_send p"
  shows "ensures (process_wake L now timed p e) (\<lambda>(p', e'). port_kept L p p')"
  unfolding process_wake_def Let_def
proof (rule ensures_bind_kept [OF wake_up_kept [OF assms]])
  fix ok p1 e1
  assume kept: "port_kept L p p1"
  define p2 where "p2 = p1\<lparr>st_startup := (st_startup p1)\<lparr>su_step := STARTUP_STEP_SEND_TYPE0\<rparr>\<rparr>"
  have kept2: "port_kept L p p2" using kept by (simp add: p2_def step_kept)
  then obtain b where "iolink_master_startup_baudrate p2 = Some b"
    using startup_baudrate_defined by (auto simp: port_kept_def)
  then show "ensures (if ok then do {
         baudrate \<leftarrow> iolink_master_startup_baudrate
           (p1\<lparr>st_startup := (st_startup p1)\<lparr>su_step := STARTUP_STEP_SEND_TYPE0\<rparr>\<rparr>);
         Some (iolink_master_arm_send_gate now
           (5 + iolink_master_t_dmt_100us
             (p1\<lparr>st_startup := (st_startup p1)\<lparr>su_step := STARTUP_STEP_SEND_TYPE0\<rparr>\<rparr>) baudrate) timed
           (p1\<lparr>st_startup := (st_startup p1)\<lparr>su_step := STARTUP_STEP_SEND_TYPE0\<rparr>\<rparr>), e1) }
       else Some (p1, e1)) (\<lambda>(p', e'). port_kept L p p')"
    unfolding p2_def [symmetric] using kept kept2 by (simp add: arm_send_gate_kept)
qed

text \<open>A frame of the stack's encoders is sent, and \<open>g\<close> follows.\<close>

lemma send_encoded_kept:
  assumes "iolinki_ok L" "port_wf L p" "can_send p" "port_kept L p (p\<lparr>st_tx_buf := tx\<rparr>)" "n \<le> 64"
    and "\<And>sent p1 e1. port_kept L p p1 \<Longrightarrow> ensures (g sent p1 e1) (\<lambda>(p', e'). port_kept L p p')"
  shows "ensures (if n > 0
      then do { (sent, p, e) \<leftarrow> send_tx L (nat n) (p\<lparr>st_tx_buf := tx\<rparr>) e; g sent p e }
      else Some (p\<lparr>st_tx_buf := tx\<rparr>, e)) (\<lambda>(p', e'). port_kept L p p')"
proof (cases "n > 0")
  case True
  from ensures_bind_kept [OF send_tx_of_kept [OF assms(2-4) True assms(5)] assms(6)] True
  show ?thesis by simp
next
  case False
  then show ?thesis using assms(4) by simp
qed

lemma process_test_message_kept:
  assumes L: "iolinki_ok L" and wf: "port_wf L p" and "can_send p"
  shows "ensures (process_test_message L now timed p e) (\<lambda>(p', e'). port_kept L p p')"
proof -
  define mc where "mc = iolink_master_encode_master_command L True MC_CHANNEL_PAGE 0x02"
  obtain n tx where enc: "frame_encode_type0 L mc (st_tx_buf p) = (n, tx)"
    by (cases "frame_encode_type0 L mc (st_tx_buf p)")
  have kept: "port_kept L p (p\<lparr>st_tx_buf := tx\<rparr>)" "n \<le> 64"
    using encoded_frame_kept(1,2) [OF L wf, of mc] by (simp_all add: enc)
  show ?thesis
    unfolding process_test_message_def mc_def [symmetric] enc prod.case Let_def
  proof (rule send_encoded_kept [OF L wf assms(3) kept])
    fix ok p1 e1
    assume kept: "port_kept L p p1"
    define p2 where "p2 = p1\<lparr>st_startup := (st_startup p1)\<lparr>su_step := STARTUP_STEP_AWAIT_RESPONSE\<rparr>\<rparr>"
    have kept2: "port_kept L p p2" using kept by (simp add: p2_def step_kept)
    then have "port_kept L p (p2\<lparr>st_response_deadline_100us := x, st_awaiting_response := True\<rparr>)" for x
      by (auto simp: port_wf_defs)
    moreover obtain t where "iolink_master_test_message_timeout_100us p2 = Some t"
      using timeouts_defined(2) kept2 by (auto simp: port_kept_def)
    ultimately show "ensures (if ok then if timed
          then do {
            timeout \<leftarrow> iolink_master_test_message_timeout_100us
              (p1\<lparr>st_startup := (st_startup p1)\<lparr>su_step := STARTUP_STEP_AWAIT_RESPONSE\<rparr>\<rparr>);
            Some (p1\<lparr>st_startup := (st_startup p1)\<lparr>su_step := STARTUP_STEP_AWAIT_RESPONSE\<rparr>,
              st_response_deadline_100us := now + timeout, st_awaiting_response := True\<rparr>, e1)
          }
          else Some (p1\<lparr>st_startup := (st_startup p1)\<lparr>su_step := STARTUP_STEP_AWAIT_RESPONSE\<rparr>\<rparr>, e1)
        else Some (p1, e1)) (\<lambda>(p', e'). port_kept L p p')"
      unfolding p2_def [symmetric] using kept kept2 by simp
  qed
qed

lemma process_startup_kept:
  assumes L: "iolinki_ok L" and wf: "port_wf L p" and "can_send p"
  shows "ensures (process_startup L now timed p e) (\<lambda>(p', e'). port_kept L p p')"
proof -
  define r where "r = (if su_step (st_startup p) = STARTUP_STEP_INACTIVE
         then let (ret, e) = iolink_master_set_mode PHY_MODE_SDCI p e
              in if ret \<noteq> STATUS_OK then (ret, set_error p, e)
                 else (ret, p\<lparr>st_startup := (st_startup p)\<lparr>su_step := STARTUP_STEP_WAKE\<rparr>\<rparr>, e)
         else (STATUS_OK, p, e))"
  obtain ret p1 e1 where r1: "r = (ret, p1, e1)" by (cases r)
  have kept: "port_kept L p p1"
    using r1 port_kept_refl [OF wf]
    by (auto simp: r_def case_prod_unfold Let_def set_error_kept step_kept split: if_splits)
  then have wf1: "port_wf L p1" and can: "can_send p1"
    using assms(3) can_send_kept [OF kept] by (simp_all add: port_kept_def)
  note trans = ensures_kept_trans2 [OF kept]
  show ?thesis
    using trans [OF process_wake_kept [OF wf1 can]] trans [OF process_test_message_kept [OF L wf1 can]] kept
    unfolding process_startup_def r_def [symmetric] r1 by simp
qed

lemma process_services_kept:
  assumes L: "iolinki_ok L" and wf: "port_wf L p" and "can_send p"
  shows "ensures (process_services L p e) (\<lambda>(sent, p', e'). port_kept L p p')"
  unfolding process_services_def
proof (rule ensures_bind_kept [OF send_event_kept [OF assms]])
  fix sent p1 e1
  assume kept: "port_kept L p p1"
  from kept_start [OF kept assms(3)]
  have "ensures (iolink_master_send_isdu L p1 e1) (\<lambda>(sent, p', e'). port_kept L p p')"
    by (intro ensures_kept_trans [OF kept] send_isdu_kept [OF L]) simp_all
  then show "ensures (if sent then Some (True, p1, e1) else iolink_master_send_isdu L p1 e1)
      (\<lambda>(sent, p', e'). port_kept L p p')"
    using kept by simp
qed

lemma process_inspection_kept:
  assumes L: "stack_constants_ok L" and wf: "port_wf L p"
  shows "ensures (process_inspection L p) (\<lambda>(returned, p'). port_kept L p p')"
proof -
  obtain ret p1 where "iolink_master_read_device_info L p = Some (ret, p1)" "port_kept L p p1"
    using read_device_info_kept [OF assms] by (auto elim: ensuresE)
  then show ?thesis
    using port_kept_refl [OF wf] by (auto simp: process_inspection_def Let_def set_error_kept)
qed

lemma process_operate_command_kept:
  assumes L: "iolinki_ok L" and wf: "port_wf L p" and "can_send p"
  shows "ensures (process_operate_command L p e) (\<lambda>(p', e'). port_kept L p p')"
proof -
  define mc where "mc = iolink_master_encode_master_command L False MC_CHANNEL_PAGE 0x00"
  obtain n tx where enc: "frame_encode_type0_write L mc (CMD_DEVICE_OPERATE L) (st_tx_buf p) = (n, tx)"
    by (cases "frame_encode_type0_write L mc (CMD_DEVICE_OPERATE L) (st_tx_buf p)")
  have kept: "port_kept L p (p\<lparr>st_tx_buf := tx\<rparr>)" "n \<le> 64"
    using encoded_frame_kept(3,4) [OF L wf, of mc "CMD_DEVICE_OPERATE L"] by (simp_all add: enc)
  show ?thesis
    unfolding process_operate_command_def mc_def [symmetric] enc prod.case Let_def
    by (rule send_encoded_kept [OF L wf assms(3) kept]) (simp add: step_kept)
qed

lemma process_preoperate_kept:
  assumes L: "iolinki_ok L" and wf: "port_wf L p" and "can_send p"
  shows "ensures (process_preoperate L p e) (\<lambda>(p', e'). port_kept L p p')"
  unfolding process_preoperate_def
proof (rule ensures_bind_kept [OF process_services_kept [OF assms]])
  fix returned p1 e1
  assume kept: "port_kept L p p1"
  have L': "stack_constants_ok L" using L by (simp add: iolinki_ok_def)
  have wf1: "port_wf L p1" using kept by (simp add: port_kept_def)
  have "ensures (do { (returned, p) \<leftarrow> process_inspection L p1;
       if returned then Some (p, e1) else process_operate_command L p e1 })
     (\<lambda>(p', e'). port_kept L p p')"
  proof (rule ensures_bind_kept2 [OF process_inspection_kept [OF L' wf1]])
    fix returned p2
    assume "port_kept L p1 p2"
    note kept2 = port_kept_trans [OF kept this]
    from kept_start [OF kept2 assms(3)]
    have "ensures (process_operate_command L p2 e1) (\<lambda>(p', e'). port_kept L p p')"
      by (intro ensures_kept_trans2 [OF kept2] process_operate_command_kept [OF L]) simp_all
    then show "ensures (if returned then Some (p2, e1) else process_operate_command L p2 e1)
        (\<lambda>(p', e'). port_kept L p p')"
      using kept2 by simp
  qed
  then show "ensures (if returned then Some (p1, e1)
     else do { (returned, p) \<leftarrow> process_inspection L p1;
       if returned then Some (p, e1) else process_operate_command L p e1 })
     (\<lambda>(p', e'). port_kept L p p')"
    using kept by simp
qed

lemma count_cycle_kept:
  assumes "ensures m (\<lambda>(sent, p', e'). port_kept L p p')"
  shows "ensures (map_option count_cycle m) (\<lambda>(p', e'). port_kept L p p')"
  using assms unfolding ensures_map
  by (rule ensures_mono) (auto simp: count_cycle_def port_wf_defs)

lemma process_cycle_type0_kept:
  assumes L: "iolinki_ok L" and wf: "port_wf L p" and "can_send p"
  shows "ensures (process_cycle_type0 L p e) (\<lambda>(p', e'). port_kept L p p')"
proof -
  have L': "stack_constants_ok L" using L by (simp add: iolinki_ok_def)
  have "isdu_wf L (st_isdu p)" using wf by (simp add: port_wf_def)
  then obtain octets isdu where fill: "iolink_master_isdu_fill_od L 1 (st_isdu p) = Some (octets, isdu)"
    "length octets = 1" "isdu_wf L isdu"
    using isdu_wf_fill_od [OF _ L', of "st_isdu p" 1] by (auto elim: ensuresE)
  define p1 where "p1 = p\<lparr>st_isdu := isdu\<rparr>"
  have kept1: "port_kept L p p1" using wf fill(3) by (simp add: p1_def port_kept_def port_wf_isdu)
  obtain n tx where enc: "frame_encode_type0 L (octets ! 0) (st_tx_buf p1) = (n, tx)"
    by (cases "frame_encode_type0 L (octets ! 0) (st_tx_buf p1)")
  have wf1: "port_wf L p1" and can: "can_send p1" using kept_start [OF kept1 assms(3)] by simp_all
  have kept: "port_kept L p1 (p1\<lparr>st_tx_buf := tx\<rparr>)" "n \<le> 64"
    using encoded_frame_kept(1,2) [OF L wf1, of "octets ! 0"] by (simp_all add: enc)
  have "0 < n \<Longrightarrow> ensures (send_tx L (nat n) (p1\<lparr>st_tx_buf := tx\<rparr>) e) (\<lambda>(sent, p', e'). port_kept L p p')"
    by (intro ensures_kept_trans [OF kept1] send_tx_of_kept [OF wf1 can kept(1) _ kept(2)])
  from count_cycle_kept [OF this] show ?thesis
    using fill(2) port_kept_trans [OF kept1 kept(1)] enc
    unfolding process_cycle_type0_def fill(1) bind.bind_lunit prod.case
    by (simp add: rd_def p1_def Let_def)
qed

text \<open>The cyclic message: MC 0, the process data and the OD octets of the ISDU engine.\<close>

lemma process_cycle_message:
  assumes L: "stack_constants_ok L" and wf: "port_wf L p"
    and "iolink_master_isdu_fill_od L (st_od_len p) (st_isdu p) = Some (od, isdu)"
    and msg: "msg = message L (iolink_master_encode_master_command L False MC_CHANNEL_PROCESS 0)
      (type_bits_of p) (pd_out_octets p @ od)"
  shows "process_cycle L p e =
      map_option count_cycle (iolink_master_send_full L msg (tx_with msg (p\<lparr>st_isdu := isdu\<rparr>)) e)"
    and "length msg \<le> 64"
proof -
  define mc where "mc = iolink_master_encode_master_command L False MC_CHANNEL_PROCESS 0"
  note sizes = port_wf_sizes [OF L wf]
  obtain a b rest where tx: "st_tx_buf p = a # b # rest" "length rest = 62"
    using split_header [of "st_tx_buf p"] sizes(2) by auto
  define pd where "pd = pd_out_octets p"
  have len: "length pd = st_pd_out_len p" and
    copy: "copy_pd_out L p (mc # t # rest) = Some (mc # t # pd @ drop (length pd) rest)" for t
    using copy_pd_out_header [OF L wf tx(2)] by (simp_all add: pd_def)
  have "isdu_wf L (st_isdu p)" using wf by (simp add: port_wf_def)
  then have olen: "length od = st_od_len p"
    using isdu_wf_fill_od [OF _ L, of "st_isdu p" "st_od_len p"] assms(3) by simp
  have fit: "length od \<le> length (drop (length pd) rest)" "2 + length (pd @ od) \<le> 64"
    using sizes(4) len tx(2) olen by auto
  show "length msg \<le> 64" using fit(2) by (simp add: msg pd_def)
  have hdr: "wr (st_tx_buf p) 0 mc = Some (mc # b # rest)"
    and bits: "wr (mc # t # xs) 1 t' = Some (mc # t' # xs)" for t t' :: u8 and xs
    by (simp_all add: tx wr_def)
  have app: "wr_slice (mc # t # pd @ drop (length pd) rest) (2 + length pd) od =
      Some (mc # t # (pd @ od) @ drop (length od) (drop (length pd) rest))" for t
    using wr_slice_behind_header [OF fit(1), of mc t pd] by simp
  have chk: "put_checksum L (mc # t # (pd @ od) @ drop (length od) (drop (length pd) rest))
      (2 + length pd + length od) =
      Some (message L mc t (pd @ od) @ drop (length od) (drop (length pd) rest))" for t
    using put_checksum_message [of L mc t "pd @ od"] by (simp add: add.assoc)
  have m: "msg = message L mc (type_bits_of p) (pd @ od)" by (simp add: msg pd_def mc_def)
  define p1 where "p1 = p\<lparr>st_isdu := isdu, st_tx_buf := msg @ drop (length od) (drop (length pd) rest)\<rparr>"
  have "process_cycle L p e = map_option count_cycle (send_tx L (2 + length pd + length od) p1 e)"
    unfolding process_cycle_def Let_def mc_def [symmetric] sizes(1) hdr bits bind.bind_lunit copy
      assms(3) [folded olen] prod.case len [symmetric] olen [symmetric] app chk m [symmetric] p1_def [symmetric]
    by simp
  moreover have "p1 = tx_with msg (p\<lparr>st_isdu := isdu\<rparr>)"
    by (simp add: p1_def tx_with_def tx m add.commute)
  moreover have "2 + length pd + length od = length msg" by (simp add: m)
  ultimately show "process_cycle L p e =
      map_option count_cycle (iolink_master_send_full L msg (tx_with msg (p\<lparr>st_isdu := isdu\<rparr>)) e)"
    by (simp add: send_tx_with)
qed

lemma process_cycle_kept:
  assumes L: "stack_constants_ok L" and wf: "port_wf L p" and "can_send p"
  shows "ensures (process_cycle L p e) (\<lambda>(p', e'). port_kept L p p')"
proof -
  have "isdu_wf L (st_isdu p)" using wf by (simp add: port_wf_def)
  then obtain od isdu where fill: "iolink_master_isdu_fill_od L (st_od_len p) (st_isdu p) = Some (od, isdu)"
    "isdu_wf L isdu"
    using isdu_wf_fill_od [OF _ L, of "st_isdu p" "st_od_len p"] by (auto elim: ensuresE)
  define msg where "msg = message L (iolink_master_encode_master_command L False MC_CHANNEL_PROCESS 0)
      (type_bits_of p) (pd_out_octets p @ od)"
  note m = process_cycle_message [OF L wf fill(1) msg_def]
  have wf1: "port_wf L (p\<lparr>st_isdu := isdu\<rparr>)" using wf fill(2) by (rule port_wf_isdu)
  have kept: "port_kept L p (tx_with msg (p\<lparr>st_isdu := isdu\<rparr>))"
    using tx_with_kept [OF wf1 m(2)] by (simp add: port_kept_def)
  have "msg \<noteq> []" by (simp add: msg_def)
  then have "ensures (iolink_master_send_full L msg (tx_with msg (p\<lparr>st_isdu := isdu\<rparr>)) e)
      (\<lambda>(sent, p', e'). port_kept L p p')"
    using kept_start [OF kept assms(3)]
    by (intro ensures_kept_trans [OF kept] send_full_kept) simp_all
  from count_cycle_kept [OF this] show ?thesis by (simp add: m(1))
qed

lemma process_operate_kept:
  assumes L: "iolinki_ok L" and wf: "port_wf L p" and "can_send p"
  shows "ensures (process_operate L p e) (\<lambda>(p', e'). port_kept L p p')"
  unfolding process_operate_def
proof (rule ensures_bind_kept [OF process_services_kept [OF assms]])
  fix returned p1 e1
  assume kept: "port_kept L p p1"
  have L': "stack_constants_ok L" using L by (simp add: iolinki_ok_def)
  have start: "port_wf L p1" "can_send p1" using kept_start [OF kept assms(3)] by simp_all
  show "ensures (if returned then Some (p1, e1)
     else if type0_operate p1 then process_cycle_type0 L p1 e1 else process_cycle L p1 e1)
     (\<lambda>(p', e'). port_kept L p p')"
    using kept ensures_kept_trans2 [OF kept process_cycle_type0_kept [OF L start]]
      ensures_kept_trans2 [OF kept process_cycle_kept [OF L' start]] by simp
qed

lemma process_at_kept:
  assumes L: "iolinki_ok L" and wf: "port_wf L p"
  shows "ensures (iolink_master_process_at L now timed p e) (\<lambda>(p', e'). port_kept L p p')"
  using process_startup_kept [OF L wf] process_preoperate_kept [OF L wf] process_operate_kept [OF L wf]
    port_kept_refl [OF wf]
  by (simp add: iolink_master_process_at_def)

lemma tick_timeout_kept:
  assumes wf: "port_wf L p"
  shows "ensures (tick_timeout pace now rx_ret p e) (\<lambda>(ret, p', e'). port_kept L p p')"
proof -
  define f where "f = (if st_awaiting_response p then snd (iolink_master_flush_rx p e) else (p, e))"
  obtain p1 e1 where f: "f = (p1, e1)" by (cases f)
  have kept1: "port_kept L p p1"
    using f flush_rx_kept [OF wf, of e] port_kept_refl [OF wf]
    by (cases "iolink_master_flush_rx p e") (auto simp: f_def split: if_splits)
  define p2 where "p2 = p1\<lparr>st_awaiting_response := False\<rparr>"
  have kept2: "port_kept L p p2" using kept1 by (simp add: p2_def port_kept_def port_wf_awaiting)
  then have "ensures (iolink_master_on_timeout_at now pace p2 e1) (\<lambda>(ret, p', e'). port_kept L p p')"
    by (intro ensures_kept_trans [OF kept2] on_timeout_kept) (simp add: port_kept_def)
  then have "ensures (do {
      (timeout_ret, p, e) \<leftarrow> iolink_master_on_timeout_at now pace p2 e1;
      Some (if timeout_ret \<noteq> STATUS_OK then Some timeout_ret else None, p, e) })
     (\<lambda>(ret, p', e'). port_kept L p p')"
    by (rule ensures_bind_kept) simp
  then show ?thesis
    using port_kept_refl [OF wf]
    unfolding tick_timeout_def f_def [symmetric] f prod.case Let_def p2_def [symmetric] by simp
qed

text \<open>The diagnostics after a cycle that was sent at \<open>now\<close>.\<close>

definition cycle_diagnostics ::
  "u32 \<Rightarrow> 'e iolink_master_port_state_t \<Rightarrow> iolink_master_diagnostics_t" where
  "cycle_diagnostics now p =
     (st_diagnostics p)\<lparr>
       dg_cycle_slips := dg_cycle_slips (st_diagnostics p) +
         (if iolink_master_cycle_slipped_at p now then 1 else 0),
       dg_last_cycle_jitter_100us := iolink_master_cycle_jitter_at p now,
       dg_max_cycle_jitter_100us :=
         max (dg_max_cycle_jitter_100us (st_diagnostics p)) (iolink_master_cycle_jitter_at p now)\<rparr>"

lemma tick_cycle_sent_eq:
  "tick_cycle_sent now p =
     map_option (\<lambda>timeout. p\<lparr>st_diagnostics := cycle_diagnostics now p, st_last_cycle_start_100us := now,
       st_response_deadline_100us := now + timeout, st_cycle_timer_valid := True,
       st_awaiting_response := True\<rparr>) (iolink_master_response_timeout_100us p)"
proof -
  have timeout: "iolink_master_response_timeout_100us (p\<lparr>st_diagnostics := x, st_last_cycle_start_100us := now\<rparr>)
      = iolink_master_response_timeout_100us p" for x
    by (simp add: iolink_master_response_timeout_100us_def iolink_master_startup_baudrate_def)
  obtain d where d: "st_diagnostics p = d" by simp
  show ?thesis
    unfolding tick_cycle_sent_def Let_def timeout cycle_diagnostics_def d
    by (cases d; cases "iolink_master_response_timeout_100us p") (auto simp: max_def)
qed

lemma tick_cycle_sent_kept:
  assumes wf: "port_wf L p"
  shows "ensures (tick_cycle_sent now p) (port_kept L p)"
  using timeouts_defined(1) [OF wf] wf unfolding tick_cycle_sent_eq
  by (auto simp: port_wf_defs)

lemma tick_cycle_kept:
  assumes L: "iolinki_ok L" and wf: "port_wf L p"
  shows "ensures (tick_cycle L pace now rx_ret p e) (\<lambda>(ret, p', e'). port_kept L p p')"
proof -
  obtain p1 e1 where p1: "iolink_master_process_at L now pace p e = Some (p1, e1)" "port_kept L p p1"
    using process_at_kept [OF assms, of now pace e] by (auto elim: ensuresE)
  then have "ensures (tick_cycle_sent now p1) (port_kept L p)"
    using tick_cycle_sent_kept [of L p1 now]
    by (auto elim!: ensures_mono intro: port_kept_trans simp: port_kept_def)
  then show ?thesis
    using p1(2) port_kept_refl [OF wf]
    by (auto simp: tick_cycle_def Let_def p1(1) ensures_simps)
qed

lemma tick_common_kept:
  assumes L: "iolinki_ok L" and wf: "port_wf L p" and "quiet d p"
  shows "ensures (iolink_master_tick_common L event pace now p e) (\<lambda>(ret, p', e'). port_kept L p p')"
proof (cases "event > TICK_RESPONSE_TIMEOUT")
  case True
  then show ?thesis using wf by (simp add: iolink_master_tick_common_def port_kept_refl)
next
  case False
  show ?thesis
    unfolding iolink_master_tick_common_def if_not_P [OF False]
  proof (rule ensures_bind_kept [OF poll_rx_kept [OF assms]])
    fix rx_ret p1 e1
    assume kept: "port_kept L p p1"
    then have wf1: "port_wf L p1" by (simp add: port_kept_def)
    have "ensures (if event = TICK_RESPONSE_TIMEOUT then tick_timeout pace now rx_ret p1 e1
        else Some (None, p1, e1)) (\<lambda>(early, p', e'). port_kept L p p')"
      using ensures_kept_trans [OF kept tick_timeout_kept [OF wf1]] kept by simp
    then have "ensures (do {
          (early, p, e) \<leftarrow>
            (if event = TICK_RESPONSE_TIMEOUT then tick_timeout pace now rx_ret p1 e1
             else Some (None, p1, e1));
          case early of
            Some ret \<Rightarrow> Some (ret, p, e)
          | None \<Rightarrow>
              if event \<noteq> TICK_CYCLE_DUE then Some (rx_ret, p, e)
              else tick_cycle L pace now rx_ret p e }) (\<lambda>(ret, p', e'). port_kept L p p')"
    proof (rule ensures_bind_kept)
      fix early p2 e2
      assume kept2: "port_kept L p p2"
      then have "ensures (tick_cycle L pace now rx_ret p2 e2) (\<lambda>(ret, p', e'). port_kept L p p')"
        by (intro ensures_kept_trans [OF kept2] tick_cycle_kept [OF L]) (simp add: port_kept_def)
      then show "ensures (case early of
            Some ret \<Rightarrow> Some (ret, p2, e2)
          | None \<Rightarrow>
              if event \<noteq> TICK_CYCLE_DUE then Some (rx_ret, p2, e2)
              else tick_cycle L pace now rx_ret p2 e2) (\<lambda>(ret, p', e'). port_kept L p p')"
        using kept2 by (simp split: option.split)
    qed
    then show "ensures (if rx_ret < 0 then Some (rx_ret, p1, e1) else do {
          (early, p, e) \<leftarrow>
            (if event = TICK_RESPONSE_TIMEOUT then tick_timeout pace now rx_ret p1 e1
             else Some (None, p1, e1));
          case early of
            Some ret \<Rightarrow> Some (ret, p, e)
          | None \<Rightarrow>
              if event \<noteq> TICK_CYCLE_DUE then Some (rx_ret, p, e)
              else tick_cycle L pace now rx_ret p e }) (\<lambda>(ret, p', e'). port_kept L p p')"
      using kept by simp
  qed
qed

end
