(* ===== verification/MasterLifecycle.thy ===== *)
theory MasterLifecycle
  imports MasterPort
begin

text \<open>
  Lifecycle and access of a port: initialisation, restart and the PHY contract
  (\<open>src/master_port.c\<close>, lines 602-729), the SIO modes (\<open>src/master_sio.c\<close>), and the getters and
  setters of the process data, the diagnostics and the timing (\<open>src/master_port.c\<close>, lines
  1388-1512).

  A NULL port or a NULL output pointer has no counterpart; the pointers \<open>phy\<close> and \<open>config\<close>
  of the initialisation and input data that may be NULL are options.
\<close>

subsection \<open>Initialisation\<close>

definition init_args_ok ::
  "iolinki \<Rightarrow> 'e iolink_phy_api_t option \<Rightarrow> 'e iolink_master_config_t option \<Rightarrow> bool" where
  "init_args_ok L phy config =
     (case (phy, config) of
        (Some _, Some config) \<Rightarrow>
          \<not> (cfg_pd_in_len config > PD_IN_MAX_SIZE L \<or>
             cfg_pd_out_len config > PD_OUT_MAX_SIZE L \<or>
             cfg_m_seq_type config > M_SEQ_TYPE_2_V \<or>
             cfg_baudrate config > BAUDRATE_COM3 \<or>
             cfg_port_mode config > PORT_MODE_DEACTIVATED \<or>
             (cfg_m_seq_type config = M_SEQ_TYPE_0 \<and>
              (cfg_pd_in_len config > 0 \<or> cfg_pd_out_len config > 0)))
      | _ \<Rightarrow> False)"

definition initial_port ::
  "iolinki \<Rightarrow> 'e iolink_phy_api_t \<Rightarrow> 'e iolink_master_config_t \<Rightarrow> 'e iolink_master_port_state_t" where
  "initial_port L phy config =
     (let p = zero_port L
      in p\<lparr>st_phy := Some phy, st_config := config,
       st_od_len := iolink_master_od_len_for_type (cfg_m_seq_type config),
       st_pd_in_len := cfg_pd_in_len config, st_pd_out_len := cfg_pd_out_len config,
       st_diagnostics := zero_diagnostics\<lparr>dg_device_status := DEVICE_STATUS_FAILURE L\<rparr>,
       st_startup := (st_startup p)\<lparr>su_baudrate_index := 0\<rparr>,
       st_state := (if cfg_port_mode config = PORT_MODE_IOLINK then STATE_STARTUP
                    else STATE_INACTIVE)\<rparr>)"

text \<open>A call whose failure ends the initialisation in ERROR.\<close>

definition init_step ::
  "int \<times> 'e \<Rightarrow> 'e iolink_master_port_state_t \<Rightarrow>
   ('e iolink_master_port_state_t \<Rightarrow> 'e \<Rightarrow> (int \<times> 'e iolink_master_port_state_t \<times> 'e) option) \<Rightarrow>
   (int \<times> 'e iolink_master_port_state_t \<times> 'e) option" where
  "init_step result p rest =
     (let (ret, e) = result
      in if ret \<noteq> STATUS_OK then Some (ret, set_error p, e) else rest p e)"

definition iolink_master_init ::
  "iolinki \<Rightarrow> 'e iolink_phy_api_t option \<Rightarrow> 'e iolink_master_config_t option \<Rightarrow>
   'e iolink_master_port_state_t \<Rightarrow> 'e \<Rightarrow> (int \<times> 'e iolink_master_port_state_t \<times> 'e) option" where
  "iolink_master_init L phy config p e =
     (if \<not> init_args_ok L phy config then Some (ERR_INVALID_ARG, p, e)
      else do {
        phy \<leftarrow> phy;
        config \<leftarrow> config;
        let p = initial_port L phy config;
        init_step (call_hook (phy_init phy) e) p (\<lambda>p e.
          if cfg_port_mode config = PORT_MODE_DEACTIVATED
          then init_step (iolink_master_set_mode PHY_MODE_INACTIVE p e) p
                 (\<lambda>p e. Some (STATUS_OK, p, e))
          else if cfg_port_mode config = PORT_MODE_DI \<or> cfg_port_mode config = PORT_MODE_DQ
          then init_step (iolink_master_set_mode PHY_MODE_SIO p e) p
                 (\<lambda>p e. Some (STATUS_OK, p, e))
          else let (ret, p, e) = iolink_master_flush_rx p e
               in init_step (ret, e) p (\<lambda>p e. do {
                 baudrate \<leftarrow> iolink_master_startup_baudrate p;
                 init_step (iolink_master_set_baudrate baudrate p e) p (\<lambda>p e.
                   init_step (iolink_master_set_mode PHY_MODE_SDCI p e) p (\<lambda>p e.
                     Some (STATUS_OK, p, e)))
               }))
      })"

definition iolink_master_validate_phy_contract ::
  "'e iolink_phy_api_t option \<Rightarrow> 'e iolink_master_config_t option \<Rightarrow> int" where
  "iolink_master_validate_phy_contract phy config =
     (case (phy, config) of
        (Some phy, Some config) \<Rightarrow>
          if cfg_port_mode config > PORT_MODE_DEACTIVATED then ERR_INVALID_ARG
          else (case cfg_port_mode config of
             PORT_MODE_IOLINK \<Rightarrow>
               if phy_send phy = None \<or> phy_recv_byte phy = None \<or>
                  cfg_set_mode_checked config = None \<or> cfg_set_baudrate_checked config = None \<or>
                  cfg_flush_rx config = None \<or> cfg_prepare_tx config = None \<or>
                  cfg_prepare_rx config = None \<or> cfg_wake_up config = None
               then ERR_UNSUPPORTED_PHY else STATUS_OK
           | PORT_MODE_DI \<Rightarrow>
               if cfg_set_mode_checked config = None \<or> cfg_read_cq_line_checked config = None
               then ERR_UNSUPPORTED_PHY else STATUS_OK
           | PORT_MODE_DQ \<Rightarrow>
               if cfg_set_mode_checked config = None \<or> phy_set_cq_line phy = None
               then ERR_UNSUPPORTED_PHY else STATUS_OK
           | PORT_MODE_DEACTIVATED \<Rightarrow>
               if cfg_set_mode_checked config = None then ERR_UNSUPPORTED_PHY else STATUS_OK
           | _ \<Rightarrow> ERR_INVALID_ARG)
      | _ \<Rightarrow> ERR_INVALID_ARG)"

definition iolink_master_restart ::
  "iolinki \<Rightarrow> 'e iolink_master_port_state_t \<Rightarrow> 'e \<Rightarrow>
   (int \<times> 'e iolink_master_port_state_t \<times> 'e) option" where
  "iolink_master_restart L p e =
     (if st_phy p = None then Some (ERR_INVALID_ARG, p, e)
      else iolink_master_init L (st_phy p) (Some (st_config p)) p e)"

subsection \<open>SIO modes\<close>

definition iolink_master_set_port_mode ::
  "iolinki \<Rightarrow> iolink_master_port_mode_t \<Rightarrow> 'e iolink_master_port_state_t \<Rightarrow> 'e \<Rightarrow>
   (int \<times> 'e iolink_master_port_state_t \<times> 'e) option" where
  "iolink_master_set_port_mode L mode p e =
     (if mode > PORT_MODE_DEACTIVATED \<or> st_phy p = None then Some (ERR_INVALID_ARG, p, e)
      else iolink_master_init L (st_phy p) (Some ((st_config p)\<lparr>cfg_port_mode := mode\<rparr>)) p e)"

definition iolink_master_set_dq ::
  "bool \<Rightarrow> 'e iolink_master_port_state_t \<Rightarrow> 'e \<Rightarrow> int \<times> 'e" where
  "iolink_master_set_dq level p e =
     (if cfg_port_mode (st_config p) \<noteq> PORT_MODE_DQ then (SIO_ERR_WRONG_MODE, e)
      else case Option.bind (st_phy p) phy_set_cq_line of
        None \<Rightarrow> (SIO_ERR_UNSUPPORTED_PHY, e)
      | Some set_cq_line \<Rightarrow> (STATUS_OK, set_cq_line (if level then 1 else 0) e))"

text \<open>The result is \<open>(ret, *level, environment)\<close>.\<close>

definition iolink_master_get_di ::
  "bool \<Rightarrow> 'e iolink_master_port_state_t \<Rightarrow> 'e \<Rightarrow> (int \<times> bool \<times> 'e) option" where
  "iolink_master_get_di level p e =
     (if cfg_port_mode (st_config p) \<noteq> PORT_MODE_DI then Some (SIO_ERR_WRONG_MODE, level, e)
      else if cfg_read_cq_line_checked (st_config p) = None \<and> cfg_read_cq_line (st_config p) = None
      then Some (SIO_ERR_UNSUPPORTED_PHY, level, e)
      else do {
        read_line \<leftarrow> (if cfg_read_cq_line_checked (st_config p) \<noteq> None
                     then cfg_read_cq_line_checked (st_config p)
                     else cfg_read_cq_line (st_config p));
        let (cq_level, e) = read_line e;
        if cq_level < 0 then Some (SIO_ERR_UNSUPPORTED_PHY, level, e)
        else Some (STATUS_OK, cq_level \<noteq> 0, e)
      })"

subsection \<open>Access\<close>

definition iolink_master_get_state :: "'e iolink_master_port_state_t \<Rightarrow> iolink_master_state_t" where
  "iolink_master_get_state p = st_state p"

text \<open>The result is \<open>(ret, buffer, *out_len)\<close>.\<close>

definition iolink_master_get_pd_in ::
  "u8 list \<Rightarrow> nat \<Rightarrow> 'e iolink_master_port_state_t \<Rightarrow> (int \<times> u8 list \<times> nat) option" where
  "iolink_master_get_pd_in buffer buffer_len p =
     (if buffer_len < st_pd_in_len p then Some (ERR_BUFFER_TOO_SMALL, buffer, st_pd_in_len p)
      else if \<not> st_pd_valid p then Some (STATUS_PENDING, buffer, st_pd_in_len p)
      else do {
        pd \<leftarrow> rd_slice (st_pd_in p) 0 (st_pd_in_len p);
        buffer \<leftarrow> wr_slice buffer 0 pd;
        Some (STATUS_OK, buffer, st_pd_in_len p)
      })"

definition iolink_master_get_od_status :: "'e iolink_master_port_state_t \<Rightarrow> int \<times> u8" where
  "iolink_master_get_od_status p = (STATUS_OK, dg_od_status (st_diagnostics p))"

definition iolink_master_get_device_status :: "'e iolink_master_port_state_t \<Rightarrow> u8" where
  "iolink_master_get_device_status p = dg_device_status (st_diagnostics p)"

definition link_quality :: "u32 \<Rightarrow> iolink_master_diagnostics_t \<Rightarrow> nat" where
  "link_quality cycle_count d =
     (let error_count = dg_checksum_errors d + dg_send_errors d + dg_response_timeouts d;
          total_count = cycle_count + error_count
      in if total_count = 0 then 100
         else trunc8 (unat ((cycle_count * 100) div total_count)))"

definition iolink_master_get_diagnostics ::
  "'e iolink_master_port_state_t \<Rightarrow> 'e \<Rightarrow> int \<times> iolink_master_diagnostics_t \<times> 'e" where
  "iolink_master_get_diagnostics p e =
     (let d = st_diagnostics p;
          (voltage, e) = (case Option.bind (st_phy p) phy_get_voltage_mv of
             None \<Rightarrow> (0, e) | Some get_voltage_mv \<Rightarrow> get_voltage_mv e);
          (short, e) = (case Option.bind (st_phy p) phy_is_short_circuit of
             None \<Rightarrow> (False, e) | Some is_short_circuit \<Rightarrow> is_short_circuit e);
          d = d\<lparr>dg_supply_voltage_mv := voltage, dg_short_circuit := short\<rparr>
      in (STATUS_OK, d\<lparr>dg_link_quality_percent := link_quality (st_cycle_count p) d\<rparr>, e))"

definition iolink_master_get_timing ::
  "'e iolink_master_port_state_t \<Rightarrow> int \<times> iolink_master_timing_t" where
  "iolink_master_get_timing p =
     (STATUS_OK, \<lparr>tm_cycle_timer_valid = st_cycle_timer_valid p,
        tm_awaiting_response = st_awaiting_response p,
        tm_min_cycle_time_100us = cfg_min_cycle_time (st_config p),
        tm_last_cycle_start_100us = st_last_cycle_start_100us p,
        tm_response_deadline_100us = st_response_deadline_100us p\<rparr>)"

definition iolink_master_set_pd_out ::
  "iolinki \<Rightarrow> u8 list option \<Rightarrow> nat \<Rightarrow> 'e iolink_master_port_state_t \<Rightarrow>
   (int \<times> 'e iolink_master_port_state_t) option" where
  "iolink_master_set_pd_out L data len p =
     (if data = None \<and> len > 0 then Some (ERR_INVALID_ARG, p)
      else if len > PD_OUT_MAX_SIZE L \<or> len \<noteq> cfg_pd_out_len (st_config p)
      then Some (ERR_BUFFER_TOO_SMALL, p)
      else do {
        pd_out \<leftarrow> (if len > 0
                  then do {
                    src \<leftarrow> data;
                    octets \<leftarrow> rd_slice src 0 len;
                    wr_slice (st_pd_out p) 0 octets
                  }
                  else Some (st_pd_out p));
        Some (STATUS_OK, p\<lparr>st_pd_out := pd_out, st_pd_out_len := len\<rparr>)
      })"

subsection \<open>The invariant\<close>

lemma initial_port_wf:
  assumes "stack_constants_ok L" "init_args_ok L (Some phy) (Some config)"
  shows "port_wf L (initial_port L phy config)"
  using assms od_len_for_type_bounds(2) [of "cfg_m_seq_type config"]
  by (simp add: initial_port_def init_args_ok_def port_wf_defs zero_port_def isdu_wf_zero event_wf_def
      block_wf_def zero_event_def zero_block_def)

lemma init_step_kept:
  assumes "port_kept L p0 p"
    and "\<And>e. ensures (rest p e) (\<lambda>(ret, p', e'). port_kept L p0 p')"
  shows "ensures (init_step result p rest) (\<lambda>(ret, p', e'). port_kept L p0 p')"
  using assms by (cases result) (simp add: init_step_def set_error_kept)

lemma init_kept:
  assumes L: "stack_constants_ok L" and ok: "init_args_ok L (Some phy) (Some config)"
  shows "ensures (iolink_master_init L (Some phy) (Some config) p e)
    (\<lambda>(ret, p', e'). port_kept L (initial_port L phy config) p')"
proof -
  define p0 where "p0 = initial_port L phy config"
  have wf: "port_wf L p0" unfolding p0_def by (rule initial_port_wf [OF assms])
  note kept = port_kept_refl [OF wf]
  have sdci: "ensures (let (ret, p1, e1) = iolink_master_flush_rx p0 e
               in init_step (ret, e1) p1 (\<lambda>p e. do {
                 baudrate \<leftarrow> iolink_master_startup_baudrate p;
                 init_step (iolink_master_set_baudrate baudrate p e) p (\<lambda>p e.
                   init_step (iolink_master_set_mode PHY_MODE_SDCI p e) p (\<lambda>p e.
                     Some (STATUS_OK, p, e))) })) (\<lambda>(ret, p', e'). port_kept L p0 p')" for e
  proof -
    obtain ret p1 e1 where flush: "iolink_master_flush_rx p0 e = (ret, p1, e1)"
      by (cases "iolink_master_flush_rx p0 e")
    note kept1 = flush_rx_kept [OF wf flush]
    then obtain b where b: "iolink_master_startup_baudrate p1 = Some b"
      using startup_baudrate_defined by (auto simp: port_kept_def)
    show ?thesis
      unfolding flush Let_def prod.case
      by (rule init_step_kept [OF kept1]) (auto simp: b intro!: init_step_kept kept1)
  qed
  have "ensures (init_step r p0 (\<lambda>p e. Some (STATUS_OK, p, e))) (\<lambda>(ret, p', e'). port_kept L p0 p')" for r
    by (rule init_step_kept [OF kept]) (simp add: kept)
  with sdci show ?thesis
    using ok by (auto simp: iolink_master_init_def p0_def [symmetric] kept intro!: init_step_kept [OF kept])
qed

text \<open>The memory of the port before the call does not matter.\<close>

lemma init_outcome:
  assumes "stack_constants_ok L" and "init_args_ok L (Some phy) (Some config)"
  shows "ensures (iolink_master_init L (Some phy) (Some config) p e)
    (\<lambda>(ret, p', e'). p' = (if ret = STATUS_OK then initial_port L phy config
       else set_error (initial_port L phy config)))"
proof -
  have step: "ensures (init_step result p rest) Q"
    if "\<And>e. ensures (rest p e) Q" "\<And>ret e. ret \<noteq> STATUS_OK \<Longrightarrow> Q (ret, set_error p, e)"
    for result :: "int \<times> 'a" and p :: "'a iolink_master_port_state_t" and rest and Q
    using that by (cases result) (simp add: init_step_def)
  have flush: "\<exists>ret e'. iolink_master_flush_rx (initial_port L phy config) e = (ret, initial_port L phy config, e')" for e
    by (simp add: iolink_master_flush_rx_def initial_port_def zero_port_def Let_def case_prod_unfold)
  obtain b where b: "iolink_master_startup_baudrate (initial_port L phy config) = Some b"
    using startup_baudrate_defined [OF initial_port_wf [OF assms]] ..
  let ?Q = "\<lambda>(ret, p', e'). p' = (if ret = STATUS_OK then initial_port L phy config
       else set_error (initial_port L phy config))"
  have sdci: "ensures (let (ret, p1, e1) = iolink_master_flush_rx (initial_port L phy config) e
               in init_step (ret, e1) p1 (\<lambda>p e. do {
                 baudrate \<leftarrow> iolink_master_startup_baudrate p;
                 init_step (iolink_master_set_baudrate baudrate p e) p (\<lambda>p e.
                   init_step (iolink_master_set_mode PHY_MODE_SDCI p e) p (\<lambda>p e.
                     Some (STATUS_OK, p, e))) })) ?Q" for e
    using flush [of e] by (auto simp: b intro!: step)
  show ?thesis
    using assms sdci by (auto simp: iolink_master_init_def intro!: step)
qed

lemma quiet_setup:
  "st_phy p' = st_phy p \<Longrightarrow> cfg_set_baudrate_checked (st_config p') = cfg_set_baudrate_checked (st_config p) \<Longrightarrow>
   cfg_event_pending_handler (st_config p') = cfg_event_pending_handler (st_config p) \<Longrightarrow>
   quiet d p' = quiet d p"
proof -
  assume eq: "st_phy p' = st_phy p"
    "cfg_set_baudrate_checked (st_config p') = cfg_set_baudrate_checked (st_config p)"
    "cfg_event_pending_handler (st_config p') = cfg_event_pending_handler (st_config p)"
  then have "iolink_master_set_baudrate b p' e = iolink_master_set_baudrate b p e" for b e
    by (auto simp: iolink_master_set_baudrate_def split: option.splits)
  with eq show ?thesis by (simp add: quiet_def)
qed

lemma set_pd_out_kept:
  assumes "port_wf L p" "\<And>src. data = Some src \<Longrightarrow> len \<le> length src"
  shows "ensures (iolink_master_set_pd_out L data len p) (\<lambda>(ret, p'). port_kept L p p')"
  using assms(1) assms(2) port_kept_refl [OF assms(1)]
  by (cases data) (auto simp: iolink_master_set_pd_out_def ensures_simps port_wf_defs)

lemma get_pd_in_defined:
  assumes "port_wf L p" "buffer_len \<le> length buffer"
  shows "ensures (iolink_master_get_pd_in buffer buffer_len p)
    (\<lambda>(ret, buffer', out_len). length buffer' = length buffer)"
  using assms by (auto simp: iolink_master_get_pd_in_def ensures_simps port_wf_defs)

subsection \<open>The link quality\<close>

text \<open>The product with 100 is one of 32 bits.\<close>

lemma percent_of_itself:
  fixes c :: u32
  assumes "c \<noteq> 0"
  shows "unat ((c * 100) div c) = 100 \<longleftrightarrow> unat c \<le> 42949672" and "unat ((c * 100) div c) \<le> 100"
proof -
  have c: "0 < unat c" using assms by (simp add: unat_gt_0)
  have prod: "unat ((c * 100) div c) = (unat c * 100) mod 4294967296 div unat c"
    by (simp add: unat_div unat_word_ariths)
  show "unat ((c * 100) div c) = 100 \<longleftrightarrow> unat c \<le> 42949672"
  proof (cases "unat c \<le> 42949672")
    case True
    then show ?thesis using c by (simp add: prod)
  next
    case False
    have "(unat c * 100) mod 4294967296 < unat c * 100" 
      using False by (intro le_less_trans [OF mod_le_divisor]) simp_all
    then have "(unat c * 100) mod 4294967296 div unat c < 100"
      using c by (simp add: div_less_iff_less_mult mult.commute)
    with False show ?thesis by (simp add: prod)
  qed
  show "unat ((c * 100) div c) \<le> 100"
    unfolding prod using c by (metis div_le_mono mod_less_eq_dividend nonzero_mult_div_cancel_left not_gr_zero)
qed

text \<open>
  C40. The link quality of a port without errors is 100 percent up to 42,949,672 cycles only: the
  product of the cycle count and 100 is computed in 32 bits, so with the next cycle the quality
  drops although no message has failed.
\<close>

theorem perfect_link_quality:
  assumes "dg_checksum_errors (st_diagnostics p) = 0" and "dg_send_errors (st_diagnostics p) = 0"
    and "dg_response_timeouts (st_diagnostics p) = 0"
  shows "dg_link_quality_percent (fst (snd (iolink_master_get_diagnostics p e))) = 100 \<longleftrightarrow>
    unat (st_cycle_count p) \<le> 42949672"
proof -
  have "dg_link_quality_percent (fst (snd (iolink_master_get_diagnostics p e))) =
      (if st_cycle_count p = 0 then 100 else unat ((st_cycle_count p * 100) div st_cycle_count p))"
    using assms percent_of_itself(2) [of "st_cycle_count p"]
    by (auto simp: iolink_master_get_diagnostics_def link_quality_def Let_def split: prod.split)
  then show ?thesis using percent_of_itself(1) [of "st_cycle_count p"] by simp
qed

theorem perfect_link_quality_witness:
  "dg_link_quality_percent (fst (snd (iolink_master_get_diagnostics
     ((zero_port demo_stack :: unit iolink_master_port_state_t)\<lparr>st_cycle_count := 42949673\<rparr>) ()))) \<noteq> 100"
  by (subst perfect_link_quality) (simp_all add: zero_defs)

end
