(* ===== verification/MasterDemo.thy ===== *)
theory MasterDemo
  imports MasterStartup
begin

text \<open>
  A concrete line for the witnesses: the environment holds the octets still to be received
  and the frames sent so far.
\<close>

type_synonym demo_line = "u8 list \<times> u8 list list"

definition demo_recv :: "demo_line \<Rightarrow> int \<times> u8 \<times> demo_line" where
  "demo_recv e = (case fst e of [] \<Rightarrow> (0, 0, e) | octet # octets \<Rightarrow> (1, octet, octets, snd e))"

definition demo_send :: "u8 list \<Rightarrow> demo_line \<Rightarrow> int \<times> demo_line" where
  "demo_send data e = (int (length data), fst e, snd e @ [data])"

definition demo_phy :: "demo_line iolink_phy_api_t" where
  "demo_phy =
     \<lparr>phy_init = None, phy_set_mode = None, phy_set_baudrate = None, phy_send = Some demo_send,
      phy_recv_byte = Some demo_recv, phy_set_cq_line = None, phy_get_voltage_mv = None,
      phy_is_short_circuit = None\<rparr>"

definition demo_config :: "demo_line iolink_master_config_t" where
  "demo_config = zero_config\<lparr>cfg_m_seq_type := M_SEQ_TYPE_2_1, cfg_min_cycle_time := 10,
     cfg_pd_in_len := 1, cfg_pd_out_len := 1, cfg_auto_baudrate := True\<rparr>"

definition demo_port :: "demo_line iolink_master_port_state_t" where
  "demo_port = (zero_port demo_stack)\<lparr>st_phy := Some demo_phy, st_config := demo_config,
     st_od_len := 1, st_pd_in_len := 1, st_pd_out_len := 1, st_state := STATE_STARTUP\<rparr>"

lemma demo_port_wf: "port_wf demo_stack demo_port"
  by (simp add: demo_port_def demo_config_def demo_stack_def port_wf_defs zero_port_def zero_config_def
      isdu_wf_zero event_wf_def block_wf_def zero_event_def zero_block_def)

lemma demo_quiet: "quiet (\<lambda>e. length (fst e)) p"
  if "st_phy p = Some demo_phy" "cfg_set_baudrate_checked (st_config p) = None"
    "cfg_event_pending_handler (st_config p) = None"
  using that
  by (auto simp: quiet_def demo_phy_def demo_recv_def iolink_master_set_baudrate_def split: list.splits)

lemma demo_port_quiet: "quiet (\<lambda>e. length (fst e)) demo_port"
  by (rule demo_quiet) (simp_all add: demo_port_def demo_config_def zero_config_def)

end
