(* ===== verification/MasterStates.thy ===== *)
theory MasterStates
  imports MasterLifecycle MasterDemo
begin

text \<open>
  The abstract state machine of a port, and the refinement: whatever a tick, a poll, a
  timeout or a transmission does, the state of the port moves along the edges of the
  machine, and nothing but a cyclic transmission touches the cycle counter. The last sections show
  how OPERATE is entered and bound a poll.

  The lemmas are about results that exist; that they do exist is \<open>*_kept\<close> of the component
  theories.
\<close>

subsection \<open>The machine\<close>

inductive port_edge :: "iolink_master_state_t \<Rightarrow> iolink_master_state_t \<Rightarrow> bool" where
  answered: "port_edge STATE_STARTUP STATE_PREOPERATE"
| acknowledged: "port_edge STATE_PREOPERATE STATE_OPERATE"
| lost_early: "port_edge STATE_PREOPERATE STATE_STARTUP"
| lost: "port_edge STATE_OPERATE STATE_STARTUP"
| failed: "s \<noteq> STATE_ERROR \<Longrightarrow> port_edge s STATE_ERROR"

inductive_cases port_edge_from_error: "port_edge STATE_ERROR s"
inductive_cases port_edge_from_inactive: "port_edge STATE_INACTIVE s"
inductive_cases port_edge_to_operate: "port_edge s STATE_OPERATE"

abbreviation port_path :: "iolink_master_state_t \<Rightarrow> iolink_master_state_t \<Rightarrow> bool" where
  "port_path \<equiv> port_edge\<^sup>*\<^sup>*"

lemma path_from_error: "port_path STATE_ERROR s \<Longrightarrow> s = STATE_ERROR"
  by (induction rule: rtranclp_induct) (auto elim: port_edge_from_error)

lemma path_from_inactive: "port_path STATE_INACTIVE s \<Longrightarrow> s = STATE_INACTIVE \<or> s = STATE_ERROR"
  by (induction rule: rtranclp_induct) (auto elim: port_edge_from_error port_edge_from_inactive)

lemma path_edge: "port_path s t \<Longrightarrow> port_edge t u \<Longrightarrow> port_path s u"
  by (rule rtranclp.rtrancl_into_rtrancl)

lemma edge_paths [intro]:
  "port_path STATE_STARTUP STATE_PREOPERATE" "port_path STATE_PREOPERATE STATE_OPERATE"
  "port_path STATE_PREOPERATE STATE_STARTUP" "port_path STATE_OPERATE STATE_STARTUP"
  by (simp_all add: r_into_rtranclp port_edge.intros)

lemma path_to_error: "port_path s STATE_ERROR"
  by (cases "s = STATE_ERROR") (auto intro: failed)

subsection \<open>Moves of a port\<close>

text \<open>What the pacing of the cycles depends on.\<close>

definition clock ::
  "'e iolink_master_port_state_t \<Rightarrow> u32 \<times> bool \<times> u32 \<times> 'e iolink_master_config_t" where
  "clock p = (st_last_cycle_start_100us p, st_cycle_timer_valid p, st_cycle_count p, st_config p)"

definition moves :: "'e iolink_master_port_state_t \<Rightarrow> 'e iolink_master_port_state_t \<Rightarrow> bool" where
  "moves p p' \<longleftrightarrow> port_path (st_state p) (st_state p') \<and> clock p' = clock p"

lemma clock_updates [simp]:
  "clock (p\<lparr>st_diagnostics := d\<rparr>) = clock p" "clock (p\<lparr>st_startup := su\<rparr>) = clock p"
  "clock (p\<lparr>st_rx := rx\<rparr>) = clock p" "clock (p\<lparr>st_state := s\<rparr>) = clock p"
  "clock (p\<lparr>st_awaiting_response := b\<rparr>) = clock p" "clock (p\<lparr>st_device_info := info\<rparr>) = clock p"
  by (simp_all add: clock_def)

text \<open>The port stays in its state or ends in ERROR.\<close>

definition stays :: "'e iolink_master_port_state_t \<Rightarrow> 'e iolink_master_port_state_t \<Rightarrow> bool" where
  "stays p p' \<longleftrightarrow> st_state p' \<in> {st_state p, STATE_ERROR} \<and> clock p' = clock p"

named_theorems moves_intros

lemma stays_refl [simp]: "stays p p"
  by (simp add: stays_def)

lemma stays_trans: "stays p p' \<Longrightarrow> stays p' p'' \<Longrightarrow> stays p p''"
  by (auto simp: stays_def)

lemma stays_moves: "stays p p' \<Longrightarrow> moves p p'"
  by (auto simp: stays_def moves_def path_to_error)

lemma moves_refl [simp]: "moves p p"
  by (simp add: moves_def)

lemma moves_trans: "moves p p' \<Longrightarrow> moves p' p'' \<Longrightarrow> moves p p''"
  by (auto simp: moves_def intro: rtranclp_trans)

lemma stays_updates [simp]:
  "stays p (p'\<lparr>st_tx_buf := tx\<rparr>) = stays p p'" "stays p (p'\<lparr>st_isdu := isdu\<rparr>) = stays p p'"
  "stays p (p'\<lparr>st_event := ev\<rparr>) = stays p p'" "stays p (p'\<lparr>st_diagnostics := d\<rparr>) = stays p p'"
  "stays p (p'\<lparr>st_startup := su\<rparr>) = stays p p'" "stays p (p'\<lparr>st_rx := rx\<rparr>) = stays p p'"
  "stays p (p'\<lparr>st_device_info := info\<rparr>) = stays p p'"
  "stays p (p'\<lparr>st_awaiting_response := b\<rparr>) = stays p p'"
  "stays p (p'\<lparr>st_rx_od_expected := b\<rparr>) = stays p p'"
  "stays p (p'\<lparr>st_response_deadline_100us := t\<rparr>) = stays p p'"
  "stays p (p'\<lparr>st_send_ready_at_100us := t\<rparr>) = stays p p'"
  "stays p (p'\<lparr>st_send_ready_valid := b\<rparr>) = stays p p'"
  "stays p (p'\<lparr>st_pd_in := pd\<rparr>) = stays p p'" "stays p (p'\<lparr>st_pd_in_len := n\<rparr>) = stays p p'"
  "stays p (p'\<lparr>st_pd_valid := b\<rparr>) = stays p p'"
  "stays (p\<lparr>st_tx_buf := tx\<rparr>) p' = stays p p'" "stays (p\<lparr>st_isdu := isdu\<rparr>) p' = stays p p'"
  "stays (p\<lparr>st_diagnostics := d\<rparr>) p' = stays p p'" "stays (p\<lparr>st_startup := su\<rparr>) p' = stays p p'"
  "stays (p\<lparr>st_awaiting_response := b\<rparr>) p' = stays p p'" "stays (p\<lparr>st_rx := rx\<rparr>) p' = stays p p'"
  by (simp_all add: stays_def clock_def)

lemma stays_error [simp]: "stays p (set_error p') = (clock p' = clock p)"
  by (simp add: stays_def clock_def set_error_def)

lemma clock_set_error [simp]: "clock (set_error p) = clock p"
  by (simp add: set_error_def)

lemma stays_clock: "stays p p' \<Longrightarrow> clock p' = clock p"
  by (simp add: stays_def)

lemma stays_send_failed [simp]: "stays p (send_failed p)"
  by (simp add: stays_def clock_def send_failed_def)

subsection \<open>Transmission\<close>

lemma send_full_stays: "iolink_master_send_full L data p e = Some (sent, p', e') \<Longrightarrow> stays p p'"
  by (auto simp: iolink_master_send_full_def Let_def split: Option.bind_splits if_splits prod.splits)

lemma send_tx_stays: "send_tx L len p e = Some (sent, p', e') \<Longrightarrow> stays p p'"
  by (auto simp: send_tx_def split: Option.bind_splits dest: send_full_stays)

lemma wake_up_stays: "iolink_master_wake_up L p e = Some (sent, p', e') \<Longrightarrow> stays p p'"
  by (auto simp: iolink_master_wake_up_def Let_def split: Option.bind_splits if_splits prod.splits option.splits
      dest: send_tx_stays)

lemma build_isdu_frame_stays: "iolink_master_build_isdu_frame L mc od multi p = Some (n, p') \<Longrightarrow> stays p p'"
  by (auto simp: iolink_master_build_isdu_frame_def Let_def split: Option.bind_splits if_splits prod.splits)

lemma isdu_command_stays: "isdu_command L read flowctrl od multi p e = Some (sent, p', e') \<Longrightarrow> stays p p'"
  by (auto simp: isdu_command_def send_frame_def Let_def split: Option.bind_splits if_splits
      dest!: send_tx_stays build_isdu_frame_stays intro: stays_trans)

lemma send_isdu_stays: "iolink_master_send_isdu L p e = Some (sent, p', e') \<Longrightarrow> stays p p'"
  by (auto simp: iolink_master_send_isdu_def Let_def split: Option.bind_splits if_splits prod.splits option.splits
      dest!: isdu_command_stays)

lemma build_event_frame_stays: "build_event_frame L read mc n p = Some (len, p') \<Longrightarrow> stays p p'"
  by (auto simp: build_event_frame_def Let_def split: Option.bind_splits if_splits prod.splits)

lemma send_event_stays: "iolink_master_send_event L p e = Some (sent, p', e') \<Longrightarrow> stays p p'"
  by (auto simp: iolink_master_send_event_def Let_def split: Option.bind_splits if_splits prod.splits option.splits
      dest!: send_tx_stays build_event_frame_stays intro: stays_trans)

lemma arm_send_gate_stays [simp]: "stays p (iolink_master_arm_send_gate now delay timed p') = stays p p'"
  by (simp add: iolink_master_arm_send_gate_def)

lemma process_startup_stays: "process_startup L now timed p e = Some (p', e') \<Longrightarrow> stays p p'"
  by (auto simp: process_startup_def process_wake_def process_test_message_def Let_def
      split: Option.bind_splits if_splits prod.splits dest!: send_tx_stays wake_up_stays)

lemma process_services_stays: "process_services L p e = Some (returned, p', e') \<Longrightarrow> stays p p'"
  by (auto simp: process_services_def split: Option.bind_splits if_splits
      dest!: send_event_stays send_isdu_stays intro: stays_trans)

lemma service_frame_stays: "service_frame p p' \<Longrightarrow> stays p p'"
  unfolding service_frame_def by (erule ssubst) simp

lemma read_device_info_stays: "iolink_master_read_device_info L p = Some (ret, p') \<Longrightarrow> stays p p'"
  by (auto simp: iolink_master_read_device_info_def iolink_master_apply_direct_parameter_page1_def Let_def
      split: Option.bind_splits if_splits prod.splits option.splits
      dest!: read_isdu_frame service_frame_stays)

lemma process_preoperate_stays: "process_preoperate L p e = Some (p', e') \<Longrightarrow> stays p p'"
  by (auto simp: process_preoperate_def process_inspection_def process_operate_command_def Let_def
      split: Option.bind_splits if_splits prod.splits
      dest!: process_services_stays read_device_info_stays send_tx_stays
      intro: stays_trans stays_clock)

text \<open>
  A transmission in any state: only OPERATE counts a cycle, and the start of the last cycle
  is not touched.
\<close>

definition transmits :: "'e iolink_master_port_state_t \<Rightarrow> 'e iolink_master_port_state_t \<Rightarrow> bool" where
  "transmits p p' \<longleftrightarrow> st_state p' \<in> {st_state p, STATE_ERROR} \<and>
     st_last_cycle_start_100us p' = st_last_cycle_start_100us p \<and>
     st_cycle_timer_valid p' = st_cycle_timer_valid p \<and> st_config p' = st_config p \<and>
     (st_cycle_count p' \<noteq> st_cycle_count p \<longrightarrow> st_state p = STATE_OPERATE \<and>
        st_cycle_count p' = st_cycle_count p + 1 \<and> st_state p' = STATE_OPERATE)"

lemma stays_transmits: "stays p p' \<Longrightarrow> transmits p p'"
  by (auto simp: stays_def transmits_def clock_def)

lemma send_full_sent:
  "iolink_master_send_full L data p e = Some (True, p', e') \<Longrightarrow> st_state p' = st_state p"
  by (auto simp: iolink_master_send_full_def Let_def split: Option.bind_splits if_splits prod.splits)

lemma send_tx_sent: "send_tx L len p e = Some (True, p', e') \<Longrightarrow> st_state p' = st_state p"
  by (auto simp: send_tx_def split: Option.bind_splits dest: send_full_sent)

lemma count_cycle_transmits:
  assumes "send_tx L len p1 e = Some r" and "count_cycle r = (p', e')"
    and "st_state p1 = st_state p" "clock p1 = clock p" "st_state p = STATE_OPERATE"
  shows "transmits p p'"
proof -
  obtain sent p2 e2 where r: "r = (sent, p2, e2)" by (cases r)
  have "stays p1 p2" using send_tx_stays [of L len p1 e sent p2 e2] assms(1) r by simp
  moreover have "sent \<Longrightarrow> st_state p2 = st_state p1" using send_tx_sent [of L len p1 e p2 e2] assms(1) r by simp
  ultimately show ?thesis
    using assms r by (auto simp: count_cycle_def transmits_def stays_def clock_def split: if_splits)
qed

lemma process_cycle_transmits:
  assumes "st_state p = STATE_OPERATE"
  shows "process_cycle_type0 L p e = Some (p', e') \<Longrightarrow> transmits p p'"
    and "process_cycle L p e = Some (p', e') \<Longrightarrow> transmits p p'"
  using assms
  by (auto simp: process_cycle_type0_def process_cycle_def Let_def clock_def
      split: Option.bind_splits if_splits prod.splits elim!: count_cycle_transmits intro: stays_transmits)

text \<open>Services that send nothing leave the state.\<close>

lemma build_frame_state:
  "iolink_master_build_isdu_frame L mc od multi p = Some (n, p') \<Longrightarrow> st_state p' = st_state p"
  "build_event_frame L read mc k p = Some (m, p') \<Longrightarrow> st_state p' = st_state p"
  by (auto simp: iolink_master_build_isdu_frame_def build_event_frame_def Let_def
      split: Option.bind_splits if_splits prod.splits)

lemma isdu_command_unsent:
  "isdu_command L read flowctrl od multi p e = Some (False, p', e') \<Longrightarrow> st_state p' = st_state p"
  by (auto simp: isdu_command_def send_frame_def Let_def split: Option.bind_splits if_splits
      dest!: build_frame_state)

lemma send_event_unsent:
  "iolink_master_send_event L p e = Some (False, p', e') \<Longrightarrow> st_state p' = st_state p"
  by (auto simp: iolink_master_send_event_def Let_def split: Option.bind_splits if_splits prod.splits option.splits
      dest!: build_frame_state)

lemma send_isdu_unsent:
  "iolink_master_send_isdu L p e = Some (False, p', e') \<Longrightarrow> st_state p' = st_state p"
  by (auto simp: iolink_master_send_isdu_def Let_def split: Option.bind_splits if_splits prod.splits option.splits
      dest!: isdu_command_unsent)

lemma process_services_unsent:
  "process_services L p e = Some (False, p', e') \<Longrightarrow> st_state p' = st_state p"
  by (auto simp: process_services_def split: Option.bind_splits if_splits
      dest!: send_event_unsent send_isdu_unsent)

lemma process_operate_transmits:
  assumes "st_state p = STATE_OPERATE" and "process_operate L p e = Some (p', e')"
  shows "transmits p p'"
proof -
  obtain returned p1 e1 where services: "process_services L p e = Some (returned, p1, e1)"
    using assms(2) by (auto simp: process_operate_def split: Option.bind_splits)
  note stays = process_services_stays [OF services]
  show ?thesis
  proof (cases returned)
    case True
    then show ?thesis using assms(2) services stays by (simp add: process_operate_def stays_transmits)
  next
    case False
    then have state: "st_state p1 = STATE_OPERATE"
      using process_services_unsent [of L p e p1 e1] services assms(1) by simp
    have "transmits p1 p'"
      using False assms(2) services process_cycle_transmits [OF state]
      by (auto simp: process_operate_def split: if_splits)
    then show ?thesis using stays state assms(1) by (auto simp: transmits_def stays_def clock_def)
  qed
qed

subsection \<open>Reception\<close>

definition live :: "'e iolink_master_port_state_t \<Rightarrow> bool" where
  "live p \<longleftrightarrow> st_state p \<in> {STATE_STARTUP, STATE_PREOPERATE, STATE_OPERATE}"

lemma route_od_stays: "iolink_master_route_od L od p = Some p' \<Longrightarrow> stays p p' \<and> st_state p' = st_state p"
  by (auto simp: iolink_master_route_od_def split: Option.bind_splits option.splits if_splits)

lemma rx_updates [simp]:
  "st_state (rx_checksum_error p) = st_state p" "clock (rx_checksum_error p) = clock p"
  "st_state (rx_accepted p) = st_state p" "clock (rx_accepted p) = clock p"
  "st_state (rx_clear p) = st_state p" "clock (rx_clear p) = clock p"
  by (simp_all add: rx_checksum_error_def rx_accepted_def rx_clear_def clock_def)

lemma reset_rate_scan_stays:
  "iolink_master_reset_rate_scan p e = Some (ret, p', e') \<Longrightarrow> stays p p' \<and> st_state p' = st_state p"
  by (auto simp: iolink_master_reset_rate_scan_def Let_def split: Option.bind_splits if_splits prod.splits)

lemma restart_establish_moves:
  assumes "iolink_master_restart_establish now timed p e = Some (ret, p', e')"
    and "st_state p \<in> {STATE_STARTUP, STATE_PREOPERATE, STATE_OPERATE}"
  shows "moves p p'"
proof -
  have path: "port_path (st_state p) STATE_STARTUP"
    using assms(2) by auto
  have error: "port_path (st_state p) STATE_ERROR" by (rule path_to_error)
  show ?thesis
    using assms(1) path error
    by (auto simp: iolink_master_restart_establish_def Let_def moves_def clock_def
      iolink_master_arm_send_gate_def set_error_def stays_def
      split: Option.bind_splits if_splits dest!: reset_rate_scan_stays)
qed

lemma rx_retry_moves:
  "rx_retry p e = Some (ret, p', e') \<Longrightarrow> live p \<Longrightarrow> moves p p' \<and> ret = ERR_CHECKSUM"
  by (auto simp: rx_retry_def Let_def live_def moves_def clock_def rx_checksum_error_def
      split: Option.bind_splits if_splits dest!: restart_establish_moves)

lemma rx_store_pd_stays: "rx_store_pd resp p = Some p' \<Longrightarrow> stays p p' \<and> st_state p' = st_state p"
  by (auto simp: rx_store_pd_def split: Option.bind_splits if_splits)

text \<open>A reply that is accepted leaves the port communicating.\<close>

lemma on_rx_moves:
  assumes "live p" and "iolink_master_on_rx L (Some data) p e = Some (ret, p', e')"
  shows "moves p p' \<and> (ret = STATUS_OK \<longrightarrow> live p')"
proof -
  have startup: "moves p p' \<and> (ret = STATUS_OK \<longrightarrow> live p')"
    if "st_state p = STATE_STARTUP" "on_rx_startup L data p e = Some (ret, p', e')"
    using that
    by (auto simp: on_rx_startup_def Let_def moves_def clock_def live_def rx_accepted_def rx_checksum_error_def
        split: Option.bind_splits if_splits)
  have ack: "moves p p' \<and> (ret = STATUS_OK \<longrightarrow> live p')"
    if "st_state p = STATE_PREOPERATE" "on_rx_operate_ack L data p e = Some (ret, p', e')"
    using that rx_retry_moves [of p e ret p' e'] assms(1)
    by (auto simp: on_rx_operate_ack_def Let_def moves_def clock_def live_def rx_accepted_def
        split: Option.bind_splits if_splits)
  have type0: "moves p p' \<and> (ret = STATUS_OK \<longrightarrow> live p')"
    if "on_rx_type0 L data p e = Some (ret, p', e')"
    using that rx_retry_moves [of p e ret p' e'] assms(1)
    by (auto simp: on_rx_type0_def Let_def moves_def live_def stays_def
        split: Option.bind_splits if_splits dest!: route_od_stays)
  have operate: "moves p p' \<and> (ret = STATUS_OK \<longrightarrow> live p')"
    if "on_rx_operate L data p e = Some (ret, p', e')"
    using that rx_retry_moves [of p e ret p' e'] assms(1)
    by (auto simp: on_rx_operate_def Let_def moves_def live_def stays_def
        split: Option.bind_splits if_splits option.splits dest!: route_od_stays rx_store_pd_stays)
  show ?thesis
    using assms startup ack type0 operate
    by (auto simp: iolink_master_on_rx_def split: if_splits)
qed

lemma rx_octet_moves:
  assumes "live p" and "rx_octet L n byte frames p e = Some (ret, p', e')"
  shows "moves p p' \<and> (isl ret \<or> live p')"
  using assms
  by (auto simp: rx_octet_def Let_def moves_def live_def clock_def set_error_def rx_clear_def path_to_error
      split: Option.bind_splits if_splits dest!: on_rx_moves [rotated])

text \<open>
  What a poll does to the port, from what an octet does: \<open>I\<close> holds as long as the loop goes on.
\<close>

lemma poll_loop_rule:
  fixes p :: "'a iolink_master_port_state_t"
  assumes "poll_loop L recv n frames p e = Some (ret, p', e')" and "I p"
    and octet: "\<And>n byte frames p ret p' e e'. I p \<Longrightarrow>
      rx_octet L n byte frames p e = Some (ret, p', e') \<Longrightarrow> Q p p' \<and> (isl ret \<or> I p')"
    and error: "\<And>p. I p \<Longrightarrow> Q p (rx_clear (set_error p))" and refl: "\<And>p. I p \<Longrightarrow> Q p p"
    and trans: "\<And>p q r. Q p q \<Longrightarrow> Q q r \<Longrightarrow> Q p r"
  shows "Q p p'"
proof -
  have "L = L \<longrightarrow> I p \<longrightarrow> Q p (fst (snd (ret, p', e')))"
    using assms(1)
  proof (rule poll_loop.raw_induct [where P = "\<lambda>K recv n frames p e result. K = L \<longrightarrow> I p \<longrightarrow> Q p (fst (snd result))",
        rotated])
    fix loop K and recv :: "'a \<Rightarrow> int \<times> u8 \<times> 'a" and n frames and p :: "'a iolink_master_port_state_t" and e result
    assume IH: "\<And>K recv n frames p e result. loop K recv n frames p e = Some result \<Longrightarrow>
        K = L \<longrightarrow> I p \<longrightarrow> Q p (fst (snd result))"
      and body: "(let (recv_ret, byte, e) = recv e
        in if recv_ret < 0 then Some (ERR_FRAME, rx_clear (set_error p), e)
           else if recv_ret = 0 then Some (frames, p, e)
           else do {
             (ret, p, e) \<leftarrow> rx_octet K n byte frames p e;
             case ret of
               Inl ret \<Rightarrow> Some (ret, p, e)
             | Inr frames \<Rightarrow> loop K recv n frames p e
           }) = Some result"
    show "K = L \<longrightarrow> I p \<longrightarrow> Q p (fst (snd result))"
    proof (intro impI)
      assume K: "K = L" and I: "I p"
      obtain r octet e1 where recv: "recv e = (r, octet, e1)" by (cases "recv e")
      show "Q p (fst (snd result))"
      proof (cases "r > 0")
        case False
        then consider "r < 0" | "r = 0" by linarith
        then show ?thesis using body recv error [OF I] refl [OF I] by cases auto
      next
        case True
        then obtain ret1 p1 e2 where step: "rx_octet K n octet frames p e1 = Some (ret1, p1, e2)"
          using body recv by (auto split: Option.bind_splits)
        note moved = assms(3) [OF I step [unfolded K]]
        show ?thesis
        proof (cases ret1)
          case (Inl x)
          then have "result = (x, p1, e2)" using body recv True step by simp
          then show ?thesis using moved by simp
        next
          case (Inr frames1)
          then have "loop K recv n frames1 p1 e2 = Some result" using body recv True step by simp
          from IH [OF this] moved Inr K show ?thesis by (auto intro: trans)
        qed
      qed
    qed
  qed
  then show ?thesis using assms(2) by simp
qed

lemma poll_loop_moves:
  assumes "poll_loop L recv n frames p e = Some (ret, p', e')" and "live p"
  shows "moves p p'"
  by (rule poll_loop_rule [where I = live and Q = moves, OF assms])
    (auto simp: moves_def path_to_error dest: rx_octet_moves intro: moves_trans [unfolded moves_def])

lemma poll_rx_moves:
  assumes "iolink_master_poll_rx L p e = Some (ret, p', e')"
  shows "moves p p'"
proof (cases "rx_expected_len L p")
  case None
  then show ?thesis using assms by (simp add: iolink_master_poll_rx_def split: option.splits)
next
  case (Some n)
  then have "live p" by (auto simp: rx_expected_len_def live_def split: if_splits)
  then show ?thesis
    using assms poll_loop_moves by (fastforce simp: iolink_master_poll_rx_def split: option.splits)
qed

subsection \<open>Timeouts and ticks\<close>

lemma flush_rx_updates [simp]:
  "st_state (fst (snd (iolink_master_flush_rx p e))) = st_state p"
  "clock (fst (snd (iolink_master_flush_rx p e))) = clock p"
  by (simp_all add: iolink_master_flush_rx_def Let_def case_prod_unfold)

lemma establish_attempt_failed_stays:
  "iolink_master_establish_attempt_failed now timed p e = Some (ret, p', e') \<Longrightarrow> stays p p'"
  by (auto simp: iolink_master_establish_attempt_failed_def establish_next_rate_def
      establish_sequence_failed_def Let_def
      split: Option.bind_splits if_splits prod.splits dest!: reset_rate_scan_stays intro: stays_clock)

lemma on_timeout_moves:
  assumes "iolink_master_on_timeout_at now timed p e = Some (ret, p', e')"
  shows "moves p p'"
proof -
  obtain r p1 e1 where flush: "iolink_master_flush_rx p e = (r, p1, e1)"
    by (cases "iolink_master_flush_rx p e")
  then have p1: "st_state p1 = st_state p" "clock p1 = clock p"
    using flush_rx_updates [of p e] by simp_all
  show ?thesis
    using assms p1
    by (auto simp: iolink_master_on_timeout_at_def flush Let_def moves_def path_to_error stays_def
        split: if_splits Option.bind_splits dest!: restart_establish_moves establish_attempt_failed_stays)
qed

lemma tick_timeout_moves:
  assumes "tick_timeout pace now rx_ret p e = Some (ret, p', e')"
  shows "moves p p'"
proof -
  define f where "f = (if st_awaiting_response p then snd (iolink_master_flush_rx p e) else (p, e))"
  have "st_state (fst f) = st_state p" "clock (fst f) = clock p" by (simp_all add: f_def)
  then show ?thesis
    using assms unfolding tick_timeout_def f_def [symmetric]
    by (auto simp: Let_def case_prod_unfold moves_def split: if_splits Option.bind_splits dest!: on_timeout_moves)
qed

lemma process_at_transmits:
  assumes "iolink_master_process_at L now timed p e = Some (p', e')"
  shows "transmits p p'"
proof -
  have "transmits p p" by (simp add: transmits_def)
  then show ?thesis
    using assms process_operate_transmits [of p L e p' e']
      stays_transmits [OF process_startup_stays [of L now timed p e p' e']]
      stays_transmits [OF process_preoperate_stays [of L p e p' e']]
    by (auto simp: iolink_master_process_at_def split: if_splits)
qed

lemma transmits_path: "transmits p p' \<Longrightarrow> port_path (st_state p) (st_state p')"
  by (auto simp: transmits_def path_to_error)

text \<open>A tick: it receives, it may time out, and then it may transmit.\<close>

lemma tick_common_cases:
  assumes "iolink_master_tick_common L event pace now p e = Some (ret, p', e')"
  obtains (no_cycle) "moves p p'"
    | (cycle) p1 e1 p2 e2 where "moves p p1" "iolink_master_process_at L now pace p1 e1 = Some (p2, e2)"
      "pace \<longrightarrow> iolink_master_cycle_due_at p1 now"
      "(if pace \<and> st_cycle_count p2 \<noteq> st_cycle_count p1 then tick_cycle_sent now p2 else Some p2) = Some p'"
proof (cases "event > TICK_RESPONSE_TIMEOUT")
  case True
  then show ?thesis using assms no_cycle by (simp add: iolink_master_tick_common_def)
next
  case False
  obtain rx_ret p1 e1 where poll: "iolink_master_poll_rx L p e = Some (rx_ret, p1, e1)"
    using assms False by (auto simp: iolink_master_tick_common_def split: Option.bind_splits)
  note moved1 = poll_rx_moves [OF poll]
  show ?thesis
  proof (cases "rx_ret < 0")
    case True
    then show ?thesis using assms False poll moved1 no_cycle by (simp add: iolink_master_tick_common_def)
  next
    case nonneg: False
    obtain early p2 e2 where timeout: "(if event = TICK_RESPONSE_TIMEOUT then tick_timeout pace now rx_ret p1 e1
        else Some (None, p1, e1)) = Some (early, p2, e2)"
      using assms False poll nonneg by (auto simp: iolink_master_tick_common_def split: Option.bind_splits)
    then have "moves p1 p2" by (auto split: if_splits dest: tick_timeout_moves)
    then have moved2: "moves p p2" using moved1 moves_trans by blast
    have rest: "(case early of Some ret \<Rightarrow> Some (ret, p2, e2)
        | None \<Rightarrow> if event \<noteq> TICK_CYCLE_DUE then Some (rx_ret, p2, e2)
                  else tick_cycle L pace now rx_ret p2 e2) = Some (ret, p', e')"
      using assms poll nonneg False timeout
      unfolding iolink_master_tick_common_def if_not_P [OF False] by simp
    show ?thesis
    proof (cases "early = None \<and> event = TICK_CYCLE_DUE \<and> \<not> st_awaiting_response p2 \<and>
        (pace \<longrightarrow> iolink_master_cycle_due_at p2 now)")
      case False
      then have "p' = p2" using rest by (auto simp: tick_cycle_def split: option.splits if_splits)
      then show ?thesis using moved2 no_cycle by simp
    next
      case True
      then show ?thesis
        using rest moved2 cycle
        by (auto simp: tick_cycle_def Let_def split: Option.bind_splits)
    qed
  qed
qed

lemma tick_cycle_sent_state: "tick_cycle_sent now p = Some p' \<Longrightarrow> st_state p' = st_state p"
  by (auto simp: tick_cycle_sent_eq)

lemma tick_path:
  "iolink_master_tick_common L event pace now p e = Some (ret, p', e') \<Longrightarrow>
   port_path (st_state p) (st_state p')"
  by (erule tick_common_cases)
    (auto simp: moves_def intro: rtranclp_trans
      dest!: process_at_transmits transmits_path tick_cycle_sent_state split: if_splits)

subsection \<open>Runs of ticks\<close>

text \<open>The application ticks the port; each tick has its event and its time.\<close>

abbreviation ticks ::
  "iolinki \<Rightarrow> (iolink_master_tick_event_t \<times> u32) list \<Rightarrow> 'e iolink_master_port_state_t \<times> 'e \<Rightarrow>
   (int list \<times> 'e iolink_master_port_state_t \<times> 'e) option" where
  "ticks L \<equiv> run_ops (\<lambda>(event, now) (p, e). iolink_master_tick_at L event now p e)"

interpretation ticking: invariant_machine
  "\<lambda>(event, now) (p, e). iolink_master_tick_at L event now p e" "\<lambda>_. True"
  "\<lambda>(p, e). iolinki_ok L \<and> port_wf L p \<and> quiet d p \<and> port_path s (st_state p)"
proof unfold_locales
  fix op :: "iolink_master_tick_event_t \<times> u32" and m :: "'a iolink_master_port_state_t \<times> 'a"
  assume inv: "case m of (p, e) \<Rightarrow> iolinki_ok L \<and> port_wf L p \<and> quiet d p \<and> port_path s (st_state p)"
  obtain p e event now where eq: "m = (p, e)" "op = (event, now)" by (cases m; cases op)
  from inv have "ensures (iolink_master_tick_common L event True now p e) (\<lambda>(ret, p', e'). port_kept L p p')"
    by (intro tick_common_kept [where d = d]) (simp_all add: eq)
  then obtain ret p' e' where tick: "iolink_master_tick_common L event True now p e = Some (ret, p', e')"
    "port_kept L p p'"
    by (auto elim: ensuresE)
  from tick_path [OF tick(1)] tick inv quiet_kept [OF tick(2), of d]
  show "ensures ((\<lambda>(event, now) (p, e). iolink_master_tick_at L event now p e) op m)
      (\<lambda>(r, p, e). iolinki_ok L \<and> port_wf L p \<and> quiet d p \<and> port_path s (st_state p))"
    by (auto simp: eq iolink_master_tick_at_def port_kept_def intro: rtranclp_trans)
qed

text \<open>
  A run of ticks has a result for each of them, and the machine reaches the state after it from
  the state before.
\<close>

lemma ticks_reach:
  assumes "iolinki_ok L" and "port_wf L p" and "quiet d p"
  shows "ensures (ticks L schedule (p, e)) (\<lambda>(results, p', e'). length results = length schedule \<and>
     port_path (st_state p) (st_state p'))"
  using ticking.run_defined [of schedule L d "st_state p" "(p, e)"] assms
  by (auto simp: list_all_iff elim!: ensures_mono)

subsection \<open>The edges of one tick\<close>

text \<open>
  What a single tick does to the state of the port, given the step of the start-up it is in. A
  tick that receives several replies takes at most one of the edges, or is back where it was.
\<close>

type_synonym position = "iolink_master_state_t \<times> iolink_master_startup_step"

inductive tick_edge :: "position \<Rightarrow> position \<Rightarrow> bool" where
  remains: "tick_edge (s, k) (s, k')"
| test_answered: "tick_edge (STATE_STARTUP, STARTUP_STEP_AWAIT_RESPONSE) (STATE_PREOPERATE, k')"
| command_acknowledged: "tick_edge (STATE_PREOPERATE, STARTUP_STEP_AWAIT_OPERATE_ACK) (STATE_OPERATE, k')"
| communication_lost: "s \<in> {STATE_PREOPERATE, STATE_OPERATE} \<Longrightarrow> tick_edge (s, k) (STATE_STARTUP, k')"
| failure: "s \<noteq> STATE_ERROR \<Longrightarrow> tick_edge (s, k) (STATE_ERROR, k')"

inductive_simps tick_edge_simps: "tick_edge (s, k) (s', k')"

abbreviation position :: "'e iolink_master_port_state_t \<Rightarrow> position" where
  "position p \<equiv> (st_state p, su_step (st_startup p))"

lemma tick_edge_then:
  "tick_edge a (s, k) \<Longrightarrow> s' \<in> {s, STATE_ERROR} \<or> s = STATE_OPERATE \<and> s' = STATE_STARTUP \<Longrightarrow> tick_edge a (s', k')"
  by (cases a) (auto simp: tick_edge_simps)

text \<open>The replies of one poll that are accepted: at most one edge.\<close>

definition onward :: "position \<Rightarrow> 'e iolink_master_port_state_t \<Rightarrow> bool" where
  "onward a p \<longleftrightarrow> live p \<and> (position p = a \<or>
     a = (STATE_STARTUP, STARTUP_STEP_AWAIT_RESPONSE) \<and> position p = (STATE_PREOPERATE, STARTUP_STEP_AWAIT_RESPONSE) \<or>
     a = (STATE_PREOPERATE, STARTUP_STEP_AWAIT_OPERATE_ACK) \<and> st_state p = STATE_OPERATE)"

lemma onward_edge: "onward a p \<Longrightarrow> tick_edge a (position p)"
  by (auto simp: onward_def tick_edge_simps)

lemma onward_lost: "onward a p \<Longrightarrow> st_state p \<noteq> STATE_STARTUP \<Longrightarrow> s \<in> {st_state p, STATE_STARTUP, STATE_ERROR} \<Longrightarrow> tick_edge a (s, k)"
  by (auto simp: onward_def live_def tick_edge_simps)

lemma restart_lost:
  "iolink_master_restart_establish now timed p e = Some (ret, p', e') \<Longrightarrow> st_state p' \<in> {STATE_STARTUP, STATE_ERROR}"
  by (auto simp: iolink_master_restart_establish_def Let_def iolink_master_arm_send_gate_def
      split: Option.bind_splits if_splits dest!: reset_rate_scan_stays)

lemma rx_retry_lost:
  "rx_retry p e = Some (ret, p', e') \<Longrightarrow> st_state p' \<in> {st_state p, STATE_STARTUP, STATE_ERROR} \<and> ret \<noteq> STATUS_OK"
  by (auto simp: rx_retry_def Let_def split: Option.bind_splits if_splits dest!: restart_lost)

lemma rx_startup_fields [simp]:
  "st_startup (rx_checksum_error p) = st_startup p" "st_startup (rx_accepted p) = st_startup p"
  "st_startup (rx_clear p) = st_startup p"
  by (simp_all add: rx_checksum_error_def rx_accepted_def rx_clear_def)

lemma rx_store_pd_startup:
  "rx_store_pd resp p = Some p' \<Longrightarrow> st_startup p' = st_startup p \<and> st_state p' = st_state p"
  by (auto simp: rx_store_pd_def split: Option.bind_splits if_splits)

lemma route_od_startup:
  "iolink_master_route_od L od p = Some p' \<Longrightarrow> st_startup p' = st_startup p \<and> st_state p' = st_state p"
  by (auto simp: iolink_master_route_od_def split: Option.bind_splits option.splits if_splits)

lemma on_rx_onward:
  assumes q: "onward a p" and rx: "iolink_master_on_rx L (Some data) p e = Some (ret, p', e')"
  shows "tick_edge a (position p') \<and> (ret = STATUS_OK \<longrightarrow> onward a p')"
proof (cases "st_state p = STATE_STARTUP")
  case True
  have "on_rx_startup L data p e = Some (ret, p', e') \<or> p' = p \<and> ret \<noteq> STATUS_OK"
    using rx True by (auto simp: iolink_master_on_rx_def split: if_splits)
  then have "position p' = position p \<and> ret \<noteq> STATUS_OK \<or>
      position p = (STATE_STARTUP, STARTUP_STEP_AWAIT_RESPONSE) \<and> position p' = (STATE_PREOPERATE, STARTUP_STEP_AWAIT_RESPONSE)"
    using True by (auto simp: on_rx_startup_def Let_def split: Option.bind_splits if_splits)
  then show ?thesis using q True by (auto simp: onward_def live_def tick_edge_simps)
next
  case False
  have retry: ?thesis if "rx_retry p e = Some (ret, p', e')"
    using rx_retry_lost [OF that] onward_lost [OF q False] by blast
  have kept: ?thesis if "position p' = position p"
    using that q onward_edge [OF q] by (auto simp: onward_def live_def)
  have acked: ?thesis if "st_state p = STATE_PREOPERATE" "su_step (st_startup p) = STARTUP_STEP_AWAIT_OPERATE_ACK"
    "st_state p' = STATE_OPERATE"
    using that q by (auto simp: onward_def live_def tick_edge_simps)
  have "rx_retry p e = Some (ret, p', e') \<or> position p' = position p \<or>
      position p = (STATE_PREOPERATE, STARTUP_STEP_AWAIT_OPERATE_ACK) \<and> st_state p' = STATE_OPERATE"
    using rx False
    by (auto simp: iolink_master_on_rx_def on_rx_operate_ack_def on_rx_type0_def on_rx_operate_def Let_def
        split: Option.bind_splits if_splits option.splits dest!: route_od_startup rx_store_pd_startup)
  with retry kept acked show ?thesis by auto
qed

lemma rx_octet_onward:
  assumes "onward a p" and "rx_octet L n byte frames p e = Some (ret, p', e')"
  shows "tick_edge a (position p') \<and> (isl ret \<or> onward a p')"
proof -
  have update: "onward a (p\<lparr>st_rx := r\<rparr>)" for r using assms(1) by (simp add: onward_def live_def)
  have clear: "onward a (rx_clear q) = onward a q" for q :: "'a iolink_master_port_state_t"
    by (simp add: onward_def live_def)
  have error: "tick_edge a (STATE_ERROR, k)" for k
    using tick_edge_then [OF onward_edge [OF assms(1)]] by blast
  show ?thesis
    using assms(2) update onward_edge [OF assms(1)] error
    by (auto simp: rx_octet_def Let_def set_error_def clear split: Option.bind_splits if_splits
        dest!: on_rx_onward [rotated])
qed

lemma poll_rx_edge:
  assumes "iolink_master_poll_rx L p e = Some (ret, p', e')"
  shows "tick_edge (position p) (position p')"
proof (cases "rx_expected_len L p")
  case None
  then show ?thesis using assms remains by (auto simp: iolink_master_poll_rx_def split: option.splits)
next
  case (Some n)
  then have start: "onward (position p) p"
    by (auto simp: rx_expected_len_def onward_def live_def split: if_splits)
  have "tick_edge (position p) (position p')" if "poll_loop L recv n 0 p e = Some (ret, p', e')" for recv
  proof (rule poll_loop_rule [where I = "onward (position p)" and Q = "\<lambda>_ q. tick_edge (position p) (position q)", OF that start])
    fix q :: "'a iolink_master_port_state_t" assume "onward (position p) q"
    from tick_edge_then [OF onward_edge [OF this]] show "tick_edge (position p) (position (rx_clear (set_error q)))"
      by (simp add: set_error_def)
  qed (auto dest: rx_octet_onward onward_edge)
  then show ?thesis
    using assms Some remains by (auto simp: iolink_master_poll_rx_def split: option.splits)
qed

lemma on_timeout_lost:
  assumes "iolink_master_on_timeout_at now timed p e = Some (ret, p', e')"
  shows "st_state p' \<in> {st_state p, STATE_ERROR} \<or> st_state p = STATE_OPERATE \<and> st_state p' = STATE_STARTUP"
proof -
  obtain r p1 e1 where flush: "iolink_master_flush_rx p e = (r, p1, e1)"
    by (cases "iolink_master_flush_rx p e")
  then have "st_state p1 = st_state p" using flush_rx_updates(1) [of p e] by simp
  then show ?thesis
    using assms
    by (auto simp: iolink_master_on_timeout_at_def flush Let_def set_error_def stays_def
        split: if_splits dest!: establish_attempt_failed_stays restart_lost)
qed

lemma tick_edge_at:
  assumes "iolink_master_tick_at L event now p e = Some (ret, p', e')"
  shows "tick_edge (position p) (position p')"
proof (cases "event > TICK_RESPONSE_TIMEOUT")
  case True
  then show ?thesis using assms remains by (auto simp: iolink_master_tick_at_def iolink_master_tick_common_def)
next
  case False
  have tick: "iolink_master_tick_common L event True now p e = Some (ret, p', e')"
    using assms by (simp add: iolink_master_tick_at_def)
  then obtain r p1 e1 where poll: "iolink_master_poll_rx L p e = Some (r, p1, e1)"
    using False by (auto simp: iolink_master_tick_common_def split: Option.bind_splits)
  note edge = poll_rx_edge [OF poll]
  define f where "f = (if st_awaiting_response p1 then snd (iolink_master_flush_rx p1 e1) else (p1, e1))"
  have "st_state (fst f) = st_state p1" by (simp add: f_def)
  then have timeout: "st_state p2 \<in> {st_state p1, STATE_ERROR} \<or> st_state p1 = STATE_OPERATE \<and> st_state p2 = STATE_STARTUP"
    if "tick_timeout True now r p1 e1 = Some (early, p2, e2)" for early p2 e2
    using that unfolding tick_timeout_def f_def [symmetric]
    by (auto simp: Let_def case_prod_unfold split: if_splits Option.bind_splits dest!: on_timeout_lost)
  have cycle: "st_state p3 \<in> {st_state p2, STATE_ERROR}"
    if "tick_cycle L True now r p2 e2 = Some (ret, p3, e3)" for p2 e2 p3 e3
    using that
    by (auto simp: tick_cycle_def Let_def transmits_def split: if_splits Option.bind_splits
        dest!: process_at_transmits tick_cycle_sent_state)
  have "st_state p' \<in> {st_state p1, STATE_ERROR} \<or> st_state p1 = STATE_OPERATE \<and> st_state p' = STATE_STARTUP"
    using tick False poll
    by (auto simp: iolink_master_tick_common_def split: if_splits Option.bind_splits option.splits
        dest: timeout cycle)
  with tick_edge_then [OF edge] show ?thesis by blast
qed

text \<open>The positions of the port after each tick of a run.\<close>

fun tick_positions ::
  "iolinki \<Rightarrow> (iolink_master_tick_event_t \<times> u32) list \<Rightarrow> 'e iolink_master_port_state_t \<Rightarrow> 'e \<Rightarrow>
   (position list \<times> 'e iolink_master_port_state_t \<times> 'e) option" where
  "tick_positions L [] p e = Some ([], p, e)"
| "tick_positions L ((event, now) # schedule) p e = do {
     (ret, p, e) \<leftarrow> iolink_master_tick_at L event now p e;
     (positions, p', e) \<leftarrow> tick_positions L schedule p e;
     Some (position p # positions, p', e) }"

text \<open>
  C7. The state machine. Whatever is received, however the PHY and the hooks answer and at
  whatever times the port is ticked, every tick of a run has a result and moves the port along
  one edge of \<open>tick_edge\<close>: PREOPERATE is entered only from a STARTUP that waits for the answer to
  its test message, OPERATE only from a PREOPERATE that waits for the acknowledgement of the operate
  command, STARTUP only from PREOPERATE or OPERATE, and ERROR is never left; OPERATE never goes
  back to PREOPERATE, nor STARTUP straight to OPERATE, and an inactive port never communicates.
\<close>

theorem ticks_follow_machine:
  assumes "iolinki_ok L" and "port_wf L p" and "quiet d p"
  shows "ensures (tick_positions L schedule p e) (\<lambda>(positions, p', e').
     length positions = length schedule \<and> successively tick_edge (position p # positions))"
  using assms
proof (induction schedule arbitrary: p e)
  case (Cons op schedule)
  obtain event now where op: "op = (event, now)" by (cases op)
  obtain ret p1 e1 where tick: "iolink_master_tick_at L event now p e = Some (ret, p1, e1)" "port_kept L p p1"
    using tick_common_kept [OF Cons.prems, of event True now e]
    by (auto simp: iolink_master_tick_at_def elim: ensuresE)
  have "ensures (tick_positions L schedule p1 e1) (\<lambda>(positions, p', e').
     length positions = length schedule \<and> successively tick_edge (position p1 # positions))"
    using tick(2) quiet_kept [OF tick(2), of d] Cons.prems by (intro Cons.IH) (simp_all add: port_kept_def)
  then show ?case
    using tick_edge_at [OF tick(1)] tick(1) by (auto simp: op ensures_simps elim!: ensures_mono)
qed simp

text \<open>From the start: the first tick cannot do better than stay in STARTUP.\<close>

theorem ticks_follow_machine_witness:
  "ensures (tick_positions demo_stack [(TICK_CYCLE_DUE, 1), (TICK_CYCLE_DUE, 9), (TICK_RESPONSE_TIMEOUT, 20)]
      demo_port ([1, 2], []))
     (\<lambda>(positions, p', e'). length positions = 3 \<and> successively tick_edge positions \<and>
       fst (positions ! 0) \<in> {STATE_STARTUP, STATE_ERROR})"
proof -
  have quiet: "quiet (\<lambda>e. length (fst e)) demo_port"
    by (rule demo_quiet) (simp_all add: demo_port_def demo_config_def zero_config_def)
  have start: "position demo_port = (STATE_STARTUP, STARTUP_STEP_WAKE)"
    by (simp add: demo_port_def zero_port_def)
  have "fst (positions ! 0) \<in> {STATE_STARTUP, STATE_ERROR} \<and> successively tick_edge positions"
    if "successively tick_edge ((STATE_STARTUP, STARTUP_STEP_WAKE) # positions)" "length positions = 3" for positions
    using that by (cases positions; cases "hd positions") (auto simp: tick_edge_simps successively_Cons)
  then show ?thesis
    by (intro ensures_mono [OF ticks_follow_machine [OF demo_stack_ok demo_port_wf quiet]])
      (auto simp: start numeral_3_eq_3)
qed

text \<open>
  A port that is inactive or has failed is silent: ticking it neither receives an octet
  nor sends one nor calls a hook, and changes nothing.
\<close>

theorem silent_unless_communicating:
  assumes "st_state p = STATE_INACTIVE \<or> st_state p = STATE_ERROR" and "st_phy p \<noteq> None"
  shows "ticks L (map (\<lambda>now. (TICK_CYCLE_DUE, now)) nows) (p, e) =
     Some (replicate (length nows) STATUS_OK, p, e)"
proof -
  obtain phy where phy: "st_phy p = Some phy" using assms(2) by blast
  have "rx_expected_len L p = None" using assms(1) by (auto simp: rx_expected_len_def)
  then have poll: "iolink_master_poll_rx L p e = Some (STATUS_OK, p, e)"
    by (simp add: iolink_master_poll_rx_def phy split: option.split)
  have send: "iolink_master_process_at L now True p e = Some (p, e)" for now
    using assms(1) by (auto simp: iolink_master_process_at_def)
  have "iolink_master_tick_at L TICK_CYCLE_DUE now p e = Some (STATUS_OK, p, e)" for now
    by (simp add: iolink_master_tick_at_def iolink_master_tick_common_def poll tick_cycle_def send)
  then show ?thesis by (induction nows) simp_all
qed

theorem silent_unless_communicating_witness:
  "ticks demo_stack (map (\<lambda>now. (TICK_CYCLE_DUE, now)) [5, 6]) (demo_port\<lparr>st_state := STATE_ERROR\<rparr>, [1], []) =
     Some ([STATUS_OK, STATUS_OK], demo_port\<lparr>st_state := STATE_ERROR\<rparr>, [1], [])"
  by (subst silent_unless_communicating) (simp_all add: demo_port_def numeral_2_eq_2)

subsection \<open>Entering OPERATE\<close>











subsection \<open>Polling ends\<close>

lemma on_rx_ret: "iolink_master_on_rx L data p e = Some (ret, p', e') \<Longrightarrow> ret \<le> 0"
  by (auto simp: iolink_master_on_rx_def on_rx_startup_def on_rx_operate_ack_def on_rx_type0_def on_rx_operate_def
      rx_retry_def Let_def split: option.splits if_splits Option.bind_splits)

lemma rx_octet_ret:
  assumes "rx_octet L n octet frames p e = Some (ret, p', e')"
  shows "case ret of Inl r \<Rightarrow> r < 0 | Inr frames' \<Rightarrow> frames' \<le> frames + 1"
proof -
  have "r \<noteq> 0 \<Longrightarrow> r < 0" if "iolink_master_on_rx L (Some data) q e = Some (r, p', e')" for data q r p' e'
    using on_rx_ret [OF that] by simp
  with assms show ?thesis
    by (auto simp: rx_octet_def Let_def split: if_splits Option.bind_splits)
qed

lemma poll_loop_ends:
  assumes L: "iolinki_ok L"
  shows "\<lbrakk>port_wf L p; quiet d p; st_phy p = Some phy; phy_recv_byte phy = Some recv; 0 \<le> frames\<rbrakk> \<Longrightarrow>
    ensures (poll_loop L recv n frames p e) (\<lambda>(ret, p', e'). port_wf L p' \<and> ret \<le> frames + int (d e))"
proof (induction "d e" arbitrary: p e frames rule: less_induct)
  case less
  obtain r octet e1 where recv: "recv e = (r, octet, e1)" by (cases "recv e")
  show ?case
  proof (cases "0 < r")
    case False
    have "port_wf L (rx_clear (set_error p))"
      using rx_clear_kept [of L p "set_error p"] port_kept_refl [OF less.prems(1)] by (simp add: set_error_kept port_kept_def)
    then show ?thesis
      using less.prems(1,5) False by (subst poll_loop.simps) (simp add: recv)
  next
    case True
    obtain ret p1 e2 where octet: "rx_octet L n octet frames p e1 = Some (ret, p1, e2)"
      "rx_kept L d p e1 p1 e2"
      using rx_octet_kept [OF L less.prems(1), of n octet frames e1 d] by (auto elim: ensuresE)
    moreover have "d e1 < d e" using less.prems(2-4) recv True unfolding quiet_def by blast
    ultimately have kept: "port_kept L p p1" and d: "d e2 < d e"
      using less.prems(2) by (auto simp: rx_kept_def)
    have "ensures (poll_loop L recv n frames' p1 e2) (\<lambda>(ret, p', e'). port_wf L p' \<and> ret \<le> frames + int (d e))"
      if "frames' \<le> frames + 1" "0 \<le> frames'" for frames'
    proof -
      have "frames' + int (d e2) \<le> frames + int (d e)" using that d by linarith
      moreover have "ensures (poll_loop L recv n frames' p1 e2) (\<lambda>(ret, p', e'). port_wf L p' \<and> ret \<le> frames' + int (d e2))"
        using less.prems kept quiet_kept [OF kept, of d] that(2)
        by (intro less.hyps [OF d]) (simp_all add: port_kept_def)
      ultimately show ?thesis by (auto elim!: ensures_mono)
    qed
    moreover have "0 \<le> frames'" if "ret = Inr frames'" for frames'
      using octet(1) that less.prems(5) by (auto simp: rx_octet_def Let_def split: if_splits Option.bind_splits)
    ultimately show ?thesis
      using True kept rx_octet_ret [OF octet(1)] less.prems(5)
      by (subst poll_loop.simps) (auto simp: recv octet(1) port_kept_def split: sum.split)
  qed
qed

text \<open>
  C35. A poll ends. On a line whose receive queue can be read only \<open>d e\<close> more times, a poll has
  a result, whatever the octets are: the port is still well-formed, and no more replies are
  reported than there were octets.
\<close>

theorem polling_ends:
  assumes "iolinki_ok L" and "port_wf L p" and "quiet d p"
  shows "ensures (iolink_master_poll_rx L p e) (\<lambda>(ret, p', e'). port_wf L p' \<and> ret \<le> int (d e))"
  using assms poll_loop_ends [OF assms, of _ _ 0]
  by (auto simp: iolink_master_poll_rx_def split: option.split)

theorem polling_ends_witness:
  "ensures (iolink_master_poll_rx demo_stack (demo_port\<lparr>st_state := STATE_PREOPERATE\<rparr>) (replicate 500 7, []))
     (\<lambda>(ret, p', e'). ret \<le> 500)"
proof -
  have "port_wf demo_stack (demo_port\<lparr>st_state := STATE_PREOPERATE\<rparr>)"
    using demo_port_wf by (simp add: port_wf_state)
  moreover have "quiet (\<lambda>e. length (fst e)) (demo_port\<lparr>st_state := STATE_PREOPERATE\<rparr>)"
    by (rule demo_quiet) (simp_all add: demo_port_def demo_config_def zero_config_def)
  ultimately show ?thesis
    using polling_ends [OF demo_stack_ok, of "demo_port\<lparr>st_state := STATE_PREOPERATE\<rparr>" _ "(replicate 500 7, [])"]
    by (fastforce elim!: ensures_mono)
qed

end
