(* ===== verification/MasterEstablish.thy ===== *)
theory MasterEstablish
  imports MasterStates MasterDemo
begin

text \<open>
  Establishing communication: the scan of a line on which nobody answers, from the first
  wake-up to the failed sequence (\<open>src/master_port.c\<close>, lines 731-1004).

  The calls are the untimed ones of the API, \<open>iolink_master_process\<close> and
  \<open>iolink_master_on_timeout\<close>; the caller paces them. An observer at the PHY sees its rate, the
  wake-up requests and the messages.
\<close>

subsection \<open>A line without faults\<close>

definition hook_ok :: "('e \<Rightarrow> int \<times> 'e) option \<Rightarrow> bool" where
  "hook_ok hook \<longleftrightarrow> (\<forall>f e. hook = Some f \<longrightarrow> fst (f e) = STATUS_OK)"

text \<open>The PHY accepts every frame and no hook fails.\<close>

definition line_ok :: "'e iolink_master_port_state_t \<Rightarrow> bool" where
  "line_ok p \<longleftrightarrow>
     (\<exists>phy send. st_phy p = Some phy \<and> phy_send phy = Some send \<and>
        (\<forall>data e. fst (send data e) = int (length data))) \<and>
     hook_ok (cfg_prepare_tx (st_config p)) \<and> hook_ok (cfg_prepare_rx (st_config p)) \<and>
     hook_ok (cfg_flush_rx (st_config p)) \<and> hook_ok (cfg_wake_up (st_config p)) \<and>
     (\<forall>f mode e. cfg_set_mode_checked (st_config p) = Some f \<longrightarrow> fst (f mode e) = STATUS_OK) \<and>
     (\<forall>f rate e. cfg_set_baudrate_checked (st_config p) = Some f \<longrightarrow> fst (f rate e) = STATUS_OK)"

text \<open>
  The encoders of the stack: a TYPE_0 message is MC and CKT, a TYPE_0 write has one OD octet
  behind them.
\<close>

definition type0_frames_ok :: "iolinki \<Rightarrow> bool" where
  "type0_frames_ok L \<longleftrightarrow> (\<forall>mc od buf. length buf = FRAME_BUF_SIZE \<longrightarrow>
     frame_encode_type0 L mc buf = (2, message L mc 0 [] @ drop 2 buf) \<and>
     frame_encode_type0_write L mc od buf = (3, message L mc 0 [od] @ drop 3 buf))"

lemma call_hook_ok: "hook_ok hook \<Longrightarrow> fst (call_hook hook e) = STATUS_OK"
  by (simp add: hook_ok_def call_hook_def split: option.split)

lemma line_ok_hooks:
  assumes "line_ok p"
  shows "fst (iolink_master_set_mode mode p e) = STATUS_OK"
    and "fst (iolink_master_set_baudrate rate p e) = STATUS_OK"
    and "\<exists>e'. iolink_master_flush_rx p e = (STATUS_OK, p\<lparr>st_rx := (st_rx p)\<lparr>rx_len := 0\<rparr>\<rparr>, e')"
    and "can_send p" and "st_phy p \<noteq> None"
  using assms
  by (auto simp: line_ok_def iolink_master_set_mode_def iolink_master_set_baudrate_def can_send_def
      iolink_master_flush_rx_def Let_def case_prod_unfold call_hook_ok prod_eq_iff split: option.splits)

lemma line_ok_kept: "line_ok p \<Longrightarrow> st_phy p' = st_phy p \<Longrightarrow> st_config p' = st_config p \<Longrightarrow> line_ok p'"
  by (simp add: line_ok_def)

text \<open>
  What an observer at the PHY sees: the rate it is set to, and every wake-up request and every
  message with the rate at which it leaves the PHY. \<open>observed see p\<close>: the port drives the PHY and
  the hooks of which \<open>see\<close> reads this off the environment.
\<close>

datatype signal = Wake_up_request | Message "u8 list"

type_synonym line_view = "iolink_baudrate_t \<times> (iolink_baudrate_t \<times> signal) list"

definition signalled :: "signal \<Rightarrow> line_view \<Rightarrow> line_view" where
  "signalled s v = (fst v, snd v @ [(fst v, s)])"

definition tuned :: "iolink_baudrate_t \<Rightarrow> line_view \<Rightarrow> line_view" where
  "tuned rate v = (rate, snd v)"

definition unseen :: "('e \<Rightarrow> line_view) \<Rightarrow> ('e \<Rightarrow> int \<times> 'e) option \<Rightarrow> bool" where
  "unseen see hook \<longleftrightarrow> (\<forall>f e. hook = Some f \<longrightarrow> see (snd (f e)) = see e)"

definition observed :: "('e \<Rightarrow> line_view) \<Rightarrow> 'e iolink_master_port_state_t \<Rightarrow> bool" where
  "observed see p \<longleftrightarrow>
     (\<forall>phy. st_phy p = Some phy \<longrightarrow>
        (\<forall>f data e. phy_send phy = Some f \<longrightarrow> see (snd (f data e)) = signalled (Message data) (see e)) \<and>
        (\<forall>f rate e. phy_set_baudrate phy = Some f \<longrightarrow> see (f rate e) = tuned rate (see e)) \<and>
        (\<forall>f mode e. phy_set_mode phy = Some f \<longrightarrow> see (f mode e) = see e)) \<and>
     (cfg_set_baudrate_checked (st_config p) = None \<longrightarrow> Option.bind (st_phy p) phy_set_baudrate \<noteq> None) \<and>
     (\<forall>f rate e. cfg_set_baudrate_checked (st_config p) = Some f \<longrightarrow> see (snd (f rate e)) = tuned rate (see e)) \<and>
     (\<forall>f mode e. cfg_set_mode_checked (st_config p) = Some f \<longrightarrow> see (snd (f mode e)) = see e) \<and>
     (\<forall>f e. cfg_wake_up (st_config p) = Some f \<longrightarrow> see (snd (f e)) = signalled Wake_up_request (see e)) \<and>
     unseen see (cfg_prepare_tx (st_config p)) \<and> unseen see (cfg_prepare_rx (st_config p)) \<and>
     unseen see (cfg_flush_rx (st_config p))"

text \<open>Without a hook the wake-up request is an octet 55 hexadecimal.\<close>

definition wake_signal :: "'e iolink_master_port_state_t \<Rightarrow> signal" where
  "wake_signal p = (if cfg_wake_up (st_config p) = None then Message [0x55] else Wake_up_request)"

lemma unseen_hook: "unseen see hook \<Longrightarrow> see (snd (call_hook hook e)) = see e"
  by (simp add: unseen_def call_hook_def split: option.split)

lemma observed_hooks:
  assumes "observed see p"
  shows "see (snd (iolink_master_set_mode mode p e)) = see e"
    and "see (snd (iolink_master_set_baudrate rate p e)) = tuned rate (see e)"
    and "see (snd (snd (iolink_master_flush_rx p e))) = see e"
  using assms
  by (auto simp: observed_def iolink_master_set_mode_def iolink_master_set_baudrate_def
      iolink_master_flush_rx_def case_prod_unfold Let_def unseen_hook split: option.splits bind_split)

lemma observed_kept: "observed see p \<Longrightarrow> st_phy p' = st_phy p \<Longrightarrow> st_config p' = st_config p \<Longrightarrow> observed see p'"
  by (simp add: observed_def)

lemma send_full_ok:
  assumes "line_ok p" "data \<noteq> []"
  shows "\<exists>e'. iolink_master_send_full L data p e =
    Some (True, p\<lparr>st_rx_od_expected := (hd data AND MC_RW_MASK L \<noteq> 0)\<rparr>, e') \<and>
    (observed see p \<longrightarrow> see e' = signalled (Message data) (see e))"
proof -
  obtain phy send where phy: "st_phy p = Some phy" "phy_send phy = Some send"
    "\<And>data e. fst (send data e) = int (length data)"
    using assms(1) by (auto simp: line_ok_def)
  moreover have "rd data 0 = Some (hd data)" using assms(2) by (simp add: rd_def hd_conv_nth)
  moreover have "fst (call_hook (cfg_prepare_tx (st_config p)) e) = STATUS_OK"
    "fst (call_hook (cfg_prepare_rx (st_config p)) e) = STATUS_OK" for e
    using assms(1) by (simp_all add: line_ok_def call_hook_ok)
  moreover have "see (snd (call_hook (cfg_prepare_rx (st_config p)) (snd (send data
      (snd (call_hook (cfg_prepare_tx (st_config p)) e)))))) = signalled (Message data) (see e)" if "observed see p"
    using that phy(1,2) by (simp add: observed_def unseen_hook)
  ultimately show ?thesis
    by (simp add: iolink_master_send_full_def Let_def case_prod_unfold)
qed

subsection \<open>One attempt\<close>

text \<open>The port has kept everything the scan depends on.\<close>

definition scan_kept ::
  "iolinki \<Rightarrow> 'e iolink_master_port_state_t \<Rightarrow> 'e iolink_master_port_state_t \<Rightarrow> bool" where
  "scan_kept L p p' \<longleftrightarrow> port_kept L p p' \<and> st_state p' = st_state p \<and>
     su_baudrate_index (st_startup p') = su_baudrate_index (st_startup p) \<and>
     su_wake_attempts (st_startup p') = su_wake_attempts (st_startup p) \<and>
     st_diagnostics p' = st_diagnostics p"

lemma scan_kept_trans: "scan_kept L p p' \<Longrightarrow> scan_kept L p' p'' \<Longrightarrow> scan_kept L p p''"
  by (auto simp: scan_kept_def intro: port_kept_trans)

lemma wake_up_ok:
  assumes "port_wf L p" "line_ok p"
  shows "\<exists>p' e'. iolink_master_wake_up L p e = Some (True, p', e') \<and> scan_kept L p p' \<and>
    (observed see p \<longrightarrow> see e' = signalled (wake_signal p) (see e))"
proof (cases "cfg_wake_up (st_config p)")
  case None
  have len: "length (st_tx_buf p) = 64" using assms(1) by (simp add: port_wf_defs)
  define q where "q = p\<lparr>st_tx_buf := (st_tx_buf p)[0 := 0x55]\<rparr>"
  have q: "port_wf L q" "line_ok q"
    using assms len port_wf_tx [OF assms(1)] by (auto simp: q_def intro: line_ok_kept)
  have octet: "take 1 (st_tx_buf q) = [0x55]" using len by (cases "st_tx_buf p") (auto simp: q_def)
  have seen: "observed see p \<Longrightarrow> observed see q" by (simp add: q_def observed_def)
  obtain b e' where
    "iolink_master_send_full L (take 1 (st_tx_buf q)) q e = Some (True, q\<lparr>st_rx_od_expected := b\<rparr>, e')"
    "observed see p \<longrightarrow> see e' = signalled (wake_signal p) (see e)"
    unfolding octet using send_full_ok [OF q(2), of "[0x55]" L e see] seen None by (fastforce simp: wake_signal_def)
  then show ?thesis
    using len q(1)
    by (auto simp: iolink_master_wake_up_def None wr_def send_tx_def rd_slice_def q_def scan_kept_def
        port_kept_def port_wf_od_expected)
next
  case (Some f)
  moreover have "fst (f e) = STATUS_OK" using assms(2) Some by (auto simp: line_ok_def hook_ok_def)
  moreover have "observed see p \<Longrightarrow> see (snd (f e)) = signalled (wake_signal p) (see e)"
    using Some by (simp add: observed_def wake_signal_def)
  ultimately show ?thesis
    using port_kept_refl [OF assms(1)]
    by (simp add: iolink_master_wake_up_def case_prod_unfold scan_kept_def)
qed

text \<open>The test message reads octet 2 of the page, the MinCycleTime.\<close>

definition test_message :: "iolinki \<Rightarrow> u8 list" where
  "test_message L = message L (iolink_master_encode_master_command L True MC_CHANNEL_PAGE 2) 0 []"

lemma test_message_sent:
  assumes "type0_frames_ok L" "port_wf L p" "line_ok p"
  shows "\<exists>p' e'. process_test_message L 0 False p e = Some (p', e') \<and> scan_kept L p p' \<and>
    su_step (st_startup p') = STARTUP_STEP_AWAIT_RESPONSE \<and>
    (observed see p \<longrightarrow> see e' = signalled (Message (test_message L)) (see e))"
proof -
  have len: "length (st_tx_buf p) = 64" using assms(2) by (simp add: port_wf_defs)
  define msg where "msg = message L (iolink_master_encode_master_command L True MC_CHANNEL_PAGE 2) 0 []"
  define q where "q = p\<lparr>st_tx_buf := msg @ drop 2 (st_tx_buf p)\<rparr>"
  have q: "port_wf L q" "line_ok q"
    using assms(2,3) len port_wf_tx [OF assms(2)] by (auto simp: q_def msg_def intro: line_ok_kept)
  have "frame_encode_type0 L (iolink_master_encode_master_command L True MC_CHANNEL_PAGE 2) (st_tx_buf p) =
      (2, msg @ drop 2 (st_tx_buf p))"
    using assms(1) len by (simp add: type0_frames_ok_def msg_def)
  moreover have "rd_slice (st_tx_buf q) 0 2 = Some msg" by (simp add: q_def msg_def rd_slice_def)
  moreover have "observed see p \<Longrightarrow> observed see q" by (simp add: q_def observed_def)
  with send_full_ok [OF q(2), of msg L e see] obtain b e' where
    "iolink_master_send_full L msg q e = Some (True, q\<lparr>st_rx_od_expected := b\<rparr>, e')"
    "observed see p \<longrightarrow> see e' = signalled (Message (test_message L)) (see e)"
    by (fastforce simp: msg_def test_message_def)
  ultimately show ?thesis
    using q(1)
    by (auto simp: process_test_message_def send_tx_def q_def [symmetric] scan_kept_def port_kept_def
        port_wf_od_expected port_wf_step) (simp_all add: q_def port_wf_defs)
qed

text \<open>
  Two calls of the transmission bring the port to the test message: the first one may have
  to send the wake-up request.
\<close>

lemma process_to_test_message:
  assumes L: "type0_frames_ok L" and wf: "port_wf L p" and line: "line_ok p"
    and "st_state p = STATE_STARTUP"
    and step: "su_step (st_startup p) = STARTUP_STEP_WAKE \<or> su_step (st_startup p) = STARTUP_STEP_SEND_TYPE0"
  shows "ensures (do { (p, e) \<leftarrow> iolink_master_process L p e; iolink_master_process L p e })
    (\<lambda>(p', e'). scan_kept L p p' \<and> su_step (st_startup p') = STARTUP_STEP_AWAIT_RESPONSE \<and>
      (observed see p \<longrightarrow> see e' = signalled (Message (test_message L))
        (if su_step (st_startup p) = STARTUP_STEP_WAKE then signalled (wake_signal p) (see e) else see e)))"
proof -
  have process: "iolink_master_process L q e = process_startup L 0 False q e"
    if "line_ok q" "st_state q = STATE_STARTUP" for q :: "'a iolink_master_port_state_t" and e
    using line_ok_hooks(4) [OF that(1)] that(2) by (simp add: iolink_master_process_def iolink_master_process_at_def)
  have awaits: "process_startup L 0 False q e = Some (q, e)"
    if "su_step (st_startup q) = STARTUP_STEP_AWAIT_RESPONSE" for q :: "'a iolink_master_port_state_t" and e
    using that by (simp add: process_startup_def)
  have sends: "\<exists>p' e'. process_startup L 0 False q e = Some (p', e') \<and> scan_kept L q p' \<and>
      su_step (st_startup p') = STARTUP_STEP_AWAIT_RESPONSE \<and>
      (observed see q \<longrightarrow> see e' = signalled (Message (test_message L)) (see e))"
    if "port_wf L q" "line_ok q" "su_step (st_startup q) = STARTUP_STEP_SEND_TYPE0"
    for q :: "'a iolink_master_port_state_t" and e
    using that test_message_sent [OF L that(1,2), of e see] by (simp add: process_startup_def)
  have after: "line_ok q" "st_state q = STATE_STARTUP" "port_wf L q" "observed see p \<Longrightarrow> observed see q"
    if "scan_kept L p q" for q
    using that line assms(4) by (auto simp: scan_kept_def port_kept_def intro: line_ok_kept observed_kept)
  from step show ?thesis
  proof
    assume "su_step (st_startup p) = STARTUP_STEP_SEND_TYPE0"
    from sends [OF wf line this, of e] obtain q e1 where
      "process_startup L 0 False p e = Some (q, e1)" "scan_kept L p q"
      "su_step (st_startup q) = STARTUP_STEP_AWAIT_RESPONSE"
      "observed see p \<longrightarrow> see e1 = signalled (Message (test_message L)) (see e)" by blast
    then show ?thesis
      using awaits after assms(4) line \<open>su_step (st_startup p) = STARTUP_STEP_SEND_TYPE0\<close> by (simp add: process)
  next
    assume wake: "su_step (st_startup p) = STARTUP_STEP_WAKE"
    obtain q e1 where q: "iolink_master_wake_up L p e = Some (True, q, e1)" "scan_kept L p q"
      "observed see p \<longrightarrow> see e1 = signalled (wake_signal p) (see e)"
      using wake_up_ok [OF wf line, of e see] by blast
    obtain b where b: "iolink_master_startup_baudrate
        (q\<lparr>st_startup := (st_startup q)\<lparr>su_step := STARTUP_STEP_SEND_TYPE0\<rparr>\<rparr>) = Some b"
      using startup_baudrate_defined [of L] after(3) [OF q(2)] port_wf_step by blast
    define r where "r = q\<lparr>st_startup := (st_startup q)\<lparr>su_step := STARTUP_STEP_SEND_TYPE0\<rparr>\<rparr>"
    have r: "scan_kept L p r" using q(2) by (auto simp: r_def scan_kept_def port_kept_def port_wf_step)
    have first: "process_startup L 0 False p e = Some (r, e1)"
      using wake q(1) b by (simp add: process_startup_def process_wake_def Let_def
          iolink_master_arm_send_gate_def r_def)
    have "su_step (st_startup r) = STARTUP_STEP_SEND_TYPE0" by (simp add: r_def)
    from sends [OF after(3,1) [OF r] this, of e1] obtain p' e' where
      "process_startup L 0 False r e1 = Some (p', e')" "scan_kept L r p'"
      "su_step (st_startup p') = STARTUP_STEP_AWAIT_RESPONSE"
      "observed see r \<longrightarrow> see e' = signalled (Message (test_message L)) (see e1)" by blast
    then show ?thesis
      using first r after [OF r] scan_kept_trans assms(4) line wake q(3) by (auto simp: process)
  qed
qed

text \<open>
  An attempt on a silent line: two calls of the transmission, and then the caller reports that
  the answer window is over. The result is what the port tells the caller.
\<close>

definition attempt ::
  "iolinki \<Rightarrow> 'e iolink_master_port_state_t \<Rightarrow> 'e \<Rightarrow>
   (int \<times> 'e iolink_master_port_state_t \<times> 'e) option" where
  "attempt L p e = do {
     (p, e) \<leftarrow> iolink_master_process L p e;
     (p, e) \<leftarrow> iolink_master_process L p e;
     iolink_master_on_timeout p e }"

text \<open>The state of the scan: \<open>k\<close> wake-up requests have failed, and the rate with index \<open>j\<close> is next.\<close>

definition scan_at :: "iolinki \<Rightarrow> nat \<Rightarrow> nat \<Rightarrow> nat \<Rightarrow> u32 \<Rightarrow> 'e iolink_master_port_state_t \<Rightarrow> bool" where
  "scan_at L limit k j failures p \<longleftrightarrow> port_wf L p \<and> line_ok p \<and> st_state p = STATE_STARTUP \<and>
     cfg_auto_baudrate (st_config p) \<and> iolink_master_wake_retry_limit p = limit \<and>
     su_baudrate_index (st_startup p) = j \<and> su_wake_attempts (st_startup p) = k \<and>
     (su_step (st_startup p) = STARTUP_STEP_WAKE \<or> su_step (st_startup p) = STARTUP_STEP_SEND_TYPE0) \<and>
     dg_establish_failures (st_diagnostics p) = failures"

definition scan_failed :: "iolinki \<Rightarrow> u32 \<Rightarrow> 'e iolink_master_port_state_t \<Rightarrow> bool" where
  "scan_failed L failures p \<longleftrightarrow> port_wf L p \<and> st_state p = STATE_STARTUP \<and>
     su_step (st_startup p) = STARTUP_STEP_INACTIVE \<and> su_wake_attempts (st_startup p) = 0 \<and>
     su_baudrate_index (st_startup p) = 0 \<and> dg_establish_failures (st_diagnostics p) = failures"

lemma scan_at_kept: "scan_at L limit k j failures p \<Longrightarrow> scan_kept L p p' \<Longrightarrow>
    port_wf L p' \<and> line_ok p' \<and> st_state p' = STATE_STARTUP \<and> cfg_auto_baudrate (st_config p') \<and>
    iolink_master_wake_retry_limit p' = limit \<and> su_baudrate_index (st_startup p') = j \<and>
    su_wake_attempts (st_startup p') = k \<and> dg_establish_failures (st_diagnostics p') = failures"
  by (auto simp: scan_at_def scan_kept_def port_kept_def iolink_master_wake_retry_limit_def intro: line_ok_kept)

text \<open>After the attempt with index \<open>j\<close> the PHY is set to the next rate, after the last one to the first.\<close>

definition rate_follows ::
  "('e \<Rightarrow> line_view) \<Rightarrow> nat \<Rightarrow> 'e iolink_master_port_state_t \<Rightarrow> 'e iolink_master_port_state_t \<Rightarrow> 'e \<Rightarrow> 'e \<Rightarrow>
   bool" where
  "rate_follows see j p p' e e' \<longleftrightarrow> st_phy p' = st_phy p \<and> st_config p' = st_config p \<and>
     (observed see p \<longrightarrow>
        see e' = tuned (g_iolink_master_baudrate_scan ! (if j < 2 then j + 1 else 0)) (see e)) \<and>
     (su_step (st_startup p') = STARTUP_STEP_INACTIVE \<or>
      su_step (st_startup p') = (if j < 2 then STARTUP_STEP_SEND_TYPE0 else STARTUP_STEP_WAKE))"

lemma on_timeout_scan:
  assumes "port_wf L p" "line_ok p" "st_state p = STATE_STARTUP" "cfg_auto_baudrate (st_config p)"
    and "su_step (st_startup p) = STARTUP_STEP_AWAIT_RESPONSE" "k < 256" "j < 3"
    and "iolink_master_wake_retry_limit p = limit" "su_baudrate_index (st_startup p) = j"
      "su_wake_attempts (st_startup p) = k" "dg_establish_failures (st_diagnostics p) = failures"
  shows "ensures (iolink_master_on_timeout p e) (\<lambda>(ret, p', e').
    (if j < 2 then ret = STATUS_PENDING \<and> scan_at L limit k (j + 1) failures p'
    else if trunc8 (k + 1) \<le> limit then ret = STATUS_PENDING \<and> scan_at L limit (trunc8 (k + 1)) 0 failures p'
    else ret = ERR_RETRY_LIMIT \<and> scan_failed L (failures + 1) p') \<and>
    rate_follows see j p p' e e')"
proof -
  obtain e1 where flush: "iolink_master_flush_rx p e = (STATUS_OK, p\<lparr>st_rx := (st_rx p)\<lparr>rx_len := 0\<rparr>\<rparr>, e1)"
    using line_ok_hooks(3) [OF assms(2)] by blast
  then have flushed: "observed see p \<Longrightarrow> see e1 = see e" using observed_hooks(3) [of see p e] by simp
  define q where "q = p\<lparr>st_rx := (st_rx p)\<lparr>rx_len := 0\<rparr>, st_awaiting_response := False\<rparr>"
  have q: "port_wf L q" "line_ok q"
    using assms(1) line_ok_kept [OF assms(2)] by (simp_all add: q_def port_wf_defs)
  have timeout: "iolink_master_on_timeout p e = iolink_master_establish_attempt_failed 0 False
      (p\<lparr>st_rx := (st_rx p)\<lparr>rx_len := 0\<rparr>\<rparr>) e1"
    using assms(3,5) flush line_ok_hooks(5) [OF assms(2)]
    by (auto simp: iolink_master_on_timeout_def iolink_master_on_timeout_at_def)
  have q_fields: "st_startup q = st_startup p" "st_config q = st_config p" "st_state q = STATE_STARTUP"
    "st_diagnostics q = st_diagnostics p" "st_phy q = st_phy p"
    using assms(3) by (simp_all add: q_def)
  have limit: "iolink_master_wake_retry_limit r = limit" if "st_config r = st_config p"
    for r :: "'a iolink_master_port_state_t"
    using that assms(8) by (auto simp: iolink_master_wake_retry_limit_def)
  note update = port_wf_defs q_fields scan_at_def scan_failed_def limit
  show ?thesis
  proof (cases "j < 2")
    case True
    define r where "r = q\<lparr>st_startup := (st_startup q)\<lparr>su_baudrate_index := j + 1\<rparr>\<rparr>"
    have r: "port_wf L r" "line_ok r"
      using q True line_ok_kept [OF q(2)] by (simp_all add: r_def update)
    have "iolink_master_startup_baudrate r = Some (g_iolink_master_baudrate_scan ! (j + 1))"
      using True assms(4) by (simp add: iolink_master_startup_baudrate_def r_def q_fields rd_def
          g_iolink_master_baudrate_scan_def)
    moreover have step: "q\<lparr>st_startup := (st_startup q)
        \<lparr>su_baudrate_index := trunc8 (su_baudrate_index (st_startup q) + 1)\<rparr>\<rparr> = r"
      using True assms(9) by (simp add: r_def q_fields)
    ultimately have "ensures (establish_next_rate 0 False q e1) (\<lambda>(ret, p', e').
        ret = STATUS_PENDING \<and> p' = r\<lparr>st_startup := (st_startup r)\<lparr>su_step := STARTUP_STEP_SEND_TYPE0\<rparr>\<rparr> \<and>
        e' = snd (iolink_master_set_baudrate (g_iolink_master_baudrate_scan ! (j + 1)) r e1))"
      using line_ok_hooks(2) [OF r(2)] unfolding establish_next_rate_def Let_def step
      by (simp add: case_prod_unfold iolink_master_arm_send_gate_def)
    moreover have "scan_at L limit k (j + 1) failures (r\<lparr>st_startup := (st_startup r)\<lparr>su_step := STARTUP_STEP_SEND_TYPE0\<rparr>\<rparr>)"
      using assms r line_ok_kept [OF r(2)] by (simp add: r_def update)
    moreover have "rate_follows see j p (r\<lparr>st_startup := (st_startup r)\<lparr>su_step := STARTUP_STEP_SEND_TYPE0\<rparr>\<rparr>) e
        (snd (iolink_master_set_baudrate (g_iolink_master_baudrate_scan ! (j + 1)) r e1))"
      using True flushed observed_hooks(2) [of see r] observed_kept [of see p r]
      by (simp add: rate_follows_def r_def q_def)
    ultimately show ?thesis
      using True assms(4,9) unfolding timeout
      by (auto simp: iolink_master_establish_attempt_failed_def last_rate q_def [symmetric] q_fields elim!: ensures_mono)
  next
    case False
    define r where "r = q\<lparr>st_startup := (st_startup q)\<lparr>su_baudrate_index := 0, su_wake_attempts := trunc8 (k + 1)\<rparr>\<rparr>"
    have r: "port_wf L r" "line_ok r"
      using q line_ok_kept [OF q(2)] by (simp_all add: r_def update)
    have "iolink_master_startup_baudrate r = Some BAUDRATE_COM3"
      using assms(4) by (simp add: iolink_master_startup_baudrate_def r_def q_fields rd_def
          g_iolink_master_baudrate_scan_def)
    moreover have "q\<lparr>st_startup := (st_startup q)\<lparr>su_wake_attempts := trunc8 (k + 1)\<rparr>,
        st_startup := (st_startup q)\<lparr>su_wake_attempts := trunc8 (k + 1), su_baudrate_index := 0\<rparr>\<rparr> = r"
      by (simp add: r_def)
    ultimately have "ensures (iolink_master_reset_rate_scan
        (q\<lparr>st_startup := (st_startup q)\<lparr>su_wake_attempts := trunc8 (k + 1)\<rparr>\<rparr>) e1)
        (\<lambda>(ret, p', e'). ret = STATUS_OK \<and> p' = r \<and> e' = snd (iolink_master_set_baudrate BAUDRATE_COM3 r e1))"
      using False assms(4,9) line_ok_hooks(2) [OF r(2)]
      by (simp add: iolink_master_reset_rate_scan_def Let_def case_prod_unfold q_fields)
    then obtain e2 where reset: "iolink_master_reset_rate_scan
        (q\<lparr>st_startup := (st_startup q)\<lparr>su_wake_attempts := trunc8 (k + 1)\<rparr>\<rparr>) e1 = Some (STATUS_OK, r, e2)"
      "e2 = snd (iolink_master_set_baudrate BAUDRATE_COM3 r e1)"
      by (auto elim!: ensuresE)
    have failed: "iolink_master_establish_attempt_failed 0 False (p\<lparr>st_rx := (st_rx p)\<lparr>rx_len := 0\<rparr>\<rparr>) e1 =
       (if trunc8 (k + 1) \<le> limit
        then Some (STATUS_PENDING, r\<lparr>st_startup := (st_startup r)\<lparr>su_step := STARTUP_STEP_WAKE\<rparr>\<rparr>, e2)
        else Some (establish_sequence_failed 0 False r e2))"
      using False assms(4,8-10) reset(1)
      by (simp add: iolink_master_establish_attempt_failed_def last_rate q_def [symmetric] Let_def q_fields
          iolink_master_arm_send_gate_def) (simp add: r_def limit q_fields)
    have "scan_at L limit (trunc8 (k + 1)) 0 failures (r\<lparr>st_startup := (st_startup r)\<lparr>su_step := STARTUP_STEP_WAKE\<rparr>\<rparr>)"
      using assms r line_ok_kept [OF r(2)] by (simp add: r_def update)
    moreover define f where "f = r\<lparr>st_startup := (st_startup r)\<lparr>su_wake_attempts := 0\<rparr>,
      st_diagnostics := (st_diagnostics r)\<lparr>dg_establish_failures := dg_establish_failures (st_diagnostics r) + 1\<rparr>\<rparr>"
    moreover have "line_ok f" using line_ok_kept [OF r(2)] by (simp add: f_def)
    moreover have "scan_failed L (failures + 1) (f\<lparr>st_startup := (st_startup f)\<lparr>su_step := STARTUP_STEP_INACTIVE\<rparr>\<rparr>)"
      using assms r by (simp add: f_def r_def update)
    moreover have "observed see p \<Longrightarrow> see e2 = tuned (g_iolink_master_baudrate_scan ! 0) (see e)"
      using flushed observed_hooks(2) [of see r] observed_kept [of see p r]
      by (simp add: reset(2) g_iolink_master_baudrate_scan_def) (simp add: r_def q_def)
    moreover have "observed see p \<Longrightarrow> see (snd (iolink_master_set_mode PHY_MODE_INACTIVE f e2)) = see e2"
      using observed_hooks(1) [of see f] observed_kept [of see p f] by (simp add: f_def r_def q_def)
    moreover have "st_phy r = st_phy p" "st_config r = st_config p" "st_phy f = st_phy p" "st_config f = st_config p"
      by (simp_all add: f_def r_def q_def)
    ultimately show ?thesis
      using False line_ok_hooks(1) [of f PHY_MODE_INACTIVE e2] unfolding timeout failed rate_follows_def
      by (simp add: establish_sequence_failed_def Let_def case_prod_unfold f_def [symmetric]
          iolink_master_arm_send_gate_def)
  qed
qed

lemma attempt_step:
  assumes L: "type0_frames_ok L" and scan: "scan_at L limit k j failures p" and "k < 256" "j < 3"
  shows "ensures (attempt L p e) (\<lambda>(ret, p', e').
    (if j < 2 then ret = STATUS_PENDING \<and> scan_at L limit k (j + 1) failures p'
     else if trunc8 (k + 1) \<le> limit then ret = STATUS_PENDING \<and> scan_at L limit (trunc8 (k + 1)) 0 failures p'
     else ret = ERR_RETRY_LIMIT \<and> scan_failed L (failures + 1) p') \<and>
    (\<exists>e1. rate_follows see j p p' e1 e' \<and> (observed see p \<longrightarrow> see e1 = signalled (Message (test_message L))
      (if su_step (st_startup p) = STARTUP_STEP_WAKE then signalled (wake_signal p) (see e) else see e))))"
proof -
  have "ensures (do { (p, e) \<leftarrow> iolink_master_process L p e; iolink_master_process L p e })
    (\<lambda>(p', e'). scan_kept L p p' \<and> su_step (st_startup p') = STARTUP_STEP_AWAIT_RESPONSE \<and>
      (observed see p \<longrightarrow> see e' = signalled (Message (test_message L))
        (if su_step (st_startup p) = STARTUP_STEP_WAKE then signalled (wake_signal p) (see e) else see e)))"
    using scan by (intro process_to_test_message [OF L]) (auto simp: scan_at_def)
  then obtain p1 e1 where sent: "do { (p, e) \<leftarrow> iolink_master_process L p e; iolink_master_process L p e } = Some (p1, e1)"
    "scan_kept L p p1" "su_step (st_startup p1) = STARTUP_STEP_AWAIT_RESPONSE"
    "observed see p \<longrightarrow> see e1 = signalled (Message (test_message L))
      (if su_step (st_startup p) = STARTUP_STEP_WAKE then signalled (wake_signal p) (see e) else see e)"
    by (auto elim: ensuresE)
  have "ensures (iolink_master_on_timeout p1 e1) (\<lambda>(ret, p', e').
    (if j < 2 then ret = STATUS_PENDING \<and> scan_at L limit k (j + 1) failures p'
     else if trunc8 (k + 1) \<le> limit then ret = STATUS_PENDING \<and> scan_at L limit (trunc8 (k + 1)) 0 failures p'
     else ret = ERR_RETRY_LIMIT \<and> scan_failed L (failures + 1) p') \<and> rate_follows see j p1 p' e1 e')"
    using scan_at_kept [OF scan sent(2)] assms(3,4) sent(3) by (intro on_timeout_scan) simp_all
  moreover have "attempt L p e = iolink_master_on_timeout p1 e1"
    using sent(1) by (cases "iolink_master_process L p e") (auto simp: attempt_def)
  moreover have "rate_follows see j p1 p' e1 e' \<Longrightarrow> rate_follows see j p p' e1 e'" for p' e'
    using sent(2) observed_kept [of see p p1] by (auto simp: rate_follows_def scan_kept_def port_kept_def)
  ultimately show ?thesis
    using sent(4) unfolding split_def by (elim ensures_mono ssubst) (blast intro: conjI)
qed

lemma attempt_outcome:
  assumes "type0_frames_ok L" and "scan_at L limit k j failures p" and "k < 256" "j < 3"
  shows "ensures (attempt L p e) (\<lambda>(ret, p', e').
    if j < 2 then ret = STATUS_PENDING \<and> scan_at L limit k (j + 1) failures p'
    else if trunc8 (k + 1) \<le> limit then ret = STATUS_PENDING \<and> scan_at L limit (trunc8 (k + 1)) 0 failures p'
    else ret = ERR_RETRY_LIMIT \<and> scan_failed L (failures + 1) p')"
  by (rule ensures_mono [OF attempt_step [OF assms, where see = "\<lambda>_. (BAUDRATE_COM3, [])"]]) auto

subsection \<open>The scan\<close>

fun attempts ::
  "iolinki \<Rightarrow> nat \<Rightarrow> 'e iolink_master_port_state_t \<Rightarrow> 'e \<Rightarrow>
   (int list \<times> 'e iolink_master_port_state_t \<times> 'e) option" where
  "attempts L 0 p e = Some ([], p, e)"
| "attempts L (Suc n) p e = do {
     (outcome, p, e) \<leftarrow> attempt L p e;
     (outcomes, p, e) \<leftarrow> attempts L n p e;
     Some (outcome # outcomes, p, e) }"

text \<open>
  The scan with its observer: \<open>log\<close> has left the PHY so far, the PHY is at the rate the next
  attempt is for, and the wake-up request is still to be sent before the first of the rates.
\<close>

definition scan_on ::
  "('e \<Rightarrow> line_view) \<Rightarrow> signal \<Rightarrow> iolinki \<Rightarrow> nat \<Rightarrow> nat \<Rightarrow> nat \<Rightarrow> u32 \<Rightarrow> (iolink_baudrate_t \<times> signal) list \<Rightarrow>
   'e iolink_master_port_state_t \<Rightarrow> 'e \<Rightarrow> bool" where
  "scan_on see w L limit k j failures log p e \<longleftrightarrow> scan_at L limit k j failures p \<and> observed see p \<and>
     wake_signal p = w \<and> see e = (g_iolink_master_baudrate_scan ! j, log) \<and>
     su_step (st_startup p) = (if j = 0 then STARTUP_STEP_WAKE else STARTUP_STEP_SEND_TYPE0)"

definition round_signals :: "iolinki \<Rightarrow> signal \<Rightarrow> (iolink_baudrate_t \<times> signal) list" where
  "round_signals L w =
     [(BAUDRATE_COM3, w), (BAUDRATE_COM3, Message (test_message L)),
      (BAUDRATE_COM2, Message (test_message L)), (BAUDRATE_COM1, Message (test_message L))]"

lemma attempt_on:
  assumes L: "type0_frames_ok L" and scan: "scan_on see w L limit k j failures log p e" and "k < 256" "j < 3"
  defines "log' \<equiv> log @ (if j = 0 then [(BAUDRATE_COM3, w)] else []) @
    [(g_iolink_master_baudrate_scan ! j, Message (test_message L))]"
  shows "ensures (attempt L p e) (\<lambda>(ret, p', e').
    if j < 2 then ret = STATUS_PENDING \<and> scan_on see w L limit k (j + 1) failures log' p' e'
    else if trunc8 (k + 1) \<le> limit
    then ret = STATUS_PENDING \<and> scan_on see w L limit (trunc8 (k + 1)) 0 failures log' p' e'
    else ret = ERR_RETRY_LIMIT \<and> scan_failed L (failures + 1) p' \<and> snd (see e') = log')"
proof -
  have start: "scan_at L limit k j failures p" using scan by (simp add: scan_on_def)
  have on: "see e' = (g_iolink_master_baudrate_scan ! (if j < 2 then j + 1 else 0), log') \<and>
      observed see p' \<and> wake_signal p' = w"
    if "rate_follows see j p p' e1 e'" "see e1 = signalled (Message (test_message L))
      (if su_step (st_startup p) = STARTUP_STEP_WAKE then signalled (wake_signal p) (see e) else see e)" for p' e1 e'
    using that scan observed_kept [of see p p']
    by (auto simp: rate_follows_def scan_on_def signalled_def tuned_def log'_def wake_signal_def
        g_iolink_master_baudrate_scan_def)
  have step: "su_step (st_startup p') = (if j < 2 then STARTUP_STEP_SEND_TYPE0 else STARTUP_STEP_WAKE)"
    if "rate_follows see j p p' e1 e'" "scan_at L limit k' j' failures p'" for p' e1 e' k' j'
    using that by (auto simp: rate_follows_def scan_at_def)
  show ?thesis
  proof (rule ensures_mono [OF attempt_step [OF L start assms(3,4), where see = see]], clarify)
    fix ret p' e' e1
    assume follows: "rate_follows see j p p' e1 e'"
      and sent: "observed see p \<longrightarrow> see e1 = signalled (Message (test_message L))
        (if su_step (st_startup p) = STARTUP_STEP_WAKE then signalled (wake_signal p) (see e) else see e)"
      and outcome: "if j < 2 then ret = STATUS_PENDING \<and> scan_at L limit k (j + 1) failures p'
        else if trunc8 (k + 1) \<le> limit then ret = STATUS_PENDING \<and> scan_at L limit (trunc8 (k + 1)) 0 failures p'
        else ret = ERR_RETRY_LIMIT \<and> scan_failed L (failures + 1) p'"
    have "see e1 = signalled (Message (test_message L))
        (if su_step (st_startup p) = STARTUP_STEP_WAKE then signalled (wake_signal p) (see e) else see e)"
      using sent scan by (simp add: scan_on_def)
    from on [OF follows this] step [OF follows] outcome
    show "if j < 2 then ret = STATUS_PENDING \<and> scan_on see w L limit k (j + 1) failures log' p' e'
      else if trunc8 (k + 1) \<le> limit
      then ret = STATUS_PENDING \<and> scan_on see w L limit (trunc8 (k + 1)) 0 failures log' p' e'
      else ret = ERR_RETRY_LIMIT \<and> scan_failed L (failures + 1) p' \<and> snd (see e') = log'"
      by (auto simp: scan_on_def split: if_splits)
  qed
qed

text \<open>One wake-up request: the three rates in turn, and then what follows it.\<close>

lemma wake_up_round:
  assumes L: "type0_frames_ok L" and scan: "scan_on see w L limit k 0 failures log p e" and "k < 256"
    and pending: "trunc8 (k + 1) \<le> limit \<Longrightarrow>
      (\<And>p e. scan_on see w L limit (trunc8 (k + 1)) 0 failures (log @ round_signals L w) p e \<Longrightarrow>
      ensures (attempts L n p e) (Q STATUS_PENDING))"
    and failed: "\<not> trunc8 (k + 1) \<le> limit \<Longrightarrow> (\<And>p e. scan_failed L (failures + 1) p \<Longrightarrow>
      snd (see e) = log @ round_signals L w \<Longrightarrow> ensures (attempts L n p e) (Q ERR_RETRY_LIMIT))"
  shows "ensures (attempts L (Suc (Suc (Suc n))) p e) (\<lambda>(outcomes, p', e'). \<exists>ret rest.
    outcomes = [STATUS_PENDING, STATUS_PENDING, ret] @ rest \<and>
    ret = (if trunc8 (k + 1) \<le> limit then STATUS_PENDING else ERR_RETRY_LIMIT) \<and> Q ret (rest, p', e'))"
proof -
  let ?test = "Message (test_message L)"
  obtain p1 e1 where 1: "attempt L p e = Some (STATUS_PENDING, p1, e1)"
    "scan_on see w L limit k 1 failures (log @ [(BAUDRATE_COM3, w), (BAUDRATE_COM3, ?test)]) p1 e1"
    using attempt_on [OF L scan assms(3)]
    by (auto simp: g_iolink_master_baudrate_scan_def elim!: ensuresE)
  obtain p2 e2 where 2: "attempt L p1 e1 = Some (STATUS_PENDING, p2, e2)"
    "scan_on see w L limit k 2 failures
      (log @ [(BAUDRATE_COM3, w), (BAUDRATE_COM3, ?test), (BAUDRATE_COM2, ?test)]) p2 e2"
    using attempt_on [OF L 1(2) assms(3)]
    by (auto simp: g_iolink_master_baudrate_scan_def numeral_2_eq_2 elim!: ensuresE)
  obtain p3 e3 where 3: "attempt L p2 e2 = Some
      (if trunc8 (k + 1) \<le> limit then STATUS_PENDING else ERR_RETRY_LIMIT, p3, e3)"
    "if trunc8 (k + 1) \<le> limit then scan_on see w L limit (trunc8 (k + 1)) 0 failures (log @ round_signals L w) p3 e3
     else scan_failed L (failures + 1) p3 \<and> snd (see e3) = log @ round_signals L w"
    using attempt_on [OF L 2(2) assms(3)]
    by (auto simp: g_iolink_master_baudrate_scan_def round_signals_def split: if_splits elim!: ensuresE)
  have "ensures (attempts L n p3 e3) (Q (if trunc8 (k + 1) \<le> limit then STATUS_PENDING else ERR_RETRY_LIMIT))"
    using 3(2) pending failed by (auto split: if_splits)
  then show ?thesis
    by (auto simp: 1(1) 2(1) 3(1) ensures_simps elim!: ensures_mono)
qed

lemma scan_outcomes:
  assumes L: "type0_frames_ok L" and "limit < 255"
  shows "scan_on see w L limit k 0 failures log p e \<Longrightarrow> limit = k + m \<Longrightarrow>
    ensures (attempts L (3 * m + 3) p e) (\<lambda>(outcomes, p', e').
      outcomes = replicate (3 * m + 2) STATUS_PENDING @ [ERR_RETRY_LIMIT] \<and>
      snd (see e') = log @ concat (replicate (m + 1) (round_signals L w)) \<and>
      scan_failed L (failures + 1) p')"
proof (induction m arbitrary: k log p e)
  case 0
  then have "\<not> trunc8 (k + 1) \<le> limit" using assms(2) by (simp add: trunc8_def)
  with wake_up_round [OF L 0(1), of 0 "\<lambda>_ (rest, p', e'). rest = [] \<and> scan_failed L (failures + 1) p' \<and>
      snd (see e') = log @ round_signals L w"] 0 assms(2)
  show ?case
    by (auto simp: numeral_3_eq_3 numeral_2_eq_2 elim!: ensures_mono)
next
  case (Suc m)
  then have k: "trunc8 (k + 1) = k + 1" "k + 1 \<le> limit" using assms(2) by (simp_all add: trunc8_def)
  let ?Q = "\<lambda>outcomes p' e'. outcomes = replicate (3 * m + 2) STATUS_PENDING @ [ERR_RETRY_LIMIT] \<and>
      snd (see e') = log @ round_signals L w @ concat (replicate (m + 1) (round_signals L w)) \<and>
      scan_failed L (failures + 1) p'"
  have "ensures (attempts L (Suc (Suc (Suc (3 * m + 3)))) p e) (\<lambda>(outcomes, p', e'). \<exists>ret rest.
    outcomes = [STATUS_PENDING, STATUS_PENDING, ret] @ rest \<and>
    ret = (if trunc8 (k + 1) \<le> limit then STATUS_PENDING else ERR_RETRY_LIMIT) \<and> ?Q rest p' e')"
  proof (intro ensures_mono [OF wake_up_round [OF L Suc.prems(1), where n = "3 * m + 3" and
        Q = "\<lambda>_ (rest, p', e'). ?Q rest p' e'"]])
    show "k < 256" using Suc.prems(2) assms(2) by simp
  next
    fix p e
    assume "scan_on see w L limit (trunc8 (k + 1)) 0 failures (log @ round_signals L w) p e"
    then have "ensures (attempts L (3 * m + 3) p e) (\<lambda>(outcomes, p', e').
        outcomes = replicate (3 * m + 2) STATUS_PENDING @ [ERR_RETRY_LIMIT] \<and>
        snd (see e') = (log @ round_signals L w) @ concat (replicate (m + 1) (round_signals L w)) \<and>
        scan_failed L (failures + 1) p')"
      unfolding k(1) by (rule Suc.IH) (simp add: Suc.prems(2))
    then show "ensures (attempts L (3 * m + 3) p e) (\<lambda>(rest, p', e'). ?Q rest p' e')" by simp
  qed (use k in auto)
  moreover have "3 * Suc m + 3 = Suc (Suc (Suc (3 * m + 3)))" by simp
  moreover have "replicate (5 + n) x = x # x # x # x # x # replicate n x" for n and x :: int
    by (simp add: numeral_eq_Suc)
  ultimately show ?case
    using k by (auto elim!: ensures_mono)
qed

lemma demo_line_ok: "line_ok p" if "st_phy p = Some demo_phy" "st_config p = demo_config"
  using that by (simp add: line_ok_def demo_phy_def demo_send_def demo_config_def zero_config_def hook_ok_def)

lemma demo_frames: "type0_frames_ok demo_stack"
  by (simp add: type0_frames_ok_def demo_stack_def demo_encode_type0_def demo_encode_type0_write_def message_def)

lemma demo_scan: "scan_at demo_stack 2 0 0 0 demo_port"
  using demo_port_wf demo_line_ok [of demo_port]
  by (simp add: scan_at_def demo_port_def demo_config_def zero_config_def zero_port_def zero_diagnostics_def
      iolink_master_wake_retry_limit_def)

text \<open>A PHY that shows the rate it is set to and what it sends, and on which nobody answers.\<close>

definition silent_phy :: "line_view iolink_phy_api_t" where
  "silent_phy =
     \<lparr>phy_init = None, phy_set_mode = None, phy_set_baudrate = Some tuned,
      phy_send = Some (\<lambda>data e. (int (length data), signalled (Message data) e)),
      phy_recv_byte = Some (\<lambda>e. (0, 0, e)), phy_set_cq_line = None, phy_get_voltage_mv = None,
      phy_is_short_circuit = None\<rparr>"

definition silent_port :: "line_view iolink_master_port_state_t" where
  "silent_port = initial_port demo_stack silent_phy (zero_config\<lparr>cfg_auto_baudrate := True\<rparr>)"

text \<open>
  C15. A line without a device is scanned completely and then reported. Each of the
  \<open>limit + 1\<close> wake-up requests leaves the PHY at COM3 and is followed by the test message at COM3,
  COM2 and COM1, in this order, and nothing else is sent; the rates are those the PHY is set to.
  Every unanswered message but the last is reported as pending, and the last one ends the sequence
  with the retry limit, counts one failed establishment and leaves the port inactive, ready for
  the next sequence.
\<close>

theorem silent_line_reported:
  assumes "type0_frames_ok L" and "scan_at L limit 0 0 failures p" and "limit < 255"
    and "su_step (st_startup p) = STARTUP_STEP_WAKE" and "observed see p" and "fst (see e) = BAUDRATE_COM3"
  shows "ensures (attempts L (3 * (limit + 1)) p e) (\<lambda>(outcomes, p', e').
      outcomes = replicate (3 * limit + 2) STATUS_PENDING @ [ERR_RETRY_LIMIT] \<and>
      snd (see e') = snd (see e) @ concat (replicate (limit + 1)
        [(BAUDRATE_COM3, wake_signal p), (BAUDRATE_COM3, Message (test_message L)),
         (BAUDRATE_COM2, Message (test_message L)), (BAUDRATE_COM1, Message (test_message L))]) \<and>
      scan_failed L (failures + 1) p')"
proof -
  have "scan_on see (wake_signal p) L limit 0 0 failures (snd (see e)) p e"
    using assms by (simp add: scan_on_def prod_eq_iff g_iolink_master_baudrate_scan_def)
  from scan_outcomes [OF assms(1,3) this, of limit] show ?thesis
    by (simp add: round_signals_def algebra_simps)
qed

theorem silent_line_reported_witness:
  "ensures (attempts demo_stack 9 silent_port (BAUDRATE_COM3, [])) (\<lambda>(outcomes, p', e').
     outcomes = [1, 1, 1, 1, 1, 1, 1, 1, ERR_RETRY_LIMIT] \<and> scan_failed demo_stack 1 p' \<and>
     take 4 (snd e') = [(BAUDRATE_COM3, Message [0x55]), (BAUDRATE_COM3, Message (test_message demo_stack)),
       (BAUDRATE_COM2, Message (test_message demo_stack)), (BAUDRATE_COM1, Message (test_message demo_stack))])"
proof -
  have fields: "st_phy silent_port = Some silent_phy"
    "st_config silent_port = zero_config\<lparr>cfg_auto_baudrate := True\<rparr>" "st_state silent_port = STATE_STARTUP"
    by (simp_all add: silent_port_def initial_port_def Let_def zero_config_def)
  have "port_wf demo_stack silent_port"
    unfolding silent_port_def
    by (rule initial_port_wf [OF demo_stack_constants])
      (simp add: init_args_ok_def silent_phy_def zero_config_def)
  moreover have "line_ok silent_port"
    by (simp add: line_ok_def fields silent_phy_def zero_config_def hook_ok_def)
  ultimately have "scan_at demo_stack 2 0 0 0 silent_port"
    by (simp add: scan_at_def silent_port_def initial_port_def Let_def zero_config_def zero_port_def
        zero_diagnostics_def iolink_master_wake_retry_limit_def)
  moreover have "observed (\<lambda>e. e) silent_port"
    by (simp add: observed_def fields silent_phy_def zero_config_def unseen_def)
  moreover have "su_step (st_startup silent_port) = STARTUP_STEP_WAKE" "wake_signal silent_port = Message [0x55]"
    by (simp_all add: silent_port_def initial_port_def Let_def zero_port_def wake_signal_def zero_config_def)
  ultimately show ?thesis
    using silent_line_reported [OF demo_frames, of 2 0 silent_port "\<lambda>e. e" "(BAUDRATE_COM3, [])"]
    by (auto simp: numeral_eq_Suc elim!: ensures_mono)
qed

text \<open>
  C38. With the largest retry limit, 255, the 8-bit count of failed wake-up requests wraps
  before it can exceed the limit: however long nobody answers, the failure is never reported.
\<close>

theorem retry_limit_255_never_reported:
  assumes "type0_frames_ok L" and "scan_at L 255 k j failures p" and "k < 256" and "j < 3"
  shows "ensures (attempts L n p e) (\<lambda>(outcomes, p', e').
      length outcomes = n \<and> set outcomes \<subseteq> {STATUS_PENDING} \<and>
      dg_establish_failures (st_diagnostics p') = failures)"
  using assms(2-4)
proof (induction n arbitrary: k j p e)
  case 0
  then show ?case by (simp add: scan_at_def)
next
  case (Suc n)
  have "trunc8 (k + 1) < 256" "trunc8 (k + 1) \<le> 255" by (simp_all add: trunc8_def)
  then obtain p1 e1 k1 j1 where 1: "attempt L p e = Some (STATUS_PENDING, p1, e1)"
    "scan_at L 255 k1 j1 failures p1" "k1 < 256" "j1 < 3"
    using attempt_outcome [OF assms(1) Suc.prems(1-3), of e] Suc.prems
    by (auto split: if_splits elim!: ensuresE)
  from Suc.IH [OF 1(2-4), of e1] show ?case
    by (auto simp: 1(1) ensures_simps elim!: ensures_mono)
qed

theorem retry_limit_255_never_reported_witness:
  "ensures (attempts demo_stack 1000 (demo_port\<lparr>st_config := demo_config\<lparr>cfg_wake_retry_limit := 255\<rparr>\<rparr>) ([], []))
     (\<lambda>(outcomes, p', e'). ERR_RETRY_LIMIT \<notin> set outcomes)"
proof -
  let ?p = "demo_port\<lparr>st_config := demo_config\<lparr>cfg_wake_retry_limit := 255\<rparr>\<rparr>"
  have "line_ok ?p"
    by (simp add: line_ok_def demo_port_def demo_phy_def demo_send_def demo_config_def zero_config_def hook_ok_def)
  then have "scan_at demo_stack 255 0 0 0 ?p"
    using demo_port_wf
    by (simp add: scan_at_def demo_port_def demo_config_def zero_config_def zero_port_def zero_diagnostics_def
        iolink_master_wake_retry_limit_def port_wf_defs)
  from retry_limit_255_never_reported [OF demo_frames this, of 1000 "([], [])"] show ?thesis
    by (auto elim!: ensures_mono)
qed

end
