(* ===== verification/MasterLine.thy ===== *)
theory MasterLine
  imports MasterEstablish
begin

text \<open>
  A port on a line: how the octets that have arrived become a reply, and what an untimed
  call of \<open>iolink_master_process\<close> puts on the line in each state, for an arbitrary PHY and an
  arbitrary environment (\<open>src/master_port.c\<close>, lines 916-1283). The theories about a port and
  a device instantiate the PHY.
\<close>

subsection \<open>Reception\<close>

text \<open>
  \<open>consumes recv xs e e'\<close>: the PHY delivers the octets \<open>xs\<close> one after the other, and the
  environment is then \<open>e'\<close>; \<open>drained recv e\<close>: nothing more has arrived.
\<close>

fun consumes :: "('e \<Rightarrow> int \<times> u8 \<times> 'e) \<Rightarrow> u8 list \<Rightarrow> 'e \<Rightarrow> 'e \<Rightarrow> bool" where
  "consumes recv [] e e' \<longleftrightarrow> e' = e"
| "consumes recv (x # xs) e e' \<longleftrightarrow> (\<exists>e1. recv e = (1, x, e1) \<and> consumes recv xs e1 e')"

definition drained :: "('e \<Rightarrow> int \<times> u8 \<times> 'e) \<Rightarrow> 'e \<Rightarrow> bool" where
  "drained recv e \<longleftrightarrow> (\<exists>x. recv e = (0, x, e))"

lemma consumes_append:
  "consumes recv (xs @ ys) e e' \<longleftrightarrow> (\<exists>e1. consumes recv xs e e1 \<and> consumes recv ys e1 e')"
  by (induction xs arbitrary: e) auto

text \<open>The octets \<open>xs\<close> have been stored behind those already in the receive buffer.\<close>

fun rx_store ::
  "u8 list \<Rightarrow> 'e iolink_master_port_state_t \<Rightarrow> 'e iolink_master_port_state_t" where
  "rx_store [] p = p"
| "rx_store (x # xs) p = rx_store xs (p\<lparr>st_rx := \<lparr>rx_buf = (rx_buf (st_rx p))[rx_len (st_rx p) := x],
     rx_len = rx_len (st_rx p) + 1\<rparr>\<rparr>)"

lemma rx_store_fields [simp]:
  "rx_len (st_rx (rx_store xs p)) = rx_len (st_rx p) + length xs"
  "length (rx_buf (st_rx (rx_store xs p))) = length (rx_buf (st_rx p))"
  "st_phy (rx_store xs p) = st_phy p" "st_config (rx_store xs p) = st_config p"
  "st_state (rx_store xs p) = st_state p" "st_startup (rx_store xs p) = st_startup p"
  by (induction xs arbitrary: p) simp_all

lemma rx_store_rest: "rx_store xs p = p\<lparr>st_rx := st_rx (rx_store xs p)\<rparr>"
proof (induction xs arbitrary: p)
  case (Cons x xs)
  show ?case unfolding rx_store.simps by (subst Cons.IH) simp
qed simp

lemma rx_store_prefix:
  "rx_len (st_rx p) + length xs \<le> length (rx_buf (st_rx p)) \<Longrightarrow>
   take (rx_len (st_rx p) + length xs) (rx_buf (st_rx (rx_store xs p))) =
     take (rx_len (st_rx p)) (rx_buf (st_rx p)) @ xs"
proof (induction xs arbitrary: p)
  case (Cons x xs)
  let ?q = "p\<lparr>st_rx := \<lparr>rx_buf = (rx_buf (st_rx p))[rx_len (st_rx p) := x], rx_len = rx_len (st_rx p) + 1\<rparr>\<rparr>"
  have "take (rx_len (st_rx ?q) + length xs) (rx_buf (st_rx (rx_store xs ?q))) =
      take (rx_len (st_rx ?q)) (rx_buf (st_rx ?q)) @ xs"
    using Cons.prems by (intro Cons.IH) simp
  then show ?case using Cons.prems by (simp add: take_Suc_conv_app_nth)
qed simp

lemma rx_expected_store [simp]: "rx_expected_len L (rx_store xs p) = rx_expected_len L p"
proof -
  have "rx_expected_len L (p\<lparr>st_rx := r\<rparr>) = rx_expected_len L p" for r
    by (simp add: rx_expected_len_def type0_operate_def)
  then show ?thesis by (metis rx_store_rest)
qed

text \<open>Octets that do not complete a reply are stored.\<close>

lemma poll_consumes:
  assumes "consumes recv xs e e'"
  shows "rx_len (st_rx p) + length xs < n \<Longrightarrow> n \<le> 64 \<Longrightarrow> length (rx_buf (st_rx p)) = 64 \<Longrightarrow>
   poll_loop L recv n frames p e = poll_loop L recv n frames (rx_store xs p) e'"
  using assms
proof (induction xs arbitrary: p e)
  case (Cons x xs)
  then obtain e1 where e1: "recv e = (1, x, e1)" "consumes recv xs e1 e'" by auto
  have "rx_octet L n x frames p e1 = Some (Inr frames,
      p\<lparr>st_rx := \<lparr>rx_buf = (rx_buf (st_rx p))[rx_len (st_rx p) := x], rx_len = rx_len (st_rx p) + 1\<rparr>\<rparr>, e1)"
    using Cons.prems by (simp add: rx_octet_def wr_def trunc8_def)
  then show ?case
    using Cons e1 by (subst poll_loop.simps) simp
qed simp

text \<open>A reply that is complete is handed to the state machine, without its buffer.\<close>

lemma poll_completes:
  assumes "consumes recv (xs @ [x]) e e'" "rx_len (st_rx p) + length xs + 1 = n" "n \<le> 64"
    and "length (rx_buf (st_rx p)) = 64"
  shows "poll_loop L recv n frames p e = do {
     (ret, p, e) \<leftarrow> iolink_master_on_rx L (Some (take (rx_len (st_rx p)) (rx_buf (st_rx p)) @ xs @ [x]))
       (rx_store (xs @ [x]) p) e';
     if ret \<noteq> 0 then Some (ret, rx_clear p, e) else poll_loop L recv n (frames + 1) (rx_clear p) e }"
proof -
  obtain e1 where e1: "consumes recv xs e e1" "recv e1 = (1, x, e')"
    using assms(1) by (auto simp: consumes_append)
  let ?q = "rx_store xs p"
  have store: "rx_store (xs @ [x]) p = ?q\<lparr>st_rx := \<lparr>rx_buf = (rx_buf (st_rx ?q))[rx_len (st_rx ?q) := x],
      rx_len = rx_len (st_rx ?q) + 1\<rparr>\<rparr>"
    by (induction xs arbitrary: p) simp_all
  have buf: "take n (rx_buf (st_rx (rx_store (xs @ [x]) p))) = take (rx_len (st_rx p)) (rx_buf (st_rx p)) @ xs @ [x]"
    using rx_store_prefix [of p "xs @ [x]"] assms by (simp add: add.assoc)
  have "rx_octet L n x frames ?q e' = do {
      (ret, p, e) \<leftarrow> iolink_master_on_rx L (Some (take n (rx_buf (st_rx (rx_store (xs @ [x]) p)))))
        (rx_store (xs @ [x]) p) e';
      Some (if ret \<noteq> 0 then Inl ret else Inr (frames + 1), rx_clear p, e) }"
    using assms store by (simp add: rx_octet_def wr_def trunc8_def rd_slice_def)
  then show ?thesis
    using poll_consumes [OF e1(1), of p n L frames] e1(2) assms unfolding buf
    by (simp add: poll_loop.simps [of L recv n frames ?q] split: Option.bind_splits)
qed

subsection \<open>Ports on a line\<close>

text \<open>A port without PHY adapter hooks that has nothing in flight.\<close>

definition attached ::
  "iolinki \<Rightarrow> 'e iolink_phy_api_t \<Rightarrow> 'e iolink_master_port_state_t \<Rightarrow> bool" where
  "attached L phy p \<longleftrightarrow> port_wf L p \<and> st_phy p = Some phy \<and>
     cfg_prepare_tx (st_config p) = None \<and> cfg_prepare_rx (st_config p) = None \<and>
     cfg_wake_up (st_config p) = None \<and> rx_len (st_rx p) = 0 \<and> \<not> st_awaiting_response p"

text \<open>Nothing is requested of the event engine and of the ISDU engine.\<close>

definition services_idle :: "'e iolink_master_port_state_t \<Rightarrow> bool" where
  "services_idle p \<longleftrightarrow> ev_phase (st_event p) = EVENT_PHASE_NONE \<and> isdu_op (st_isdu p) = ISDU_OP_NONE \<and>
     \<not> isdu_abort_pending (st_isdu p) \<and> \<not> isdu_idle_pending (st_isdu p)"

lemma attached_updates [simp]:
  "attached L phy (p\<lparr>st_rx_od_expected := b\<rparr>) = attached L phy p"
  "attached L phy (p\<lparr>st_state := s\<rparr>) = attached L phy p"
  "su_baudrate_index su = su_baudrate_index (st_startup p) \<Longrightarrow>
     attached L phy (p\<lparr>st_startup := su\<rparr>) = attached L phy p"
  "attached L phy (p\<lparr>st_diagnostics := d\<rparr>) = attached L phy p"
  "attached L phy (p\<lparr>st_device_info := info\<rparr>) = attached L phy p"
  "attached L phy (p\<lparr>st_pd_valid := b\<rparr>) = attached L phy p"
  "attached L phy (p\<lparr>st_cycle_count := c\<rparr>) = attached L phy p"
  by (simp_all add: attached_def port_wf_defs)

lemma services_idle_updates [simp]:
  "services_idle (p\<lparr>st_rx := r\<rparr>) = services_idle p" "services_idle (p\<lparr>st_state := s\<rparr>) = services_idle p"
  "services_idle (p\<lparr>st_startup := su\<rparr>) = services_idle p" "services_idle (p\<lparr>st_diagnostics := d\<rparr>) = services_idle p"
  "services_idle (p\<lparr>st_device_info := info\<rparr>) = services_idle p" "services_idle (p\<lparr>st_pd_valid := b\<rparr>) = services_idle p"
  "services_idle (p\<lparr>st_rx_od_expected := b\<rparr>) = services_idle p" "services_idle (p\<lparr>st_cycle_count := c\<rparr>) = services_idle p"
  "services_idle (p\<lparr>st_tx_buf := tx\<rparr>) = services_idle p"
  "services_idle (p\<lparr>st_pd_out := out, st_pd_out_len := n\<rparr>) = services_idle p"
  "services_idle (p\<lparr>st_pd_in := inp, st_pd_in_len := n\<rparr>) = services_idle p"
  by (simp_all add: services_idle_def)

lemma attached_rx:
  "attached L phy p \<Longrightarrow> length (rx_buf r) = 64 \<Longrightarrow> rx_len r = 0 \<Longrightarrow> attached L phy (p\<lparr>st_rx := r\<rparr>)"
  by (simp add: attached_def port_wf_defs)

lemma attached_isdu: "attached L phy p \<Longrightarrow> isdu_wf L isdu \<Longrightarrow> attached L phy (p\<lparr>st_isdu := isdu\<rparr>)"
  by (simp add: attached_def port_wf_isdu)

lemma idle_services: "services_idle p \<Longrightarrow> process_services L p e = Some (False, p, e)"
  by (simp add: services_idle_def process_services_def iolink_master_send_event_def
      iolink_master_event_channel_access_def iolink_master_send_isdu_def iolink_master_isdu_take_abort_def
      iolink_master_isdu_take_idle_def iolink_master_isdu_channel_access_def Let_def)

lemma attached_poll:
  "attached L phy p \<Longrightarrow> phy_recv_byte phy = Some recv \<Longrightarrow> drained recv e \<Longrightarrow>
   iolink_master_poll_rx L p e = Some (STATUS_OK, p, e)"
  by (auto simp: iolink_master_poll_rx_def attached_def drained_def poll_loop.simps split: option.splits)

text \<open>
  A poll that finds one complete reply, which the state machine accepts. The port may be waiting
  for it.
\<close>

lemma poll_reply_waiting:
  assumes p: "attached L phy (p\<lparr>st_awaiting_response := False\<rparr>)" and recv: "phy_recv_byte phy = Some recv"
    and xs: "consumes recv xs e e'" "xs \<noteq> []" and e'': "drained recv e''"
    and n: "rx_expected_len L p = Some (length xs)" "length xs \<le> 64"
    and rx: "\<And>q. iolink_master_on_rx L (Some xs) (p\<lparr>st_rx := q\<rparr>) e' = Some (STATUS_OK, f (p\<lparr>st_rx := q\<rparr>), e'')"
    and f: "\<And>q. rx_clear (f q) = f (rx_clear q)"
  obtains r where "attached L phy (p\<lparr>st_awaiting_response := False, st_rx := r\<rparr>)"
    and "iolink_master_poll_rx L p e = Some (1, f (p\<lparr>st_rx := r\<rparr>), e'')"
proof -
  obtain ys y where split: "xs = ys @ [y]" using xs(2) by (cases xs rule: rev_cases) auto
  have wf: "rx_len (st_rx p) = 0" "length (rx_buf (st_rx p)) = 64" and phy: "st_phy p = Some phy"
    using p by (simp_all add: attached_def port_wf_defs)
  define r where "r = st_rx (rx_store xs p)"
  have store: "rx_store xs p = p\<lparr>st_rx := r\<rparr>" unfolding r_def by (rule rx_store_rest)
  have none: "poll_loop L recv n 1 s e'' = Some (1, s, e'')" for n s
    using e'' by (subst poll_loop.simps) (auto simp: drained_def)
  have "iolink_master_poll_rx L p e = Some (1, rx_clear (f (p\<lparr>st_rx := r\<rparr>)), e'')"
    using poll_completes [OF xs(1) [unfolded split], of p "length xs" L 0] wf n phy rx [of r] none recv
    unfolding split [symmetric]
    by (simp add: iolink_master_poll_rx_def store) (simp add: split)
  then have "iolink_master_poll_rx L p e = Some (1, f (p\<lparr>st_rx := r\<lparr>rx_len := 0\<rparr>\<rparr>), e'')"
    by (simp add: f) (simp add: rx_clear_def)
  moreover have "attached L phy (p\<lparr>st_awaiting_response := False, st_rx := r\<lparr>rx_len := 0\<rparr>\<rparr>)"
    using wf by (intro attached_rx [OF p]) (simp_all add: r_def)
  ultimately show ?thesis using that by blast
qed

lemma poll_one_reply:
  assumes p: "attached L phy p" and recv: "phy_recv_byte phy = Some recv"
    and xs: "consumes recv xs e e'" "xs \<noteq> []" and e'': "drained recv e''"
    and n: "rx_expected_len L p = Some (length xs)" "length xs \<le> 64"
    and rx: "\<And>q. iolink_master_on_rx L (Some xs) (p\<lparr>st_rx := q\<rparr>) e' = Some (STATUS_OK, f (p\<lparr>st_rx := q\<rparr>), e'')"
    and f: "\<And>q. rx_clear (f q) = f (rx_clear q)"
  obtains r where "attached L phy (p\<lparr>st_rx := r\<rparr>)"
    and "iolink_master_poll_rx L p e = Some (1, f (p\<lparr>st_rx := r\<rparr>), e'')"
proof -
  have eq: "p\<lparr>st_awaiting_response := False\<rparr> = p" using p by (cases p) (simp add: attached_def)
  show ?thesis
    by (rule poll_reply_waiting [OF _ recv xs e'' n rx f]) (use that p eq in \<open>simp_all\<close>)
qed

subsection \<open>Transmission\<close>

definition accepts :: "'e iolink_phy_api_t \<Rightarrow> u8 list \<Rightarrow> 'e \<Rightarrow> 'e \<Rightarrow> bool" where
  "accepts phy msg e e' \<longleftrightarrow> (\<exists>send. phy_send phy = Some send \<and> send msg e = (int (length msg), e'))"

text \<open>The port after it has sent a message.\<close>

definition sent_with :: "iolinki \<Rightarrow> u8 list \<Rightarrow> 'e iolink_master_port_state_t \<Rightarrow> 'e iolink_master_port_state_t"
  where "sent_with L msg p = (tx_with msg p)\<lparr>st_rx_od_expected := (hd msg AND MC_RW_MASK L \<noteq> 0)\<rparr>"

lemma sent_with_fields [simp]:
  "st_phy (sent_with L msg p) = st_phy p" "st_config (sent_with L msg p) = st_config p"
  "st_state (sent_with L msg p) = st_state p" "st_od_len (sent_with L msg p) = st_od_len p"
  "st_pd_in (sent_with L msg p) = st_pd_in p" "st_pd_in_len (sent_with L msg p) = st_pd_in_len p"
  "st_pd_out (sent_with L msg p) = st_pd_out p" "st_pd_out_len (sent_with L msg p) = st_pd_out_len p"
  "st_pd_valid (sent_with L msg p) = st_pd_valid p" "st_startup (sent_with L msg p) = st_startup p"
  "st_diagnostics (sent_with L msg p) = st_diagnostics p" "st_device_info (sent_with L msg p) = st_device_info p"
  "st_isdu (sent_with L msg p) = st_isdu p" "st_event (sent_with L msg p) = st_event p"
  "st_block (sent_with L msg p) = st_block p" "st_rx (sent_with L msg p) = st_rx p"
  "st_cycle_count (sent_with L msg p) = st_cycle_count p"
  "st_send_ready_valid (sent_with L msg p) = st_send_ready_valid p"
  "st_send_ready_at_100us (sent_with L msg p) = st_send_ready_at_100us p"
  "st_awaiting_response (sent_with L msg p) = st_awaiting_response p"
  "st_rx_od_expected (sent_with L msg p) = (hd msg AND MC_RW_MASK L \<noteq> 0)"
  by (simp_all add: sent_with_def tx_with_def)

lemma services_idle_sent [simp]: "services_idle (sent_with L msg p) = services_idle p"
  by (simp add: services_idle_def)

lemma attached_send:
  assumes "attached L phy p" "msg \<noteq> []" "accepts phy msg e e'"
  shows "iolink_master_send_full L msg p e = Some (True, p\<lparr>st_rx_od_expected := (hd msg AND MC_RW_MASK L \<noteq> 0)\<rparr>, e')"
  using assms
  by (auto simp: iolink_master_send_full_def attached_def accepts_def call_hook_def rd_def hd_conv_nth)

lemma attached_tx: "attached L phy p \<Longrightarrow> length msg \<le> 64 \<Longrightarrow> attached L phy (tx_with msg p)"
  using tx_with_kept [of L p msg] by (simp add: attached_def port_kept_def tx_with_def)

lemma attached_sent:
  assumes "attached L phy p" "msg \<noteq> []" "length msg \<le> 64"
  shows "attached L phy (sent_with L msg p)"
    and "accepts phy msg e e' \<Longrightarrow>
      iolink_master_send_full L msg (tx_with msg p) e = Some (True, sent_with L msg p, e')"
    and "accepts phy msg e e' \<Longrightarrow>
      send_tx L (length msg) (tx_with msg p) e = Some (True, sent_with L msg p, e')"
  using attached_tx [OF assms(1,3)] attached_send [OF _ assms(2)]
  by (simp_all add: sent_with_def send_tx_with)

lemma attached_can_send: "attached L phy p \<Longrightarrow> accepts phy msg e e' \<Longrightarrow> can_send p"
  by (auto simp: attached_def accepts_def can_send_def)

definition operate_command :: "iolinki \<Rightarrow> u8 list" where
  "operate_command L = message L (iolink_master_encode_master_command L False MC_CHANNEL_PAGE 0) 0 [CMD_DEVICE_OPERATE L]"

text \<open>The cyclic message without an ISDU service: the process data and idle OD octets.\<close>

definition cyclic_message :: "iolinki \<Rightarrow> 'e iolink_master_port_state_t \<Rightarrow> u8 list" where
  "cyclic_message L p = (if type0_operate p then message L 0 0 []
     else message L (iolink_master_encode_master_command L False MC_CHANNEL_PROCESS 0) (type_bits_of p)
       (pd_out_octets p @ replicate (st_od_len p) 0))"

lemma cyclic_message_updates [simp]:
  "cyclic_message L (p\<lparr>st_rx_od_expected := b\<rparr>) = cyclic_message L p"
  "cyclic_message L (p\<lparr>st_state := s\<rparr>) = cyclic_message L p"
  "cyclic_message L (p\<lparr>st_startup := su\<rparr>) = cyclic_message L p"
  "cyclic_message L (p\<lparr>st_diagnostics := d\<rparr>) = cyclic_message L p"
  "cyclic_message L (p\<lparr>st_device_info := info\<rparr>) = cyclic_message L p"
  "cyclic_message L (p\<lparr>st_tx_buf := tx\<rparr>) = cyclic_message L p"
  "cyclic_message L (p\<lparr>st_rx := rx\<rparr>) = cyclic_message L p"
  "cyclic_message L (p\<lparr>st_awaiting_response := w\<rparr>) = cyclic_message L p"
  "cyclic_message L (p\<lparr>st_isdu := isdu\<rparr>) = cyclic_message L p"
  "cyclic_message L (p\<lparr>st_cycle_count := c\<rparr>) = cyclic_message L p"
  "cyclic_message L (sent_with L msg p) = cyclic_message L p"
  by (simp_all add: cyclic_message_def type0_operate_def pd_out_octets_def)

text \<open>The wake-up request, the test message and the command to operate.\<close>

lemma process_wake_attached:
  assumes p: "attached L phy p" "st_state p = STATE_STARTUP" "su_step (st_startup p) = STARTUP_STEP_WAKE"
    and sent: "accepts phy [0x55] e e'"
  shows "iolink_master_process L p e =
    Some ((sent_with L [0x55] p)\<lparr>st_startup := (st_startup p)\<lparr>su_step := STARTUP_STEP_SEND_TYPE0\<rparr>\<rparr>, e')"
proof -
  have len: "length (st_tx_buf p) = 64" and hook: "cfg_wake_up (st_config p) = None"
    using p(1) by (simp_all add: attached_def port_wf_defs)
  have buf: "p\<lparr>st_tx_buf := (st_tx_buf p)[0 := 0x55]\<rparr> = tx_with [0x55] p"
    using len by (cases "st_tx_buf p") (simp_all add: tx_with_def)
  have wake: "iolink_master_wake_up L p e = Some (True, sent_with L [0x55] p, e')"
    using attached_sent(3) [OF p(1), of "[0x55]" e e'] sent len hook
    by (simp add: iolink_master_wake_up_def wr_def buf)
  define q where "q = (sent_with L [0x55] p)\<lparr>st_startup := (st_startup p)\<lparr>su_step := STARTUP_STEP_SEND_TYPE0\<rparr>\<rparr>"
  have "attached L phy q" using attached_sent(1) [OF p(1), of "[0x55]"] by (simp add: q_def)
  then obtain b where b: "iolink_master_startup_baudrate q = Some b"
    using startup_baudrate_defined by (auto simp: attached_def)
  then show ?thesis
    using p(2,3) attached_can_send [OF p(1) sent] wake
    by (simp add: iolink_master_process_def iolink_master_process_at_def process_startup_def process_wake_def Let_def
        iolink_master_arm_send_gate_def flip: q_def)
qed

lemma process_test_attached:
  assumes p: "attached L phy p" "st_state p = STATE_STARTUP" "su_step (st_startup p) = STARTUP_STEP_SEND_TYPE0"
    and L: "type0_frames_ok L" and sent: "accepts phy (test_message L) e e'"
  shows "iolink_master_process L p e = Some ((sent_with L (test_message L) p)
    \<lparr>st_startup := (st_startup p)\<lparr>su_step := STARTUP_STEP_AWAIT_RESPONSE\<rparr>\<rparr>, e')"
proof -
  have len: "length (st_tx_buf p) = 64" using p(1) by (simp add: attached_def port_wf_defs)
  have msg: "length (test_message L) = 2" "test_message L \<noteq> []" by (simp_all add: test_message_def)
  have enc: "frame_encode_type0 L (iolink_master_encode_master_command L True MC_CHANNEL_PAGE 2) (st_tx_buf p) =
      (2, test_message L @ drop 2 (st_tx_buf p))"
    using L len by (simp add: type0_frames_ok_def test_message_def)
  show ?thesis
    using p(2,3) attached_can_send [OF p(1) sent] enc attached_sent(3) [OF p(1) msg(2) _ sent] msg(1)
    by (simp add: iolink_master_process_def iolink_master_process_at_def process_startup_def
        process_test_message_def tx_with_def)
qed

lemma process_preoperate_attached:
  assumes p: "attached L phy p" "services_idle p" "st_state p = STATE_PREOPERATE"
    and L: "type0_frames_ok L" and sent: "accepts phy (operate_command L) e e'"
    and "\<not> iolink_master_startup_validation_required (st_config p)"
  shows "iolink_master_process L p e = Some ((sent_with L (operate_command L) p)
    \<lparr>st_startup := (st_startup p)\<lparr>su_step := STARTUP_STEP_AWAIT_OPERATE_ACK\<rparr>\<rparr>, e')"
proof -
  have len: "length (st_tx_buf p) = 64" using p(1) by (simp add: attached_def port_wf_defs)
  have msg: "length (operate_command L) = 3" "operate_command L \<noteq> []" by (simp_all add: operate_command_def)
  have enc: "frame_encode_type0_write L (iolink_master_encode_master_command L False MC_CHANNEL_PAGE 0)
      (CMD_DEVICE_OPERATE L) (st_tx_buf p) = (3, operate_command L @ drop 3 (st_tx_buf p))"
    using L len by (simp add: type0_frames_ok_def operate_command_def)
  have "process_inspection L p = Some (False, p)"
    using assms(6) by (simp add: process_inspection_def)
  then show ?thesis
    using p(3) attached_can_send [OF p(1) sent] enc attached_sent(3) [OF p(1) msg(2) _ sent] msg(1)
      idle_services [OF p(2)]
    by (simp add: iolink_master_process_def iolink_master_process_at_def process_preoperate_def
        process_operate_command_def tx_with_def)
qed

text \<open>The cyclic exchange.\<close>

lemma process_cycle_quiet:
  assumes const: "stack_constants_ok L" and L: "type0_operate p \<Longrightarrow> type0_frames_ok L"
    and p: "attached L phy p" "process_services L p e = Some (False, p, e)" "st_state p = STATE_OPERATE"
    and fill: "\<And>n. iolink_master_isdu_fill_od L n (st_isdu p) = Some (replicate n 0, st_isdu p)"
    and sent: "accepts phy (cyclic_message L p) e e'"
  shows "iolink_master_process L p e = Some ((sent_with L (cyclic_message L p) p)
      \<lparr>st_cycle_count := st_cycle_count p + 1\<rparr>, e')"
    and "length (cyclic_message L p) \<le> 64"
proof -
  define msg where "msg = cyclic_message L p"
  have wf: "port_wf L p" and len: "length (st_tx_buf p) = 64"
    using p by (simp_all add: attached_def port_wf_defs)
  have isdu: "p\<lparr>st_isdu := st_isdu p\<rparr> = p" by simp
  have msg: "msg \<noteq> []" and small: "length msg \<le> 64"
    using process_cycle_message(2) [OF const wf fill refl] by (auto simp: msg_def cyclic_message_def)
  note send = attached_sent(2,3) [OF p(1) msg small sent [folded msg_def]]
  have "(if type0_operate p then process_cycle_type0 L p e else process_cycle L p e) =
      Some ((sent_with L msg p)\<lparr>st_cycle_count := st_cycle_count p + 1\<rparr>, e')"
  proof (cases "type0_operate p")
    case True
    then have "frame_encode_type0 L 0 (st_tx_buf p) = (2, msg @ drop 2 (st_tx_buf p))" "length msg = 2"
      using L len by (simp_all add: type0_frames_ok_def msg_def cyclic_message_def)
    then show ?thesis
      using True send(2) fill
      by (simp add: process_cycle_type0_def rd_def Let_def count_cycle_def tx_with_def)
  next
    case False
    then have "msg = message L (iolink_master_encode_master_command L False MC_CHANNEL_PROCESS 0)
        (type_bits_of p) (pd_out_octets p @ replicate (st_od_len p) 0)"
      by (simp add: msg_def cyclic_message_def)
    from process_cycle_message(1) [OF const wf fill this] show ?thesis
      using False send(1) by (simp add: isdu count_cycle_def)
  qed
  then show "iolink_master_process L p e = Some ((sent_with L (cyclic_message L p) p)
      \<lparr>st_cycle_count := st_cycle_count p + 1\<rparr>, e')"
    using p(2,3) attached_can_send [OF p(1) sent]
    by (simp add: iolink_master_process_def iolink_master_process_at_def process_operate_def msg_def)
  show "length (cyclic_message L p) \<le> 64" using small by (simp add: msg_def)
qed

lemma process_cycle_attached:
  assumes "stack_constants_ok L" and "type0_operate p \<Longrightarrow> type0_frames_ok L"
    and "attached L phy p" "services_idle p" "st_state p = STATE_OPERATE"
    and "accepts phy (cyclic_message L p) e e'"
  shows "iolink_master_process L p e = Some ((sent_with L (cyclic_message L p) p)
      \<lparr>st_cycle_count := st_cycle_count p + 1\<rparr>, e')"
    and "length (cyclic_message L p) \<le> 64"
  using process_cycle_quiet [OF assms(1-3) idle_services [OF assms(4)] assms(5) _ assms(6)] assms(4)
  by (simp_all add: services_idle_def iolink_master_isdu_fill_od_def)

subsection \<open>Replies\<close>

text \<open>The port after a correct reply to the test message and after the acknowledged command to operate.\<close>

definition test_accepted :: "u8 \<Rightarrow> 'e iolink_master_port_state_t \<Rightarrow> 'e iolink_master_port_state_t" where
  "test_accepted octet q =
     q\<lparr>st_diagnostics := (st_diagnostics q)\<lparr>dg_rx_retry_count := 0\<rparr>, st_awaiting_response := False,
       st_startup := (st_startup q)\<lparr>su_wake_attempts := 0\<rparr>,
       st_device_info := (st_device_info q)\<lparr>di_min_cycle_time := octet\<rparr>, st_state := STATE_PREOPERATE\<rparr>"

definition ack_accepted :: "u8 \<Rightarrow> 'e iolink_master_port_state_t \<Rightarrow> 'e iolink_master_port_state_t" where
  "ack_accepted cks q =
     q\<lparr>st_diagnostics := (st_diagnostics q)\<lparr>dg_rx_retry_count := 0, dg_event_pending := (cks AND 0x80 \<noteq> 0)\<rparr>,
       st_awaiting_response := False, st_state := STATE_OPERATE\<rparr>"

lemma accepted_rx:
  "rx_clear (test_accepted octet q) = test_accepted octet (rx_clear q)"
  "rx_clear (ack_accepted cks q) = ack_accepted cks (rx_clear q)"
  by (simp_all add: test_accepted_def ack_accepted_def rx_clear_def)

lemma attached_accepted:
  "attached L phy p \<Longrightarrow> attached L phy (test_accepted octet p)"
  "attached L phy p \<Longrightarrow> attached L phy (ack_accepted cks p)"
  by (simp_all add: test_accepted_def ack_accepted_def attached_def port_wf_defs)

lemma accepted_fields [simp]:
  "st_state (test_accepted octet p) = STATE_PREOPERATE" "st_state (ack_accepted cks p) = STATE_OPERATE"
  "st_phy (test_accepted octet p) = st_phy p" "st_config (test_accepted octet p) = st_config p"
  "st_phy (ack_accepted cks p) = st_phy p" "st_config (ack_accepted cks p) = st_config p"
  "su_step (st_startup (test_accepted octet p)) = su_step (st_startup p)"
  "di_min_cycle_time (st_device_info (test_accepted octet p)) = octet"
  "st_device_info (ack_accepted cks p) = st_device_info p"
  "dg_event_pending (st_diagnostics (ack_accepted cks p)) = (cks AND 0x80 \<noteq> 0)"
  "st_od_len (test_accepted octet p) = st_od_len p" "st_od_len (ack_accepted cks p) = st_od_len p"
  "st_pd_out (test_accepted octet p) = st_pd_out p" "st_pd_out (ack_accepted cks p) = st_pd_out p"
  "st_pd_out_len (test_accepted octet p) = st_pd_out_len p" "st_pd_out_len (ack_accepted cks p) = st_pd_out_len p"
  "services_idle (test_accepted octet p) = services_idle p" "services_idle (ack_accepted cks p) = services_idle p"
  "cyclic_message L (test_accepted octet p) = cyclic_message L p"
  "cyclic_message L (ack_accepted cks p) = cyclic_message L p"
  by (simp_all add: test_accepted_def ack_accepted_def services_idle_def)

lemma poll_test_reply:
  assumes p: "attached L phy p" "st_state p = STATE_STARTUP" "su_step (st_startup p) = STARTUP_STEP_AWAIT_RESPONSE"
    and recv: "phy_recv_byte phy = Some recv" "consumes recv [octet, cks] e e'" "drained recv e'"
    and n: "M_SEQ_TYPE0_LEN L = 2" and reply: "checksum6 L [octet, cks AND 0xC0] = cks AND 0x3F"
  obtains r where "attached L phy (p\<lparr>st_rx := r\<rparr>)"
    and "iolink_master_poll_rx L p e = Some (1, test_accepted octet (p\<lparr>st_rx := r\<rparr>), e')"
proof -
  have "iolink_master_on_rx L (Some [octet, cks]) (p\<lparr>st_rx := q\<rparr>) e' =
      Some (STATUS_OK, test_accepted octet (p\<lparr>st_rx := q\<rparr>), e')" for q
    using p(2,3) reply n
    by (simp add: iolink_master_on_rx_def on_rx_startup_def iolink_master_type0_reply_ok_def rd_def
        rx_accepted_def test_accepted_def)
  from poll_one_reply [OF p(1) recv(1,2) _ recv(3) _ _ this accepted_rx(1)] show ?thesis
    using that p n by (auto simp: rx_expected_len_def)
qed

lemma poll_ack:
  assumes p: "attached L phy p" "st_state p = STATE_PREOPERATE"
      "su_step (st_startup p) = STARTUP_STEP_AWAIT_OPERATE_ACK"
    and recv: "phy_recv_byte phy = Some recv" "consumes recv [cks] e e'" "drained recv e'"
    and ack: "checksum6 L [cks AND 0xC0] = cks AND 0x3F"
  obtains r where "attached L phy (p\<lparr>st_rx := r\<rparr>)"
    and "iolink_master_poll_rx L p e = Some (1, ack_accepted cks (p\<lparr>st_rx := r\<rparr>), e')"
proof -
  have "iolink_master_on_rx L (Some [cks]) (p\<lparr>st_rx := q\<rparr>) e' =
      Some (STATUS_OK, ack_accepted cks (p\<lparr>st_rx := q\<rparr>), e')" for q
    using p(2,3) ack
    by (simp add: iolink_master_on_rx_def on_rx_operate_ack_def rd_def rx_accepted_def ack_accepted_def Let_def)
  from poll_one_reply [OF p(1) recv(1,2) _ recv(3) _ _ this accepted_rx(2)] show ?thesis
    using that p by (auto simp: rx_expected_len_def)
qed

text \<open>The reply to a cyclic message without OD octets.\<close>

definition reply_stored ::
  "iolink_frame_operate_response_t \<Rightarrow> 'e iolink_master_port_state_t \<Rightarrow> 'e iolink_master_port_state_t" where
  "reply_stored resp p = p\<lparr>st_diagnostics := (st_diagnostics p)\<lparr>dg_rx_retry_count := 0,
       dg_od_status := resp_status resp, dg_event_pending := resp_event_pending resp\<rparr>,
     st_awaiting_response := False, st_pd_in := resp_pd resp @ drop (length (resp_pd resp)) (st_pd_in p),
     st_pd_in_len := length (resp_pd resp), st_pd_valid := True\<rparr>"

lemma poll_pd_reply:
  assumes const: "stack_constants_ok L" and frames: "stack_frames_ok L"
    and p: "attached L phy p" "services_idle p" "st_state p = STATE_OPERATE" "\<not> type0_operate p"
      "\<not> st_rx_od_expected p" "cfg_event_pending_handler (st_config p) = None"
    and recv: "phy_recv_byte phy = Some recv" "consumes recv reply e e'" "drained recv e'"
    and reply: "length reply = cfg_pd_in_len (st_config p) + 1"
      "frame_decode_operate_response L reply (cfg_pd_in_len (st_config p)) 0 = Some resp"
      "resp_checksum_ok resp" "resp_pd_valid resp"
  obtains r where "attached L phy (p\<lparr>st_rx := r\<rparr>)"
    and "iolink_master_poll_rx L p e = Some (1, reply_stored resp (p\<lparr>st_rx := r\<rparr>), e')"
    and "attached L phy (reply_stored resp (p\<lparr>st_rx := r\<rparr>))"
    and "length (resp_pd resp) = cfg_pd_in_len (st_config p)"
proof -
  have resp: "resp_pd_len resp = cfg_pd_in_len (st_config p)" "length (resp_pd resp) = cfg_pd_in_len (st_config p)"
    "resp_od_len resp = 0" "resp_od resp = []"
    using frames reply(2) by (force simp: stack_frames_ok_def)+
  have sizes: "cfg_pd_in_len (st_config p) \<le> length (st_pd_in p)" "cfg_pd_in_len (st_config p) < 64"
    "length (st_pd_in p) = PD_IN_MAX_SIZE L"
    using p(1) const by (simp_all add: attached_def port_wf_defs stack_constants_ok_def)
  have none: "isdu_op (st_isdu p) = ISDU_OP_NONE" "ev_phase (st_event p) = EVENT_PHASE_NONE"
    using p(2) by (simp_all add: services_idle_def)
  have on_rx: "iolink_master_on_rx L (Some reply) (p\<lparr>st_rx := q\<rparr>) e' =
      Some (STATUS_OK, reply_stored resp (p\<lparr>st_rx := q\<rparr>), e')" for q
  proof -
    have "iolink_master_on_rx L (Some reply) (p\<lparr>st_rx := q\<rparr>) e' = on_rx_operate L reply (p\<lparr>st_rx := q\<rparr>) e'"
      using p(3,4) reply(1) by (auto simp: iolink_master_on_rx_def type0_operate_def)
    then show ?thesis
      using p(5,6) reply resp sizes none
      by (simp add: on_rx_operate_def rx_accepted_def rx_dispatch_event_def rx_store_pd_def rd_slice_def wr_slice_def
          iolink_master_route_od_def Let_def iolink_master_event_channel_access_def iolink_master_isdu_on_od_def
          reply_stored_def)
  qed
  have "reply \<noteq> []" using reply(1) by auto
  moreover have "rx_expected_len L p = Some (length reply)" "length reply \<le> 64"
    using p(3-5) reply(1) sizes(2) by (simp_all add: rx_expected_len_def trunc8_def)
  moreover have "rx_clear (reply_stored resp q) = reply_stored resp (rx_clear q)" for q :: "'a iolink_master_port_state_t"
    by (simp add: reply_stored_def rx_clear_def)
  ultimately obtain r where "attached L phy (p\<lparr>st_rx := r\<rparr>)"
    "iolink_master_poll_rx L p e = Some (1, reply_stored resp (p\<lparr>st_rx := r\<rparr>), e')"
    by (elim poll_one_reply [OF p(1) recv(1,2) _ recv(3) _ _ on_rx])
  moreover have "attached L phy (reply_stored resp q)" if "attached L phy q" "st_config q = st_config p" for q
    using that resp sizes by (simp add: reply_stored_def attached_def port_wf_defs)
  ultimately show ?thesis using that resp by simp
qed

text \<open>A checksum of six bits leaves the flags of its octet alone.\<close>

lemma checksum_octet: "(c :: u8) < 64 \<Longrightarrow> c AND 0x3F = c" "(c :: u8) < 64 \<Longrightarrow> c AND 0xC0 = 0"
proof -
  assume c: "c < 64"
  then have "unat (c AND 63) = unat c" by (simp add: octet_and_63 word_less_nat_alt)
  then show m: "c AND 0x3F = c" by (simp add: word_unat_eq_iff)
  have "c AND 0xC0 = (c AND 0x3F) AND 0xC0" by (simp add: m)
  also have "\<dots> = c AND (0x3F AND 0xC0)" by (simp only: and.assoc)
  finally show "c AND 0xC0 = 0" by simp
qed

end
