(* ===== verification/MasterHandshake.thy ===== *)
theory MasterHandshake
  imports MasterLine
begin

text \<open>
  The port and a device on one line: how octets that arrive in pieces become one reply, and
  how a port that finds a correct device goes from STARTUP to OPERATE
  (\<open>src/master_port.c\<close>, lines 916-1283).

  The environment is the queue of the octets that have arrived and an arbitrary rest.
\<close>

subsection \<open>Replies in pieces\<close>

definition queue_recv :: "u8 list \<times> 'w \<Rightarrow> int \<times> u8 \<times> u8 list \<times> 'w" where
  "queue_recv e = (case fst e of [] \<Rightarrow> (0, 0, e) | octet # octets \<Rightarrow> (1, octet, octets, snd e))"

lemma queue_recv_simps [simp]:
  "queue_recv ([], w) = (0, 0, [], w)" "queue_recv (x # xs, w) = (1, x, xs, w)"
  by (simp_all add: queue_recv_def)

lemma queue_consumes: "consumes queue_recv xs (xs @ ys, w) (ys, w)"
  by (induction xs) simp_all

lemma queue_consumes_all: "consumes queue_recv xs (xs, w) ([], w)"
  using queue_consumes [of xs "[]" w] by simp

lemma queue_drained: "drained queue_recv ([], w)"
  by (simp add: drained_def)

text \<open>The octets of a reply arrive in pieces, and the port polls after each piece.\<close>

fun polls ::
  "iolinki \<Rightarrow> u8 list list \<Rightarrow> (u8 list \<times> 'w) iolink_master_port_state_t \<Rightarrow> 'w \<Rightarrow>
   (int list \<times> (u8 list \<times> 'w) iolink_master_port_state_t \<times> u8 list \<times> 'w) option" where
  "polls L [] p w = Some ([], p, [], w)"
| "polls L (seg # segs) p w = do {
     (ret, p, rest, w) \<leftarrow> iolink_master_poll_rx L p (seg, w);
     (rets, p, rest', w) \<leftarrow> polls L segs p w;
     Some (ret # rets, p, rest @ rest', w) }"

lemma poll_partial_rx:
  assumes "rx_expected_len L p = Some n" "rx_len (st_rx p) + length xs < n" "n \<le> 64"
    and "length (rx_buf (st_rx p)) = 64" "st_phy p = Some phy" "phy_recv_byte phy = Some queue_recv"
  shows "iolink_master_poll_rx L p (xs, w) = Some (STATUS_OK, rx_store xs p, [], w)"
    and "iolink_master_poll_rx L p (xs @ ys, w) = iolink_master_poll_rx L (rx_store xs p) (ys, w)"
proof -
  have none: "poll_loop L queue_recv n 0 q ([], w) = Some (0, q, [], w)" for q
    by (subst poll_loop.simps) simp
  show "iolink_master_poll_rx L p (xs, w) = Some (STATUS_OK, rx_store xs p, [], w)"
    using poll_consumes [OF queue_consumes [of xs "[]" w] assms(2-4), of L 0] assms(1,5,6) none
    by (simp add: iolink_master_poll_rx_def)
  show "iolink_master_poll_rx L p (xs @ ys, w) = iolink_master_poll_rx L (rx_store xs p) (ys, w)"
    using poll_consumes [OF queue_consumes [of xs ys w] assms(2-4), of L 0] assms(1,5,6)
    by (simp add: iolink_master_poll_rx_def)
qed

text \<open>
  C34. Replies are reassembled. However the octets of a reply are split over polls, each poll
  but the last reports that nothing is complete, and the last one has the result, the port
  and the environment that one poll of the whole reply would have had.
\<close>

theorem reply_any_segmentation:
  assumes "rx_expected_len L p = Some n" and "n \<le> 64" and "length (rx_buf (st_rx p)) = 64"
    and "st_phy p = Some phy" and "phy_recv_byte phy = Some queue_recv"
    and "rx_len (st_rx p) + length (concat segs) < n"
  shows "polls L (segs @ [seg]) p w = map_option (\<lambda>(ret, m). (replicate (length segs) STATUS_OK @ [ret], m))
     (iolink_master_poll_rx L p (concat segs @ seg, w))"
  using assms
proof (induction segs arbitrary: p)
  case Nil
  then show ?case by (cases "iolink_master_poll_rx L p (seg, w)") auto
next
  case (Cons s segs)
  then have one: "rx_len (st_rx p) + length s < n" by simp
  note poll = poll_partial_rx [OF Cons.prems(1) one Cons.prems(2-5)]
  show ?case
    using Cons.IH [of "rx_store s p"] Cons.prems
    by (simp add: poll(1) poll(2) [of "concat segs @ seg"])
      (cases "iolink_master_poll_rx L (rx_store s p) (concat segs @ seg, w)"; auto)
qed

lemma demo_queue: "demo_recv = queue_recv"
  by (rule ext) (simp add: demo_recv_def queue_recv_def)

abbreviation demo_awaiting :: "demo_line iolink_master_port_state_t" where
  "demo_awaiting \<equiv> demo_port\<lparr>st_startup := (st_startup demo_port)\<lparr>su_step := STARTUP_STEP_AWAIT_RESPONSE\<rparr>\<rparr>"

theorem reply_any_segmentation_witness:
  "polls demo_stack [[0], [], [45]] demo_awaiting [] =
     map_option (\<lambda>(ret, m). ([0, 0, ret], m)) (iolink_master_poll_rx demo_stack demo_awaiting ([0, 45], []))"
proof -
  have "rx_expected_len demo_stack demo_awaiting = Some 2"
    by (simp add: rx_expected_len_def demo_port_def demo_stack_def)
  from reply_any_segmentation [OF this, of demo_phy "[[0], []]" "[45]" "[]"] show ?thesis
    by (simp add: demo_port_def zero_port_def demo_phy_def demo_queue numeral_2_eq_2)
qed

subsection \<open>A port with a device\<close>

text \<open>
  The PHY of a line with a device that answers each frame at once: the answer is queued for
  reception, and the frames sent are logged.
\<close>

definition device_phy :: "(u8 list \<Rightarrow> u8 list) \<Rightarrow> demo_line iolink_phy_api_t" where
  "device_phy answer = demo_phy\<lparr>phy_recv_byte := Some queue_recv, phy_send :=
     Some (\<lambda>data e. (int (length data), fst e @ answer data, snd e @ [data]))\<rparr>"

text \<open>
  A port without PHY adapter hooks on such a line: nothing is in flight, no service is
  requested and the start-up needs no inspection.
\<close>

definition linked ::
  "iolinki \<Rightarrow> (u8 list \<Rightarrow> u8 list) \<Rightarrow> demo_line iolink_master_port_state_t \<Rightarrow> bool" where
  "linked L answer p \<longleftrightarrow> attached L (device_phy answer) p \<and> services_idle p \<and>
     \<not> iolink_master_startup_validation_required (st_config p)"

lemmas linked_defs = linked_def attached_def services_idle_def

lemma device_phy_recv: "phy_recv_byte (device_phy answer) = Some queue_recv"
  by (simp add: device_phy_def)

lemma device_accepts: "accepts (device_phy answer) msg (q, log) (q @ answer msg, log @ [msg])"
  by (simp add: accepts_def device_phy_def)

lemma linked_updates [simp]:
  "linked L answer (p\<lparr>st_rx_od_expected := b\<rparr>) = linked L answer p"
  "linked L answer (p\<lparr>st_state := s\<rparr>) = linked L answer p"
  "su_baudrate_index su = su_baudrate_index (st_startup p) \<Longrightarrow>
     linked L answer (p\<lparr>st_startup := su\<rparr>) = linked L answer p"
  "linked L answer (p\<lparr>st_diagnostics := d\<rparr>) = linked L answer p"
  "linked L answer (p\<lparr>st_device_info := info\<rparr>) = linked L answer p"
  "linked L answer (p\<lparr>st_cycle_count := c\<rparr>) = linked L answer p"
  by (simp_all add: linked_def)

lemma linked_sent: "linked L answer p \<Longrightarrow> msg \<noteq> [] \<Longrightarrow> length msg \<le> 64 \<Longrightarrow> linked L answer (sent_with L msg p)"
  using attached_sent(1) [of L "device_phy answer" p msg] by (simp add: linked_def)

lemma linked_accepted:
  "linked L answer p \<Longrightarrow> attached L (device_phy answer) (p\<lparr>st_rx := r\<rparr>) \<Longrightarrow>
   linked L answer (test_accepted octet (p\<lparr>st_rx := r\<rparr>)) \<and> linked L answer (ack_accepted cks (p\<lparr>st_rx := r\<rparr>))"
  using attached_accepted by (auto simp: linked_def)

lemma linked_poll: "linked L answer p \<Longrightarrow> iolink_master_poll_rx L p ([], log) = Some (STATUS_OK, p, [], log)"
  using attached_poll [OF _ device_phy_recv queue_drained] by (auto simp: linked_def)

text \<open>A tick polls and, when no reply is awaited, transmits.\<close>

lemma tick_linked:
  assumes "iolink_master_poll_rx L p e = Some (ret, p1, e1)" "0 \<le> ret" "linked L answer p1"
    and "iolink_master_process L p1 e1 = Some (p2, e2)"
  shows "iolink_master_tick L False p e = Some (ret, p2, e2)"
  using assms
  by (simp add: iolink_master_tick_def iolink_master_tick_event_def iolink_master_tick_common_def tick_cycle_def
      iolink_master_process_def linked_def attached_def)

lemma tick_wake_up:
  assumes "linked L answer p" "st_state p = STATE_STARTUP" "su_step (st_startup p) = STARTUP_STEP_WAKE"
    and "answer [0x55] = []"
  shows "ensures (iolink_master_tick L False p ([], log)) (\<lambda>(ret, p', e'). ret = STATUS_OK \<and> linked L answer p' \<and>
    cyclic_message L p' = cyclic_message L p \<and> st_state p' = STATE_STARTUP \<and> su_step (st_startup p') = STARTUP_STEP_SEND_TYPE0 \<and> e' = ([], log @ [[0x55]]))"
proof -
  have "attached L (device_phy answer) p" using assms(1) by (simp add: linked_def)
  from process_wake_attached [OF this assms(2,3) device_accepts]
  have "iolink_master_process L p ([], log) = Some ((sent_with L [0x55] p)
      \<lparr>st_startup := (st_startup p)\<lparr>su_step := STARTUP_STEP_SEND_TYPE0\<rparr>\<rparr>, [], log @ [[0x55]])"
    by (simp add: assms(4))
  from tick_linked [OF linked_poll [OF assms(1)] _ assms(1) this] show ?thesis
    using assms(2) linked_sent [OF assms(1), of "[0x55]"] by simp
qed

lemma tick_test_message:
  assumes "linked L answer p" "st_state p = STATE_STARTUP" "su_step (st_startup p) = STARTUP_STEP_SEND_TYPE0"
    and "type0_frames_ok L"
  shows "ensures (iolink_master_tick L False p ([], log)) (\<lambda>(ret, p', e'). ret = STATUS_OK \<and> linked L answer p' \<and>
    cyclic_message L p' = cyclic_message L p \<and> st_state p' = STATE_STARTUP \<and> su_step (st_startup p') = STARTUP_STEP_AWAIT_RESPONSE \<and>
    e' = (answer (test_message L), log @ [test_message L]))"
proof -
  have "attached L (device_phy answer) p" using assms(1) by (simp add: linked_def)
  from process_test_attached [OF this assms(2-4) device_accepts]
  have "iolink_master_process L p ([], log) = Some ((sent_with L (test_message L) p)
      \<lparr>st_startup := (st_startup p)\<lparr>su_step := STARTUP_STEP_AWAIT_RESPONSE\<rparr>\<rparr>,
      answer (test_message L), log @ [test_message L])"
    by simp
  from tick_linked [OF linked_poll [OF assms(1)] _ assms(1) this] show ?thesis
    using assms(2) linked_sent [OF assms(1), of "test_message L"] by (simp add: test_message_def)
qed

lemma process_preoperate_linked:
  assumes L: "type0_frames_ok L" and q: "linked L answer q" "st_state q = STATE_PREOPERATE"
  shows "ensures (iolink_master_process L q ([], log)) (\<lambda>(p', e'). linked L answer p' \<and>
    cyclic_message L p' = cyclic_message L q \<and> st_state p' = STATE_PREOPERATE \<and>
    su_step (st_startup p') = STARTUP_STEP_AWAIT_OPERATE_ACK \<and> st_device_info p' = st_device_info q \<and>
    st_diagnostics p' = st_diagnostics q \<and> st_config p' = st_config q \<and> e' = (answer (operate_command L), log @ [operate_command L]))"
proof -
  have "linked L answer (sent_with L (operate_command L) q)"
    by (rule linked_sent [OF q(1)]) (simp_all add: operate_command_def)
  then show ?thesis
    using process_preoperate_attached [OF _ _ q(2) L device_accepts, of answer "[]" log] q by (simp add: linked_def)
qed

lemma tick_answered:
  assumes const: "stack_constants_ok L" and L: "type0_frames_ok L"
    and p: "linked L answer p" "st_state p = STATE_STARTUP" "su_step (st_startup p) = STARTUP_STEP_AWAIT_RESPONSE"
    and reply: "checksum6 L [octet, cks AND 0xC0] = cks AND 0x3F"
  shows "ensures (iolink_master_tick L False p ([octet, cks], log)) (\<lambda>(ret, p', e'). ret = 1 \<and> linked L answer p' \<and>
    cyclic_message L p' = cyclic_message L p \<and> st_state p' = STATE_PREOPERATE \<and>
    su_step (st_startup p') = STARTUP_STEP_AWAIT_OPERATE_ACK \<and> di_min_cycle_time (st_device_info p') = octet \<and>
    e' = (answer (operate_command L), log @ [operate_command L]))"
proof -
  have att: "attached L (device_phy answer) p" using p(1) by (simp add: linked_def)
  have n: "M_SEQ_TYPE0_LEN L = 2" using const by (simp add: stack_constants_ok_def)
  obtain r where r: "attached L (device_phy answer) (p\<lparr>st_rx := r\<rparr>)"
    "iolink_master_poll_rx L p ([octet, cks], log) = Some (1, test_accepted octet (p\<lparr>st_rx := r\<rparr>), [], log)"
    by (rule poll_test_reply [OF att p(2,3) device_phy_recv queue_consumes_all queue_drained n reply])
  define q where "q = test_accepted octet (p\<lparr>st_rx := r\<rparr>)"
  have q: "linked L answer q" using linked_accepted [OF p(1) r(1)] by (simp add: q_def)
  have state: "st_state q = STATE_PREOPERATE" "cyclic_message L q = cyclic_message L p"
    "di_min_cycle_time (st_device_info q) = octet"
    by (simp_all add: q_def)
  show ?thesis
    using process_preoperate_linked [OF L q state(1), of log] tick_linked [OF r(2) [folded q_def] _ q] state
    by (auto elim!: ensuresE)
qed

lemma process_cycle_linked:
  assumes const: "stack_constants_ok L" and L: "type0_frames_ok L"
    and p: "linked L answer p" "st_state p = STATE_OPERATE"
  shows "ensures (iolink_master_process L p ([], log)) (\<lambda>(p', e'). linked L answer p' \<and>
    st_state p' = STATE_OPERATE \<and> cyclic_message L p' = cyclic_message L p \<and> st_device_info p' = st_device_info p \<and>
    st_diagnostics p' = st_diagnostics p \<and> st_cycle_count p' = st_cycle_count p + 1 \<and>
    e' = (answer (cyclic_message L p), log @ [cyclic_message L p]))"
proof -
  have att: "attached L (device_phy answer) p" "services_idle p" using p(1) by (simp_all add: linked_def)
  note cycle = process_cycle_attached [OF const L att p(2) device_accepts]
  have "cyclic_message L p \<noteq> []" by (simp add: cyclic_message_def)
  then show ?thesis using cycle linked_sent [OF p(1) _ cycle(2)] p(2) by simp
qed

lemma tick_acknowledged:
  assumes const: "stack_constants_ok L" and L: "type0_frames_ok L"
    and p: "linked L answer p" "st_state p = STATE_PREOPERATE"
      "su_step (st_startup p) = STARTUP_STEP_AWAIT_OPERATE_ACK"
    and ack: "checksum6 L [cks AND 0xC0] = cks AND 0x3F"
  shows "ensures (iolink_master_tick L False p ([cks], log)) (\<lambda>(ret, p', e'). ret = 1 \<and> linked L answer p' \<and>
    st_state p' = STATE_OPERATE \<and> st_device_info p' = st_device_info p \<and>
    dg_event_pending (st_diagnostics p') = (cks AND 0x80 \<noteq> 0) \<and>
    e' = (answer (cyclic_message L p), log @ [cyclic_message L p]))"
proof -
  have att: "attached L (device_phy answer) p" using p(1) by (simp add: linked_def)
  obtain r where r: "attached L (device_phy answer) (p\<lparr>st_rx := r\<rparr>)"
    "iolink_master_poll_rx L p ([cks], log) = Some (1, ack_accepted cks (p\<lparr>st_rx := r\<rparr>), [], log)"
    by (rule poll_ack [OF att p(2,3) device_phy_recv queue_consumes_all queue_drained ack])
  define q where "q = ack_accepted cks (p\<lparr>st_rx := r\<rparr>)"
  have q: "linked L answer q" using linked_accepted [OF p(1) r(1)] by (simp add: q_def)
  have state: "st_state q = STATE_OPERATE" "cyclic_message L q = cyclic_message L p"
    "st_device_info q = st_device_info p" "dg_event_pending (st_diagnostics q) = (cks AND 0x80 \<noteq> 0)"
    by (simp_all add: q_def)
  show ?thesis
    using process_cycle_linked [OF const L q state(1), of log] tick_linked [OF r(2) [folded q_def] _ q] state
    by (auto elim!: ensuresE)
qed

subsection \<open>From STARTUP to OPERATE\<close>

fun untimed_ticks ::
  "iolinki \<Rightarrow> nat \<Rightarrow> 'e iolink_master_port_state_t \<Rightarrow> 'e \<Rightarrow>
   (int list \<times> 'e iolink_master_port_state_t \<times> 'e) option" where
  "untimed_ticks L 0 p e = Some ([], p, e)"
| "untimed_ticks L (Suc n) p e = do {
     (ret, p, e) \<leftarrow> iolink_master_tick L False p e;
     (rets, p, e) \<leftarrow> untimed_ticks L n p e;
     Some (ret # rets, p, e) }"

text \<open>
  C1. A correct device is brought to OPERATE. A port about to wake its line, with a device that
  answers the test message and acknowledges the operate command with correct checksums, needs
  four ticks: the wake-up request, the test message, the operate command and the first cyclic
  message are sent in this order and nothing else, the ticks with a reply report it, and the
  port is in OPERATE with the minimum cycle time the device has sent.
\<close>

theorem port_reaches_operate:
  assumes "stack_constants_ok L" and "type0_frames_ok L" and "linked L answer p"
    and "st_state p = STATE_STARTUP" and "su_step (st_startup p) = STARTUP_STEP_WAKE"
    and "answer [0x55] = []" and "answer (test_message L) = [octet, cks]" and "answer (operate_command L) = [ack]"
    and "checksum6 L [octet, cks AND 0xC0] = cks AND 0x3F" and "checksum6 L [ack AND 0xC0] = ack AND 0x3F"
  shows "ensures (untimed_ticks L 4 p ([], [])) (\<lambda>(rets, p', queue, log).
    rets = [STATUS_OK, STATUS_OK, 1, 1] \<and> st_state p' = STATE_OPERATE \<and>
    di_min_cycle_time (st_device_info p') = octet \<and>
    dg_event_pending (st_diagnostics p') = (ack AND 0x80 \<noteq> 0) \<and>
    log = [[0x55], test_message L, operate_command L, cyclic_message L p])"
proof -
  obtain p1 where 1: "iolink_master_tick L False p ([], []) = Some (STATUS_OK, p1, [], [[0x55]])"
    "linked L answer p1" "cyclic_message L p1 = cyclic_message L p" "st_state p1 = STATE_STARTUP"
    "su_step (st_startup p1) = STARTUP_STEP_SEND_TYPE0"
    using tick_wake_up [OF assms(3-6), of "[]"] by (auto elim!: ensuresE)
  obtain p2 where 2: "iolink_master_tick L False p1 ([], [[0x55]]) =
      Some (STATUS_OK, p2, [octet, cks], [[0x55], test_message L])"
    "linked L answer p2" "cyclic_message L p2 = cyclic_message L p1" "st_state p2 = STATE_STARTUP"
    "su_step (st_startup p2) = STARTUP_STEP_AWAIT_RESPONSE"
    using tick_test_message [OF 1(2,4,5) assms(2), of "[[0x55]]"] assms(7) by (auto elim!: ensuresE)
  obtain p3 where 3: "iolink_master_tick L False p2 ([octet, cks], [[0x55], test_message L]) =
      Some (1, p3, [ack], [[0x55], test_message L, operate_command L])"
    "linked L answer p3" "cyclic_message L p3 = cyclic_message L p2" "st_state p3 = STATE_PREOPERATE"
    "su_step (st_startup p3) = STARTUP_STEP_AWAIT_OPERATE_ACK" "di_min_cycle_time (st_device_info p3) = octet"
    using tick_answered [OF assms(1,2) 2(2,4,5) assms(9), of "[[0x55], test_message L]"] assms(8)
    by (auto elim!: ensuresE)
  show ?thesis
    using tick_acknowledged [OF assms(1,2) 3(2,4,5) assms(10), of "[[0x55], test_message L, operate_command L]"]
      1 2 3 by (auto simp: numeral_eq_Suc elim!: ensuresE)
qed

text \<open>A device on the line of the witness: minimum cycle time 0, an acknowledgement without event.\<close>

definition demo_answer :: "u8 list \<Rightarrow> u8 list" where
  "demo_answer data = (if data = [0x55] then [] else if length data = 2 then [0, 45] else [45])"

definition demo_waking :: "demo_line iolink_master_port_state_t" where
  "demo_waking = demo_port\<lparr>st_phy := Some (device_phy demo_answer),
     st_startup := (st_startup demo_port)\<lparr>su_step := STARTUP_STEP_WAKE\<rparr>\<rparr>"

lemma demo_messages:
  "test_message demo_stack = [162, 0]" "operate_command demo_stack = [32, 6, 153]"
  using demo_checksum6_vectors
  by (simp_all add: test_message_def operate_command_def message_def demo_stack_def
      iolink_master_encode_master_command_def)

lemma demo_linked: "linked demo_stack demo_answer demo_waking"
  using demo_port_wf
  by (simp add: linked_def attached_def services_idle_def demo_waking_def port_wf_defs demo_port_def demo_config_def zero_config_def zero_port_def
      zero_event_def zero_isdu_def iolink_master_startup_validation_required_def)

theorem port_reaches_operate_witness:
  "ensures (untimed_ticks demo_stack 4 demo_waking ([], [])) (\<lambda>(rets, p', queue, log).
     rets = [0, 0, 1, 1] \<and> st_state p' = STATE_OPERATE \<and> take 3 log = [[0x55], [162, 0], [32, 6, 153]])"
proof -
  have sum: "checksum6 demo_stack [0, 0] = 45" "checksum6 demo_stack [0] = 45"
    using demo_checksum6_vectors(1) by (simp_all add: demo_stack_def demo_checksum6_def)
  have "ensures (untimed_ticks demo_stack 4 demo_waking ([], [])) (\<lambda>(rets, p', queue, log).
    rets = [STATUS_OK, STATUS_OK, 1, 1] \<and> st_state p' = STATE_OPERATE \<and>
    di_min_cycle_time (st_device_info p') = 0 \<and> dg_event_pending (st_diagnostics p') = (45 AND 0x80 \<noteq> (0 :: u8)) \<and>
    log = [[0x55], test_message demo_stack, operate_command demo_stack, cyclic_message demo_stack demo_waking])"
    by (rule port_reaches_operate [OF demo_stack_constants demo_frames demo_linked, where cks = 45])
      (simp_all add: demo_waking_def demo_port_def zero_port_def demo_answer_def demo_messages sum)
  then show ?thesis by (auto simp: demo_messages elim!: ensures_mono)
qed

end
