(* ===== verification/MasterExchange.thy ===== *)
theory MasterExchange
  imports MasterHandshake
begin

text \<open>
  The cyclic exchange of process data in OPERATE (\<open>src/master_port.c\<close>, lines 1084-1109,
  1285-1386 and 1402-1452): the octets the application sets are the octets the device gets,
  and the octets the device answers are the octets the application reads, one cycle later.
\<close>

subsection \<open>Ports that exchange process data\<close>

definition exchanging ::
  "iolinki \<Rightarrow> (u8 list \<Rightarrow> u8 list) \<Rightarrow> demo_line iolink_master_port_state_t \<Rightarrow> bool" where
  "exchanging L answer p \<longleftrightarrow> linked L answer p \<and> st_state p = STATE_OPERATE \<and> \<not> st_rx_od_expected p \<and>
     cfg_event_pending_handler (st_config p) = None \<and> cfg_pd_out_len (st_config p) \<le> PD_OUT_MAX_SIZE L \<and>
     st_pd_in_len p = cfg_pd_in_len (st_config p) \<and>
     (cfg_m_seq_type (st_config p) = M_SEQ_TYPE_0 \<longrightarrow> cfg_pd_in_len (st_config p) + cfg_pd_out_len (st_config p) > 0)"

text \<open>The cyclic message with the process data \<open>out\<close>.\<close>

definition pd_message ::
  "iolinki \<Rightarrow> 'e iolink_master_port_state_t \<Rightarrow> u8 list \<Rightarrow> u8 list" where
  "pd_message L p out = message L (iolink_master_encode_master_command L False MC_CHANNEL_PROCESS 0)
     (type_bits_of p) (out @ replicate (st_od_len p) 0)"

text \<open>The device answers the message with the process data \<open>out\<close> by the valid process data \<open>inp\<close>.\<close>

definition answers_pd ::
  "iolinki \<Rightarrow> (u8 list \<Rightarrow> u8 list) \<Rightarrow> 'e iolink_master_port_state_t \<Rightarrow> u8 list \<Rightarrow> u8 list \<Rightarrow> bool" where
  "answers_pd L answer p out inp \<longleftrightarrow>
     length (answer (pd_message L p out)) = cfg_pd_in_len (st_config p) + 1 \<and>
     (\<exists>resp. frame_decode_operate_response L (answer (pd_message L p out)) (cfg_pd_in_len (st_config p)) 0 = Some resp \<and>
        resp_checksum_ok resp \<and> resp_pd_valid resp \<and> resp_pd resp = inp)"

text \<open>One cycle of the application: new output, a tick, and the input.\<close>

definition exchange ::
  "iolinki \<Rightarrow> u8 list \<Rightarrow> demo_line iolink_master_port_state_t \<Rightarrow> demo_line \<Rightarrow>
   ((int \<times> int \<times> int \<times> u8 list) \<times> demo_line iolink_master_port_state_t \<times> demo_line) option" where
  "exchange L out p e = do {
     (set_ret, p) \<leftarrow> iolink_master_set_pd_out L (Some out) (length out) p;
     (tick_ret, p, e) \<leftarrow> iolink_master_tick L False p e;
     (get_ret, buffer, len) \<leftarrow> iolink_master_get_pd_in (replicate (PD_IN_MAX_SIZE L) 0) (PD_IN_MAX_SIZE L) p;
     Some ((set_ret, tick_ret, get_ret, take len buffer), p, e) }"

fun exchanges ::
  "iolinki \<Rightarrow> u8 list list \<Rightarrow> demo_line iolink_master_port_state_t \<Rightarrow> demo_line \<Rightarrow>
   ((int \<times> int \<times> int \<times> u8 list) list \<times> demo_line iolink_master_port_state_t \<times> demo_line) option" where
  "exchanges L [] p e = Some ([], p, e)"
| "exchanges L (out # outs) p e = do {
     (result, p, e) \<leftarrow> exchange L out p e;
     (results, p, e) \<leftarrow> exchanges L outs p e;
     Some (result # results, p, e) }"

lemma linked_pd [simp]:
  "linked L answer (p\<lparr>st_pd_valid := b\<rparr>) = linked L answer p"
  "n \<le> PD_OUT_MAX_SIZE L \<Longrightarrow> length out = PD_OUT_MAX_SIZE L \<Longrightarrow> linked L answer p \<Longrightarrow>
     linked L answer (p\<lparr>st_pd_out := out, st_pd_out_len := n\<rparr>)"
  "n \<le> PD_IN_MAX_SIZE L \<Longrightarrow> length inp = PD_IN_MAX_SIZE L \<Longrightarrow> linked L answer p \<Longrightarrow>
     linked L answer (p\<lparr>st_pd_in := inp, st_pd_in_len := n\<rparr>)"
  by (simp_all add: linked_def attached_def port_wf_defs)

lemma set_pd_out_stored:
  assumes "exchanging L answer p" "length out = cfg_pd_out_len (st_config p)"
  shows "iolink_master_set_pd_out L (Some out) (length out) p =
    Some (STATUS_OK, p\<lparr>st_pd_out := out @ drop (length out) (st_pd_out p), st_pd_out_len := length out\<rparr>)"
proof -
  have "length (st_pd_out p) = PD_OUT_MAX_SIZE L"
    using assms(1) by (simp add: exchanging_def linked_def attached_def port_wf_defs)
  then show ?thesis
    using assms by (cases "out = []") (auto simp: iolink_master_set_pd_out_def exchanging_def rd_slice_def wr_slice_def)
qed

text \<open>The transmission of a cycle, when the outputs have been set.\<close>

lemma process_exchanging:
  assumes const: "stack_constants_ok L" and p: "exchanging L answer p"
    and out: "pd_out_octets p = out" "st_pd_out_len p = cfg_pd_out_len (st_config p)"
  shows "ensures (iolink_master_process L p ([], log)) (\<lambda>(p', e'). exchanging L answer p' \<and>
    st_config p' = st_config p \<and> st_od_len p' = st_od_len p \<and> st_pd_in p' = st_pd_in p \<and>
    st_pd_valid p' = st_pd_valid p \<and> st_diagnostics p' = st_diagnostics p \<and>
    e' = (answer (pd_message L p out), log @ [pd_message L p out]))"
proof -
  have linked: "linked L answer p" and state: "st_state p = STATE_OPERATE" and multi: "\<not> type0_operate p"
    using p out by (auto simp: exchanging_def type0_operate_def)
  have msg: "cyclic_message L p = pd_message L p out"
    using multi out by (simp add: cyclic_message_def pd_message_def)
  have "hd (pd_message L p out) AND MC_RW_MASK L = 0"
    using const by (simp add: pd_message_def message_def iolink_master_encode_master_command_def stack_constants_ok_def)
  moreover have cycle: "iolink_master_process L p ([], log) = Some ((sent_with L (pd_message L p out) p)
      \<lparr>st_cycle_count := st_cycle_count p + 1\<rparr>, answer (pd_message L p out), log @ [pd_message L p out])"
    "length (pd_message L p out) \<le> 64"
    using process_cycle_attached(1) [OF const _ _ _ state device_accepts, of answer "[]" log]
      process_cycle_attached(2) [OF const _ _ _ state device_accepts, of answer] linked multi
    by (simp_all add: linked_def msg)
  moreover have "linked L answer (sent_with L (pd_message L p out) p)"
    using linked_sent [OF linked, of "pd_message L p out"] cycle(2) linked multi
    by (simp add: linked_def pd_message_def)
  ultimately show ?thesis using p linked multi by (simp add: exchanging_def linked_def)
qed

text \<open>The reply of a cycle.\<close>

lemma poll_exchanging:
  assumes frames: "stack_frames_ok L" and const: "stack_constants_ok L" and p: "exchanging L answer p"
    and out: "st_pd_out_len p = cfg_pd_out_len (st_config p)"
    and reply: "length reply = cfg_pd_in_len (st_config p) + 1"
      "frame_decode_operate_response L reply (cfg_pd_in_len (st_config p)) 0 = Some resp"
      "resp_checksum_ok resp" "resp_pd_valid resp"
  obtains r where "iolink_master_poll_rx L p (reply, log) = Some (1, reply_stored resp (p\<lparr>st_rx := r\<rparr>), [], log)"
    and "exchanging L answer (reply_stored resp (p\<lparr>st_rx := r\<rparr>))"
proof -
  have line: "attached L (device_phy answer) p" "services_idle p" and state: "st_state p = STATE_OPERATE"
    and multi: "\<not> type0_operate p" and no_od: "\<not> st_rx_od_expected p" "cfg_event_pending_handler (st_config p) = None"
    using p out by (auto simp: exchanging_def linked_def type0_operate_def)
  obtain r where "iolink_master_poll_rx L p (reply, log) = Some (1, reply_stored resp (p\<lparr>st_rx := r\<rparr>), [], log)"
    "attached L (device_phy answer) (reply_stored resp (p\<lparr>st_rx := r\<rparr>))"
    "length (resp_pd resp) = cfg_pd_in_len (st_config p)"
    by (rule poll_pd_reply [OF const frames line state multi no_od device_phy_recv queue_consumes_all queue_drained reply])
  moreover from this have "exchanging L answer (reply_stored resp (p\<lparr>st_rx := r\<rparr>))"
    using p by (simp add: reply_stored_def exchanging_def linked_def services_idle_def)
  ultimately show ?thesis using that by blast
qed

subsection \<open>Cycles\<close>

definition same_layout :: "'e iolink_master_port_state_t \<Rightarrow> 'e iolink_master_port_state_t \<Rightarrow> bool" where
  "same_layout p p' \<longleftrightarrow> st_config p' = st_config p \<and> st_od_len p' = st_od_len p"

lemma same_layout_message: "same_layout p p' \<Longrightarrow> pd_message L p' = pd_message L p"
  by (rule ext) (simp add: same_layout_def pd_message_def)

lemma same_layout_answers: "same_layout p p' \<Longrightarrow> answers_pd L answer p' = answers_pd L answer p"
  using same_layout_message [of p p' L] by (intro ext) (simp add: answers_pd_def same_layout_def)

lemma exchange_of_poll:
  assumes const: "stack_constants_ok L" and p: "exchanging L answer p" "length out = cfg_pd_out_len (st_config p)"
    and p0: "p0 = p\<lparr>st_pd_out := out @ drop (length out) (st_pd_out p), st_pd_out_len := length out\<rparr>"
    and poll: "iolink_master_poll_rx L p0 (queue, log) = Some (ret, p1, [], log)" "0 \<le> ret"
    and p1: "exchanging L answer p1" "pd_out_octets p1 = out" "st_pd_out_len p1 = length out" "same_layout p p1"
  shows "ensures (exchange L out p (queue, log)) (\<lambda>(result, p', e').
    result = (STATUS_OK, ret, if st_pd_valid p1 then STATUS_OK else STATUS_PENDING,
      take (st_pd_in_len p1) (if st_pd_valid p1 then st_pd_in p1 else replicate (st_pd_in_len p1) 0)) \<and>
    exchanging L answer p' \<and> same_layout p p' \<and> st_pd_valid p' = st_pd_valid p1 \<and>
    e' = (answer (pd_message L p out), log @ [pd_message L p out]))"
proof -
  have linked: "linked L answer p1" and cfg: "st_config p1 = st_config p"
    using p1(1,4) by (simp_all add: exchanging_def same_layout_def)
  obtain p' where process: "iolink_master_process L p1 ([], log) =
      Some (p', answer (pd_message L p out), log @ [pd_message L p out])"
    and p': "exchanging L answer p'" "same_layout p p'" "st_pd_in p' = st_pd_in p1" "st_pd_valid p' = st_pd_valid p1"
    using process_exchanging [OF const p1(1,2), of log] p1(3,4) p(2) cfg same_layout_message [OF p1(4), of L]
    by (auto simp: same_layout_def elim!: ensuresE)
  have sizes: "st_pd_in_len p' = st_pd_in_len p1" "st_pd_in_len p1 \<le> PD_IN_MAX_SIZE L" "length (st_pd_in p') = PD_IN_MAX_SIZE L"
    using p' p1(1) cfg by (simp_all add: exchanging_def same_layout_def linked_defs port_wf_defs)
  have "iolink_master_get_pd_in (replicate (PD_IN_MAX_SIZE L) 0) (PD_IN_MAX_SIZE L) p' = Some
      (if st_pd_valid p1 then STATUS_OK else STATUS_PENDING,
       (if st_pd_valid p1 then take (st_pd_in_len p1) (st_pd_in p1) else replicate (st_pd_in_len p1) 0) @
         replicate (PD_IN_MAX_SIZE L - st_pd_in_len p1) 0, st_pd_in_len p1)"
    using sizes p'(3,4)
    by (simp add: iolink_master_get_pd_in_def rd_slice_def wr_slice_def replicate_add [symmetric] min_def)
  moreover from tick_linked [OF poll linked process]
  have "iolink_master_tick L False p0 (queue, log) =
      Some (ret, p', answer (pd_message L p out), log @ [pd_message L p out])" .
  ultimately show ?thesis
    using p' sizes set_pd_out_stored [OF p] by (simp add: exchange_def p0 [symmetric] min_def)
qed

lemma outputs_set:
  assumes "exchanging L answer p" "length out = cfg_pd_out_len (st_config p)"
    and p0: "p0 = p\<lparr>st_pd_out := out @ drop (length out) (st_pd_out p), st_pd_out_len := length out\<rparr>"
  shows "exchanging L answer p0" "same_layout p p0" "pd_out_octets p0 = out" "st_pd_out_len p0 = length out"
  using assms(1,2) unfolding p0
  by (simp_all add: exchanging_def linked_defs port_wf_defs same_layout_def pd_out_octets_def)

text \<open>The first cycle, without a reply, and the cycles that find the reply of the one before.\<close>

lemma first_exchange:
  assumes "stack_constants_ok L" "exchanging L answer p" "length out = cfg_pd_out_len (st_config p)" "\<not> st_pd_valid p"
  shows "ensures (exchange L out p ([], log)) (\<lambda>(result, p', e').
    result = (STATUS_OK, STATUS_OK, STATUS_PENDING, replicate (cfg_pd_in_len (st_config p)) 0) \<and>
    exchanging L answer p' \<and> same_layout p p' \<and> e' = (answer (pd_message L p out), log @ [pd_message L p out]))"
proof -
  define p0 where "p0 = p\<lparr>st_pd_out := out @ drop (length out) (st_pd_out p), st_pd_out_len := length out\<rparr>"
  note set = outputs_set [OF assms(2,3) p0_def]
  have "poll_loop L queue_recv n 0 p0 ([], log) = Some (0, p0, [], log)" for n
    by (subst poll_loop.simps) simp
  then have "iolink_master_poll_rx L p0 ([], log) = Some (0, p0, [], log)"
    using set(1) by (simp add: iolink_master_poll_rx_def exchanging_def linked_defs device_phy_def split: option.split)
  from exchange_of_poll [OF assms(1-3) p0_def this _ set(1,3,4,2)] assms(2,4) show ?thesis
    by (auto simp: p0_def exchanging_def elim!: ensures_mono)
qed

lemma later_exchange:
  assumes "stack_constants_ok L" "stack_frames_ok L" "exchanging L answer p"
    and "length out = cfg_pd_out_len (st_config p)" "answers_pd L answer p prev inp"
  shows "ensures (exchange L out p (answer (pd_message L p prev), log)) (\<lambda>(result, p', e').
    result = (STATUS_OK, 1, STATUS_OK, inp) \<and> exchanging L answer p' \<and> same_layout p p' \<and>
    e' = (answer (pd_message L p out), log @ [pd_message L p out]))"
proof -
  define p0 where "p0 = p\<lparr>st_pd_out := out @ drop (length out) (st_pd_out p), st_pd_out_len := length out\<rparr>"
  note set = outputs_set [OF assms(3,4) p0_def]
  have cfg: "st_config p0 = st_config p" by (simp add: p0_def)
  obtain resp where resp: "length (answer (pd_message L p prev)) = cfg_pd_in_len (st_config p0) + 1"
    "frame_decode_operate_response L (answer (pd_message L p prev)) (cfg_pd_in_len (st_config p0)) 0 = Some resp"
    "resp_checksum_ok resp" "resp_pd_valid resp" "resp_pd resp = inp"
    using assms(5) by (auto simp: answers_pd_def cfg)
  obtain r where r: "iolink_master_poll_rx L p0 (answer (pd_message L p prev), log) =
      Some (1, reply_stored resp (p0\<lparr>st_rx := r\<rparr>), [], log)"
    "exchanging L answer (reply_stored resp (p0\<lparr>st_rx := r\<rparr>))"
    using set assms(4) cfg by (elim poll_exchanging [OF assms(2,1) _ _ resp(1-4)]) simp_all
  have "pd_out_octets (reply_stored resp (p0\<lparr>st_rx := r\<rparr>)) = out"
    "st_pd_out_len (reply_stored resp (p0\<lparr>st_rx := r\<rparr>)) = length out"
    "same_layout p (reply_stored resp (p0\<lparr>st_rx := r\<rparr>))"
    using set by (simp_all add: reply_stored_def pd_out_octets_def same_layout_def)
  from exchange_of_poll [OF assms(1,3,4) p0_def r(1) _ r(2) this] resp(5) show ?thesis
    by (auto simp: reply_stored_def elim!: ensures_mono)
qed

text \<open>
  C4. Process data cross the line in lock step. However the application sets the outputs,
  each cycle sends the octets just set, behind one another in the order of the cycles, and
  reads the octets the device has answered to the cycle before; the first cycle, before any
  answer, reports that no process data are valid yet.
\<close>

theorem process_data_in_lock_step:
  assumes "stack_constants_ok L" and "stack_frames_ok L" and "exchanging L answer p" and "\<not> st_pd_valid p"
    and "\<forall>out\<in>set (outs @ [final]). length out = cfg_pd_out_len (st_config p)"
    and "\<forall>out\<in>set outs. answers_pd L answer p out (device out)"
  shows "ensures (exchanges L (outs @ [final]) p ([], [])) (\<lambda>(results, p', queue, log).
    results = (STATUS_OK, STATUS_OK, STATUS_PENDING, replicate (cfg_pd_in_len (st_config p)) 0) #
      map (\<lambda>out. (STATUS_OK, 1, STATUS_OK, device out)) outs \<and>
    log = map (pd_message L p) (outs @ [final]))"
proof -
  have later: "ensures (exchanges L (outs @ [final]) q (answer (pd_message L p prev), log)) (\<lambda>(results, p', queue, log').
      results = map (\<lambda>out. (STATUS_OK, 1, STATUS_OK, device out)) (prev # outs) \<and>
      log' = log @ map (pd_message L p) (outs @ [final]))"
    if "exchanging L answer q" "same_layout p q" "answers_pd L answer p prev (device prev)"
      "\<forall>out\<in>set (outs @ [final]). length out = cfg_pd_out_len (st_config p)"
      "\<forall>out\<in>set outs. answers_pd L answer p out (device out)" for q prev outs log
    using that
  proof (induction outs arbitrary: q prev log)
    case Nil
    then show ?case
      using later_exchange [OF assms(1,2) Nil(1), of final prev "device prev" log]
        same_layout_message [of p q L] same_layout_answers [of p q L answer]
      by (auto simp: ensures_simps same_layout_def elim!: ensures_mono)
  next
    case (Cons out outs)
    have "ensures (exchange L out q (answer (pd_message L p prev), log)) (\<lambda>(result, p', e').
        result = (STATUS_OK, 1, STATUS_OK, device prev) \<and> exchanging L answer p' \<and> same_layout p p' \<and>
        e' = (answer (pd_message L p out), log @ [pd_message L p out]))"
      using later_exchange [OF assms(1,2) Cons.prems(1), of out prev "device prev" log] Cons.prems(2-4)
        same_layout_message [of p q L] same_layout_answers [of p q L answer]
      by (auto simp: same_layout_def elim!: ensures_mono)
    then obtain q' where q': "exchange L out q (answer (pd_message L p prev), log) =
        Some ((STATUS_OK, 1, STATUS_OK, device prev), q', answer (pd_message L p out), log @ [pd_message L p out])"
      "exchanging L answer q'" "same_layout p q'"
      by (auto elim!: ensuresE)
    from Cons.IH [OF q'(2,3), of out "log @ [pd_message L p out]"] Cons.prems show ?case
      by (auto simp: q'(1) ensures_simps elim!: ensures_mono)
  qed
  show ?thesis
  proof (cases outs)
    case Nil
    then show ?thesis
      using first_exchange [OF assms(1,3), of final "[]"] assms(4,5)
      by (auto simp: ensures_simps elim!: ensures_mono)
  next
    case (Cons out outs')
    obtain q where q: "exchange L out p ([], []) = Some ((STATUS_OK, STATUS_OK, STATUS_PENDING,
        replicate (cfg_pd_in_len (st_config p)) 0), q, answer (pd_message L p out), [pd_message L p out])"
      "exchanging L answer q" "same_layout p q"
      using first_exchange [OF assms(1,3), of out "[]"] assms(4,5) Cons by (auto elim!: ensuresE)
    from later [OF q(2,3), of out outs' "[pd_message L p out]"] assms(5,6) Cons q(1) show ?thesis
      by (auto simp: ensures_simps elim!: ensures_mono)
  qed
qed

text \<open>A device that answers the successor of the octet it has got.\<close>

definition demo_device :: "u8 list \<Rightarrow> u8 list" where
  "demo_device data = (let octet = data ! 2 + 1 in [octet, demo_checksum6 [octet, 0]])"

definition demo_operating :: "demo_line iolink_master_port_state_t" where
  "demo_operating = demo_port\<lparr>st_phy := Some (device_phy demo_device), st_state := STATE_OPERATE\<rparr>"

lemma demo_exchanging: "exchanging demo_stack demo_device demo_operating"
  using demo_port_wf
  by (simp add: exchanging_def linked_defs demo_operating_def port_wf_defs demo_port_def demo_config_def zero_config_def
      zero_port_def zero_event_def zero_isdu_def iolink_master_startup_validation_required_def demo_stack_def)

lemma demo_device_answers:
  "answers_pd demo_stack demo_device demo_operating [7] [8]" "answers_pd demo_stack demo_device demo_operating [0] [1]"
proof -
  have "demo_checksum6 [8, 0] = 15 \<and> demo_checksum6 [1, 0] = 60"
    by (simp add: demo_checksum6_def bit_iff_odd_drop_bit Let_def)
  then show "answers_pd demo_stack demo_device demo_operating [7] [8]"
    "answers_pd demo_stack demo_device demo_operating [0] [1]"
    by (simp_all add: answers_pd_def demo_device_def pd_message_def message_def demo_operating_def demo_port_def
        demo_config_def zero_config_def zero_port_def demo_stack_def demo_decode_operate_response_def
        bit_iff_odd_drop_bit)
qed

theorem process_data_in_lock_step_witness:
  "ensures (exchanges demo_stack [[7], [0], [3]] demo_operating ([], [])) (\<lambda>(results, p', queue, log).
     results = [(0, 0, 1, [0]), (0, 1, 0, [8]), (0, 1, 0, [1])] \<and> length log = 3)"
proof -
  define device where "device out = (if out = [7] then [8] else [1 :: u8])" for out :: "u8 list"
  have config: "cfg_pd_out_len (st_config demo_operating) = 1" "cfg_pd_in_len (st_config demo_operating) = 1"
    by (simp_all add: demo_operating_def demo_port_def demo_config_def)
  have "\<not> st_pd_valid demo_operating" by (simp add: demo_operating_def demo_port_def zero_port_def)
  from process_data_in_lock_step [OF demo_stack_constants demo_stack_frames demo_exchanging this,
      of "[[7], [0]]" "[3]" device] show ?thesis
    using demo_device_answers by (auto simp: config device_def elim!: ensures_mono)
qed

end
