(* ===== verification/MasterLoss.thy ===== *)
theory MasterLoss
  imports MasterExchange
begin

text \<open>
  What a port does not notice of a lost device (\<open>src/master_port.c\<close>, lines 786-820, 874-915 and
  1285-1386): a device that is silent in PREOPERATE, and process data that are valid no longer.
\<close>

subsection \<open>Silence in PREOPERATE\<close>

text \<open>Ticks with the given response-timeout flags.\<close>

fun flagged_ticks ::
  "iolinki \<Rightarrow> bool list \<Rightarrow> 'e iolink_master_port_state_t \<Rightarrow> 'e \<Rightarrow>
   (int list \<times> 'e iolink_master_port_state_t \<times> 'e) option" where
  "flagged_ticks L [] p e = Some ([], p, e)"
| "flagged_ticks L (flag # flags) p e = do {
     (ret, p, e) \<leftarrow> iolink_master_tick L flag p e;
     (rets, p, e) \<leftarrow> flagged_ticks L flags p e;
     Some (ret # rets, p, e) }"

definition awaiting_ack :: "iolinki \<Rightarrow> (u8 list \<Rightarrow> u8 list) \<Rightarrow> demo_line iolink_master_port_state_t \<Rightarrow> bool" where
  "awaiting_ack L answer p \<longleftrightarrow> linked L answer p \<and> st_state p = STATE_PREOPERATE \<and>
     su_step (st_startup p) = STARTUP_STEP_AWAIT_OPERATE_ACK \<and> cfg_flush_rx (st_config p) = None"

lemma tick_unacknowledged:
  assumes L: "type0_frames_ok L" and p: "awaiting_ack L answer p" and silent: "answer (operate_command L) = []"
  shows "ensures (iolink_master_tick L flag p ([], log)) (\<lambda>(ret, p', e'). ret = STATUS_OK \<and>
    awaiting_ack L answer p' \<and> st_diagnostics p' = st_diagnostics p \<and>
    e' = ([], if flag then log else log @ [operate_command L]))"
proof -
  have linked: "linked L answer p" and state: "st_state p = STATE_PREOPERATE" and config: "cfg_flush_rx (st_config p) = None"
    using p by (simp_all add: awaiting_ack_def)
  have poll: "iolink_master_poll_rx L p ([], log) = Some (STATUS_OK, p, [], log)"
    by (rule linked_poll [OF linked])
  have idle: "p\<lparr>st_awaiting_response := False\<rparr> = p" "\<not> st_awaiting_response p"
    using linked by (simp_all add: linked_defs)
  show ?thesis
  proof (cases flag)
    case True
    have "tick_timeout False 0 0 p ([], log) = Some (None, p\<lparr>st_rx := (st_rx p)\<lparr>rx_len := 0\<rparr>\<rparr>, [], log)"
      using state config idle
      by (simp add: tick_timeout_def iolink_master_on_timeout_at_def iolink_master_flush_rx_def call_hook_def Let_def)
    moreover have "awaiting_ack L answer (p\<lparr>st_rx := (st_rx p)\<lparr>rx_len := 0\<rparr>\<rparr>)"
      using p by (simp add: awaiting_ack_def linked_defs port_wf_defs)
    ultimately show ?thesis
      using True poll by (simp add: iolink_master_tick_def iolink_master_tick_event_def iolink_master_tick_common_def)
  next
    case False
    obtain p' e' where process: "iolink_master_process L p ([], log) = Some (p', e')"
      "linked L answer p' \<and> cyclic_message L p' = cyclic_message L p \<and> st_state p' = STATE_PREOPERATE \<and>
       su_step (st_startup p') = STARTUP_STEP_AWAIT_OPERATE_ACK \<and> st_device_info p' = st_device_info p \<and>
       st_diagnostics p' = st_diagnostics p \<and> st_config p' = st_config p \<and>
       e' = (answer (operate_command L), log @ [operate_command L])"
      using process_preoperate_linked [OF L linked state, of log] by (auto elim!: ensuresE)
    from tick_linked [OF poll _ linked process(1)] show ?thesis
      using process(2) config silent False by (simp add: awaiting_ack_def)
  qed
qed

text \<open>
  C36. A device lost in PREOPERATE is never noticed. While the operate command is not
  acknowledged, ticks and reported response timeouts, however many, all succeed: the port
  stays in PREOPERATE, counts no timeout or error, and every tick sends the command again.
\<close>

theorem silent_preoperate_unnoticed:
  assumes "type0_frames_ok L" and "awaiting_ack L answer p" and "answer (operate_command L) = []"
  shows "ensures (flagged_ticks L flags p ([], log)) (\<lambda>(rets, p', queue, log').
    rets = replicate (length flags) STATUS_OK \<and> st_state p' = STATE_PREOPERATE \<and>
    st_diagnostics p' = st_diagnostics p \<and>
    log' = log @ replicate (length (filter Not flags)) (operate_command L))"
  using assms(2)
proof (induction flags arbitrary: p log)
  case Nil
  then show ?case by (simp add: awaiting_ack_def)
next
  case (Cons flag flags)
  obtain p1 where 1: "iolink_master_tick L flag p ([], log) =
      Some (STATUS_OK, p1, [], if flag then log else log @ [operate_command L])"
    "awaiting_ack L answer p1" "st_diagnostics p1 = st_diagnostics p"
    using tick_unacknowledged [OF assms(1) Cons.prems assms(3), of flag log] by (auto elim!: ensuresE)
  from Cons.IH [OF 1(2), of "if flag then log else log @ [operate_command L]"] 1 show ?case
    by (auto simp: ensures_simps elim!: ensures_mono)
qed

theorem silent_preoperate_unnoticed_witness:
  "ensures (flagged_ticks demo_stack (replicate 1000 True @ [False])
     (demo_waking\<lparr>st_phy := Some (device_phy (\<lambda>_. [])), st_state := STATE_PREOPERATE,
        st_startup := (st_startup demo_port)\<lparr>su_step := STARTUP_STEP_AWAIT_OPERATE_ACK\<rparr>\<rparr>) ([], []))
     (\<lambda>(rets, p', queue, log). st_state p' = STATE_PREOPERATE \<and> ERR_RETRY_LIMIT \<notin> set rets \<and>
        dg_response_timeouts (st_diagnostics p') = 0 \<and> log = [[32, 6, 153]])"
proof -
  define p where "p = demo_waking\<lparr>st_phy := Some (device_phy (\<lambda>_. [])), st_state := STATE_PREOPERATE,
    st_startup := (st_startup demo_port)\<lparr>su_step := STARTUP_STEP_AWAIT_OPERATE_ACK\<rparr>\<rparr>"
  have "awaiting_ack demo_stack (\<lambda>_. []) p"
    using demo_linked by (simp add: p_def awaiting_ack_def linked_defs port_wf_defs demo_waking_def demo_port_def
        demo_config_def zero_config_def)
  from silent_preoperate_unnoticed [OF demo_frames this, of "replicate 1000 True @ [False]" "[]"] show ?thesis
    by (auto simp: p_def [symmetric] demo_messages elim!: ensures_mono)
      (auto simp: p_def demo_waking_def demo_port_def zero_port_def zero_diagnostics_def)
qed

subsection \<open>Process data of a lost device\<close>

definition inputs :: "'e iolink_master_port_state_t \<Rightarrow> u8 list \<times> nat \<times> bool" where
  "inputs p = (st_pd_in p, st_pd_in_len p, st_pd_valid p)"

lemma inputs_updates [simp]:
  "inputs (p\<lparr>st_diagnostics := d\<rparr>) = inputs p" "inputs (p\<lparr>st_startup := su\<rparr>) = inputs p"
  "inputs (p\<lparr>st_rx := rx\<rparr>) = inputs p" "inputs (p\<lparr>st_state := s\<rparr>) = inputs p"
  "inputs (p\<lparr>st_awaiting_response := b\<rparr>) = inputs p" "inputs (p\<lparr>st_isdu := isdu\<rparr>) = inputs p"
  "inputs (p\<lparr>st_event := ev\<rparr>) = inputs p" "inputs (set_error p) = inputs p"
  "inputs (p\<lparr>st_device_info := info\<rparr>) = inputs p" "inputs (p\<lparr>st_tx_buf := tx\<rparr>) = inputs p"
  "inputs (p\<lparr>st_rx_od_expected := b\<rparr>) = inputs p" "inputs (p\<lparr>st_cycle_count := c\<rparr>) = inputs p"
  "inputs (p\<lparr>st_response_deadline_100us := t\<rparr>) = inputs p" "inputs (rx_clear p) = inputs p"
  "inputs (p\<lparr>st_last_cycle_start_100us := t\<rparr>) = inputs p" "inputs (p\<lparr>st_cycle_timer_valid := b\<rparr>) = inputs p"
  "inputs (rx_checksum_error p) = inputs p" "inputs (rx_accepted p) = inputs p"
  "inputs (iolink_master_arm_send_gate now delay timed p) = inputs p" "inputs (send_failed p) = inputs p"
  by (simp_all add: inputs_def set_error_def rx_checksum_error_def rx_accepted_def iolink_master_arm_send_gate_def
      rx_clear_def send_failed_def)





































end
