(* ===== verification/MasterBlock.thy ===== *)
theory MasterBlock
  imports MasterDataStorage
begin

text \<open>
  Parameter-block transfer of \<open>src/master_isdu.c\<close> (lines 606-609 and 1057-1180): the
  SystemCommands that bracket a download, the transfer with its four steps, and the Data
  Storage restore built on it.

  The second half exchanges the ISDU services with a device: \<open>isdu_exchange\<close> moves a
  pending request to the device and its response back, and the locale \<open>exchanged_service\<close>
  states what a client of a service relies on.
\<close>

subsection \<open>SystemCommands\<close>

definition iolink_master_write_system_command ::
  "iolinki \<Rightarrow> u8 \<Rightarrow> 'e iolink_master_port_state_t \<Rightarrow> (int \<times> 'e iolink_master_port_state_t) option"
where
  "iolink_master_write_system_command L command p =
     iolink_master_write_isdu L (IDX_SYSTEM_COMMAND L) 0 (Some [command]) 1 p"

definition iolink_master_begin_parameter_download ::
  "iolinki \<Rightarrow> 'e iolink_master_port_state_t \<Rightarrow> (int \<times> 'e iolink_master_port_state_t) option" where
  "iolink_master_begin_parameter_download L p =
     iolink_master_write_system_command L (CMD_PARAM_DOWNLOAD_START L) p"

definition iolink_master_end_parameter_download ::
  "iolinki \<Rightarrow> 'e iolink_master_port_state_t \<Rightarrow> (int \<times> 'e iolink_master_port_state_t) option" where
  "iolink_master_end_parameter_download L p =
     iolink_master_write_system_command L (CMD_PARAM_DOWNLOAD_END L) p"

definition iolink_master_begin_parameter_upload ::
  "iolinki \<Rightarrow> 'e iolink_master_port_state_t \<Rightarrow> (int \<times> 'e iolink_master_port_state_t) option" where
  "iolink_master_begin_parameter_upload L p =
     iolink_master_write_system_command L (CMD_PARAM_UPLOAD_START L) p"

definition iolink_master_end_parameter_upload ::
  "iolinki \<Rightarrow> 'e iolink_master_port_state_t \<Rightarrow> (int \<times> 'e iolink_master_port_state_t) option" where
  "iolink_master_end_parameter_upload L p =
     iolink_master_write_system_command L (CMD_PARAM_UPLOAD_END L) p"

definition iolink_master_store_parameter_download ::
  "iolinki \<Rightarrow> 'e iolink_master_port_state_t \<Rightarrow> (int \<times> 'e iolink_master_port_state_t) option" where
  "iolink_master_store_parameter_download L p =
     iolink_master_write_system_command L (CMD_PARAM_DOWNLOAD_STORE L) p"

subsection \<open>The transfer\<close>

definition iolink_master_block_matches ::
  "u16 \<Rightarrow> u8 \<Rightarrow> u8 list option \<Rightarrow> nat \<Rightarrow> 'e iolink_master_port_state_t \<Rightarrow> bool option" where
  "iolink_master_block_matches index subindex data len p =
     (let block = st_block p
      in if blk_index block = index \<and> blk_subindex block = subindex \<and> blk_len block = len
         then map_option Not (octets_differ (blk_data block) data len)
         else Some False)"

definition iolink_master_block_clear ::
  "iolinki \<Rightarrow> 'e iolink_master_port_state_t \<Rightarrow> 'e iolink_master_port_state_t" where
  "iolink_master_block_clear L p = p\<lparr>st_block := zero_block L\<rparr>"

text \<open>Latching of the arguments of a new block; the flag is the test of a resumed one.\<close>

definition block_latch ::
  "u16 \<Rightarrow> u8 \<Rightarrow> u8 list option \<Rightarrow> nat \<Rightarrow> 'e iolink_master_port_state_t \<Rightarrow>
   (bool \<times> 'e iolink_master_port_state_t) option" where
  "block_latch index subindex data len p =
     (if blk_step (st_block p) = BLOCK_STEP_NONE
      then do {
        octets \<leftarrow> (if len > 0
                  then do {
                    src \<leftarrow> data;
                    payload \<leftarrow> rd_slice src 0 len;
                    wr_slice (blk_data (st_block p)) 0 payload
                  }
                  else Some (blk_data (st_block p)));
        Some (True, p\<lparr>st_block := \<lparr>blk_step = BLOCK_STEP_BEGIN_DOWNLOAD, blk_index = index,
                         blk_subindex = subindex, blk_data = octets, blk_len = len\<rparr>\<rparr>)
      }
      else map_option (\<lambda>matches. (matches, p))
             (iolink_master_block_matches index subindex data len p))"

text \<open>
  One \<open>if (block->step == ...)\<close> of the function: \<open>Some ret\<close> is its early return, otherwise
  the next statement follows.
\<close>

definition block_stage ::
  "iolink_master_block_step_t \<Rightarrow> iolink_master_block_step_t \<Rightarrow>
   ('e iolink_master_port_state_t \<Rightarrow> (int \<times> 'e iolink_master_port_state_t) option) \<Rightarrow>
   'e iolink_master_port_state_t \<Rightarrow> (int option \<times> 'e iolink_master_port_state_t) option" where
  "block_stage step next_step service p =
     (if blk_step (st_block p) = step
      then do {
        (ret, p) \<leftarrow> service p;
        if ret \<noteq> STATUS_OK then Some (Some ret, p)
        else Some (None, p\<lparr>st_block := (st_block p)\<lparr>blk_step := next_step\<rparr>\<rparr>)
      }
      else Some (None, p))"

definition block_verify ::
  "iolinki \<Rightarrow> 'e iolink_master_port_state_t \<Rightarrow> (int \<times> 'e iolink_master_port_state_t) option" where
  "block_verify L p =
     (let block = st_block p
      in do {
        (ret, p) \<leftarrow>
          (if blk_index block = IDX_DATA_STORAGE L \<and> blk_subindex block = 0
           then iolink_master_verify_data_storage L (Some (blk_data block)) (blk_len block) p
           else iolink_master_verify_isdu L (blk_index block) (blk_subindex block)
                  (Some (blk_data block)) (blk_len block) p);
        let p = (if ret = STATUS_OK then iolink_master_block_clear L p
                 else if ret < 0 then iolink_master_block_clear L p
                 else p);
        Some (iolink_master_service_result ret p)
      })"

definition block_write ::
  "iolinki \<Rightarrow> 'e iolink_master_port_state_t \<Rightarrow> (int \<times> 'e iolink_master_port_state_t) option" where
  "block_write L p =
     iolink_master_write_isdu L (blk_index (st_block p)) (blk_subindex (st_block p))
       (Some (blk_data (st_block p))) (blk_len (st_block p)) p"

definition block_advance ::
  "iolinki \<Rightarrow> 'e iolink_master_port_state_t \<Rightarrow> (int \<times> 'e iolink_master_port_state_t) option" where
  "block_advance L p = do {
     (early, p) \<leftarrow> block_stage BLOCK_STEP_BEGIN_DOWNLOAD BLOCK_STEP_WRITE
       (iolink_master_begin_parameter_download L) p;
     case early of Some ret \<Rightarrow> Some (ret, p) | None \<Rightarrow> do {
       (early, p) \<leftarrow> block_stage BLOCK_STEP_WRITE BLOCK_STEP_END_DOWNLOAD (block_write L) p;
       case early of Some ret \<Rightarrow> Some (ret, p) | None \<Rightarrow> do {
         (early, p) \<leftarrow> block_stage BLOCK_STEP_END_DOWNLOAD BLOCK_STEP_VERIFY
           (iolink_master_end_parameter_download L) p;
         case early of Some ret \<Rightarrow> Some (ret, p) | None \<Rightarrow> block_verify L p
       }
     }
   }"

definition iolink_master_write_parameter_block ::
  "iolinki \<Rightarrow> u16 \<Rightarrow> u8 \<Rightarrow> u8 list option \<Rightarrow> nat \<Rightarrow> 'e iolink_master_port_state_t \<Rightarrow>
   (int \<times> 'e iolink_master_port_state_t) option" where
  "iolink_master_write_parameter_block L index subindex data len p =
     (if data = None \<and> len > 0 then Some (ERR_INVALID_ARG, p)
      else if len > trunc8 (ISDU_BUFFER_SIZE L - ISDU_WRITE_HEADER_MAX)
      then Some (ISDU_ERR_BUFFER_TOO_SMALL, p)
      else do {
        (resumed, p) \<leftarrow> block_latch index subindex data len p;
        if \<not> resumed then Some (iolink_master_service_result ISDU_ERR_BUSY p)
        else block_advance L p
      })"

definition iolink_master_restore_data_storage ::
  "iolinki \<Rightarrow> u8 list option \<Rightarrow> nat \<Rightarrow> 'e iolink_master_port_state_t \<Rightarrow>
   (int \<times> 'e iolink_master_port_state_t) option" where
  "iolink_master_restore_data_storage L data len p =
     iolink_master_write_parameter_block L (IDX_DATA_STORAGE L) 0 data len p"

subsection \<open>Exchange with a device\<close>

text \<open>
  A pending request travels to the device, which answers with segments of OD octets. A
  device is correct when it answers with a complete, positive response that carries the
  payload \<open>answer\<close>, after any number of busy octets.
\<close>

definition isdu_exchange ::
  "iolinki \<Rightarrow> nat \<Rightarrow> (isdu_request_t \<Rightarrow> u8 list list) \<Rightarrow> iolink_master_isdu_state_t \<Rightarrow>
   (isdu_request_t \<times> iolink_master_isdu_state_t) option" where
  "isdu_exchange L n device isdu = do {
     (octets, isdu) \<leftarrow> delivered_request L n isdu;
     request \<leftarrow> parse_request octets;
     isdu \<leftarrow> feed (iolink_master_isdu_on_od L) (device request) isdu;
     Some (request, isdu)
   }"

definition device_answers ::
  "iolinki \<Rightarrow> (isdu_request_t \<Rightarrow> u8 list) \<Rightarrow> (isdu_request_t \<Rightarrow> u8 list list) \<Rightarrow> bool" where
  "device_answers L answer device \<longleftrightarrow>
     (\<forall>request. \<exists>busy r trailing.
        concat (device request) = busy @ r @ trailing \<and> set busy \<subseteq> {0, 1} \<and>
        complete_response r \<and> length r \<le> ISDU_BUFFER_SIZE L \<and>
        parse_response L r = Response_Payload (answer request))"

lemma isdu_wf_feed:
  assumes "isdu_wf L isdu" and "stack_constants_ok L"
  shows "ensures (feed (iolink_master_isdu_on_od L) segs isdu) (isdu_wf L)"
  using isdu_wf_on_od [OF assms, of "concat segs"]
  by (simp add: isdu_stream.feed_concat ensures_mono)

text \<open>A service in progress whose request has been built, and a finished one.\<close>

definition isdu_requested :: "iolinki \<Rightarrow> isdu_request_t \<Rightarrow> 'e iolink_master_port_state_t \<Rightarrow> bool" where
  "isdu_requested L request p \<longleftrightarrow> isdu_service_state p \<and> isdu_started L request (st_isdu p)"

definition isdu_answered ::
  "iolinki \<Rightarrow> isdu_request_t \<Rightarrow> u8 list \<Rightarrow> 'e iolink_master_port_state_t \<Rightarrow> bool" where
  "isdu_answered L request response p \<longleftrightarrow> isdu_service_state p \<and>
     (case request of Isdu_Request read index subindex payload \<Rightarrow>
        isdu_wf L (st_isdu p) \<and> isdu_done (st_isdu p) \<and> isdu_error (st_isdu p) = ISDU_ERROR_NONE L \<and>
        take (isdu_response_len (st_isdu p)) (isdu_response (st_isdu p)) = response \<and>
        isdu_response_len (st_isdu p) = length response \<and>
        iolink_master_isdu_matches (if read then ISDU_OP_READ else ISDU_OP_WRITE) index subindex
          (st_isdu p))"

definition isdu_idle :: "iolinki \<Rightarrow> 'e iolink_master_port_state_t \<Rightarrow> bool" where
  "isdu_idle L p \<longleftrightarrow> isdu_service_state p \<and> isdu_wf L (st_isdu p) \<and> isdu_op (st_isdu p) = ISDU_OP_NONE"

lemma requested_exchange:
  assumes L: "stack_constants_ok L" and n: "0 < n" and device: "device_answers L answer device"
    and "isdu_requested L request p"
  shows "ensures (isdu_exchange L n device (st_isdu p)) (\<lambda>(request', isdu).
    request' = request \<and> isdu_answered L request (answer request) (p\<lparr>st_isdu := isdu\<rparr>))"
proof -
  obtain read index subindex payload where req: "request = Isdu_Request read index subindex payload"
    by (cases request)
  have state: "isdu_service_state p" and "isdu_started L (Isdu_Request read index subindex payload) (st_isdu p)"
    using assms(4) by (simp_all add: isdu_requested_def req)
  from started_delivered [OF L n this(2)] obtain octets isdu
    where sent: "delivered_request L n (st_isdu p) = Some (octets, isdu)"
    "parse_request octets = Some request" "isdu_wf L isdu" "isdu_phase isdu = ISDU_PHASE_WAIT"
    "isdu_error isdu = ISDU_ERROR_NONE L" "\<not> isdu_idle_pending isdu" "\<not> isdu_abort_pending isdu"
    "iolink_master_isdu_matches (if read then ISDU_OP_READ else ISDU_OP_WRITE) index subindex isdu"
    by (auto simp: req ensures_iff)
  from device obtain busy r trailing where dev: "complete_response r" "length r \<le> ISDU_BUFFER_SIZE L"
    "set busy \<subseteq> {0, 1}" "concat (device request) = busy @ r @ trailing"
    "parse_response L r = Response_Payload (answer request)"
    unfolding device_answers_def by metis
  have "isdu_service_state (p\<lparr>st_isdu := isdu'\<rparr>)" for isdu'
    using state by (simp add: isdu_service_state_def)
  with response_stream_outcome [OF L sent(3-7) dev(1-4)] isdu_wf_feed [OF sent(3) L, of "device request"]
  show ?thesis
    using sent(8)
    by (auto simp: isdu_exchange_def sent(1,2) dev(5) ensures_iff isdu_answered_def isdu_outcome_is_def req
        iolink_master_isdu_matches_def)
qed


subsection \<open>The laws of the services\<close>

lemma idle_facts:
  assumes "isdu_idle L p"
  shows "isdu_service_state p" "isdu_wf L (st_isdu p)" "\<not> iolink_master_isdu_busy (st_isdu p)"
    "\<not> isdu_done (st_isdu p)" "length (isdu_request (st_isdu p)) = ISDU_BUFFER_SIZE L"
  using assms by (auto simp: isdu_idle_def isdu_wf_def iolink_master_isdu_busy_def)

lemma answered_facts:
  assumes "isdu_answered L (Isdu_Request read index subindex payload) response p"
  shows "isdu_service_state p" "\<not> iolink_master_isdu_busy (st_isdu p)" "isdu_done (st_isdu p)"
    "iolink_master_isdu_matches (if read then ISDU_OP_READ else ISDU_OP_WRITE) index subindex (st_isdu p)"
    "isdu_error (st_isdu p) = ISDU_ERROR_NONE L" "isdu_wf L (st_isdu p)"
    "take (isdu_response_len (st_isdu p)) (isdu_response (st_isdu p)) = response"
    "isdu_response_len (st_isdu p) = length response"
  using assms
  by (auto simp: isdu_answered_def iolink_master_isdu_busy_def)

lemma isdu_idle_collected:
  "isdu_service_state p \<Longrightarrow> isdu_wf L (st_isdu p) \<Longrightarrow> isdu_idle L (isdu_collected L p)"
  by (simp add: isdu_idle_def isdu_collected_def isdu_wf_clear isdu_service_state_def)
    (simp add: iolink_master_isdu_clear_def)

lemma write_service_start:
  assumes L: "stack_constants_ok L" and "isdu_idle L p" and "length payload < 256"
    and "write_accepted L index subindex (length payload)"
  shows "\<exists>isdu. iolink_master_write_isdu L index subindex (Some (payload @ unread)) (length payload) p =
      Some (STATUS_PENDING, p\<lparr>st_isdu := isdu\<rparr>) \<and>
    isdu_requested L (Isdu_Request False index subindex payload) (p\<lparr>st_isdu := isdu\<rparr>)"
  using write_started [OF L _ _ _ assms(3,4), of p unread] assms(2)
  by (auto simp: isdu_idle_def isdu_requested_def isdu_service_state_def)

lemma write_service_finish:
  assumes "isdu_answered L (Isdu_Request False index subindex payload) response p"
    and "data \<noteq> None \<or> len = 0"
  shows "iolink_master_write_isdu L index subindex data len p = Some (STATUS_OK, isdu_collected L p)"
    and "isdu_idle L (isdu_collected L p)"
  using answered_facts [OF assms(1)] assms(2) isdu_idle_collected [of p L]
  by (auto simp: iolink_master_write_isdu_def iolink_master_isdu_finish_write_def
      iolink_master_service_result_def isdu_collected_def)

lemma read_service_start:
  assumes L: "stack_constants_ok L" and "isdu_idle L p"
  shows "\<exists>isdu. iolink_master_read_isdu L index subindex data len p =
      Some (STATUS_PENDING, data, len, p\<lparr>st_isdu := isdu\<rparr>) \<and>
    isdu_requested L (Isdu_Request True index subindex []) (p\<lparr>st_isdu := isdu\<rparr>)"
  using read_started [OF L, of p index subindex data len] assms(2)
  by (auto simp: isdu_idle_def isdu_requested_def isdu_service_state_def)

lemma answered_read_back:
  assumes "isdu_answered L (Isdu_Request True index subindex []) response p" and "length response < 256"
  shows "isdu_read_back L index subindex response p" and "isdu_idle L (isdu_collected L p)"
  using answered_facts [OF assms(1)] assms(2) isdu_idle_collected [of p L]
  by (simp_all add: isdu_read_back_def)

lemma read_service_finish:
  assumes "isdu_answered L (Isdu_Request True index subindex []) response p"
    and "length response \<le> len" "len \<le> length data" "len < 256"
  shows "\<exists>rest. iolink_master_read_isdu L index subindex data len p =
    Some (STATUS_OK, response @ rest, length response, isdu_collected L p)"
proof -
  define isdu where "isdu = st_isdu p"
  note facts = answered_facts [OF assms(1), folded isdu_def]
  have size: "length response \<le> length (isdu_response isdu)" using facts(7,8) by (metis length_take min.cobounded1)
  have copy: "(if length response > 0 then do { octets \<leftarrow> rd_slice (isdu_response isdu) 0 (length response);
        wr_slice data 0 octets } else Some data) = Some (response @ drop (length response) data)"
    using facts(7,8) size assms(2,3) by (cases "response = []") (auto simp: rd_slice_def wr_slice_def)
  have "iolink_master_isdu_finish_read L data len p =
      Some (STATUS_OK, response @ drop (length response) data, length response, isdu_collected L p)"
    using facts(5) assms(2,4)
    unfolding iolink_master_isdu_finish_read_def isdu_def [symmetric] facts(8) Let_def copy
    by (simp add: iolink_master_service_result_def isdu_collected_def isdu_def)
  then show ?thesis
    using facts(1-4) by (simp add: iolink_master_read_isdu_def isdu_def)
qed

text \<open>
  A client runs services one after another: each is called, exchanged and called again for
  its result. The log holds what was on the wire and the result.
\<close>

fun services ::
  "('q \<Rightarrow> 's \<Rightarrow> ('r \<times> 's) option) \<Rightarrow> ('s \<Rightarrow> ('t \<times> 's) option) \<Rightarrow> 'q list \<Rightarrow> 's \<Rightarrow>
   (('t \<times> 'r) list \<times> 's) option" where
  "services call exchange [] s = Some ([], s)"
| "services call exchange (q # qs) s = do {
     (_, s) \<leftarrow> call q s;
     (t, s) \<leftarrow> exchange s;
     (r, s) \<leftarrow> call q s;
     (rest, s) \<leftarrow> services call exchange qs s;
     Some ((t, r) # rest, s)
   }"

text \<open>
  What a client of an acyclic service relies on: a call on an idle engine is pending and
  puts the request on the wire, the exchange answers it, and the same call then collects
  the outcome and frees the engine.
\<close>

locale exchanged_service =
  fixes call :: "'q \<Rightarrow> 's \<Rightarrow> ('r \<times> 's) option"
    and exchange :: "'s \<Rightarrow> ('t \<times> 's) option"
    and wire :: "'q \<Rightarrow> 't"
    and ok :: "'q \<Rightarrow> bool"
    and idle :: "'s \<Rightarrow> bool"
    and requested :: "'q \<Rightarrow> 's \<Rightarrow> bool"
    and answered :: "'q \<Rightarrow> 's \<Rightarrow> bool"
    and pending :: "'r \<Rightarrow> bool"
    and outcome :: "'q \<Rightarrow> 'r \<Rightarrow> bool"
  assumes call_idle: "ok q \<Longrightarrow> idle s \<Longrightarrow> ensures (call q s) (\<lambda>(r, s'). pending r \<and> requested q s')"
    and exchange_requested: "ok q \<Longrightarrow> requested q s \<Longrightarrow>
      ensures (exchange s) (\<lambda>(t, s'). t = wire q \<and> answered q s')"
    and call_answered: "ok q \<Longrightarrow> answered q s \<Longrightarrow> ensures (call q s) (\<lambda>(r, s'). outcome q r \<and> idle s')"
begin

lemma complete_service:
  assumes "ok q" and "idle s"
  shows "ensures (do { (r1, s) \<leftarrow> call q s; (t, s) \<leftarrow> exchange s; (r2, s) \<leftarrow> call q s; Some (r1, t, r2, s) })
    (\<lambda>(r1, t, r2, s'). pending r1 \<and> t = wire q \<and> outcome q r2 \<and> idle s')"
proof -
  obtain r1 s1 where 1: "call q s = Some (r1, s1)" "pending r1" "requested q s1"
    using call_idle [OF assms] by (auto simp: ensures_iff)
  obtain t s2 where 2: "exchange s1 = Some (t, s2)" "t = wire q" "answered q s2"
    using exchange_requested [OF assms(1) 1(3)] by (auto simp: ensures_iff)
  obtain r2 s3 where "call q s2 = Some (r2, s3)" "outcome q r2" "idle s3"
    using call_answered [OF assms(1) 2(3)] by (auto simp: ensures_iff)
  with 1 2 show ?thesis by simp
qed

lemma services_in_order:
  "list_all ok qs \<Longrightarrow> idle s \<Longrightarrow> ensures (services call exchange qs s) (\<lambda>(log, s').
     map fst log = map wire qs \<and> list_all2 outcome qs (map snd log) \<and> idle s')"
proof (induction qs arbitrary: s)
  case Nil
  then show ?case by simp
next
  case (Cons q qs)
  then obtain r1 s1 t s2 r2 s3 where
    "call q s = Some (r1, s1)" "exchange s1 = Some (t, s2)" "call q s2 = Some (r2, s3)"
    "t = wire q" "outcome q r2" "idle s3"
    using complete_service [of q s] by (auto simp: ensures_iff split: Option.bind_splits)
  with Cons show ?case
    by (auto simp: ensures_bind split_beta elim!: ensures_mono)
qed

end


text \<open>The ISDU read and write services of a port as one service of the interface.\<close>

definition isdu_call ::
  "iolinki \<Rightarrow> isdu_request_t \<Rightarrow> 'e iolink_master_port_state_t \<Rightarrow>
   ((int \<times> u8 list) \<times> 'e iolink_master_port_state_t) option" where
  "isdu_call L request p =
     (case request of Isdu_Request read index subindex payload \<Rightarrow>
        if read
        then do {
          (ret, data, len, p) \<leftarrow> iolink_master_read_isdu L index subindex (replicate 255 0) 255 p;
          Some ((ret, take len data), p)
        }
        else do {
          (ret, p) \<leftarrow> iolink_master_write_isdu L index subindex (Some payload) (length payload) p;
          Some ((ret, []), p)
        })"

definition isdu_port_exchange ::
  "iolinki \<Rightarrow> nat \<Rightarrow> (isdu_request_t \<Rightarrow> u8 list list) \<Rightarrow> 'e iolink_master_port_state_t \<Rightarrow>
   (isdu_request_t \<times> 'e iolink_master_port_state_t) option" where
  "isdu_port_exchange L n device p =
     map_option (\<lambda>(request, isdu). (request, p\<lparr>st_isdu := isdu\<rparr>))
       (isdu_exchange L n device (st_isdu p))"

definition isdu_request_ok :: "iolinki \<Rightarrow> (isdu_request_t \<Rightarrow> u8 list) \<Rightarrow> isdu_request_t \<Rightarrow> bool" where
  "isdu_request_ok L answer request =
     (case request of Isdu_Request read index subindex payload \<Rightarrow>
        if read then payload = [] \<and> length (answer request) < 256
        else length payload < 256 \<and> write_accepted L index subindex (length payload))"

definition isdu_result_ok :: "(isdu_request_t \<Rightarrow> u8 list) \<Rightarrow> isdu_request_t \<Rightarrow> int \<times> u8 list \<Rightarrow> bool" where
  "isdu_result_ok answer request result =
     (case request of Isdu_Request read index subindex payload \<Rightarrow>
        result = (STATUS_OK, if read then answer request else []))"

interpretation isdu_client: exchanged_service "isdu_call L" "isdu_port_exchange L n device" "\<lambda>q. q"
  "\<lambda>q. stack_constants_ok L \<and> device_answers L answer device \<and> 0 < n \<and> isdu_request_ok L answer q"
  "isdu_idle L" "isdu_requested L" "\<lambda>q. isdu_answered L q (answer q)"
  "\<lambda>r. fst r = STATUS_PENDING" "isdu_result_ok answer"
proof
  fix q and s :: "'e iolink_master_port_state_t"
  obtain read index subindex payload where q: "q = Isdu_Request read index subindex payload"
    by (cases q)
  assume ok: "stack_constants_ok L \<and> device_answers L answer device \<and> 0 < n \<and> isdu_request_ok L answer q"
  then have L: "stack_constants_ok L" "0 < n" by simp_all
  {
    assume "isdu_idle L s"
    then show "ensures (isdu_call L q s) (\<lambda>(r, s'). fst r = STATUS_PENDING \<and> isdu_requested L q s')"
      using write_service_start [OF L(1), of s payload index subindex "[]"] ok
        read_service_start [OF L(1), of s index subindex "replicate 255 0" 255]
      by (cases read) (auto simp: isdu_call_def q isdu_request_ok_def)
  next
    assume "isdu_requested L q s"
    with requested_exchange [OF L, of answer device q s] ok
    show "ensures (isdu_port_exchange L n device s) (\<lambda>(t, s'). t = q \<and> isdu_answered L q (answer q) s')"
      by (simp add: isdu_port_exchange_def ensures_map case_prod_unfold)
  next
    assume answered: "isdu_answered L q (answer q) s"
    show "ensures (isdu_call L q s) (\<lambda>(r, s'). isdu_result_ok answer q r \<and> isdu_idle L s')"
    proof (cases read)
      case True
      then have "payload = []" "length (answer q) < 256" using ok by (auto simp: isdu_request_ok_def q)
      with True answered read_service_finish [of L index subindex "answer q" s 255 "replicate 255 0"]
        answered_read_back(2) [of L index subindex "answer q" s]
      show ?thesis by (auto simp: isdu_call_def q isdu_result_ok_def)
    next
      case False
      with answered write_service_finish [of L index subindex payload "answer q" s "Some payload" "length payload"]
      show ?thesis by (auto simp: isdu_call_def q isdu_result_ok_def)
    qed
  }
qed

text \<open>
  End to end: an application that runs any sequence of ISDU reads and writes on an idle
  port against a correct device gets exactly the device's payloads for its reads and OK for
  its writes; the device receives exactly these requests, in order, and the engine is idle
  afterwards. This holds for every OD width and every segmentation of the responses.
\<close>

theorem isdu_services_in_order:
  assumes "stack_constants_ok L" and "device_answers L answer device" and "0 < n"
    and "list_all (isdu_request_ok L answer) requests" and "isdu_idle L p"
  shows "ensures (services (isdu_call L) (isdu_port_exchange L n device) requests p) (\<lambda>(log, p').
    map fst log = requests \<and> list_all2 (isdu_result_ok answer) requests (map snd log) \<and>
    isdu_idle L p')"
  using isdu_client.services_in_order [of L answer device n requests p] assms
  by (auto simp: list_all_iff elim!: ensures_mono)

text \<open>A device for the witnesses: it answers reads with three octets, in two segments.\<close>

definition demo_device :: "isdu_request_t \<Rightarrow> u8 list list" where
  "demo_device request =
     (case request of Isdu_Request read _ _ _ \<Rightarrow>
        if read then [[1], [0xD5, 1], [2, 3, 0xD5]] else [[0], [0x52, 0x52]])"

definition demo_answer :: "isdu_request_t \<Rightarrow> u8 list" where
  "demo_answer request = (case request of Isdu_Request read _ _ _ \<Rightarrow> if read then [1, 2, 3] else [])"

lemma demo_device: "device_answers demo_stack demo_answer demo_device"
proof -
  have "\<exists>busy r trailing. concat (demo_device request) = busy @ r @ trailing \<and> set busy \<subseteq> {0, 1} \<and>
    complete_response r \<and> length r \<le> ISDU_BUFFER_SIZE demo_stack \<and>
    parse_response demo_stack r = Response_Payload (demo_answer request)" for request
  proof (cases request)
    case (Isdu_Request read index subindex payload)
    show ?thesis
    proof (cases read)
      case True
      then show ?thesis
        by (intro exI [of _ "[1]"] exI [of _ "[0xD5, 1, 2, 3, 0xD5]"] exI [of _ "[]"])
          (simp add: Isdu_Request demo_device_def demo_answer_def demo_stack_def complete_response_def
            response_length_def parse_response_def xor_octets_def)
    next
      case False
      then show ?thesis
        by (intro exI [of _ "[0]"] exI [of _ "[0x52, 0x52]"] exI [of _ "[]"])
          (simp add: Isdu_Request demo_device_def demo_answer_def demo_stack_def complete_response_def
            response_length_def parse_response_def xor_octets_def)
    qed
  qed
  then show ?thesis by (simp add: device_answers_def)
qed

lemma demo_idle: "isdu_idle demo_stack ((zero_port demo_stack)\<lparr>st_state := STATE_OPERATE\<rparr>)"
  by (simp add: isdu_idle_def isdu_service_state_def zero_port_def isdu_wf_zero)
    (simp add: zero_isdu_def)

theorem isdu_services_in_order_witness:
  "ensures (services (isdu_call demo_stack) (isdu_port_exchange demo_stack 2 demo_device)
      [Isdu_Request True 0x10 0 [], Isdu_Request False 0x18 0 [7, 8], Isdu_Request True 0x1234 5 []]
      ((zero_port demo_stack :: unit iolink_master_port_state_t)\<lparr>st_state := STATE_OPERATE\<rparr>))
    (\<lambda>(log, p'). map snd log = [(STATUS_OK, [1, 2, 3]), (STATUS_OK, []), (STATUS_OK, [1, 2, 3])])"
  by (rule ensures_mono [OF isdu_services_in_order [OF demo_stack_constants demo_device _ _ demo_idle]])
    (auto simp: isdu_request_ok_def demo_answer_def write_accepted_def demo_stack_def
      iolink_master_isdu_index_len_def isdu_result_ok_def list_all2_Cons1)


subsection \<open>The block transfer against a device\<close>

text \<open>
  An application that polls an operation until it is no longer pending, with an exchange after
  each call that is; the log holds what was on the wire. There is no result when the calls run out.
\<close>

fun polled ::
  "('s \<Rightarrow> (int \<times> 's) option) \<Rightarrow> ('s \<Rightarrow> ('t \<times> 's) option) \<Rightarrow> nat \<Rightarrow> 's \<Rightarrow>
   ('t list \<times> int \<times> 's) option" where
  "polled call exchange 0 s = None"
| "polled call exchange (Suc calls) s = do {
     (ret, s) \<leftarrow> call s;
     if ret \<noteq> STATUS_PENDING then Some ([], ret, s)
     else do {
       (t, s) \<leftarrow> exchange s;
       (log, ret, s) \<leftarrow> polled call exchange calls s;
       Some (t # log, ret, s)
     }
   }"

text \<open>
  What a client of such an operation relies on: its requests are known, the call before the
  request \<open>i\<close> leaves it pending, the exchange answers it, and the call after the last one is final.
\<close>

locale polled_operation =
  fixes call :: "'s \<Rightarrow> (int \<times> 's) option"
    and exchange :: "'s \<Rightarrow> ('t \<times> 's) option"
    and wire :: "'q \<Rightarrow> 't"
    and requests :: "'q list"
    and ok :: bool
    and before :: "nat \<Rightarrow> 's \<Rightarrow> bool"
    and requested :: "nat \<Rightarrow> 's \<Rightarrow> bool"
    and final :: "int \<Rightarrow> 's \<Rightarrow> bool"
  assumes call_pending: "ok \<Longrightarrow> i < length requests \<Longrightarrow> before i s \<Longrightarrow>
      ensures (call s) (\<lambda>(ret, s'). ret = STATUS_PENDING \<and> requested i s')"
    and exchange_requested: "ok \<Longrightarrow> i < length requests \<Longrightarrow> requested i s \<Longrightarrow>
      ensures (exchange s) (\<lambda>(t, s'). t = wire (requests ! i) \<and> before (Suc i) s')"
    and call_final: "ok \<Longrightarrow> before (length requests) s \<Longrightarrow>
      ensures (call s) (\<lambda>(ret, s'). ret \<noteq> STATUS_PENDING \<and> final ret s')"
begin

lemma polled_from:
  "ok \<Longrightarrow> i + k = length requests \<Longrightarrow> before i s \<Longrightarrow>
   ensures (polled call exchange (Suc k) s) (\<lambda>(log, ret, s').
     log = map wire (drop i requests) \<and> final ret s')"
proof (induction k arbitrary: i s)
  case 0
  then show ?case using call_final [of s] by (auto elim!: ensuresE)
next
  case (Suc k)
  then have i: "i < length requests" by simp
  obtain s1 where s1: "call s = Some (STATUS_PENDING, s1)" "requested i s1"
    using call_pending [OF Suc.prems(1) i Suc.prems(3)] by (auto elim!: ensuresE)
  obtain s2 where s2: "exchange s1 = Some (wire (requests ! i), s2)" "before (Suc i) s2"
    using exchange_requested [OF Suc.prems(1) i s1(2)] by (auto elim!: ensuresE)
  show ?case
    using Suc.IH [OF Suc.prems(1) _ s2(2)] Suc.prems(2) Cons_nth_drop_Suc [OF i, symmetric]
    by (subst polled.simps) (auto simp: s1(1) s2(1) simp del: polled.simps elim!: ensuresE)
qed

lemma polled_in_order:
  assumes "ok" and "before 0 s"
  shows "ensures (polled call exchange (Suc (length requests)) s) (\<lambda>(log, ret, s').
    log = map wire requests \<and> final ret s')"
  using polled_from [OF assms(1) _ assms(2), of "length requests"] by simp

end

text \<open>An application that calls the transfer with the same arguments.\<close>

definition block_run ::
  "iolinki \<Rightarrow> nat \<Rightarrow> (isdu_request_t \<Rightarrow> u8 list list) \<Rightarrow> u16 \<Rightarrow> u8 \<Rightarrow> u8 list option \<Rightarrow> nat \<Rightarrow> nat \<Rightarrow>
   'e iolink_master_port_state_t \<Rightarrow>
   (isdu_request_t list \<times> int \<times> 'e iolink_master_port_state_t) option" where
  "block_run L n device index subindex data len =
     polled (iolink_master_write_parameter_block L index subindex data len) (isdu_port_exchange L n device)"

text \<open>A port whose transfer of \<open>payload\<close> is in the given step.\<close>

definition block_at ::
  "iolinki \<Rightarrow> iolink_master_block_step_t \<Rightarrow> u16 \<Rightarrow> u8 \<Rightarrow> u8 list \<Rightarrow> 'e iolink_master_port_state_t \<Rightarrow> bool"
where
  "block_at L step index subindex payload p \<longleftrightarrow>
     blk_step (st_block p) = step \<and> blk_index (st_block p) = index \<and>
     blk_subindex (st_block p) = subindex \<and> blk_len (st_block p) = length payload \<and>
     length payload \<le> ISDU_BUFFER_SIZE L - ISDU_WRITE_HEADER_MAX \<and>
     (\<exists>rest. blk_data (st_block p) = payload @ rest)"

lemma block_at_frame:
  "block_at L step index subindex payload (p\<lparr>st_isdu := isdu\<rparr>) = block_at L step index subindex payload p"
  "block_at L step index subindex payload (isdu_collected L p) = block_at L step index subindex payload p"
  by (simp_all add: block_at_def isdu_collected_def)

lemma block_at_next:
  "block_at L step index subindex payload p \<Longrightarrow>
   block_at L next_step index subindex payload (p\<lparr>st_block := (st_block p)\<lparr>blk_step := next_step\<rparr>\<rparr>)"
  by (simp add: block_at_def)

lemma idle_frame [simp]:
  "isdu_idle L (p\<lparr>st_block := block\<rparr>) = isdu_idle L p"
  by (simp add: isdu_idle_def isdu_service_state_def)

lemma isdu_buffer_bounds: "stack_constants_ok L \<Longrightarrow> 16 \<le> ISDU_BUFFER_SIZE L \<and> ISDU_BUFFER_SIZE L \<le> 256"
  by (simp add: stack_constants_ok_def)

lemma write_limit:
  "stack_constants_ok L \<Longrightarrow>
   trunc8 (ISDU_BUFFER_SIZE L - ISDU_WRITE_HEADER_MAX) = ISDU_BUFFER_SIZE L - ISDU_WRITE_HEADER_MAX"
  using isdu_buffer_bounds [of L] by (intro trunc8_id) linarith

lemma block_call_resumed:
  assumes L: "stack_constants_ok L" and "block_at L step index subindex payload p"
    and "step \<noteq> BLOCK_STEP_NONE"
  shows "iolink_master_write_parameter_block L index subindex (Some payload) (length payload) p =
    block_advance L p"
proof -
  obtain rest where "blk_data (st_block p) = payload @ rest"
    using assms(2) by (auto simp: block_at_def)
  then have "block_latch index subindex (Some payload) (length payload) p = Some (True, p)"
    using assms(2,3)
    by (auto simp: block_latch_def iolink_master_block_matches_def block_at_def octets_differ_def
        rd_slice_def)
  moreover have "\<not> trunc8 (ISDU_BUFFER_SIZE L - ISDU_WRITE_HEADER_MAX) < length payload"
    using assms(2) by (simp add: block_at_def write_limit [OF L])
  ultimately show ?thesis by (simp add: iolink_master_write_parameter_block_def)
qed

lemma block_call_new:
  assumes L: "stack_constants_ok L" and "blk_step (st_block p) = BLOCK_STEP_NONE"
    and "length (blk_data (st_block p)) = ISDU_BUFFER_SIZE L"
    and "length payload \<le> ISDU_BUFFER_SIZE L - ISDU_WRITE_HEADER_MAX"
  shows "\<exists>block. iolink_master_write_parameter_block L index subindex (Some payload) (length payload) p =
      block_advance L (p\<lparr>st_block := block\<rparr>) \<and>
    block_at L BLOCK_STEP_BEGIN_DOWNLOAD index subindex payload (p\<lparr>st_block := block\<rparr>)"
proof -
  have octets: "(if length payload > 0 then do { src \<leftarrow> Some payload;
      octets \<leftarrow> rd_slice src 0 (length payload); wr_slice (blk_data (st_block p)) 0 octets }
    else Some (blk_data (st_block p))) =
      Some (payload @ drop (length payload) (blk_data (st_block p)))"
    using assms(3,4) by (cases "payload = []") (simp_all add: rd_slice_def wr_slice_def)
  have "\<not> trunc8 (ISDU_BUFFER_SIZE L - ISDU_WRITE_HEADER_MAX) < length payload"
    using assms(4) by (simp add: write_limit [OF L])
  then show ?thesis
    using assms(2,4) unfolding iolink_master_write_parameter_block_def block_latch_def octets
    by (auto simp: block_at_def)
qed


text \<open>What a call does in each of the four situations of a transfer that makes progress.\<close>

lemma system_command_accepted:
  "stack_constants_ok L \<Longrightarrow> write_accepted L index 0 (length [command])"
  using index_len_bounds(2) [of index 0] isdu_buffer_bounds [of L]
  by (auto simp: write_accepted_def Let_def)

lemma begin_start:
  assumes L: "stack_constants_ok L" and "isdu_idle L p"
  shows "\<exists>isdu. iolink_master_write_system_command L command p = Some (STATUS_PENDING, p\<lparr>st_isdu := isdu\<rparr>) \<and>
    isdu_requested L (Isdu_Request False (IDX_SYSTEM_COMMAND L) 0 [command]) (p\<lparr>st_isdu := isdu\<rparr>)"
  using write_service_start [OF L assms(2), of "[command]" "IDX_SYSTEM_COMMAND L" 0 "[]"]
    system_command_accepted [OF L, of "IDX_SYSTEM_COMMAND L" command]
  by (simp add: iolink_master_write_system_command_def)

lemma command_finish:
  assumes "isdu_answered L (Isdu_Request False (IDX_SYSTEM_COMMAND L) 0 payload) response p"
  shows "iolink_master_write_system_command L command p = Some (STATUS_OK, isdu_collected L p)"
  using write_service_finish(1) [OF assms, of "Some [command]" 1]
  by (simp add: iolink_master_write_system_command_def)

lemma block_write_start:
  assumes L: "stack_constants_ok L" and "isdu_idle L p"
    and "block_at L step index subindex payload p" and "length payload < 256"
    and "write_accepted L index subindex (length payload)"
  shows "\<exists>isdu. block_write L p = Some (STATUS_PENDING, p\<lparr>st_isdu := isdu\<rparr>) \<and>
    isdu_requested L (Isdu_Request False index subindex payload) (p\<lparr>st_isdu := isdu\<rparr>)"
proof -
  obtain rest where "blk_data (st_block p) = payload @ rest"
    using assms(3) by (auto simp: block_at_def)
  then show ?thesis
    using write_service_start [OF L assms(2,4,5), of rest] assms(3)
    by (auto simp: block_write_def block_at_def)
qed

lemma block_write_finish:
  assumes "isdu_answered L (Isdu_Request False index subindex payload) response p"
    and "block_at L step index subindex payload p"
  shows "block_write L p = Some (STATUS_OK, isdu_collected L p)"
  using write_service_finish(1) [OF assms(1), of "Some (blk_data (st_block p))" "length payload"] assms(2)
  by (simp add: block_write_def block_at_def)

text \<open>What the transfer accepts as the read-back of \<open>payload\<close>.\<close>

definition block_verified :: "iolinki \<Rightarrow> u16 \<Rightarrow> u8 \<Rightarrow> u8 list \<Rightarrow> u8 list \<Rightarrow> bool" where
  "block_verified L index subindex payload stored \<longleftrightarrow>
     (if index = IDX_DATA_STORAGE L \<and> subindex = 0 then ds_verifies stored payload
      else stored = payload)"

lemma block_verify_start:
  assumes L: "stack_constants_ok L" and "isdu_idle L p"
    and "block_at L step index subindex payload p"
  shows "\<exists>isdu. block_verify L p = Some (STATUS_PENDING, p\<lparr>st_isdu := isdu\<rparr>) \<and>
    isdu_requested L (Isdu_Request True index subindex []) (p\<lparr>st_isdu := isdu\<rparr>)"
  using read_service_start [OF L assms(2), of index subindex "replicate (ISDU_BUFFER_SIZE L) 0" 255]
    assms(3)
  by (auto simp: block_verify_def block_at_def Let_def iolink_master_verify_data_storage_def
      iolink_master_verify_isdu_def iolink_master_service_result_def)

lemma verify_isdu_decides:
  assumes "isdu_read_back L index subindex actual p" and "len \<le> length expected"
  shows "ensures (iolink_master_verify_isdu L index subindex (Some expected) len p) (\<lambda>(ret, p').
    ret = (if actual = take len expected then STATUS_OK else ISDU_ERR_VERIFY_FAILED) \<and>
    p' = (isdu_collected L p)\<lparr>st_diagnostics :=
      (st_diagnostics (isdu_collected L p))\<lparr>dg_last_service_result := ret\<rparr>\<rparr>)"
proof -
  obtain rest where "iolink_master_read_isdu L index subindex (replicate (ISDU_BUFFER_SIZE L) 0) 255 p =
    Some (STATUS_OK, actual @ rest, length actual, isdu_collected L p)"
    using isdu_read_back_finish [OF assms(1)] by blast
  then show ?thesis
    using verify_mismatch_eq [of "length actual" "actual @ rest" len expected] assms(2)
    by (auto simp: iolink_master_verify_isdu_def iolink_master_service_result_def isdu_collected_def)
qed


definition block_to :: "iolink_master_block_step_t \<Rightarrow> 'e iolink_master_port_state_t \<Rightarrow> 'e iolink_master_port_state_t" where
  "block_to step p = p\<lparr>st_block := (st_block p)\<lparr>blk_step := step\<rparr>\<rparr>"

lemma block_advance_pending:
  "blk_step (st_block p) = BLOCK_STEP_BEGIN_DOWNLOAD \<Longrightarrow>
     iolink_master_begin_parameter_download L p = Some (STATUS_PENDING, p') \<Longrightarrow>
     block_advance L p = Some (STATUS_PENDING, p')"
  "blk_step (st_block p) = BLOCK_STEP_WRITE \<Longrightarrow> block_write L p = Some (STATUS_PENDING, p') \<Longrightarrow>
     block_advance L p = Some (STATUS_PENDING, p')"
  "blk_step (st_block p) = BLOCK_STEP_END_DOWNLOAD \<Longrightarrow>
     iolink_master_end_parameter_download L p = Some (STATUS_PENDING, p') \<Longrightarrow>
     block_advance L p = Some (STATUS_PENDING, p')"
  "blk_step (st_block p) = BLOCK_STEP_VERIFY \<Longrightarrow> block_advance L p = block_verify L p"
  by (simp_all add: block_advance_def block_stage_def)

lemma block_advance_done:
  "blk_step (st_block p) = BLOCK_STEP_BEGIN_DOWNLOAD \<Longrightarrow>
     iolink_master_begin_parameter_download L p = Some (STATUS_OK, p') \<Longrightarrow>
     block_advance L p = block_advance L (block_to BLOCK_STEP_WRITE p')"
  "blk_step (st_block p) = BLOCK_STEP_WRITE \<Longrightarrow> block_write L p = Some (STATUS_OK, p') \<Longrightarrow>
     block_advance L p = block_advance L (block_to BLOCK_STEP_END_DOWNLOAD p')"
  "blk_step (st_block p) = BLOCK_STEP_END_DOWNLOAD \<Longrightarrow>
     iolink_master_end_parameter_download L p = Some (STATUS_OK, p') \<Longrightarrow>
     block_advance L p = block_advance L (block_to BLOCK_STEP_VERIFY p')"
  by (simp_all add: block_advance_def block_stage_def block_to_def)

lemma block_to_at:
  "block_at L step index subindex payload p \<Longrightarrow> block_at L step' index subindex payload (block_to step' p)"
  "isdu_idle L (block_to step' p) = isdu_idle L p"
  by (simp_all add: block_at_def block_to_def)

lemma block_at_step: "block_at L step index subindex payload p \<Longrightarrow> blk_step (st_block p) = step"
  by (simp add: block_at_def)

text \<open>The services of a port change its engines and its diagnostics only.\<close>

definition serviced :: "'e iolink_master_port_state_t \<Rightarrow> 'e iolink_master_port_state_t \<Rightarrow> bool" where
  "serviced p p' \<longleftrightarrow>
     p\<lparr>st_isdu := st_isdu p', st_block := st_block p', st_diagnostics := st_diagnostics p'\<rparr> = p'"

lemma serviced_refl [simp]: "serviced p p"
  by (simp add: serviced_def)

lemma serviced_update:
  assumes "serviced p p'"
  shows "serviced p (p'\<lparr>st_isdu := isdu\<rparr>)" "serviced p (p'\<lparr>st_block := block\<rparr>)"
    "serviced p (p'\<lparr>st_diagnostics := d\<rparr>)" "serviced p (isdu_collected L p')" "serviced p (block_to step p')"
    "serviced p (iolink_master_block_clear L p')"
  using assms
  by (cases p; cases p'; simp add: serviced_def isdu_collected_def block_to_def iolink_master_block_clear_def)+

lemma serviced_trans: "serviced p p' \<Longrightarrow> serviced p' p'' \<Longrightarrow> serviced p p''"
  by (cases p; cases p'; cases p'') (simp add: serviced_def)

text \<open>A call of the transfer that leaves a request pending.\<close>

definition block_waits ::
  "iolinki \<Rightarrow> iolink_master_block_step_t \<Rightarrow> isdu_request_t \<Rightarrow> u16 \<Rightarrow> u8 \<Rightarrow> u8 list \<Rightarrow>
   'e iolink_master_port_state_t \<Rightarrow> (int \<times> 'e iolink_master_port_state_t) option \<Rightarrow> bool" where
  "block_waits L step request index subindex payload p result \<longleftrightarrow>
     ensures result (\<lambda>(ret, p'). ret = STATUS_PENDING \<and> serviced p p' \<and> isdu_requested L request p' \<and>
       block_at L step index subindex payload p')"

lemma block_waits_at:
  assumes "\<exists>isdu. result = Some (STATUS_PENDING, q\<lparr>st_isdu := isdu\<rparr>) \<and>
      isdu_requested L request (q\<lparr>st_isdu := isdu\<rparr>)"
    and "block_at L step index subindex payload q" and "serviced p q"
  shows "block_waits L step request index subindex payload p result"
  using assms by (auto simp: block_waits_def block_at_frame serviced_update)

lemma collected_op: "isdu_op (st_isdu (isdu_collected L p)) = ISDU_OP_NONE"
  by (simp add: isdu_collected_def iolink_master_isdu_clear_def)

lemma cleared_block:
  "blk_step (st_block (iolink_master_block_clear L p)) = BLOCK_STEP_NONE"
  "st_isdu (iolink_master_block_clear L p) = st_isdu p"
  "st_diagnostics (iolink_master_block_clear L p) = st_diagnostics p"
  by (simp_all add: iolink_master_block_clear_def zero_block_def)

lemma read_back_decides:
  assumes "isdu_read_back L index subindex stored p" and "length payload < 256"
  shows "ensures (if index = IDX_DATA_STORAGE L \<and> subindex = 0
      then iolink_master_verify_data_storage L (Some (payload @ rest)) (length payload) p
      else iolink_master_verify_isdu L index subindex (Some (payload @ rest)) (length payload) p)
    (\<lambda>(ret, p'). ret = (if block_verified L index subindex payload stored then STATUS_OK else ISDU_ERR_VERIFY_FAILED) \<and>
       p' = (isdu_collected L p)\<lparr>st_diagnostics :=
         (st_diagnostics (isdu_collected L p))\<lparr>dg_last_service_result := ret\<rparr>\<rparr>)"
  using assms verify_data_storage_decides [of L stored p "length payload" "payload @ rest"]
    verify_isdu_decides [of L index subindex stored p "length payload" "payload @ rest"]
  by (auto simp: block_verified_def ds_read_back_def)

lemma block_finishes:
  assumes "isdu_answered L (Isdu_Request True index subindex []) stored p"
    and "block_at L BLOCK_STEP_VERIFY index subindex payload p" and "length stored < 256"
    and "length payload < 256"
  shows "ensures (block_verify L p) (\<lambda>(ret, p').
    ret = (if block_verified L index subindex payload stored then STATUS_OK else ISDU_ERR_VERIFY_FAILED) \<and>
    serviced p p' \<and> blk_step (st_block p') = BLOCK_STEP_NONE \<and> isdu_op (st_isdu p') = ISDU_OP_NONE)"
proof -
  obtain rest where block: "blk_data (st_block p) = payload @ rest" "blk_len (st_block p) = length payload"
    "blk_index (st_block p) = index" "blk_subindex (st_block p) = subindex"
    using assms(2) by (auto simp: block_at_def)
  show ?thesis
    using read_back_decides [OF answered_read_back(1) [OF assms(1,3)] assms(4), of rest]
    unfolding block_verify_def block Let_def
    by (auto simp: serviced_update iolink_master_service_result_def collected_op cleared_block elim!: ensuresE)
qed

text \<open>The four requests of a transfer and the steps in which they are pending.\<close>

definition block_requests :: "iolinki \<Rightarrow> u16 \<Rightarrow> u8 \<Rightarrow> u8 list \<Rightarrow> isdu_request_t list" where
  "block_requests L index subindex payload =
     [Isdu_Request False (IDX_SYSTEM_COMMAND L) 0 [CMD_PARAM_DOWNLOAD_START L],
      Isdu_Request False index subindex payload,
      Isdu_Request False (IDX_SYSTEM_COMMAND L) 0 [CMD_PARAM_DOWNLOAD_END L],
      Isdu_Request True index subindex []]"

definition block_steps :: "iolink_master_block_step_t list" where
  "block_steps = [BLOCK_STEP_BEGIN_DOWNLOAD, BLOCK_STEP_WRITE, BLOCK_STEP_END_DOWNLOAD, BLOCK_STEP_VERIFY]"

definition block_free :: "iolinki \<Rightarrow> 'e iolink_master_port_state_t \<Rightarrow> bool" where
  "block_free L p \<longleftrightarrow> isdu_idle L p \<and> blk_step (st_block p) = BLOCK_STEP_NONE \<and>
     length (blk_data (st_block p)) = ISDU_BUFFER_SIZE L"

text \<open>The port before the call \<open>i\<close>: free, or with the request before it answered.\<close>

definition block_before ::
  "iolinki \<Rightarrow> (isdu_request_t \<Rightarrow> u8 list) \<Rightarrow> u16 \<Rightarrow> u8 \<Rightarrow> u8 list \<Rightarrow> nat \<Rightarrow> 'e iolink_master_port_state_t \<Rightarrow> bool"
where
  "block_before L answer index subindex payload i p \<longleftrightarrow>
     (case i of 0 \<Rightarrow> block_free L p
      | Suc j \<Rightarrow> (let request = block_requests L index subindex payload ! j
                 in isdu_answered L request (answer request) p \<and>
                    block_at L (block_steps ! j) index subindex payload p))"

definition block_fits :: "iolinki \<Rightarrow> (isdu_request_t \<Rightarrow> u8 list) \<Rightarrow> u16 \<Rightarrow> u8 \<Rightarrow> u8 list \<Rightarrow> bool" where
  "block_fits L answer index subindex payload \<longleftrightarrow> stack_constants_ok L \<and> length payload < 256 \<and>
     write_accepted L index subindex (length payload) \<and> length (answer (Isdu_Request True index subindex [])) < 256"

definition block_final ::
  "iolinki \<Rightarrow> (isdu_request_t \<Rightarrow> u8 list) \<Rightarrow> u16 \<Rightarrow> u8 \<Rightarrow> u8 list \<Rightarrow> int \<Rightarrow> 'e iolink_master_port_state_t \<Rightarrow> bool"
where
  "block_final L answer index subindex payload ret p \<longleftrightarrow>
     ret = (if block_verified L index subindex payload (answer (Isdu_Request True index subindex []))
            then STATUS_OK else ISDU_ERR_VERIFY_FAILED) \<and>
     blk_step (st_block p) = BLOCK_STEP_NONE \<and> isdu_op (st_isdu p) = ISDU_OP_NONE"

lemma block_calls:
  assumes L: "stack_constants_ok L" and len: "length payload < 256"
    and acc: "write_accepted L index subindex (length payload)"
  defines "call \<equiv> iolink_master_write_parameter_block L index subindex (Some payload) (length payload)"
    and "command \<equiv> \<lambda>c. Isdu_Request False (IDX_SYSTEM_COMMAND L) 0 [c]"
  shows "block_free L p \<Longrightarrow>
      block_waits L BLOCK_STEP_BEGIN_DOWNLOAD (command (CMD_PARAM_DOWNLOAD_START L))
        index subindex payload p (call p)"
    and "isdu_answered L (command (CMD_PARAM_DOWNLOAD_START L)) r p \<Longrightarrow>
      block_at L BLOCK_STEP_BEGIN_DOWNLOAD index subindex payload p \<Longrightarrow>
      block_waits L BLOCK_STEP_WRITE (Isdu_Request False index subindex payload)
        index subindex payload p (call p)"
    and "isdu_answered L (Isdu_Request False index subindex payload) r p \<Longrightarrow>
      block_at L BLOCK_STEP_WRITE index subindex payload p \<Longrightarrow>
      block_waits L BLOCK_STEP_END_DOWNLOAD (command (CMD_PARAM_DOWNLOAD_END L))
        index subindex payload p (call p)"
    and "isdu_answered L (command (CMD_PARAM_DOWNLOAD_END L)) r p \<Longrightarrow>
      block_at L BLOCK_STEP_END_DOWNLOAD index subindex payload p \<Longrightarrow>
      block_waits L BLOCK_STEP_VERIFY (Isdu_Request True index subindex [])
        index subindex payload p (call p)"
proof -
  note commands = iolink_master_begin_parameter_download_def iolink_master_end_parameter_download_def
  have le: "length payload \<le> ISDU_BUFFER_SIZE L - ISDU_WRITE_HEADER_MAX"
    using acc by (simp add: write_accepted_def Let_def)
  {
    assume "block_free L p"
    then have p: "isdu_idle L p" "blk_step (st_block p) = BLOCK_STEP_NONE"
      "length (blk_data (st_block p)) = ISDU_BUFFER_SIZE L" by (simp_all add: block_free_def)
    obtain block where block: "call p = block_advance L (p\<lparr>st_block := block\<rparr>)"
      "block_at L BLOCK_STEP_BEGIN_DOWNLOAD index subindex payload (p\<lparr>st_block := block\<rparr>)"
      using block_call_new [OF L p(2,3) le] by (auto simp: call_def)
    from begin_start [OF L, of "p\<lparr>st_block := block\<rparr>" "CMD_PARAM_DOWNLOAD_START L"] p(1)
      block_advance_pending(1) [OF block_at_step [OF block(2)], of L]
    show "block_waits L BLOCK_STEP_BEGIN_DOWNLOAD (command (CMD_PARAM_DOWNLOAD_START L))
        index subindex payload p (call p)"
      unfolding block(1) command_def commands by (intro block_waits_at [OF _ block(2)]) (auto simp: serviced_update)
  next
    assume p: "isdu_answered L (command (CMD_PARAM_DOWNLOAD_START L)) r p"
      "block_at L BLOCK_STEP_BEGIN_DOWNLOAD index subindex payload p"
    let ?p = "block_to BLOCK_STEP_WRITE (isdu_collected L p)"
    have "call p = block_advance L ?p"
      using block_call_resumed [OF L p(2)] command_finish [OF p(1) [unfolded command_def]]
      by (simp add: call_def block_advance_done(1) [OF block_at_step [OF p(2)]] commands)
    moreover have at: "block_at L BLOCK_STEP_WRITE index subindex payload ?p"
      using p(2) by (intro block_to_at(1)) (simp add: block_at_frame)
    moreover have "isdu_idle L ?p"
      using write_service_finish(2) [OF p(1) [unfolded command_def], of None 0]
      by (simp add: block_to_at(2))
    ultimately show "block_waits L BLOCK_STEP_WRITE (Isdu_Request False index subindex payload)
        index subindex payload p (call p)"
      using block_write_start [OF L _ at len acc] block_advance_pending(2) [OF block_at_step [OF at], of L]
      by (intro block_waits_at [OF _ at]) (auto simp: serviced_update)
  next
    assume p: "isdu_answered L (Isdu_Request False index subindex payload) r p"
      "block_at L BLOCK_STEP_WRITE index subindex payload p"
    let ?p = "block_to BLOCK_STEP_END_DOWNLOAD (isdu_collected L p)"
    have "call p = block_advance L ?p"
      using block_call_resumed [OF L p(2)] block_write_finish [OF p]
      by (simp add: call_def block_advance_done(2) [OF block_at_step [OF p(2)]])
    moreover have at: "block_at L BLOCK_STEP_END_DOWNLOAD index subindex payload ?p"
      using p(2) by (intro block_to_at(1)) (simp add: block_at_frame)
    moreover have "isdu_idle L ?p"
      using write_service_finish(2) [OF p(1), of None 0] by (simp add: block_to_at(2))
    ultimately show "block_waits L BLOCK_STEP_END_DOWNLOAD (command (CMD_PARAM_DOWNLOAD_END L))
        index subindex payload p (call p)"
      using begin_start [OF L, of ?p "CMD_PARAM_DOWNLOAD_END L"]
        block_advance_pending(3) [OF block_at_step [OF at], of L]
      unfolding command_def commands by (intro block_waits_at [OF _ at]) (auto simp: serviced_update)
  next
    assume p: "isdu_answered L (command (CMD_PARAM_DOWNLOAD_END L)) r p"
      "block_at L BLOCK_STEP_END_DOWNLOAD index subindex payload p"
    let ?p = "block_to BLOCK_STEP_VERIFY (isdu_collected L p)"
    have "call p = block_advance L ?p"
      using block_call_resumed [OF L p(2)] command_finish [OF p(1) [unfolded command_def]]
      by (simp add: call_def block_advance_done(3) [OF block_at_step [OF p(2)]] commands)
    moreover have at: "block_at L BLOCK_STEP_VERIFY index subindex payload ?p"
      using p(2) by (intro block_to_at(1)) (simp add: block_at_frame)
    moreover have "isdu_idle L ?p"
      using write_service_finish(2) [OF p(1) [unfolded command_def], of None 0]
      by (simp add: block_to_at(2))
    ultimately show "block_waits L BLOCK_STEP_VERIFY (Isdu_Request True index subindex [])
        index subindex payload p (call p)"
      using block_verify_start [OF L _ at] block_advance_pending(4) [OF block_at_step [OF at], of L]
      by (intro block_waits_at [OF _ at]) (auto simp: serviced_update)
  }
qed

text \<open>Both kinds of calls, by their number.\<close>

lemma block_call_pending:
  assumes "block_fits L answer index subindex payload" and "i < length (block_requests L index subindex payload)"
    and "block_before L answer index subindex payload i p"
  shows "block_waits L (block_steps ! i) (block_requests L index subindex payload ! i) index subindex payload p
    (iolink_master_write_parameter_block L index subindex (Some payload) (length payload) p)"
proof -
  note calls = block_calls [where L = L and payload = payload and index = index and subindex = subindex and p = p]
  have "i = 0 \<or> i = 1 \<or> i = 2 \<or> i = 3" using assms(2) by (auto simp: block_requests_def)
  then show ?thesis
    using assms(1,3) calls
    by (elim disjE) (auto simp: block_fits_def block_before_def block_requests_def block_steps_def Let_def
        numeral_2_eq_2 numeral_3_eq_3)
qed

lemma block_call_final:
  assumes fits: "block_fits L answer index subindex payload"
    and "block_before L answer index subindex payload (length (block_requests L index subindex payload)) p"
  shows "ensures (iolink_master_write_parameter_block L index subindex (Some payload) (length payload) p)
    (\<lambda>(ret, p'). ret \<noteq> STATUS_PENDING \<and> serviced p p' \<and> block_final L answer index subindex payload ret p')"
proof -
  define request where "request = Isdu_Request True index subindex []"
  have p: "isdu_answered L request (answer request) p" "block_at L BLOCK_STEP_VERIFY index subindex payload p"
    using assms(2) by (simp_all add: block_before_def block_requests_def block_steps_def request_def Let_def)
  have L: "stack_constants_ok L" and len: "length (answer request) < 256" "length payload < 256"
    using fits by (simp_all add: block_fits_def request_def)
  have "iolink_master_write_parameter_block L index subindex (Some payload) (length payload) p = block_verify L p"
    using block_call_resumed [OF L p(2)] block_advance_pending(4) [OF block_at_step [OF p(2)]] by simp
  with block_finishes [OF p(1) [unfolded request_def] p(2) len(1) [unfolded request_def] len(2)] show ?thesis
    by (auto simp: block_final_def elim!: ensures_mono)
qed

text \<open>The transfer on the transport of the ISDU engine.\<close>

interpretation block_client: polled_operation
  "iolink_master_write_parameter_block L index subindex (Some payload) (length payload)"
  "isdu_port_exchange L n device" "\<lambda>q. q" "block_requests L index subindex payload"
  "block_fits L answer index subindex payload \<and> 0 < n \<and> device_answers L answer device"
  "block_before L answer index subindex payload"
  "\<lambda>i p. isdu_requested L (block_requests L index subindex payload ! i) p \<and>
     block_at L (block_steps ! i) index subindex payload p"
  "block_final L answer index subindex payload"
proof
  fix i and p :: "'e iolink_master_port_state_t"
  assume ok: "block_fits L answer index subindex payload \<and> 0 < n \<and> device_answers L answer device"
  {
    assume "i < length (block_requests L index subindex payload)" "block_before L answer index subindex payload i p"
    with block_call_pending [of L answer index subindex payload i p] ok
    show "ensures (iolink_master_write_parameter_block L index subindex (Some payload) (length payload) p)
      (\<lambda>(ret, p'). ret = STATUS_PENDING \<and> isdu_requested L (block_requests L index subindex payload ! i) p' \<and>
         block_at L (block_steps ! i) index subindex payload p')"
      by (auto simp: block_waits_def elim!: ensures_mono)
  next
    let ?request = "block_requests L index subindex payload ! i"
    assume p: "isdu_requested L ?request p \<and> block_at L (block_steps ! i) index subindex payload p"
    then have "ensures (isdu_exchange L n device (st_isdu p)) (\<lambda>(request', isdu).
        request' = ?request \<and> isdu_answered L ?request (answer ?request) (p\<lparr>st_isdu := isdu\<rparr>))"
      using ok by (intro requested_exchange) (auto simp: block_fits_def)
    with p show "ensures (isdu_port_exchange L n device p)
      (\<lambda>(t, p'). t = ?request \<and> block_before L answer index subindex payload (Suc i) p')"
      by (auto simp: isdu_port_exchange_def ensures_map block_before_def Let_def block_at_frame elim!: ensures_mono)
  next
    assume "block_before L answer index subindex payload (length (block_requests L index subindex payload)) p"
    with block_call_final [of L answer index subindex payload p] ok
    show "ensures (iolink_master_write_parameter_block L index subindex (Some payload) (length payload) p)
      (\<lambda>(ret, p'). ret \<noteq> STATUS_PENDING \<and> block_final L answer index subindex payload ret p')"
      by (auto elim!: ensures_mono)
  }
qed

text \<open>
  Against a correct device a parameter-block transfer ends after five calls. The device
  receives exactly four requests: the DownloadStart command, the parameter, the DownloadEnd
  command and the read-back. The result is OK exactly when the octets read back verify, and
  VERIFY_FAILED otherwise; the transfer state and the ISDU engine are free afterwards.
\<close>

theorem block_transfer_verified:
  assumes "stack_constants_ok L" and "device_answers L answer device" and "0 < n"
    and "isdu_idle L p" and "blk_step (st_block p) = BLOCK_STEP_NONE"
    and "length (blk_data (st_block p)) = ISDU_BUFFER_SIZE L"
    and "length payload < 256" and "write_accepted L index subindex (length payload)"
    and "length (answer (Isdu_Request True index subindex [])) < 256"
  shows "ensures (block_run L n device index subindex (Some payload) (length payload) 5 p)
    (\<lambda>(requests, ret, p'). requests =
       [Isdu_Request False (IDX_SYSTEM_COMMAND L) 0 [CMD_PARAM_DOWNLOAD_START L],
        Isdu_Request False index subindex payload,
        Isdu_Request False (IDX_SYSTEM_COMMAND L) 0 [CMD_PARAM_DOWNLOAD_END L],
        Isdu_Request True index subindex []] \<and>
     ret = (if block_verified L index subindex payload (answer (Isdu_Request True index subindex []))
            then STATUS_OK else ISDU_ERR_VERIFY_FAILED) \<and>
     blk_step (st_block p') = BLOCK_STEP_NONE \<and> isdu_op (st_isdu p') = ISDU_OP_NONE)"
proof -
  have "5 = Suc (length (block_requests L index subindex payload))" by (simp add: block_requests_def)
  then show ?thesis
    using block_client.polled_in_order [of L answer index subindex payload n device p] assms
    by (simp add: block_run_def block_fits_def block_before_def block_free_def block_final_def del: polled.simps)
      (auto simp: block_requests_def elim!: ensures_mono)
qed

text \<open>The device of the witness returns other octets than were written.\<close>

theorem block_transfer_verified_witness:
  "ensures (block_run demo_stack 2 demo_device 0x18 0 (Some [1, 2, 4]) (length [1, 2, 4 :: u8]) 5
      ((zero_port demo_stack :: unit iolink_master_port_state_t)\<lparr>st_state := STATE_OPERATE\<rparr>))
    (\<lambda>(requests, ret, p'). length requests = 4 \<and> ret = ISDU_ERR_VERIFY_FAILED)"
  by (rule ensures_mono [OF block_transfer_verified [OF demo_stack_constants demo_device _ demo_idle]])
    (auto simp: zero_port_def zero_block_def demo_answer_def block_verified_def write_accepted_def
      demo_stack_def iolink_master_isdu_index_len_def)

text \<open>
  C24. A payload for which the request would be 16 octets long without ExtLength (13 octets to
  an 8-bit Index) is refused by the write service although its encoding with ExtLength, 17
  octets, is legal and fits the request buffer. The transfer of such a block gets stuck: once
  the device has accepted DownloadStart, every further call fails without any change of the
  port, and every other block is refused as busy.
\<close>

theorem block_reserved_length_stuck:
  assumes "stack_constants_ok L" and "isdu_idle L p"
    and "block_at L BLOCK_STEP_WRITE index subindex payload p"
    and "iolink_master_isdu_index_len index subindex + length payload = 14"
    and "\<not> (index = index' \<and> subindex = subindex' \<and> length payload = len')"
    and "len' \<le> ISDU_BUFFER_SIZE L - ISDU_WRITE_HEADER_MAX" and "len' = 0 \<or> data' \<noteq> None"
  shows "length (with_chkpdu (write_header index subindex payload)) = 17 \<and>
    iolink_master_write_parameter_block L index subindex (Some payload) (length payload) p =
      Some (ISDU_ERR_BUFFER_TOO_SMALL, p) \<and>
    map_option fst (iolink_master_write_parameter_block L index' subindex' data' len' p) =
      Some ISDU_ERR_BUSY"
proof (intro conjI)
  note idle = idle_facts [OF assms(2)]
  obtain rest where rest: "blk_data (st_block p) = payload @ rest"
    using assms(3) by (auto simp: block_at_def)
  show "length (with_chkpdu (write_header index subindex payload)) = 17"
    using assms(4) by (simp add: with_chkpdu_def write_header_length)
  have "\<not> write_accepted L index subindex (length payload)"
    using assms(4) by (simp add: write_accepted_def)
  then have "isdu_build_write L index subindex (Some (payload @ rest)) (length payload) (st_isdu p) = Some None"
    using isdu_build_write_eq [OF assms(1) idle(5), of payload "Some (payload @ rest)" rest] assms(4)
    by simp
  then have "block_write L p = Some (ISDU_ERR_BUFFER_TOO_SMALL, p)"
    using assms(3) idle rest by (simp add: block_write_def iolink_master_write_isdu_def block_at_def)
  then show "iolink_master_write_parameter_block L index subindex (Some payload) (length payload) p =
      Some (ISDU_ERR_BUFFER_TOO_SMALL, p)"
    using block_call_resumed [OF assms(1,3)] block_at_step [OF assms(3)]
    by (simp add: block_advance_def block_stage_def)
  show "map_option fst (iolink_master_write_parameter_block L index' subindex' data' len' p) =
      Some ISDU_ERR_BUSY"
  proof -
    have "blk_index (st_block p) = index" "blk_subindex (st_block p) = subindex"
      "blk_len (st_block p) = length payload" "blk_step (st_block p) = BLOCK_STEP_WRITE"
      using assms(3) by (simp_all add: block_at_def)
    moreover from this have "iolink_master_block_matches index' subindex' data' len' p = Some False"
      using assms(5) unfolding iolink_master_block_matches_def Let_def by (subst if_not_P) auto
    ultimately have "block_latch index' subindex' data' len' p = Some (False, p)"
      by (simp add: block_latch_def)
    moreover have "\<not> (data' = None \<and> len' > 0)" using assms(7) by auto
    ultimately show ?thesis
      using assms(6) by (simp add: iolink_master_write_parameter_block_def write_limit [OF assms(1)]
          iolink_master_service_result_def)
  qed
qed

theorem block_reserved_length_stuck_witness:
  "iolink_master_write_parameter_block demo_stack 3 0 (Some (replicate 13 7)) (length (replicate 13 (7::u8)))
     ((zero_port demo_stack :: unit iolink_master_port_state_t)\<lparr>st_state := STATE_OPERATE, st_block :=
        \<lparr>blk_step = BLOCK_STEP_WRITE, blk_index = 3, blk_subindex = 0,
         blk_data = replicate 13 7 @ replicate 51 0, blk_len = 13\<rparr>\<rparr>) =
   Some (ISDU_ERR_BUFFER_TOO_SMALL,
     (zero_port demo_stack)\<lparr>st_state := STATE_OPERATE, st_block :=
        \<lparr>blk_step = BLOCK_STEP_WRITE, blk_index = 3, blk_subindex = 0,
         blk_data = replicate 13 7 @ replicate 51 0, blk_len = 13\<rparr>\<rparr>)"
  using block_reserved_length_stuck [OF demo_stack_constants, of
      "(zero_port demo_stack)\<lparr>st_state := STATE_OPERATE, st_block :=
        \<lparr>blk_step = BLOCK_STEP_WRITE, blk_index = 3, blk_subindex = 0,
         blk_data = replicate 13 7 @ replicate 51 0, blk_len = 13\<rparr>\<rparr>"
      3 0 "replicate 13 7" 4 0 1 "Some [1]"] demo_idle
  by (auto simp: block_at_def iolink_master_isdu_index_len_def demo_stack_def)

end
