(* ===== verification/MasterApi.thy ===== *)
theory MasterApi
  imports MasterLifecycle MasterBlock MasterDemo
begin

text \<open>
  The programming interface of a port as a machine: one operation per public function of
  \<open>include/iolinki_master/master.h\<close> that takes a port and changes it, calls the PHY or moves
  octets between the port and a buffer of the caller, and the invariant that makes every sequence
  of calls safe. The other functions of the header only copy fields of the port and are total by
  their definitions (\<open>MasterLifecycle\<close>, \<open>MasterParameters\<close>, \<open>MasterPort\<close>), the gateway line is
  in \<open>MasterGateway\<close> and the controller in \<open>MasterController\<close>. \<open>api_ok\<close> collects the
  obligations of the caller: buffers are as long as the lengths passed with them.
\<close>

subsection \<open>The remaining services keep the port\<close>

lemma service_result_kept: "port_kept L p (snd (iolink_master_service_result ret p')) = port_kept L p p'"
  by (simp add: iolink_master_service_result_def port_kept_def port_wf_diagnostics)

lemma service_result_case:
  "(case iolink_master_service_result ret p' of (r, p'') \<Rightarrow> port_kept L p p'') = port_kept L p p'"
  using service_result_kept by (simp add: case_prod_unfold)

lemma finish_read_len:
  assumes "iolink_master_isdu_finish_read L data len p = Some (STATUS_OK, data', len', p')"
    and "len < 256"
  shows "len' \<le> length data' \<and> len' < 256"
proof -
  have len: "isdu_response_len (st_isdu p) \<le> len" "len' = isdu_response_len (st_isdu p)"
    and copy: "0 < isdu_response_len (st_isdu p) \<longrightarrow>
      (\<exists>octets. rd_slice (isdu_response (st_isdu p)) 0 (isdu_response_len (st_isdu p)) = Some octets \<and>
        wr_slice data 0 octets = Some data')"
    using assms
    by (auto simp: iolink_master_isdu_finish_read_def Let_def case_prod_unfold isdu_device_error_def
        iolink_master_service_result_def split: if_splits bind_splits)
  then show ?thesis
    using assms(2) by (auto simp: rd_slice_def wr_slice_def split: if_splits)
qed

lemma read_isdu_len:
  assumes "iolink_master_read_isdu L index subindex data len p = Some (STATUS_OK, data', len', p')"
    and "len < 256"
  shows "len' \<le> length data' \<and> len' < 256"
  using assms
  by (auto simp: iolink_master_read_isdu_def split: if_splits bind_splits dest!: finish_read_len)

text \<open>The read of a verification.\<close>

lemma verify_read:
  assumes "stack_constants_ok L" "port_wf L p"
  obtains ret data n p1 where
    "iolink_master_read_isdu L index subindex (replicate (ISDU_BUFFER_SIZE L) 0) 255 p = Some (ret, data, n, p1)"
    "port_kept L p p1" "ret = STATUS_OK \<longrightarrow> n \<le> length data \<and> n < 256"
proof -
  have "ensures (iolink_master_read_isdu L index subindex (replicate (ISDU_BUFFER_SIZE L) 0) 255 p)
    (\<lambda>(ret, data', len', p'). port_kept L p p' \<and> length data' = length (replicate (ISDU_BUFFER_SIZE L) (0::u8)))"
    by (rule read_isdu_kept [OF assms]) simp
  then show ?thesis
    by (auto elim!: ensuresE intro!: that dest: read_isdu_len)
qed

lemma verify_isdu_kept:
  assumes "stack_constants_ok L" "port_wf L p" "\<And>src. expected = Some src \<Longrightarrow> len \<le> length src"
  shows "ensures (iolink_master_verify_isdu L index subindex expected len p) (\<lambda>(ret, p'). port_kept L p p')"
proof -
  obtain ret data n p1 where read:
    "iolink_master_read_isdu L index subindex (replicate (ISDU_BUFFER_SIZE L) 0) 255 p = Some (ret, data, n, p1)"
    "port_kept L p p1" "ret = STATUS_OK \<longrightarrow> n \<le> length data \<and> n < 256"
    by (rule verify_read [OF assms(1,2), of index subindex])
  have "\<exists>m. verify_mismatch data n expected len = Some m" if "n \<le> length data" "expected \<noteq> None \<or> len = 0"
    using that assms(3) by (cases expected) (auto simp: verify_mismatch_def octets_differ_def rd_slice_def)
  then show ?thesis
    using read(2,3) port_kept_refl [OF assms(2)]
    by (cases "ret = STATUS_OK"; cases "expected = None \<and> len > 0")
      (auto simp: iolink_master_verify_isdu_def read(1) service_result_case)
qed

lemma verify_data_storage_kept:
  assumes "stack_constants_ok L" "port_wf L p" "\<And>src. expected = Some src \<Longrightarrow> len \<le> length src"
    and "len < 256"
  shows "ensures (iolink_master_verify_data_storage L expected len p) (\<lambda>(ret, p'). port_kept L p p')"
proof -
  have verify_some: "ensures (iolink_master_verify_data_storage L (Some src) n p) (\<lambda>(ret, p'). port_kept L p p')"
    if n: "n \<le> length src" "n < 256" for src n
  proof -
    obtain ret data m p1 where read: "iolink_master_read_isdu L (IDX_DATA_STORAGE L) 0
        (replicate (ISDU_BUFFER_SIZE L) 0) 255 p = Some (ret, data, m, p1)"
      "port_kept L p p1" "ret = STATUS_OK \<longrightarrow> m \<le> length data \<and> m < 256"
      by (rule verify_read [OF assms(1,2), of "IDX_DATA_STORAGE L" 0])
    have "ensures (do {
        expected_valid \<leftarrow> iolink_master_ds_image_is_valid (Some src) n;
        both_valid \<leftarrow> (if expected_valid then iolink_master_ds_image_is_valid (Some data) m else Some False);
        if both_valid
        then map_option Not (iolink_master_ds_image_contains_records (Some data) m (Some src) n)
        else verify_mismatch data m (Some src) n }) (\<lambda>_. True)" if "ret = STATUS_OK"
      using ds_image_checks_refine [of m data n src] read(3) that n by (auto elim: ensures_mono)
    then show ?thesis
      using read(2)
      by (cases "ret = STATUS_OK") (simp_all add: iolink_master_verify_data_storage_def read(1)
          ensures_bind service_result_case split del: if_split)
  qed
  show ?thesis
  proof (cases expected)
    case (Some src)
    then show ?thesis using verify_some assms(3,4) by simp
next
  case None
  have valid: "iolink_master_ds_image_is_valid None 0 = iolink_master_ds_image_is_valid (Some []) 0"
    by (simp add: iolink_master_ds_image_is_valid_def ds_valid_loop.simps [of _ 0 0])
  have contains: "iolink_master_ds_image_contains_records a n None 0 =
      iolink_master_ds_image_contains_records a n (Some []) 0" for a n
    by (simp add: iolink_master_ds_image_contains_records_def ds_contains_loop.simps [of _ _ _ 0 0])
  have mismatch: "verify_mismatch a n None 0 = verify_mismatch a n (Some []) 0" for a n
    by (simp add: verify_mismatch_def octets_differ_def)
  have "iolink_master_verify_data_storage L None 0 p = iolink_master_verify_data_storage L (Some []) 0 p"
    unfolding iolink_master_verify_data_storage_def valid contains mismatch by simp
  then show ?thesis
    using verify_some [of 0 "[]"] port_kept_refl [OF assms(2)] None
    by (cases "len = 0") (simp_all add: iolink_master_verify_data_storage_def [of L None])
  qed
qed

lemma write_system_command_kept:
  assumes "stack_constants_ok L" "port_wf L p"
  shows "ensures (iolink_master_write_system_command L command p) (\<lambda>(ret, p'). port_kept L p p')"
  unfolding iolink_master_write_system_command_def by (rule write_isdu_kept [OF assms]) auto

lemma apply_page_kept:
  assumes "port_wf L p" and "len \<le> length page"
  shows "ensures (iolink_master_apply_direct_parameter_page1 page len p) (\<lambda>(ret, p'). port_kept L p p')"
proof -
  have "ensures (iolink_master_parse_direct_parameter_page1 page len (st_device_info p)) (\<lambda>_. True)"
    using assms(2) by (cases "len < DPP1_LEN")
      (simp_all add: iolink_master_parse_direct_parameter_page1_def [of page len] ensures_simps)
  then show ?thesis
    using port_kept_refl [OF assms(1)]
    by (auto simp: iolink_master_apply_direct_parameter_page1_def ensures_bind port_kept_def
        port_wf_device_info elim!: ensures_mono)
qed

lemma port_wf_block: "port_wf L p \<Longrightarrow> block_wf L block \<Longrightarrow> port_wf L (p\<lparr>st_block := block\<rparr>)"
  by (simp add: port_wf_defs)

lemma block_stage_kept:
  assumes "port_wf L p"
    and "ensures (service p) (\<lambda>(ret, p'). port_kept L p p')"
  shows "ensures (block_stage step next_step service p) (\<lambda>(early, p'). port_kept L p p')"
proof -
  have "port_kept L p (p'\<lparr>st_block := (st_block p')\<lparr>blk_step := s\<rparr>\<rparr>)" if "port_kept L p p'" for p' s
    using that by (auto simp: port_kept_def port_wf_def buffers_wf_def block_wf_def)
  then show ?thesis
    using assms(2) port_kept_refl [OF assms(1)]
    by (auto simp: block_stage_def ensures_simps elim!: ensures_mono)
qed

lemma block_wf_args: "port_wf L p \<Longrightarrow> length (blk_data (st_block p)) = ISDU_BUFFER_SIZE L"
  "port_wf L p \<Longrightarrow> stack_constants_ok L \<Longrightarrow> blk_len (st_block p) < 256 \<and> blk_len (st_block p) \<le> ISDU_BUFFER_SIZE L"
  by (auto simp: port_wf_def block_wf_def stack_constants_ok_def trunc8_def)

lemma block_write_kept:
  assumes "stack_constants_ok L" "port_wf L p"
  shows "ensures (block_write L p) (\<lambda>(ret, p'). port_kept L p p')"
  unfolding block_write_def using block_wf_args [OF assms(2)] assms(1)
  by (intro write_isdu_kept [OF assms]) auto

lemma block_verify_kept:
  assumes "stack_constants_ok L" "port_wf L p"
  shows "ensures (block_verify L p) (\<lambda>(ret, p'). port_kept L p p')"
proof -
  have args: "blk_len (st_block p) < 256"
    "\<And>src. Some (blk_data (st_block p)) = Some src \<Longrightarrow> blk_len (st_block p) \<le> length src"
    using block_wf_args [OF assms(2)] assms(1) by auto
  have clear: "port_kept L p (iolink_master_block_clear L p')" if "port_kept L p p'" for p'
    using that by (auto simp: port_kept_def iolink_master_block_clear_def port_wf_block block_wf_def zero_block_def)
  define m where "m = (if blk_index (st_block p) = IDX_DATA_STORAGE L \<and> blk_subindex (st_block p) = 0
      then iolink_master_verify_data_storage L (Some (blk_data (st_block p))) (blk_len (st_block p)) p
      else iolink_master_verify_isdu L (blk_index (st_block p)) (blk_subindex (st_block p))
             (Some (blk_data (st_block p))) (blk_len (st_block p)) p)"
  have "ensures m (\<lambda>(ret, p'). port_kept L p p')"
    unfolding m_def
    using verify_isdu_kept [OF assms, of "Some (blk_data (st_block p))" "blk_len (st_block p)"
        "blk_index (st_block p)" "blk_subindex (st_block p)"]
      verify_data_storage_kept [OF assms, of "Some (blk_data (st_block p))" "blk_len (st_block p)"] args
    by simp
  then show ?thesis
    unfolding block_verify_def Let_def m_def [symmetric]
    by (rule ensures_bind_kept2) (simp add: service_result_kept clear case_prod_unfold)
qed

lemma block_advance_kept:
  assumes "stack_constants_ok L" "port_wf L p"
  shows "ensures (block_advance L p) (\<lambda>(ret, p'). port_kept L p p')"
proof -
  have stage: "ensures (block_stage step next_step service p1) (\<lambda>(early, p'). port_kept L p p')"
    if "port_kept L p p1" "\<And>p1. port_wf L p1 \<Longrightarrow> ensures (service p1) (\<lambda>(ret, p'). port_kept L p1 p')"
    for p1 step next_step service
  proof -
    have "port_wf L p1" using that(1) by (simp add: port_kept_def)
    then have "ensures (block_stage step next_step service p1) (\<lambda>(early, p'). port_kept L p1 p')"
      by (intro block_stage_kept that(2))
    then show ?thesis by (rule ensures_mono) (auto intro: port_kept_trans [OF that(1)])
  qed
  note command = write_system_command_kept [OF assms(1)]
  have verify: "ensures (block_verify L p1) (\<lambda>(ret, p'). port_kept L p p')" if "port_kept L p p1" for p1
    using block_verify_kept [OF assms(1), of p1] that
    by (auto simp: port_kept_def elim!: ensures_mono)
  have step3: "ensures (do {
      (early, p) \<leftarrow> block_stage BLOCK_STEP_END_DOWNLOAD BLOCK_STEP_VERIFY
        (iolink_master_end_parameter_download L) p1;
      case early of Some ret \<Rightarrow> Some (ret, p) | None \<Rightarrow> block_verify L p }) (\<lambda>(ret, p'). port_kept L p p')"
    if "port_kept L p p1" for p1
    by (rule ensures_bind_kept2 [OF stage [OF that]])
      (auto simp: iolink_master_end_parameter_download_def command verify split: option.split)
  have step2: "ensures (do {
      (early, p) \<leftarrow> block_stage BLOCK_STEP_WRITE BLOCK_STEP_END_DOWNLOAD (block_write L) p1;
      case early of Some ret \<Rightarrow> Some (ret, p) | None \<Rightarrow> do {
        (early, p) \<leftarrow> block_stage BLOCK_STEP_END_DOWNLOAD BLOCK_STEP_VERIFY
          (iolink_master_end_parameter_download L) p;
        case early of Some ret \<Rightarrow> Some (ret, p) | None \<Rightarrow> block_verify L p } })
     (\<lambda>(ret, p'). port_kept L p p')" if "port_kept L p p1" for p1
    by (rule ensures_bind_kept2 [OF stage [OF that block_write_kept [OF assms(1)]]])
      (auto simp: step3 split: option.split)
  show ?thesis
    unfolding block_advance_def
    by (rule ensures_bind_kept2 [OF stage [OF port_kept_refl [OF assms(2)]]])
      (auto simp: iolink_master_begin_parameter_download_def command step2 split: option.split)
qed

lemma block_latch_kept:
  assumes "stack_constants_ok L" "port_wf L p" "\<And>src. data = Some src \<Longrightarrow> len \<le> length src"
    and "data \<noteq> None \<or> len = 0" and "len \<le> trunc8 (ISDU_BUFFER_SIZE L - ISDU_WRITE_HEADER_MAX)"
  shows "ensures (block_latch index subindex data len p) (\<lambda>(resumed, p'). port_kept L p p')"
proof -
  have size: "length (blk_data (st_block p)) = ISDU_BUFFER_SIZE L" "len \<le> ISDU_BUFFER_SIZE L"
    using block_wf_args [OF assms(2)] assms(1,5) by (auto simp: trunc8_def stack_constants_ok_def)
  have latch: "port_kept L p (p\<lparr>st_block := \<lparr>blk_step = BLOCK_STEP_BEGIN_DOWNLOAD, blk_index = index,
      blk_subindex = subindex, blk_data = octets, blk_len = len\<rparr>\<rparr>)" if "length octets = ISDU_BUFFER_SIZE L" for octets
    using that assms(2,5) by (simp add: port_kept_def port_wf_block block_wf_def)
  show ?thesis
  proof (cases "blk_step (st_block p) = BLOCK_STEP_NONE")
    case True
    then show ?thesis
      using size latch assms(3,4) by (cases data) (auto simp: block_latch_def ensures_simps)
  next
    case False
    have "\<exists>m. iolink_master_block_matches index subindex data len p = Some m"
      using size assms(3,4)
      by (cases data) (auto simp: iolink_master_block_matches_def Let_def octets_differ_def rd_slice_def)
    then show ?thesis
      using False port_kept_refl [OF assms(2)] by (auto simp: block_latch_def ensures_simps)
  qed
qed

lemma write_parameter_block_kept:
  assumes "stack_constants_ok L" "port_wf L p" "\<And>src. data = Some src \<Longrightarrow> len \<le> length src"
  shows "ensures (iolink_master_write_parameter_block L index subindex data len p)
    (\<lambda>(ret, p'). port_kept L p p')"
proof (cases "data = None \<and> len > 0 \<or> len > trunc8 (ISDU_BUFFER_SIZE L - ISDU_WRITE_HEADER_MAX)")
  case True
  then show ?thesis
    using port_kept_refl [OF assms(2)] by (auto simp: iolink_master_write_parameter_block_def)
next
  case False
  have "ensures (do {
        (resumed, p) \<leftarrow> block_latch index subindex data len p;
        if \<not> resumed then Some (iolink_master_service_result ISDU_ERR_BUSY p) else block_advance L p })
      (\<lambda>(ret, p'). port_kept L p p')"
  proof (rule ensures_bind_kept2 [OF block_latch_kept [OF assms]])
    fix resumed p1
    assume kept: "port_kept L p p1"
    then have "ensures (block_advance L p1) (\<lambda>(ret, p'). port_kept L p p')"
      using block_advance_kept [OF assms(1), of p1] by (auto simp: port_kept_def elim!: ensures_mono)
    then show "ensures (if \<not> resumed then Some (iolink_master_service_result ISDU_ERR_BUSY p1)
        else block_advance L p1) (\<lambda>(ret, p'). port_kept L p p')"
      using kept by (simp add: service_result_case)
  qed (use False in auto)
  then show ?thesis using False by (auto simp: iolink_master_write_parameter_block_def)
qed

subsection \<open>Event services\<close>

lemma port_kept_event: "port_kept L p p' \<Longrightarrow> event_wf ev \<Longrightarrow> port_kept L p (p'\<lparr>st_event := ev\<rparr>)"
  by (auto simp: port_kept_def port_wf_event)

lemma port_kept_diagnostics: "port_kept L p (p'\<lparr>st_diagnostics := d\<rparr>) = port_kept L p p'"
  by (simp add: port_kept_def port_wf_diagnostics)

lemma event_consumed_kept: "port_kept L p p' \<Longrightarrow> port_kept L p (event_consumed p')"
  by (auto simp: event_consumed_def port_kept_def port_wf_def event_wf_def buffers_wf_def)

lemma event_entry_kept:
  assumes "port_wf L p" "event_service_entry request p = Inl (ret, p')"
  shows "port_kept L p p'"
  using assms port_kept_refl [OF assms(1)]
  by (auto simp: event_service_entry_def iolink_master_event_start_def event_wf_def zero_event_def
      intro!: port_kept_event split: if_splits)

lemma first_code_loop_defined:
  "length memory = 19 \<Longrightarrow> set slots \<subseteq> {0..<6} \<Longrightarrow>
   ensures (event_first_code_loop memory active slots) (\<lambda>_. True)"
proof (induction slots)
  case (Cons slot slots)
  then have "slot < 6" by simp
  then show ?case using Cons by (simp add: ensures_simps Let_def)
qed simp

lemma first_code_defined: "length memory = 19 \<Longrightarrow> \<exists>code. iolink_master_event_first_code memory = Some code"
proof -
  assume len: "length memory = 19"
  then have "ensures (iolink_master_event_first_code memory) (\<lambda>_. True)"
    using first_code_loop_defined [OF len, of "[0..<6]"]
    by (auto simp: iolink_master_event_first_code_def ensures_simps)
  then show ?thesis by (auto elim: ensuresE)
qed

lemma read_event_code_kept:
  assumes "port_wf L p"
  shows "ensures (iolink_master_read_event_code code p) (\<lambda>(ret, code', p'). port_kept L p p')"
proof -
  have "length (ev_memory (st_event p)) = 19" using assms by (simp add: port_wf_def event_wf_def)
  then obtain c where "iolink_master_event_first_code (ev_memory (st_event p)) = Some c"
    using first_code_defined by blast
  then show ?thesis
    using event_entry_kept [OF assms] port_kept_refl [OF assms]
    by (auto simp: iolink_master_read_event_code_def Let_def port_kept_diagnostics
        intro!: event_consumed_kept split: sum.split)
qed

lemma ack_event_kept:
  assumes "port_wf L p"
  shows "ensures (iolink_master_ack_event code p) (\<lambda>(ret, code', p'). port_kept L p p')"
proof -
  have "length (ev_memory (st_event p)) = 19" using assms by (simp add: port_wf_def event_wf_def)
  then obtain c where "iolink_master_event_first_code (ev_memory (st_event p)) = Some c"
    using first_code_defined by blast
  then show ?thesis
    using event_entry_kept [OF assms] port_kept_refl [OF assms]
    by (auto simp: iolink_master_ack_event_def Let_def port_kept_diagnostics
        intro!: event_consumed_kept split: sum.split)
qed

lemma details_loop_defined:
  "\<lbrakk>length memory = 19; set slots \<subseteq> {0..<6}; count < max_events; max_events \<le> length events; max_events < 256\<rbrakk> \<Longrightarrow>
   ensures (event_details_loop memory active max_events slots count events)
     (\<lambda>(count', events'). count' \<le> max_events \<and> length events' = length events)"
proof (induction slots arbitrary: count events)
  case (Cons slot slots)
  then have "slot < 6" by simp
  moreover have "ensures (event_details_loop memory active max_events slots (Suc count) (events[count := x]))
      (\<lambda>(count', events'). count' \<le> max_events \<and> length events' = length events)"
    if "\<not> max_events \<le> Suc count" for x
    using Cons.IH [of "Suc count" "events[count := x]"] Cons.prems that by simp
  ultimately show ?case using Cons by (simp add: ensures_simps Let_def)
qed simp

lemma read_event_details_kept:
  assumes "port_wf L p" "0 < max_events" "max_events \<le> length events" "max_events < 256"
  shows "ensures (iolink_master_read_event_details events max_events n p e)
    (\<lambda>(ret, events', n', p', e'). port_kept L p p')"
proof -
  have len: "length (ev_memory (st_event p)) = 19" using assms(1) by (simp add: port_wf_def event_wf_def)
  obtain count events' where loop: "event_details_loop (ev_memory (st_event p))
      (ev_memory (st_event p) ! 0 AND 0x3F) max_events [0..<6] 0 events = Some (count, events')"
      "count \<le> max_events" "length events' = length events"
    using details_loop_defined [OF len, of "[0..<6]" 0 max_events events] assms(2-4)
    by (force elim: ensuresE)
  have "rd (ev_memory (st_event p)) 0 = Some (ev_memory (st_event p) ! 0)" by (simp add: rd_def len)
  moreover have "count - 1 < length events'" using loop assms(2,3) by linarith
  ultimately show ?thesis
    using loop assms(3) event_entry_kept [OF assms(1)] port_kept_refl [OF assms(1)]
    by (auto simp: iolink_master_read_event_details_def Let_def port_kept_diagnostics ensures_simps
        intro!: event_consumed_kept split: sum.split)
qed

subsection \<open>The machine\<close>

datatype 'e port_op =
    Op_init "'e iolink_phy_api_t option" "'e iolink_master_config_t option"
  | Op_restart
  | Op_set_port_mode iolink_master_port_mode_t
  | Op_set_dq bool
  | Op_get_di
  | Op_tick bool
  | Op_tick_event iolink_master_tick_event_t
  | Op_tick_at iolink_master_tick_event_t u32
  | Op_process
  | Op_on_timeout
  | Op_poll_rx
  | Op_on_rx "u8 list option"
  | Op_set_pd_out "u8 list option" nat
  | Op_get_pd_in "u8 list" nat
  | Op_read_isdu u16 u8 "u8 list" nat
  | Op_write_isdu u16 u8 "u8 list option" nat
  | Op_verify_isdu u16 u8 "u8 list option" nat
  | Op_verify_data_storage "u8 list option" nat
  | Op_read_device_info
  | Op_apply_direct_parameter_page1 "u8 list" nat
  | Op_read_data_storage "u8 list" nat
  | Op_write_data_storage "u8 list option" nat
  | Op_restore_data_storage "u8 list option" nat
  | Op_read_detailed_device_status "u8 list" nat
  | Op_write_system_command u8
  | Op_begin_parameter_download
  | Op_end_parameter_download
  | Op_begin_parameter_upload
  | Op_end_parameter_upload
  | Op_store_parameter_download
  | Op_write_parameter_block u16 u8 "u8 list option" nat
  | Op_read_event_code
  | Op_ack_event
  | Op_read_event_details "iolink_master_event_t list" nat
  | Op_get_diagnostics

type_synonym 'e machine = "'e iolink_master_port_state_t \<times> 'e"

definition on_port ::
  "'e \<Rightarrow> (int \<times> 'e iolink_master_port_state_t) option \<Rightarrow> (int \<times> 'e machine) option" where
  "on_port e m = map_option (\<lambda>(ret, p). (ret, p, e)) m"

fun port_step :: "iolinki \<Rightarrow> 'e port_op \<Rightarrow> 'e machine \<Rightarrow> (int \<times> 'e machine) option" where
  "port_step L (Op_init phy config) (p, e) = iolink_master_init L phy config p e"
| "port_step L Op_restart (p, e) = iolink_master_restart L p e"
| "port_step L (Op_set_port_mode mode) (p, e) = iolink_master_set_port_mode L mode p e"
| "port_step L (Op_set_dq level) (p, e) = (let (ret, e) = iolink_master_set_dq level p e in Some (ret, p, e))"
| "port_step L Op_get_di (p, e) =
     map_option (\<lambda>(ret, level, e). (ret, p, e)) (iolink_master_get_di False p e)"
| "port_step L (Op_tick response_timeout) (p, e) = iolink_master_tick L response_timeout p e"
| "port_step L (Op_tick_event event) (p, e) = iolink_master_tick_event L event p e"
| "port_step L (Op_tick_at event now_100us) (p, e) = iolink_master_tick_at L event now_100us p e"
| "port_step L Op_process (p, e) = map_option (\<lambda>m. (STATUS_OK, m)) (iolink_master_process L p e)"
| "port_step L Op_on_timeout (p, e) = iolink_master_on_timeout p e"
| "port_step L Op_poll_rx (p, e) = iolink_master_poll_rx L p e"
| "port_step L (Op_on_rx data) (p, e) = iolink_master_on_rx L data p e"
| "port_step L (Op_set_pd_out data len) (p, e) = on_port e (iolink_master_set_pd_out L data len p)"
| "port_step L (Op_get_pd_in buffer len) (p, e) =
     map_option (\<lambda>(ret, _). (ret, p, e)) (iolink_master_get_pd_in buffer len p)"
| "port_step L (Op_read_isdu index subindex data len) (p, e) =
     map_option (\<lambda>(ret, _, _, p). (ret, p, e)) (iolink_master_read_isdu L index subindex data len p)"
| "port_step L (Op_write_isdu index subindex data len) (p, e) =
     on_port e (iolink_master_write_isdu L index subindex data len p)"
| "port_step L (Op_verify_isdu index subindex data len) (p, e) =
     on_port e (iolink_master_verify_isdu L index subindex data len p)"
| "port_step L (Op_verify_data_storage data len) (p, e) =
     on_port e (iolink_master_verify_data_storage L data len p)"
| "port_step L Op_read_device_info (p, e) = on_port e (iolink_master_read_device_info L p)"
| "port_step L (Op_apply_direct_parameter_page1 page len) (p, e) =
     on_port e (iolink_master_apply_direct_parameter_page1 page len p)"
| "port_step L (Op_read_data_storage data len) (p, e) =
     map_option (\<lambda>(ret, _, _, p). (ret, p, e)) (iolink_master_read_data_storage L data len p)"
| "port_step L (Op_write_data_storage data len) (p, e) =
     on_port e (iolink_master_write_data_storage L data len p)"
| "port_step L (Op_restore_data_storage data len) (p, e) =
     on_port e (iolink_master_restore_data_storage L data len p)"
| "port_step L (Op_read_detailed_device_status data len) (p, e) =
     map_option (\<lambda>(ret, _, _, p). (ret, p, e)) (iolink_master_read_detailed_device_status L data len p)"
| "port_step L (Op_write_system_command command) (p, e) =
     on_port e (iolink_master_write_system_command L command p)"
| "port_step L Op_begin_parameter_download (p, e) = on_port e (iolink_master_begin_parameter_download L p)"
| "port_step L Op_end_parameter_download (p, e) = on_port e (iolink_master_end_parameter_download L p)"
| "port_step L Op_begin_parameter_upload (p, e) = on_port e (iolink_master_begin_parameter_upload L p)"
| "port_step L Op_end_parameter_upload (p, e) = on_port e (iolink_master_end_parameter_upload L p)"
| "port_step L Op_store_parameter_download (p, e) = on_port e (iolink_master_store_parameter_download L p)"
| "port_step L (Op_write_parameter_block index subindex data len) (p, e) =
     on_port e (iolink_master_write_parameter_block L index subindex data len p)"
| "port_step L Op_read_event_code (p, e) =
     map_option (\<lambda>(ret, _, p). (ret, p, e)) (iolink_master_read_event_code 0 p)"
| "port_step L Op_ack_event (p, e) =
     map_option (\<lambda>(ret, _, p). (ret, p, e)) (iolink_master_ack_event 0 p)"
| "port_step L (Op_read_event_details events max_events) (p, e) =
     map_option (\<lambda>(ret, _, _, p, e). (ret, p, e))
       (iolink_master_read_event_details events max_events 0 p e)"
| "port_step L Op_get_diagnostics (p, e) =
     (let (ret, _, e) = iolink_master_get_diagnostics p e in Some (ret, p, e))"

text \<open>
  The obligations of the caller. \<open>len_ok\<close>: the buffer is as long as the length passed with
  it, and the length is a \<open>uint8_t\<close>. A PHY that is installed must run out of received octets.
\<close>

definition len_ok :: "'a list option \<Rightarrow> nat \<Rightarrow> bool" where
  "len_ok data len \<longleftrightarrow> len < 256 \<and> (case data of None \<Rightarrow> True | Some src \<Rightarrow> len \<le> length src)"

fun api_ok :: "iolinki \<Rightarrow> ('e \<Rightarrow> nat) \<Rightarrow> 'e port_op \<Rightarrow> bool" where
  "api_ok L d (Op_init (Some phy) (Some config)) = quiet d (initial_port L phy config)"
| "api_ok L d (Op_set_pd_out data len) = len_ok data len"
| "api_ok L d (Op_get_pd_in buffer len) = len_ok (Some buffer) len"
| "api_ok L d (Op_read_isdu index subindex data len) = len_ok (Some data) len"
| "api_ok L d (Op_write_isdu index subindex data len) = len_ok data len"
| "api_ok L d (Op_verify_isdu index subindex data len) = len_ok data len"
| "api_ok L d (Op_verify_data_storage data len) = len_ok data len"
| "api_ok L d (Op_apply_direct_parameter_page1 page len) = len_ok (Some page) len"
| "api_ok L d (Op_read_data_storage data len) = len_ok (Some data) len"
| "api_ok L d (Op_write_data_storage data len) = len_ok data len"
| "api_ok L d (Op_restore_data_storage data len) = len_ok data len"
| "api_ok L d (Op_read_detailed_device_status data len) = len_ok (Some data) len"
| "api_ok L d (Op_write_parameter_block index subindex data len) = len_ok data len"
| "api_ok L d (Op_read_event_details events max_events) = (0 < max_events \<and> len_ok (Some events) max_events)"
| "api_ok L d _ = True"

definition machine_inv :: "iolinki \<Rightarrow> ('e \<Rightarrow> nat) \<Rightarrow> 'e machine \<Rightarrow> bool" where
  "machine_inv L d m \<longleftrightarrow> port_wf L (fst m) \<and> quiet d (fst m)"

lemma len_okD: "len_ok data len \<Longrightarrow> data = Some src \<Longrightarrow> len \<le> length src" "len_ok data len \<Longrightarrow> len < 256"
  by (simp_all add: len_ok_def)

lemma machine_inv_kept: "machine_inv L d (p, e) \<Longrightarrow> port_kept L p p' \<Longrightarrow> machine_inv L d (p', e')"
  using quiet_kept [of L p p' d] by (simp add: machine_inv_def port_kept_def)

lemma init_inv:
  assumes "stack_constants_ok L" "machine_inv L d (p, e)"
    and "\<And>phy' config'. phy = Some phy' \<Longrightarrow> config = Some config' \<Longrightarrow> quiet d (initial_port L phy' config')"
  shows "ensures (iolink_master_init L phy config p e) (\<lambda>(ret, m). machine_inv L d m)"
proof (cases "init_args_ok L phy config")
  case False
  then show ?thesis using assms(2) by (simp add: iolink_master_init_def)
next
  case True
  then obtain phy' config' where args: "phy = Some phy'" "config = Some config'"
    by (auto simp: init_args_ok_def split: option.splits)
  have "machine_inv L d (initial_port L phy' config', e)"
    using assms(1,3) True args by (simp add: machine_inv_def initial_port_wf)
  from machine_inv_kept [OF this] init_kept [OF assms(1), of phy' config' p e] True args show ?thesis
    by (auto elim!: ensures_mono)
qed

lemma quiet_initial:
  assumes "quiet d p" "st_phy p = Some phy" "st_config p = config"
  shows "quiet d (initial_port L phy (config\<lparr>cfg_port_mode := mode\<rparr>))"
    and "quiet d (initial_port L phy config)"
  using assms quiet_setup [of "initial_port L phy (config\<lparr>cfg_port_mode := mode\<rparr>)" p d]
    quiet_setup [of "initial_port L phy config" p d]
  by (simp_all add: initial_port_def Let_def)

lemma port_step_inv:
  assumes L: "iolinki_ok L" and "api_ok L d op" and inv: "machine_inv L d (p, e)"
  shows "ensures (port_step L op (p, e)) (\<lambda>(ret, m). machine_inv L d m)"
proof -
  have L': "stack_constants_ok L" using L by (simp add: iolinki_ok_def)
  have wf: "port_wf L p" and quiet: "quiet d p" using inv by (simp_all add: machine_inv_def)
  note keep = machine_inv_kept [OF inv]
  have lift: "ensures (on_port e m) (\<lambda>(ret, m). machine_inv L d m)"
    if "ensures m (\<lambda>(ret, p'). port_kept L p p')" for m
    using that keep by (auto simp: on_port_def ensures_map elim!: ensures_mono)
  have reads: "ensures (map_option (\<lambda>(ret, _, _, p). (ret, p, e)) (iolink_master_read_isdu L index subindex data len p))
      (\<lambda>(ret, m). machine_inv L d m)" if "len_ok (Some data) len" for index subindex data len
  proof -
    have "len \<le> length data" using that by (simp add: len_ok_def)
    then have "ensures (iolink_master_read_isdu L index subindex data len p)
        (\<lambda>(ret, data', len', p'). port_kept L p p' \<and> length data' = length data)"
      by (intro read_isdu_kept [OF L' wf]) simp
    then show ?thesis using keep by (auto simp: ensures_map elim!: ensures_mono)
  qed
  note commands = iolink_master_begin_parameter_download_def iolink_master_end_parameter_download_def
    iolink_master_begin_parameter_upload_def iolink_master_end_parameter_upload_def
    iolink_master_store_parameter_download_def
  have tick: "ensures (iolink_master_tick_common L event pace now p e) (\<lambda>(ret, m). machine_inv L d m)"
    for event pace now
    using tick_common_kept [OF L wf quiet, of event pace now e] keep by (auto elim!: ensures_mono)
  have same: "machine_inv L d (p, e')" for e'
    using keep [OF port_kept_refl [OF wf]] .
  show ?thesis
  proof (cases op)
    case (Op_init phy config)
    then have "ensures (iolink_master_init L phy config p e) (\<lambda>(ret, m). machine_inv L d m)"
      using assms(2) by (intro init_inv [OF L' inv]) simp
    then show ?thesis using Op_init by simp
  next
    case Op_restart
    then show ?thesis
      using init_inv [OF L' inv, of "st_phy p" "Some (st_config p)"] quiet_initial(2) [OF quiet] inv
      by (simp add: iolink_master_restart_def)
  next
    case (Op_set_port_mode mode)
    have "ensures (iolink_master_init L (st_phy p) (Some ((st_config p)\<lparr>cfg_port_mode := mode\<rparr>)) p e)
        (\<lambda>(ret, m). machine_inv L d m)"
      using quiet_initial(1) [OF quiet _ refl] by (intro init_inv [OF L' inv]) auto
    then show ?thesis
      using Op_set_port_mode inv by (simp add: iolink_master_set_port_mode_def)
  next
    case (Op_set_dq level)
    then show ?thesis by (simp add: case_prod_unfold Let_def same)
  next
    case Op_get_di
    then show ?thesis
      by (auto simp: iolink_master_get_di_def ensures_simps case_prod_unfold Let_def same)
  next
    case Op_process
    then show ?thesis
      using process_at_kept [OF L wf, of 0 False e] keep
      by (auto simp: iolink_master_process_def ensures_map elim!: ensures_mono)
  next
    case Op_on_timeout
    then show ?thesis
      using on_timeout_kept [OF wf, of 0 False e] keep
      by (auto simp: iolink_master_on_timeout_def elim!: ensures_mono)
  next
    case Op_poll_rx
    then show ?thesis
      using poll_rx_kept [OF L wf quiet, of e] keep by (auto elim!: ensures_mono)
  next
    case (Op_on_rx data)
    then show ?thesis
      using on_rx_kept [OF L wf, of data e d] keep by (auto simp: rx_kept_def elim!: ensures_mono)
  next
    case (Op_set_pd_out data len)
    then show ?thesis
      using assms(2) by (auto intro!: lift set_pd_out_kept [OF wf] dest: len_okD)
  next
    case (Op_get_pd_in buffer len)
    then have "len \<le> length buffer" using assms(2) by (simp add: len_ok_def)
    from get_pd_in_defined [OF wf this] Op_get_pd_in show ?thesis
      by (auto simp: ensures_map same elim!: ensures_mono)
  next
    case (Op_read_isdu index subindex data len)
    then show ?thesis using assms(2) by (simp add: reads)
  next
    case (Op_read_data_storage data len)
    then show ?thesis using assms(2) by (simp add: iolink_master_read_data_storage_def reads)
  next
    case (Op_read_detailed_device_status data len)
    then show ?thesis using assms(2) by (simp add: iolink_master_read_detailed_device_status_def reads)
  next
    case (Op_apply_direct_parameter_page1 page len)
    then show ?thesis
      using assms(2) by (auto intro!: lift apply_page_kept [OF wf] dest: len_okD)
  next
    case (Op_write_data_storage data len)
    then show ?thesis
      using assms(2) by (auto simp: iolink_master_write_data_storage_def
          intro!: lift write_isdu_kept [OF L' wf] dest: len_okD)
  next
    case (Op_restore_data_storage data len)
    then show ?thesis
      using assms(2) by (auto simp: iolink_master_restore_data_storage_def
          intro!: lift write_parameter_block_kept [OF L' wf] dest: len_okD)
  next
    case Op_get_diagnostics
    then show ?thesis by (simp add: case_prod_unfold Let_def same)
  next
    case (Op_write_isdu index subindex data len)
    then show ?thesis
      using assms(2) by (auto intro!: lift write_isdu_kept [OF L' wf] dest: len_okD)
  next
    case (Op_verify_isdu index subindex data len)
    then show ?thesis
      using assms(2) by (auto intro!: lift verify_isdu_kept [OF L' wf] dest: len_okD)
  next
    case (Op_verify_data_storage data len)
    then show ?thesis
      using assms(2) by (auto intro!: lift verify_data_storage_kept [OF L' wf] dest: len_okD)
  next
    case (Op_write_parameter_block index subindex data len)
    then show ?thesis
      using assms(2) by (auto intro!: lift write_parameter_block_kept [OF L' wf] dest: len_okD)
  next
    case Op_read_event_code
    then show ?thesis
      using read_event_code_kept [OF wf, of 0] keep by (auto simp: ensures_map elim!: ensures_mono)
  next
    case Op_ack_event
    then show ?thesis
      using ack_event_kept [OF wf, of 0] keep by (auto simp: ensures_map elim!: ensures_mono)
  next
    case (Op_read_event_details events n)
    then have "ensures (iolink_master_read_event_details events n 0 p e)
        (\<lambda>(ret, events', n', p', e'). port_kept L p p')"
      using assms(2) by (intro read_event_details_kept [OF wf]) (auto simp: len_ok_def)
    then show ?thesis using Op_read_event_details keep by (auto simp: ensures_map elim!: ensures_mono)
  qed (simp_all add: tick iolink_master_tick_def iolink_master_tick_event_def
        iolink_master_tick_at_def lift read_device_info_kept [OF L' wf]
        write_system_command_kept [OF L' wf] commands)
qed

interpretation api: invariant_machine "port_step L" "api_ok L d" "\<lambda>m. iolinki_ok L \<and> machine_inv L d m"
proof unfold_locales
  fix op and m :: "'a machine"
  assume "api_ok L d op" "iolinki_ok L \<and> machine_inv L d m"
  then show "ensures (port_step L op m) (\<lambda>(r, m'). iolinki_ok L \<and> machine_inv L d m')"
    using port_step_inv [of L d op "fst m" "snd m"] by (auto elim!: ensures_mono)
qed

text \<open>
  C13. Memory safety and termination of the master. Every sequence of calls of the API
  functions that change a port, call the PHY or move octets to or from the caller (all of them
  but the gateway line and the getters that copy fields), from any memory that satisfies the
  invariant (a zeroed port does), has a defined result: no access outside an array, no call
  through a NULL pointer and no endless loop, whatever the device, the PHY and the application's
  hooks do, as long as the caller's buffers have the lengths passed with them, the array of an
  event readout has room for an event, and a PHY that is polled runs out of octets. Each call
  returns one result and the invariant holds at the end.
\<close>

theorem api_calls_are_safe:
  assumes "iolinki_ok L" and "port_wf L p" and "quiet d p" and "list_all (api_ok L d) calls"
  shows "ensures (run_ops (port_step L) calls (p, e))
    (\<lambda>(results, p', e'). length results = length calls \<and> port_wf L p')"
proof -
  have "iolinki_ok L \<and> machine_inv L d (p, e)" using assms by (simp add: machine_inv_def)
  from api.run_defined [OF assms(4) this] show ?thesis
    by (auto simp: machine_inv_def elim!: ensures_mono)
qed

theorem api_calls_are_safe_witness:
  "ensures (run_ops (port_step demo_stack)
     [Op_init (Some demo_phy) (Some demo_config), Op_tick_at TICK_CYCLE_DUE 7, Op_on_rx (Some [1, 2, 3]),
      Op_apply_direct_parameter_page1 [0, 0, 0x14] 3, Op_get_diagnostics,
      Op_write_parameter_block 9 0 (Some [1, 2]) 2, Op_tick_at TICK_RESPONSE_TIMEOUT 9,
      Op_read_event_details (replicate 4 (event_at [0, 0, 0, 0] 0)) 4] (zero_port demo_stack, [7, 8], []))
     (\<lambda>(results, p', e'). length results = 8 \<and> port_wf demo_stack p')"
proof -
  have "quiet (\<lambda>e. length (fst e)) (zero_port demo_stack :: demo_line iolink_master_port_state_t)"
    by (simp add: quiet_def zero_port_def zero_config_def iolink_master_set_baudrate_def)
  moreover have "quiet (\<lambda>e. length (fst e)) (initial_port demo_stack demo_phy demo_config)"
    by (rule demo_quiet) (simp_all add: initial_port_def Let_def demo_config_def zero_config_def)
  ultimately show ?thesis
    by (intro ensures_mono [OF api_calls_are_safe [OF demo_stack_ok
            zero_port_wf [OF demo_stack_constants], where d = "\<lambda>e. length (fst e)"]])
      (auto simp: len_ok_def)
qed

end
