(* ===== verification/MasterController.thy ===== *)
theory MasterController
  imports MasterApi
begin

text \<open>
  The multi-port controller (\<open>src/master_controller.c\<close>): it initialises a group of ports,
  ticks them in turn, aggregates their results and computes the next tick time of the group.

  The controller refers to the caller's array of ports; here the array is a field of the
  controller's state, and a pointer to a port is its index. A NULL controller, port array,
  PHY array, configuration array or output pointer has no counterpart; the arrays of timeout
  flags and events, which may be NULL, are options. The loop counter is a \<open>uint8_t\<close> below
  the \<open>uint8_t\<close> port count, so it does not wrap.
\<close>

subsection \<open>State and operations\<close>

record 'e iolink_master_controller_state_t =
  cs_ports :: "'e iolink_master_port_state_t list"
  cs_port_count :: nat

text \<open>The loop of the initialisation: the first error ends it and cuts the port count.\<close>

primrec controller_init_loop ::
  "iolinki \<Rightarrow> 'e iolink_phy_api_t list \<Rightarrow> 'e iolink_master_config_t list \<Rightarrow> nat list \<Rightarrow>
   'e iolink_master_controller_state_t \<Rightarrow> 'e \<Rightarrow>
   (int \<times> 'e iolink_master_controller_state_t \<times> 'e) option" where
  "controller_init_loop L phys configs [] c e = Some (STATUS_OK, c, e)"
| "controller_init_loop L phys configs (i # is) c e = do {
     p \<leftarrow> rd (cs_ports c) i;
     phy \<leftarrow> rd phys i;
     config \<leftarrow> rd configs i;
     (ret, p, e) \<leftarrow> iolink_master_init L (Some phy) (Some config) p e;
     let c = c\<lparr>cs_ports := (cs_ports c)[i := p]\<rparr>;
     if ret \<noteq> 0 then Some (ret, c\<lparr>cs_port_count := i\<rparr>, e)
     else controller_init_loop L phys configs is c e }"

definition iolink_master_controller_init ::
  "iolinki \<Rightarrow> 'e iolink_master_port_state_t list \<Rightarrow> nat \<Rightarrow> 'e iolink_phy_api_t list \<Rightarrow>
   'e iolink_master_config_t list \<Rightarrow> 'e iolink_master_controller_state_t \<Rightarrow> 'e \<Rightarrow>
   (int \<times> 'e iolink_master_controller_state_t \<times> 'e) option" where
  "iolink_master_controller_init L ports port_count phys configs c e =
     (if port_count = 0 then Some (ERR_INVALID_ARG, c, e)
      else controller_init_loop L phys configs [0..<port_count]
             \<lparr>cs_ports = ports, cs_port_count = port_count\<rparr> e)"

text \<open>
  The loop of the three tick functions: \<open>tick_port i\<close> ticks port \<open>i\<close>; a negative result does
  not end the loop, the first one is the result of the call.
\<close>

primrec controller_tick_loop ::
  "(nat \<Rightarrow> 'e iolink_master_port_state_t \<Rightarrow> 'e \<Rightarrow> (int \<times> 'e iolink_master_port_state_t \<times> 'e) option) \<Rightarrow>
   nat list \<Rightarrow> int \<Rightarrow> 'e iolink_master_controller_state_t \<Rightarrow> 'e \<Rightarrow>
   (int \<times> 'e iolink_master_controller_state_t \<times> 'e) option" where
  "controller_tick_loop tick_port [] first_error c e = Some (first_error, c, e)"
| "controller_tick_loop tick_port (i # is) first_error c e = do {
     p \<leftarrow> rd (cs_ports c) i;
     (ret, p, e) \<leftarrow> tick_port i p e;
     controller_tick_loop tick_port is (if ret < 0 \<and> first_error = 0 then ret else first_error)
       (c\<lparr>cs_ports := (cs_ports c)[i := p]\<rparr>) e }"

text \<open>Entry \<open>i\<close> of an array that may be NULL.\<close>

definition entry_or :: "'a \<Rightarrow> 'a list option \<Rightarrow> nat \<Rightarrow> 'a option" where
  "entry_or absent xs i = (case xs of None \<Rightarrow> Some absent | Some xs \<Rightarrow> rd xs i)"

definition iolink_master_controller_tick ::
  "iolinki \<Rightarrow> bool list option \<Rightarrow> 'e iolink_master_controller_state_t \<Rightarrow> 'e \<Rightarrow>
   (int \<times> 'e iolink_master_controller_state_t \<times> 'e) option" where
  "iolink_master_controller_tick L response_timeouts c e =
     controller_tick_loop (\<lambda>i p e. do {
         timeout \<leftarrow> entry_or False response_timeouts i;
         iolink_master_tick_event L (if timeout then TICK_RESPONSE_TIMEOUT else TICK_CYCLE_DUE) p e })
       [0..<cs_port_count c] STATUS_OK c e"

definition iolink_master_controller_tick_events ::
  "iolinki \<Rightarrow> iolink_master_tick_event_t list option \<Rightarrow> 'e iolink_master_controller_state_t \<Rightarrow> 'e \<Rightarrow>
   (int \<times> 'e iolink_master_controller_state_t \<times> 'e) option" where
  "iolink_master_controller_tick_events L events c e =
     controller_tick_loop (\<lambda>i p e. do {
         event \<leftarrow> entry_or TICK_CYCLE_DUE events i;
         iolink_master_tick_event L event p e })
       [0..<cs_port_count c] STATUS_OK c e"

definition iolink_master_controller_tick_at ::
  "iolinki \<Rightarrow> u32 \<Rightarrow> 'e iolink_master_controller_state_t \<Rightarrow> 'e \<Rightarrow>
   (int \<times> 'e iolink_master_controller_state_t \<times> 'e) option" where
  "iolink_master_controller_tick_at L now_100us c e =
     controller_tick_loop (\<lambda>i p e.
         iolink_master_tick_at L (if iolink_master_response_due_at p now_100us
           then TICK_RESPONSE_TIMEOUT else TICK_CYCLE_DUE) now_100us p e)
       [0..<cs_port_count c] STATUS_OK c e"

definition iolink_master_controller_get_port_count ::
  "'e iolink_master_controller_state_t \<Rightarrow> int \<times> nat" where
  "iolink_master_controller_get_port_count c = (STATUS_OK, cs_port_count c)"

text \<open>The port is given by its index; without one the output is not written.\<close>

definition iolink_master_controller_get_port ::
  "nat \<Rightarrow> 'e iolink_master_controller_state_t \<Rightarrow> int \<times> nat option" where
  "iolink_master_controller_get_port index c =
     (if index \<ge> cs_port_count c then (ERR_INVALID_ARG, None) else (STATUS_OK, Some index))"

primrec controller_next_loop ::
  "u32 \<Rightarrow> 'e iolink_master_controller_state_t \<Rightarrow> nat list \<Rightarrow> u32 \<Rightarrow> (int \<times> u32) option" where
  "controller_next_loop now_100us c [] next_100us = Some (STATUS_OK, next_100us)"
| "controller_next_loop now_100us c (i # is) next_100us = do {
     p \<leftarrow> rd (cs_ports c) i;
     let (ret, port_next) = iolink_master_get_next_tick_time p now_100us;
     if ret \<noteq> STATUS_OK then Some (ERR_INVALID_ARG, next_100us)
     else controller_next_loop now_100us c is
            (if port_next < next_100us then port_next else next_100us) }"

definition iolink_master_controller_get_next_tick_time ::
  "u32 \<Rightarrow> 'e iolink_master_controller_state_t \<Rightarrow> (int \<times> u32) option" where
  "iolink_master_controller_get_next_tick_time now_100us c =
     (if cs_port_count c = 0 then Some (STATUS_OK, now_100us)
      else controller_next_loop now_100us c [0..<cs_port_count c] 0xFFFFFFFF)"

subsection \<open>Ticking in turn\<close>

text \<open>
  The reference: every port is ticked once, in the order of the array, each on the
  environment that the ports before it have left; no port sees the result of another.
\<close>

fun in_turn ::
  "(nat \<Rightarrow> 'p \<Rightarrow> 'e \<Rightarrow> (int \<times> 'p \<times> 'e) option) \<Rightarrow> nat \<Rightarrow> 'p list \<Rightarrow> 'e \<Rightarrow>
   (int list \<times> 'p list \<times> 'e) option" where
  "in_turn tick_port i [] e = Some ([], [], e)"
| "in_turn tick_port i (p # ps) e = do {
     (ret, p, e) \<leftarrow> tick_port i p e;
     (rets, ps, e) \<leftarrow> in_turn tick_port (Suc i) ps e;
     Some (ret # rets, p # ps, e) }"

definition first_negative :: "int list \<Rightarrow> int" where
  "first_negative rets = (case filter (\<lambda>ret. ret < 0) rets of [] \<Rightarrow> STATUS_OK | ret # _ \<Rightarrow> ret)"

lemma first_negative_Cons:
  "first_negative (ret # rets) = (if ret < 0 then ret else first_negative rets)"
  by (simp add: first_negative_def)

lemma tick_loop_in_turn:
  assumes "j = length done" and "k = j + length ps"
  shows "controller_tick_loop tick_port [j..<k] first_error (c\<lparr>cs_ports := done @ ps @ rest\<rparr>) e =
   map_option (\<lambda>(rets, ps', e'). (if first_error \<noteq> 0 then first_error else first_negative rets,
       c\<lparr>cs_ports := done @ ps' @ rest\<rparr>, e'))
     (in_turn tick_port j ps e)"
  using assms
proof (induction ps arbitrary: "done" first_error e j)
  case Nil
  then show ?case by (simp add: first_negative_def)
next
  case (Cons p ps)
  have range: "[j..<k] = j # [Suc j..<k]" using Cons.prems by (simp add: upt_rec)
  have here: "rd (done @ (p # ps) @ rest) j = Some p" using Cons.prems by (simp add: rd_def)
  show ?case
  proof (cases "tick_port j p e")
    case None
    then show ?thesis unfolding range using here by simp
  next
    case (Some r)
    obtain ret p' e' where r: "r = (ret, p', e')" by (cases r)
    have "(done @ (p # ps) @ rest)[j := p'] = (done @ [p']) @ ps @ rest" using Cons.prems by simp
    then show ?thesis
      unfolding range
      using Cons.IH [of "Suc j" "done @ [p']" "if ret < 0 \<and> first_error = 0 then ret else first_error" e']
        Cons.prems Some r here
      by (auto simp: first_negative_Cons option.map_comp comp_def case_prod_unfold bind_map_option
          map_option_case split: option.splits)
  qed
qed

lemma ticks_in_turn:
  assumes "cs_port_count c \<le> length (cs_ports c)"
  shows "controller_tick_loop tick_port [0..<cs_port_count c] STATUS_OK c e =
   map_option (\<lambda>(rets, ps', e'). (first_negative rets,
       c\<lparr>cs_ports := ps' @ drop (cs_port_count c) (cs_ports c)\<rparr>, e'))
     (in_turn tick_port 0 (take (cs_port_count c) (cs_ports c)) e)"
  using tick_loop_in_turn [where j = 0 and k = "cs_port_count c" and
      ps = "take (cs_port_count c) (cs_ports c)" and rest = "drop (cs_port_count c) (cs_ports c)"
      and c = c and tick_port = tick_port and first_error = STATUS_OK and e = e, of "[]"] assms
  by simp

text \<open>The contract of one port of the group; it gives the contract of the group.\<close>

locale port_bank =
  fixes tick_port :: "nat \<Rightarrow> 'p \<Rightarrow> 'e \<Rightarrow> (int \<times> 'p \<times> 'e) option"
    and inv :: "'p \<Rightarrow> bool"
    and n :: nat
  assumes tick_port_inv: "i < n \<Longrightarrow> inv p \<Longrightarrow> ensures (tick_port i p e) (\<lambda>(ret, p', e'). inv p')"
begin

lemma in_turn_defined:
  "i + length ps \<le> n \<Longrightarrow> list_all inv ps \<Longrightarrow>
   ensures (in_turn tick_port i ps e)
     (\<lambda>(rets, ps', e'). length rets = length ps \<and> length ps' = length ps \<and> list_all inv ps')"
proof (induction ps arbitrary: i e)
  case (Cons p ps)
  have "ensures (tick_port i p e) (\<lambda>(ret, p', e'). inv p')"
    using Cons.prems by (intro tick_port_inv) simp_all
  then obtain ret p' e' where step: "tick_port i p e = Some (ret, p', e')" "inv p'"
    by (auto elim: ensuresE)
  with Cons.IH [of "Suc i" e'] Cons.prems show ?case
    by (auto simp: ensures_simps elim!: ensures_mono)
qed simp

end

subsection \<open>The invariant of the group\<close>

definition port_inv :: "iolinki \<Rightarrow> ('e \<Rightarrow> nat) \<Rightarrow> 'e iolink_master_port_state_t \<Rightarrow> bool" where
  "port_inv L d p \<longleftrightarrow> iolinki_ok L \<and> port_wf L p \<and> quiet d p"

definition controller_inv ::
  "iolinki \<Rightarrow> ('e \<Rightarrow> nat) \<Rightarrow> 'e iolink_master_controller_state_t \<Rightarrow> bool" where
  "controller_inv L d c \<longleftrightarrow> cs_port_count c \<le> length (cs_ports c) \<and>
     list_all (port_inv L d) (take (cs_port_count c) (cs_ports c))"

text \<open>An input array is NULL or has an entry for each port.\<close>

definition entries_for :: "nat \<Rightarrow> 'a list option \<Rightarrow> bool" where
  "entries_for n xs \<longleftrightarrow> (case xs of None \<Rightarrow> True | Some xs \<Rightarrow> n \<le> length xs)"

lemma ensures_entry:
  "entries_for n xs \<Longrightarrow> i < n \<Longrightarrow> (\<And>x. ensures (f x) Q) \<Longrightarrow> ensures (entry_or absent xs i \<bind> f) Q"
  by (auto simp: entries_for_def entry_or_def rd_def split: option.splits)

lemma tick_port_inv:
  assumes "port_inv L d p"
  shows "ensures (iolink_master_tick_common L event pace now p e) (\<lambda>(ret, p', e'). port_inv L d p')"
proof -
  have "ensures (iolink_master_tick_common L event pace now p e) (\<lambda>(ret, p', e'). port_kept L p p')"
    using assms by (intro tick_common_kept [where d = d]) (simp_all add: port_inv_def)
  then show ?thesis
    using assms quiet_kept [of L p _ d] by (auto simp: port_inv_def port_kept_def elim!: ensures_mono)
qed

interpretation timeout_bank: port_bank
  "\<lambda>i p e. do { timeout \<leftarrow> entry_or False response_timeouts i;
     iolink_master_tick_event L (if timeout then TICK_RESPONSE_TIMEOUT else TICK_CYCLE_DUE) p e }"
  "port_inv L d" "if entries_for n response_timeouts then n else 0"
  by unfold_locales
    (auto simp: iolink_master_tick_event_def tick_port_inv split: if_splits intro!: ensures_entry)

interpretation event_bank: port_bank
  "\<lambda>i p e. do { event \<leftarrow> entry_or TICK_CYCLE_DUE events i; iolink_master_tick_event L event p e }"
  "port_inv L d" "if entries_for n events then n else 0"
  by unfold_locales
    (auto simp: iolink_master_tick_event_def tick_port_inv split: if_splits intro!: ensures_entry)

interpretation timed_bank: port_bank
  "\<lambda>i p e. iolink_master_tick_at L (if iolink_master_response_due_at p now then TICK_RESPONSE_TIMEOUT
     else TICK_CYCLE_DUE) now p e"
  "port_inv L d" n
  by unfold_locales (simp add: iolink_master_tick_at_def tick_port_inv)

text \<open>A group ticked by one of the three functions.\<close>

lemma bank_keeps_inv:
  assumes "port_bank tick_port (port_inv L d) n" and "controller_inv L d c" and "n = cs_port_count c"
  shows "ensures (controller_tick_loop tick_port [0..<cs_port_count c] STATUS_OK c e)
    (\<lambda>(ret, c', e'). controller_inv L d c' \<and> cs_port_count c' = cs_port_count c)"
proof -
  have count: "cs_port_count c \<le> length (cs_ports c)" using assms(2) by (simp add: controller_inv_def)
  have "ensures (in_turn tick_port 0 (take n (cs_ports c)) e)
     (\<lambda>(rets, ps', e'). length rets = length (take n (cs_ports c)) \<and>
       length ps' = length (take n (cs_ports c)) \<and> list_all (port_inv L d) ps')"
    using assms by (intro port_bank.in_turn_defined [OF assms(1)]) (simp_all add: controller_inv_def)
  then show ?thesis
    using count assms(3)
    by (auto simp: ticks_in_turn [OF count] ensures_map controller_inv_def elim!: ensures_mono)
qed

subsection \<open>The initialisation of the group\<close>

text \<open>
  The loop stops at the first port whose initialisation fails: the ports before it are
  initialised, the ports after it keep their memory.
\<close>

lemma init_loop_outcome:
  assumes "\<And>i p e. i < k \<Longrightarrow> ensures (iolink_master_init L (Some (phys ! i)) (Some (configs ! i)) p e)
      (\<lambda>(ret, p', e'). ret = STATUS_OK \<longrightarrow> Q i p')"
    and "k \<le> length phys" "k \<le> length configs" "k \<le> length (cs_ports c)" "j \<le> k" "cs_port_count c = k"
  shows "ensures (controller_init_loop L phys configs [j..<k] c e) (\<lambda>(ret, c', e').
      length (cs_ports c') = length (cs_ports c) \<and> j \<le> cs_port_count c' \<and> cs_port_count c' \<le> k \<and>
      (ret = STATUS_OK \<longleftrightarrow> cs_port_count c' = k) \<and>
      (\<forall>i. j \<le> i \<and> i < cs_port_count c' \<longrightarrow> Q i (cs_ports c' ! i)) \<and>
      (\<forall>i. i < j \<or> cs_port_count c' < i \<longrightarrow> cs_ports c' ! i = cs_ports c ! i))"
  using assms(4-6)
proof (induction "k - j" arbitrary: j c e)
  case 0
  then show ?case by auto
next
  case (Suc m)
  then have range: "[j..<k] = j # [Suc j..<k]" and j: "j < k" by (simp_all add: upt_rec)
  obtain ret p' e' where init: "iolink_master_init L (Some (phys ! j)) (Some (configs ! j)) (cs_ports c ! j) e =
      Some (ret, p', e')" "ret = STATUS_OK \<longrightarrow> Q j p'"
    using assms(1) [OF j, of "cs_ports c ! j" e] by (auto elim: ensuresE)
  have read: "rd (cs_ports c) j = Some (cs_ports c ! j)" "rd phys j = Some (phys ! j)"
    "rd configs j = Some (configs ! j)"
    using j assms(2,3) Suc.prems by (simp_all add: rd_def)
  show ?case
  proof (cases "ret = STATUS_OK")
    case False
    then show ?thesis using j init(1) Suc.prems by (auto simp: range read)
  next
    case True
    have "ensures (controller_init_loop L phys configs [Suc j..<k] (c\<lparr>cs_ports := (cs_ports c)[j := p']\<rparr>) e')
      (\<lambda>(ret, c', e'). length (cs_ports c') = length (cs_ports c) \<and> Suc j \<le> cs_port_count c' \<and>
      cs_port_count c' \<le> k \<and> (ret = STATUS_OK \<longleftrightarrow> cs_port_count c' = k) \<and>
      (\<forall>i. Suc j \<le> i \<and> i < cs_port_count c' \<longrightarrow> Q i (cs_ports c' ! i)) \<and>
      (\<forall>i. i < Suc j \<or> cs_port_count c' < i \<longrightarrow> cs_ports c' ! i = (cs_ports c)[j := p'] ! i))"
      using Suc.hyps(1) [of "Suc j" "c\<lparr>cs_ports := (cs_ports c)[j := p']\<rparr>" e'] Suc.hyps(2) Suc.prems j
      by simp
    then obtain x where x: "controller_init_loop L phys configs [Suc j..<k]
        (c\<lparr>cs_ports := (cs_ports c)[j := p']\<rparr>) e' = Some x" and outcome_x: "case x of (ret', c', e'') \<Rightarrow>
        length (cs_ports c') = length (cs_ports c) \<and> Suc j \<le> cs_port_count c' \<and>
        cs_port_count c' \<le> k \<and> (ret' = STATUS_OK \<longleftrightarrow> cs_port_count c' = k) \<and>
        (\<forall>i. Suc j \<le> i \<and> i < cs_port_count c' \<longrightarrow> Q i (cs_ports c' ! i)) \<and>
        (\<forall>i. i < Suc j \<or> cs_port_count c' < i \<longrightarrow> cs_ports c' ! i = (cs_ports c)[j := p'] ! i)"
      by (rule ensuresE)
    obtain ret' c' e'' where rest: "x = (ret', c', e'')" by (cases x)
    from outcome_x have outcome: "length (cs_ports c') = length (cs_ports c)" "Suc j \<le> cs_port_count c'"
        "cs_port_count c' \<le> k" "ret' = STATUS_OK \<longleftrightarrow> cs_port_count c' = k"
        "\<forall>i. Suc j \<le> i \<and> i < cs_port_count c' \<longrightarrow> Q i (cs_ports c' ! i)"
        "\<forall>i. i < Suc j \<or> cs_port_count c' < i \<longrightarrow> cs_ports c' ! i = (cs_ports c)[j := p'] ! i"
      unfolding rest prod.case by - (elim conjE, assumption)+
    have here: "cs_ports c' ! j = p'" using outcome(6) Suc.prems(1) j by simp
    have "Q i (cs_ports c' ! i)" if "j \<le> i" "i < cs_port_count c'" for i
      using that outcome(5) here init(2) True by (cases "i = j") auto
    moreover have "cs_ports c' ! i = cs_ports c ! i" if "i < j \<or> cs_port_count c' < i" for i
      using that outcome(2,6) by auto
    ultimately show ?thesis
      unfolding range using init(1) True rest x outcome(1-4) by (simp add: read)
  qed
qed

text \<open>What an initialisation that succeeds gives of a port, it gives of every managed port.\<close>

lemma controller_init_ports:
  assumes "stack_constants_ok L" and "0 < n"
    and "n \<le> length ports" "n \<le> length phys" "n \<le> length configs"
    and "\<And>i. i < n \<Longrightarrow> init_args_ok L (Some (phys ! i)) (Some (configs ! i)) \<Longrightarrow>
      Q i (initial_port L (phys ! i) (configs ! i))"
  shows "ensures (iolink_master_controller_init L ports n phys configs c e) (\<lambda>(ret, c', e').
      length (cs_ports c') = length ports \<and> cs_port_count c' \<le> n \<and>
      (ret = STATUS_OK \<longleftrightarrow> cs_port_count c' = n) \<and>
      (\<forall>i < cs_port_count c'. Q i (cs_ports c' ! i)) \<and>
      (\<forall>i > cs_port_count c'. cs_ports c' ! i = ports ! i))"
proof -
  have "ensures (iolink_master_init L (Some (phys ! i)) (Some (configs ! i)) p e)
      (\<lambda>(ret, p', e'). ret = STATUS_OK \<longrightarrow> Q i p')" if "i < n" for i p e
  proof (cases "init_args_ok L (Some (phys ! i)) (Some (configs ! i))")
    case True
    from init_outcome [OF assms(1) this, of p e] assms(6) [OF that True] show ?thesis
      by (auto elim!: ensures_mono)
  qed (simp add: iolink_master_init_def)
  from init_loop_outcome [of n L phys configs Q "\<lparr>cs_ports = ports, cs_port_count = n\<rparr>" 0 e, OF this]
  show ?thesis
    using assms(2-5) by (auto simp: iolink_master_controller_init_def elim!: ensures_mono)
qed

text \<open>
  Initialisation of a group. The result is OK exactly when every port is managed;
  otherwise the ports from the failed one on are left out. Every managed port is in its
  initial state for its own PHY and configuration, whatever its memory held before, and its
  configuration is legal; ports beyond the failed one are not touched.
\<close>

theorem controller_initialised:
  assumes "stack_constants_ok L" and "0 < n"
    and "n \<le> length ports" "n \<le> length phys" "n \<le> length configs"
  shows "ensures (iolink_master_controller_init L ports n phys configs c e) (\<lambda>(ret, c', e').
      length (cs_ports c') = length ports \<and> cs_port_count c' \<le> n \<and>
      (ret = STATUS_OK \<longleftrightarrow> cs_port_count c' = n) \<and>
      (\<forall>i < cs_port_count c'. init_args_ok L (Some (phys ! i)) (Some (configs ! i)) \<and>
         cs_ports c' ! i = initial_port L (phys ! i) (configs ! i)) \<and>
      (\<forall>i > cs_port_count c'. cs_ports c' ! i = ports ! i))"
  by (rule controller_init_ports [OF assms]) simp

theorem controller_initialised_witness:
  "ensures (iolink_master_controller_init demo_stack [zero_port demo_stack, zero_port demo_stack] 2
      [demo_phy, demo_phy] [demo_config, demo_config\<lparr>cfg_pd_in_len := 77\<rparr>]
      \<lparr>cs_ports = [], cs_port_count = 0\<rparr> ([], []))
     (\<lambda>(ret, c', e'). ret \<noteq> STATUS_OK \<and> cs_port_count c' \<le> 1)"
proof -
  have bad: "\<not> init_args_ok demo_stack (Some demo_phy) (Some (demo_config\<lparr>cfg_pd_in_len := 77\<rparr>))"
    by (simp add: init_args_ok_def demo_stack_def)
  have "ensures (iolink_master_controller_init demo_stack [zero_port demo_stack, zero_port demo_stack] 2
      [demo_phy, demo_phy] [demo_config, demo_config\<lparr>cfg_pd_in_len := 77\<rparr>]
      \<lparr>cs_ports = [], cs_port_count = 0\<rparr> ([], []))
     (\<lambda>(ret, c', e'). cs_port_count c' \<le> 2 \<and> (ret = STATUS_OK \<longleftrightarrow> cs_port_count c' = 2) \<and>
       cs_port_count c' \<noteq> 2)"
    by (rule ensures_mono [OF controller_initialised [OF demo_stack_constants]]) (use bad in \<open>auto dest!: spec [where x = "Suc 0"]\<close>)
  then show ?thesis by (auto elim!: ensures_mono)
qed

subsection \<open>Calls of the controller\<close>

text \<open>
  \<open>Ctl_port index op\<close>: the application gets a port and calls an operation of the port API
  on it.
\<close>

datatype 'e controller_op =
    Ctl_init "'e iolink_master_port_state_t list" nat "'e iolink_phy_api_t list" "'e iolink_master_config_t list"
  | Ctl_tick "bool list option"
  | Ctl_tick_events "iolink_master_tick_event_t list option"
  | Ctl_tick_at u32
  | Ctl_next_tick_time u32
  | Ctl_port nat "'e port_op"

type_synonym 'e group = "'e iolink_master_controller_state_t \<times> 'e"

fun controller_step :: "iolinki \<Rightarrow> 'e controller_op \<Rightarrow> 'e group \<Rightarrow> (int \<times> 'e group) option" where
  "controller_step L (Ctl_init ports n phys configs) (c, e) =
     iolink_master_controller_init L ports n phys configs c e"
| "controller_step L (Ctl_tick flags) (c, e) = iolink_master_controller_tick L flags c e"
| "controller_step L (Ctl_tick_events events) (c, e) = iolink_master_controller_tick_events L events c e"
| "controller_step L (Ctl_tick_at now_100us) (c, e) = iolink_master_controller_tick_at L now_100us c e"
| "controller_step L (Ctl_next_tick_time now_100us) (c, e) =
     map_option (\<lambda>(ret, _). (ret, c, e)) (iolink_master_controller_get_next_tick_time now_100us c)"
| "controller_step L (Ctl_port index op) (c, e) =
     (case iolink_master_controller_get_port index c of
        (ret, None) \<Rightarrow> Some (ret, c, e)
      | (ret, Some i) \<Rightarrow> do {
          p \<leftarrow> rd (cs_ports c) i;
          (ret, p, e) \<leftarrow> port_step L op (p, e);
          Some (ret, c\<lparr>cs_ports := (cs_ports c)[i := p]\<rparr>, e) })"

text \<open>The obligations of the caller: arrays with an entry for each port.\<close>

fun controller_ok :: "iolinki \<Rightarrow> ('e \<Rightarrow> nat) \<Rightarrow> nat \<Rightarrow> 'e controller_op \<Rightarrow> bool" where
  "controller_ok L d m (Ctl_init ports n phys configs) \<longleftrightarrow>
     n \<le> m \<and> n \<le> length ports \<and> n \<le> length phys \<and> n \<le> length configs \<and>
     (\<forall>i < n. quiet d (initial_port L (phys ! i) (configs ! i)))"
| "controller_ok L d m (Ctl_tick flags) \<longleftrightarrow> entries_for m flags"
| "controller_ok L d m (Ctl_tick_events events) \<longleftrightarrow> entries_for m events"
| "controller_ok L d m (Ctl_port index op) \<longleftrightarrow> api_ok L d op"
| "controller_ok L d m _ \<longleftrightarrow> True"

lemma port_inv_step:
  assumes "port_inv L d p" and "api_ok L d op"
  shows "ensures (port_step L op (p, e)) (\<lambda>(ret, p', e'). port_inv L d p')"
  using port_step_inv [of L d op p e] assms
  by (auto simp: port_inv_def machine_inv_def elim!: ensures_mono)

lemma controller_inv_update:
  assumes "controller_inv L d c" and "port_inv L d p"
  shows "controller_inv L d (c\<lparr>cs_ports := (cs_ports c)[i := p]\<rparr>)"
  using assms
  by (cases "i < length (cs_ports c)")
    (auto simp: controller_inv_def list_all_length nth_list_update list_update_beyond)

lemma next_loop_defined:
  "set is \<subseteq> {0..<length (cs_ports c)} \<Longrightarrow>
   ensures (controller_next_loop now c is t) (\<lambda>(ret, t'). ret = STATUS_OK)"
  by (induction "is" arbitrary: t)
    (auto simp: ensures_simps case_prod_unfold Let_def iolink_master_get_next_tick_time_def)

text \<open>The invariant of the run: legal ports, at most \<open>m\<close> of them.\<close>

definition group_inv :: "iolinki \<Rightarrow> ('e \<Rightarrow> nat) \<Rightarrow> nat \<Rightarrow> 'e group \<Rightarrow> bool" where
  "group_inv L d m g \<longleftrightarrow> iolinki_ok L \<and> controller_inv L d (fst g) \<and> cs_port_count (fst g) \<le> m"

lemma entries_for_mono: "entries_for m xs \<Longrightarrow> n \<le> m \<Longrightarrow> entries_for n xs"
  by (simp add: entries_for_def split: option.splits)

lemma controller_step_inv:
  assumes "controller_ok L d m op" and "group_inv L d m (c, e)"
  shows "ensures (controller_step L op (c, e)) (\<lambda>(ret, g). group_inv L d m g)"
proof -
  have L: "iolinki_ok L" and inv: "controller_inv L d c" and count: "cs_port_count c \<le> m"
    using assms(2) by (simp_all add: group_inv_def)
  have L': "stack_constants_ok L" using L by (simp add: iolinki_ok_def)
  have ports: "cs_port_count c \<le> length (cs_ports c)"
    "i < cs_port_count c \<Longrightarrow> port_inv L d (cs_ports c ! i)" for i
    using inv by (auto simp: controller_inv_def list_all_length)
  have tick: "ensures (controller_tick_loop tick_port [0..<cs_port_count c] STATUS_OK c e)
      (\<lambda>(ret, g). group_inv L d m g)" if "port_bank tick_port (port_inv L d) (cs_port_count c)" for tick_port
    using bank_keeps_inv [OF that inv refl, of e] L count
    by (auto simp: group_inv_def elim!: ensures_mono)
  show ?thesis
  proof (cases op)
    case (Ctl_init ps n phys configs)
    show ?thesis
    proof (cases "n = 0")
      case True
      then show ?thesis using Ctl_init assms(2) by (simp add: iolink_master_controller_init_def)
    next
      case False
      have "ensures (iolink_master_controller_init L ps n phys configs c e) (\<lambda>(ret, c', e').
          length (cs_ports c') = length ps \<and> cs_port_count c' \<le> n \<and>
          (\<forall>i < cs_port_count c'. port_inv L d (cs_ports c' ! i)))"
        using assms(1) Ctl_init False L L'
        by (intro ensures_mono [OF controller_init_ports [of L n ps phys configs "\<lambda>_. port_inv L d" c e]])
          (auto simp: port_inv_def initial_port_wf)
      then show ?thesis
        using Ctl_init assms(1) L
        by (auto simp: group_inv_def controller_inv_def list_all_length elim!: ensures_mono)
    qed
  next
    case (Ctl_tick flags)
    then have "entries_for (cs_port_count c) flags" using assms(1) count by (auto dest: entries_for_mono)
    then show ?thesis
      using Ctl_tick timeout_bank.port_bank_axioms
        [where L = L and d = d and response_timeouts = flags and n = "cs_port_count c"]
      by (simp add: iolink_master_controller_tick_def tick)
  next
    case (Ctl_tick_events events)
    then have "entries_for (cs_port_count c) events" using assms(1) count by (auto dest: entries_for_mono)
    then show ?thesis
      using Ctl_tick_events event_bank.port_bank_axioms
        [where L = L and d = d and events = events and n = "cs_port_count c"]
      by (simp add: iolink_master_controller_tick_events_def tick)
  next
    case (Ctl_tick_at now)
    then show ?thesis
      by (simp add: iolink_master_controller_tick_at_def tick timed_bank.port_bank_axioms)
  next
    case (Ctl_next_tick_time now)
    have "ensures (controller_next_loop now c [0..<cs_port_count c] t) (\<lambda>x. group_inv L d m (c, e))" for t
      using assms(2) ports(1) by (intro ensures_mono [OF next_loop_defined]) auto
    then show ?thesis
      using Ctl_next_tick_time assms(2)
      by (simp add: iolink_master_controller_get_next_tick_time_def ensures_map case_prod_unfold)
  next
    case (Ctl_port index op)
    show ?thesis
    proof (cases "index < cs_port_count c")
      case False
      then show ?thesis
        using Ctl_port assms(2) by (simp add: iolink_master_controller_get_port_def)
    next
      case True
      have "ensures (port_step L op (cs_ports c ! index, e)) (\<lambda>(ret, p', e'). port_inv L d p')"
        using Ctl_port assms(1) by (intro port_inv_step ports(2) True) simp
      then show ?thesis
        using Ctl_port True ports(1) L count controller_inv_update [OF inv]
        by (auto simp: iolink_master_controller_get_port_def ensures_simps group_inv_def elim!: ensures_mono)
    qed
  qed
qed

interpretation group: invariant_machine "controller_step L" "controller_ok L d m" "group_inv L d m"
proof unfold_locales
  fix op and g :: "'a group"
  assume "controller_ok L d m op" "group_inv L d m g"
  then show "ensures (controller_step L op g) (\<lambda>(r, g'). group_inv L d m g')"
    using controller_step_inv [of L d m op "fst g" "snd g"] by (auto elim!: ensures_mono)
qed

text \<open>
  C20. The invariant of a group. Every sequence of calls of the controller, mixed with calls
  of the port API on its ports, has a defined result, and afterwards the controller manages
  at most as many ports as its array holds, each of them well-formed. The controller starts
  as zeroed memory.
\<close>

theorem controller_invariant:
  assumes "iolinki_ok L" and "list_all (controller_ok L d m) calls"
  shows "ensures (run_ops (controller_step L) calls (\<lparr>cs_ports = [], cs_port_count = 0\<rparr>, e))
    (\<lambda>(results, c', e'). length results = length calls \<and>
       cs_port_count c' \<le> length (cs_ports c') \<and> cs_port_count c' \<le> m \<and>
       list_all (port_wf L) (take (cs_port_count c') (cs_ports c')))"
proof -
  have "group_inv L d m (\<lparr>cs_ports = [], cs_port_count = 0\<rparr>, e)"
    using assms(1) by (simp add: group_inv_def controller_inv_def)
  from group.run_defined [OF assms(2) this] show ?thesis
    by (auto simp: group_inv_def controller_inv_def port_inv_def list_all_length elim!: ensures_mono)
qed

theorem controller_invariant_witness:
  "ensures (run_ops (controller_step demo_stack)
     [Ctl_init [zero_port demo_stack, zero_port demo_stack] 2 [demo_phy, demo_phy] [demo_config, demo_config],
      Ctl_tick (Some [True, False]), Ctl_port 1 (Op_read_isdu 16 0 [0, 0, 0] 3), Ctl_tick_at 20,
      Ctl_next_tick_time 21] (\<lparr>cs_ports = [], cs_port_count = 0\<rparr>, [1, 2, 3], []))
     (\<lambda>(results, c', e'). length results = 5 \<and> cs_port_count c' \<le> 2)"
proof -
  have "quiet (\<lambda>e. length (fst e)) (initial_port demo_stack demo_phy demo_config)"
    by (rule demo_quiet) (simp_all add: initial_port_def Let_def demo_config_def zero_config_def)
  then show ?thesis
    by (intro ensures_mono [OF controller_invariant [OF demo_stack_ok,
            where d = "\<lambda>e. length (fst e)" and m = 2]])
      (auto simp: len_ok_def entries_for_def less_2_cases_iff)
qed

text \<open>
  Ticking a group at a common time is ticking its ports one after another, in the order
  of the array and each with its own timeout decision; an error of one port neither stops the
  others nor changes their results, and the call returns the first negative result.
\<close>

theorem controller_tick_at_in_turn:
  assumes "controller_inv L d c"
  shows "ensures (iolink_master_controller_tick_at L now c e) (\<lambda>(ret, c', e'). \<exists>rets.
      in_turn (\<lambda>i p. iolink_master_tick_at L (if iolink_master_response_due_at p now
          then TICK_RESPONSE_TIMEOUT else TICK_CYCLE_DUE) now p) 0 (take (cs_port_count c) (cs_ports c)) e =
        Some (rets, take (cs_port_count c) (cs_ports c'), e') \<and>
      ret = first_negative rets \<and> cs_port_count c' = cs_port_count c \<and>
      drop (cs_port_count c) (cs_ports c') = drop (cs_port_count c) (cs_ports c) \<and>
      list_all (port_wf L) (take (cs_port_count c) (cs_ports c')))"
proof -
  have count: "cs_port_count c \<le> length (cs_ports c)" using assms by (simp add: controller_inv_def)
  obtain rets ps' e' where turn: "in_turn (\<lambda>i p. iolink_master_tick_at L (if iolink_master_response_due_at p now
          then TICK_RESPONSE_TIMEOUT else TICK_CYCLE_DUE) now p) 0 (take (cs_port_count c) (cs_ports c)) e =
        Some (rets, ps', e')" and "length ps' = cs_port_count c" "list_all (port_inv L d) ps'"
    using timed_bank.in_turn_defined [where L = L and d = d and i = 0 and now = now and n = "cs_port_count c"
        and ps = "take (cs_port_count c) (cs_ports c)" and e = e] assms count
    by (auto simp: controller_inv_def elim!: ensuresE)
  then show ?thesis
    using list.pred_mono_strong [of "port_inv L d" ps' "port_wf L"]
    by (auto simp: iolink_master_controller_tick_at_def ticks_in_turn [OF count] port_inv_def)
qed

theorem controller_tick_at_in_turn_witness:
  "ensures (iolink_master_controller_tick_at demo_stack 5
      \<lparr>cs_ports = [demo_port, demo_port], cs_port_count = 2\<rparr> ([0], []))
     (\<lambda>(ret, c', e'). cs_port_count c' = 2 \<and> (\<exists>rets. ret = first_negative rets))"
proof -
  have "controller_inv demo_stack (\<lambda>e. length (fst e)) \<lparr>cs_ports = [demo_port, demo_port], cs_port_count = 2\<rparr>"
    by (simp add: controller_inv_def port_inv_def demo_port_wf demo_port_quiet demo_stack_ok)
  from controller_tick_at_in_turn [OF this] show ?thesis
    by (rule ensures_mono) auto
qed

subsection \<open>The next tick time\<close>

abbreviation port_next :: "u32 \<Rightarrow> 'e iolink_master_port_state_t \<Rightarrow> u32" where
  "port_next now p \<equiv> snd (iolink_master_get_next_tick_time p now)"

lemma next_tick_ok: "fst (iolink_master_get_next_tick_time p now) = STATUS_OK"
  by (simp add: iolink_master_get_next_tick_time_def Let_def)

lemma Min_insert_min:
  "finite S \<Longrightarrow> Min (insert (if b < t then b else t) S) = Min (insert t (insert (b :: 'a :: linorder) S))"
  by (cases "S = {}") (auto simp: min_def)

lemma u32_le_max: "(x :: u32) \<le> 0xFFFFFFFF"
  using unsigned_less [of x, where ?'a = nat] by (simp add: word_le_nat_alt)

lemma next_loop_eq:
  "set is \<subseteq> {0..<length (cs_ports c)} \<Longrightarrow>
   controller_next_loop now c is t = Some (STATUS_OK, Min (insert t (port_next now ` (\<lambda>i. cs_ports c ! i) ` set is)))"
proof (induction "is" arbitrary: t)
  case (Cons i "is")
  then show ?case
    using next_tick_ok [of "cs_ports c ! i" now]
    by (simp add: rd_def case_prod_unfold Let_def Min_insert_min del: Min_insert Min.insert)
qed simp

text \<open>
  The next tick time of a group is the earliest next tick time of its ports (and now for
  an empty group), whatever the order of the ports.
\<close>

theorem controller_next_tick_earliest:
  assumes "cs_port_count c \<le> length (cs_ports c)"
  shows "iolink_master_controller_get_next_tick_time now c = Some (STATUS_OK,
     if cs_port_count c = 0 then now
     else Min ((\<lambda>p. snd (iolink_master_get_next_tick_time p now)) ` set (take (cs_port_count c) (cs_ports c))))"
proof (cases "cs_port_count c = 0")
  case False
  let ?times = "port_next now ` set (take (cs_port_count c) (cs_ports c))"
  have ports: "(\<lambda>i. cs_ports c ! i) ` set [0..<cs_port_count c] = set (take (cs_port_count c) (cs_ports c))"
    using nth_image [OF assms] by simp
  have "?times \<noteq> {}" using False assms by auto
  moreover have "Min ?times \<le> 0xFFFFFFFF" by (rule u32_le_max)
  ultimately have "Min (insert 0xFFFFFFFF ?times) = Min ?times"
    by (simp only: Min_insert finite_imageI finite_set min_absorb2 not_False_eq_True)
  moreover have "set [0..<cs_port_count c] \<subseteq> {0..<length (cs_ports c)}" using assms by auto
  from next_loop_eq [OF this, of now "0xFFFFFFFF"] have "controller_next_loop now c [0..<cs_port_count c] 0xFFFFFFFF =
      Some (STATUS_OK, Min (insert 0xFFFFFFFF ?times))"
    unfolding ports .
  ultimately show ?thesis
    using False by (simp add: iolink_master_controller_get_next_tick_time_def del: Min_insert)
qed (simp add: iolink_master_controller_get_next_tick_time_def)

theorem controller_next_tick_earliest_witness:
  "iolink_master_controller_get_next_tick_time 5
     \<lparr>cs_ports = [demo_port, demo_port\<lparr>st_awaiting_response := True, st_response_deadline_100us := 9\<rparr>],
      cs_port_count = 2\<rparr> = Some (STATUS_OK, 5)"
  by (subst controller_next_tick_earliest)
    (simp_all add: iolink_master_get_next_tick_time_def demo_port_def zero_port_def cycle_unpaced_def)

end
