(* ===== verification/MasterSchedule.thy ===== *)
theory MasterSchedule
  imports MasterController MasterStates
begin

text \<open>
  Time: when a tick acts, what the next tick time promises to the owner of the hardware
  timer, the pacing of the cycles, the time base and the response windows, and what happens when
  the 32-bit clock passes its end (\<open>src/master_port.c\<close>, lines 60-134 and 428-602, and
  \<open>src/master_controller.c\<close>, lines 127-182).
\<close>

subsection \<open>When a tick acts\<close>

text \<open>The event that the controller passes to a port at a time.\<close>

definition due_event :: "'e iolink_master_port_state_t \<Rightarrow> u32 \<Rightarrow> iolink_master_tick_event_t" where
  "due_event p now = (if iolink_master_response_due_at p now then TICK_RESPONSE_TIMEOUT else TICK_CYCLE_DUE)"

definition gate_closed :: "'e iolink_master_port_state_t \<Rightarrow> u32 \<Rightarrow> bool" where
  "gate_closed p now \<longleftrightarrow> st_send_ready_valid p \<and> now < st_send_ready_at_100us p"

text \<open>A tick without received octets does something: a timeout has expired, or the port may send.\<close>

definition tick_acts :: "'e iolink_master_port_state_t \<Rightarrow> u32 \<Rightarrow> bool" where
  "tick_acts p now \<longleftrightarrow> iolink_master_response_due_at p now \<or>
     \<not> st_awaiting_response p \<and> iolink_master_cycle_due_at p now \<and> \<not> gate_closed p now"

lemma tick_idle:
  assumes "iolink_master_poll_rx L p e = Some (ret, p, e1)" and "0 \<le> ret" and "\<not> tick_acts p now"
  shows "iolink_master_tick_at L (due_event p now) now p e = Some (ret, p, e1)"
  using assms
  by (auto simp: iolink_master_tick_at_def iolink_master_tick_common_def due_event_def tick_acts_def
      tick_cycle_def iolink_master_process_at_def gate_closed_def Let_def)

text \<open>Elapsed time on a clock that has not passed its end in between.\<close>

lemma elapsed_iff:
  fixes last now d :: u32
  assumes "last \<le> now"
  shows "d \<le> now - last \<longleftrightarrow> unat last + unat d \<le> unat now"
  using assms by (auto simp: word_le_nat_alt unat_sub)

lemma add_no_wrap:
  fixes a d :: u32
  assumes "unat a + unat d < 2 ^ 32"
  shows "unat (a + d) = unat a + unat d"
  using assms by (simp add: unat_word_ariths)

lemma due_later:
  fixes last now d x :: u32
  assumes "last \<le> now" "now \<le> x" "x < (if last + d \<le> now then now else last + d)"
  shows "\<not> d \<le> x - last"
proof
  assume "d \<le> x - last"
  with assms(1,2) have "unat last + unat d \<le> unat x" by (simp add: elapsed_iff)
  with unsigned_less [of x, where ?'a = nat] have "unat (last + d) \<le> unat x"
    by (simp add: add_no_wrap)
  with assms(2,3) show False by (auto simp: word_le_nat_alt word_less_nat_alt split: if_splits)
qed

lemma due_reached:
  fixes last now d x :: u32
  assumes "last \<le> now" "now \<le> x" "(if last + d \<le> now then now else last + d) \<le> x"
    and "unat last + unat d < 2 ^ 32"
  shows "d \<le> x - last"
  using assms(3) add_no_wrap [OF assms(4)] assms(2) elapsed_iff [OF order_trans [OF assms(1,2)], of d]
  by (auto simp: word_le_nat_alt split: if_splits)

lemma next_tick_acts:
  assumes "st_state p \<noteq> STATE_INACTIVE" and "st_state p \<noteq> STATE_ERROR"
    and gate: "st_state p = STATE_STARTUP \<or> \<not> gate_closed p now"
    and last: "st_last_cycle_start_100us p \<le> now" and x: "now \<le> x"
  shows "x < snd (iolink_master_get_next_tick_time p now) \<Longrightarrow> \<not> tick_acts p x"
    and "snd (iolink_master_get_next_tick_time p now) \<le> x \<Longrightarrow>
      unat (st_last_cycle_start_100us p) + unat (cfg_min_cycle_time (st_config p)) < 2 ^ 32 \<Longrightarrow>
      tick_acts p x"
proof -
  let ?t = "snd (iolink_master_get_next_tick_time p now)"
  let ?d = "ucast (cfg_min_cycle_time (st_config p)) :: u32"
  have open_later: "gate_closed p x \<Longrightarrow> gate_closed p now"
    using x by (auto simp: gate_closed_def)
  consider (awaiting) "st_awaiting_response p"
    | (gated) "\<not> st_awaiting_response p" "st_state p = STATE_STARTUP" "gate_closed p now"
    | (unpaced) "\<not> st_awaiting_response p" "\<not> gate_closed p now" "cycle_unpaced p"
    | (paced) "\<not> st_awaiting_response p" "\<not> gate_closed p now" "\<not> cycle_unpaced p"
    using gate by blast
  note cases = this
  show "\<not> tick_acts p x" if early: "x < ?t"
    using cases
  proof cases
    case paced
    then have "x < (if st_last_cycle_start_100us p + ?d \<le> now then now else st_last_cycle_start_100us p + ?d)"
      using early assms(1,2)
      by (auto simp: iolink_master_get_next_tick_time_def gate_closed_def cycle_unpaced_def split: if_splits)
    from due_later [OF last x this] paced show ?thesis
      by (auto simp: tick_acts_def iolink_master_response_due_at_def iolink_master_cycle_due_at_def)
  qed (use early assms(1,2) x in \<open>auto simp: iolink_master_get_next_tick_time_def gate_closed_def
      tick_acts_def iolink_master_response_due_at_def cycle_unpaced_def split: if_splits\<close>)
  show "tick_acts p x" if late: "?t \<le> x" "unat (st_last_cycle_start_100us p) + unat (cfg_min_cycle_time (st_config p)) < 2 ^ 32"
    using cases
  proof cases
    case paced
    then have "(if st_last_cycle_start_100us p + ?d \<le> now then now else st_last_cycle_start_100us p + ?d) \<le> x"
      using late assms(1,2)
      by (auto simp: iolink_master_get_next_tick_time_def gate_closed_def cycle_unpaced_def split: if_splits)
    from due_reached [OF last x this] late(2) paced open_later show ?thesis
      by (auto simp: tick_acts_def iolink_master_cycle_due_at_def)
  qed (use late(1) assms(1,2) x open_later in \<open>auto simp: iolink_master_get_next_tick_time_def gate_closed_def
      tick_acts_def iolink_master_response_due_at_def iolink_master_cycle_due_at_def cycle_unpaced_def
      split: if_splits\<close>)
qed

text \<open>A line with nothing to receive.\<close>

lemma poll_nothing:
  assumes "st_phy p = Some phy" "phy_recv_byte phy = Some recv" "recv e = (0, octet, e)"
  shows "iolink_master_poll_rx L p e = Some (STATUS_OK, p, e)"
proof -
  have "poll_loop L recv n 0 p e = Some (STATUS_OK, p, e)" for n
    by (subst poll_loop.simps) (simp add: assms(3))
  then show ?thesis by (simp add: iolink_master_poll_rx_def assms(1,2) split: option.split)
qed

text \<open>A port in OPERATE whose last cycle started at 3 with a minimum cycle time of 10.\<close>

definition demo_operate :: "demo_line iolink_master_port_state_t" where
  "demo_operate = demo_port\<lparr>st_state := STATE_OPERATE, st_cycle_timer_valid := True,
     st_last_cycle_start_100us := 3\<rparr>"

lemma demo_operate_fields:
  "st_state demo_operate = STATE_OPERATE" "st_cycle_timer_valid demo_operate"
  "st_last_cycle_start_100us demo_operate = 3" "cfg_min_cycle_time (st_config demo_operate) = 10"
  "\<not> st_send_ready_valid demo_operate" "\<not> st_awaiting_response demo_operate"
  "st_phy demo_operate = Some demo_phy"
  by (simp_all add: demo_operate_def demo_port_def demo_config_def zero_port_def)

lemma demo_poll_nothing: "iolink_master_poll_rx L demo_operate ([], []) = Some (STATUS_OK, demo_operate, [], [])"
  by (rule poll_nothing [where phy = demo_phy and recv = demo_recv and octet = 0])
    (simp_all add: demo_operate_fields demo_phy_def demo_recv_def)

subsection \<open>The pacing of the cycles\<close>

text \<open>
  The times at which a run of timed ticks starts cycles: those at which the cycle counter
  changes.
\<close>

fun cycle_starts ::
  "iolinki \<Rightarrow> (iolink_master_tick_event_t \<times> u32) list \<Rightarrow> 'e iolink_master_port_state_t \<Rightarrow> 'e \<Rightarrow>
   (u32 list \<times> 'e iolink_master_port_state_t \<times> 'e) option" where
  "cycle_starts L [] p e = Some ([], p, e)"
| "cycle_starts L ((event, now) # schedule) p e = do {
     (ret, p', e) \<leftarrow> iolink_master_tick_at L event now p e;
     (starts, p'', e) \<leftarrow> cycle_starts L schedule p' e;
     Some (if st_cycle_count p' \<noteq> st_cycle_count p then now # starts else starts, p'', e) }"

lemma tick_pacing:
  assumes "iolink_master_tick_common L event True now p e = Some (ret, p', e')"
  shows "st_config p' = st_config p \<and>
    (if st_cycle_count p' = st_cycle_count p
     then st_last_cycle_start_100us p' = st_last_cycle_start_100us p \<and>
          st_cycle_timer_valid p' = st_cycle_timer_valid p
     else st_last_cycle_start_100us p' = now \<and> st_cycle_timer_valid p' \<and>
          (st_cycle_timer_valid p \<longrightarrow>
             ucast (cfg_min_cycle_time (st_config p)) \<le> now - st_last_cycle_start_100us p))"
  using assms
proof (cases rule: tick_common_cases)
  case no_cycle
  then show ?thesis by (simp add: moves_def clock_def)
next
  case (cycle p1 e1 p2 e2)
  have same: "st_last_cycle_start_100us p1 = st_last_cycle_start_100us p"
    "st_cycle_timer_valid p1 = st_cycle_timer_valid p" "st_cycle_count p1 = st_cycle_count p"
    "st_config p1 = st_config p"
    using cycle(1) by (simp_all add: moves_def clock_def)
  note sent = process_at_transmits [OF cycle(2)]
  show ?thesis
  proof (cases "st_cycle_count p2 = st_cycle_count p1")
    case True
    then show ?thesis using cycle(4) sent same by (auto simp: transmits_def)
  next
    case False
    then obtain timeout where p': "p' = p2\<lparr>st_diagnostics := cycle_diagnostics now p2,
        st_last_cycle_start_100us := now, st_response_deadline_100us := now + timeout,
        st_cycle_timer_valid := True, st_awaiting_response := True\<rparr>"
      using cycle(4) by (auto simp: tick_cycle_sent_eq)
    have "st_state p1 = STATE_OPERATE" using False sent by (simp add: transmits_def)
    then have "st_cycle_timer_valid p1 \<longrightarrow>
        ucast (cfg_min_cycle_time (st_config p1)) \<le> now - st_last_cycle_start_100us p1"
      using cycle(3) by (auto simp: iolink_master_cycle_due_at_def cycle_unpaced_def split: if_splits)
    then show ?thesis using False sent same by (auto simp: p' transmits_def)
  qed
qed

lemma cycles_spaced:
  assumes "iolinki_ok L" and "port_wf L p" and "quiet d p"
  shows "ensures (cycle_starts L schedule p e) (\<lambda>(starts, p', e').
     successively (\<lambda>earlier later. ucast (cfg_min_cycle_time (st_config p)) \<le> later - earlier)
       ((if st_cycle_timer_valid p then [st_last_cycle_start_100us p] else []) @ starts))"
  using assms
proof (induction schedule arbitrary: p e)
  case (Cons op schedule)
  obtain event now where op: "op = (event, now)" by (cases op)
  obtain ret p1 e1 where tick: "iolink_master_tick_common L event True now p e = Some (ret, p1, e1)"
    "port_kept L p p1"
    using tick_common_kept [OF Cons.prems, of event True now e] by (auto elim: ensuresE)
  have "ensures (cycle_starts L schedule p1 e1) (\<lambda>(starts, p', e').
     successively (\<lambda>earlier later. ucast (cfg_min_cycle_time (st_config p1)) \<le> later - earlier)
       ((if st_cycle_timer_valid p1 then [st_last_cycle_start_100us p1] else []) @ starts))"
    using tick(2) quiet_kept [OF tick(2), of d] Cons.prems
    by (intro Cons.IH) (simp_all add: port_kept_def)
  then show ?case
    using tick_pacing [OF tick(1)] tick
    by (auto simp: op iolink_master_tick_at_def ensures_simps successively_Cons split: if_splits
        elim!: ensures_mono)
qed simp

text \<open>
  C19. Cycles are paced. In every run of timed ticks, whatever their times and events and
  whatever is received, two successive cycles start at least \<open>min_cycle_time\<close> units of 100 us
  apart, also across a loss of communication; and so does the first cycle of the run after the
  last one before it. Elapsed time is measured on the clock that wraps. The configured octet
  counts as a plain number of units, and a cycle is due exactly that long after the last one.
  The header and the architecture notes call it an encoded MasterCycleTime octet that is decoded
  for pacing: for the octets from 41 to BF hexadecimal, and for no other, the cycles come sooner
  than the encoded time.
\<close>

theorem cycles_are_paced:
  assumes "iolinki_ok L" and "port_wf L p" and "quiet d p"
  shows "ensures (cycle_starts L schedule p e) (\<lambda>(starts, p', e').
     successively (\<lambda>earlier later. ucast (cfg_min_cycle_time (st_config p)) \<le> later - earlier)
       ((if st_cycle_timer_valid p then [st_last_cycle_start_100us p] else []) @ starts)) \<and>
    iolink_master_cycle_due_at p (st_last_cycle_start_100us p + ucast (cfg_min_cycle_time (st_config p))) \<and>
    ((ucast (cfg_min_cycle_time (st_config p)) <
        iolink_master_decode_min_cycle_time_100us (cfg_min_cycle_time (st_config p))) \<longleftrightarrow>
      0x41 \<le> cfg_min_cycle_time (st_config p) \<and> cfg_min_cycle_time (st_config p) < 0xC0)"
  using cycles_spaced [OF assms] decode_min_cycle_larger
  by (simp add: iolink_master_cycle_due_at_def)

lemma demo_operate_wf: "port_wf demo_stack demo_operate"
  using demo_port_wf by (simp add: demo_operate_def port_wf_defs)

lemma demo_operate_quiet: "quiet (\<lambda>e. length (fst e)) demo_operate"
  by (rule demo_quiet) (simp_all add: demo_operate_def demo_port_def demo_config_def zero_config_def)

theorem cycles_are_paced_witness:
  "ensures (cycle_starts demo_stack [(TICK_CYCLE_DUE, 5), (TICK_CYCLE_DUE, 13), (TICK_CYCLE_DUE, 30)]
      demo_operate ([], []))
     (\<lambda>(starts, p', e'). successively (\<lambda>earlier later. 10 \<le> later - earlier) (3 # starts))"
  by (rule ensures_mono [OF conjunct1 [OF cycles_are_paced
        [OF demo_stack_ok demo_operate_wf demo_operate_quiet]]])
    (auto simp: demo_operate_fields)

subsection \<open>Sleeping until the next tick of a group\<close>

lemma loop_idle:
  assumes "\<And>i e. i \<in> set is \<Longrightarrow> Q e \<Longrightarrow> i < length (cs_ports c) \<and>
      (\<exists>e'. tick_port i (cs_ports c ! i) e = Some (STATUS_OK, cs_ports c ! i, e') \<and> Q e')"
    and "Q e"
  shows "ensures (controller_tick_loop tick_port is STATUS_OK c e) (\<lambda>(ret, c', e'). ret = STATUS_OK \<and> c' = c \<and> Q e')"
  using assms
proof (induction "is" arbitrary: e)
  case (Cons i "is")
  then obtain e1 where "tick_port i (cs_ports c ! i) e = Some (STATUS_OK, cs_ports c ! i, e1)" "Q e1"
    "i < length (cs_ports c)"
    by (meson list.set_intros(1))
  then show ?case using Cons by (simp add: rd_def)
qed simp

lemma group_next_le:
  assumes "cs_port_count c \<le> length (cs_ports c)"
    and "iolink_master_controller_get_next_tick_time now c = Some (STATUS_OK, t)"
    and "i < cs_port_count c"
  shows "t \<le> port_next now (cs_ports c ! i)"
proof -
  have "set [0..<cs_port_count c] \<subseteq> {0..<length (cs_ports c)}" using assms(1) by auto
  note loop = next_loop_eq [OF this, of now "0xFFFFFFFF"]
  define S where "S = insert 0xFFFFFFFF (port_next now ` (\<lambda>i. cs_ports c ! i) ` set [0..<cs_port_count c])"
  have "t = Min S"
    using loop assms(2,3)
    unfolding S_def [symmetric] iolink_master_controller_get_next_tick_time_def by simp
  moreover have "finite S" "port_next now (cs_ports c ! i) \<in> S" using assms(3) by (auto simp: S_def)
  ultimately show ?thesis by simp
qed

text \<open>
  C28. Sleeping between ticks is sound for a group of ports. If nothing is received, a tick of
  the whole group at any time before its next tick time leaves every port as it is.
\<close>

theorem group_may_sleep:
  assumes "cs_port_count c \<le> length (cs_ports c)" and "now \<le> x"
    and "iolink_master_controller_get_next_tick_time now c = Some (STATUS_OK, t)" and "x < t"
    and "\<forall>p \<in> set (take (cs_port_count c) (cs_ports c)).
      st_state p \<noteq> STATE_INACTIVE \<and> st_state p \<noteq> STATE_ERROR \<and>
      (st_state p = STATE_STARTUP \<or> \<not> gate_closed p now) \<and> st_last_cycle_start_100us p \<le> now"
    and "\<forall>p \<in> set (take (cs_port_count c) (cs_ports c)). \<forall>e. Q e \<longrightarrow>
      (\<exists>e'. iolink_master_poll_rx L p e = Some (STATUS_OK, p, e') \<and> Q e')"
    and "Q e"
  shows "ensures (iolink_master_controller_tick_at L x c e) (\<lambda>(ret, c', e').
    ret = STATUS_OK \<and> c' = c \<and> Q e')"
proof -
  let ?ports = "set (take (cs_port_count c) (cs_ports c))"
  have early: "x < port_next now p" if p: "p \<in> ?ports" for p
  proof -
    from p obtain i where "i < cs_port_count c" "p = cs_ports c ! i" by (auto simp: in_set_conv_nth)
    with group_next_le [OF assms(1,3)] assms(4) show ?thesis by (auto intro: less_le_trans)
  qed
  show ?thesis
    unfolding iolink_master_controller_tick_at_def
  proof (rule loop_idle [where Q = Q, OF _ assms(7)])
    fix i e
    assume "i \<in> set [0..<cs_port_count c]" "Q e"
    then have p: "cs_ports c ! i \<in> ?ports" and i: "i < length (cs_ports c)"
      using assms(1) by (auto simp: in_set_conv_nth intro!: exI [of _ i])
    from assms(6) p \<open>Q e\<close> obtain e' where poll:
      "iolink_master_poll_rx L (cs_ports c ! i) e = Some (STATUS_OK, cs_ports c ! i, e')" "Q e'"
      by blast
    have "\<not> tick_acts (cs_ports c ! i) x"
      using assms(2,5) p by (intro next_tick_acts(1) [of _ now] early) auto
    from tick_idle [OF poll(1) _ this] show "i < length (cs_ports c) \<and>
      (\<exists>e'. iolink_master_tick_at L (if iolink_master_response_due_at (cs_ports c ! i) x
         then TICK_RESPONSE_TIMEOUT else TICK_CYCLE_DUE) x (cs_ports c ! i) e =
         Some (STATUS_OK, cs_ports c ! i, e') \<and> Q e')"
      using i poll(2) by (auto simp: due_event_def)
  qed
qed

theorem group_may_sleep_witness:
  "ensures (iolink_master_controller_tick_at demo_stack 12
      \<lparr>cs_ports = [demo_operate, demo_operate], cs_port_count = 2\<rparr> ([], []))
     (\<lambda>(ret, c', e'). ret = STATUS_OK \<and> c' = \<lparr>cs_ports = [demo_operate, demo_operate], cs_port_count = 2\<rparr>)"
proof -
  have time: "iolink_master_get_next_tick_time demo_operate 5 = (STATUS_OK, 13)"
    by (simp add: iolink_master_get_next_tick_time_def cycle_unpaced_def demo_operate_fields)
  have "iolink_master_controller_get_next_tick_time 5
      \<lparr>cs_ports = [demo_operate, demo_operate], cs_port_count = 2\<rparr> = Some (STATUS_OK, 13)"
    by (simp add: iolink_master_controller_get_next_tick_time_def rd_def time upt_rec)
  then have "ensures (iolink_master_controller_tick_at demo_stack 12
      \<lparr>cs_ports = [demo_operate, demo_operate], cs_port_count = 2\<rparr> ([], []))
     (\<lambda>(ret, c', e'). ret = STATUS_OK \<and>
       c' = \<lparr>cs_ports = [demo_operate, demo_operate], cs_port_count = 2\<rparr> \<and> e' = ([], []))"
    by (intro group_may_sleep [where now = 5 and t = 13 and Q = "\<lambda>e. e = ([], [])"])
      (auto simp: demo_operate_fields gate_closed_def demo_poll_nothing)
  then show ?thesis by (auto elim!: ensures_mono)
qed

subsection \<open>The end of the clock\<close>

text \<open>
  C30. The send gate of the start-up is never opened again: its time is compared with \<open>now\<close>
  as a number and its flag is not cleared. When the clock has passed its end, a port in
  OPERATE whose start-up ended at a later reading of the clock sends nothing, neither cycles
  nor services, until the clock reaches that reading again; meanwhile the next tick time
  keeps saying that the port is due.
\<close>

theorem stale_gate_blocks_port:
  assumes "st_state p = STATE_OPERATE" and "\<not> st_awaiting_response p"
    and "st_send_ready_valid p" and "now < st_send_ready_at_100us p"
    and "st_cycle_timer_valid p" and "iolink_master_cycle_due_at p now"
    and "st_last_cycle_start_100us p + ucast (cfg_min_cycle_time (st_config p)) \<le> now"
    and "iolink_master_poll_rx L p e = Some (ret, p, e1)" and "0 \<le> ret"
  shows "iolink_master_tick_at L (due_event p now) now p e = Some (ret, p, e1) \<and>
    iolink_master_get_next_tick_time p now = (STATUS_OK, now)"
proof
  show "iolink_master_tick_at L (due_event p now) now p e = Some (ret, p, e1)"
    using assms(2-4) by (intro tick_idle assms) (simp add: tick_acts_def gate_closed_def
        iolink_master_response_due_at_def)
  show "iolink_master_get_next_tick_time p now = (STATUS_OK, now)"
    using assms(1,2,7) by (simp add: iolink_master_get_next_tick_time_def cycle_unpaced_def)
qed

theorem stale_gate_blocks_port_witness:
  "iolink_master_tick_at demo_stack TICK_CYCLE_DUE 40
     (demo_operate\<lparr>st_send_ready_valid := True, st_send_ready_at_100us := 0xF0000000\<rparr>) ([], []) =
   Some (STATUS_OK, demo_operate\<lparr>st_send_ready_valid := True, st_send_ready_at_100us := 0xF0000000\<rparr>, [], [])"
proof -
  let ?p = "demo_operate\<lparr>st_send_ready_valid := True, st_send_ready_at_100us := 0xF0000000\<rparr>"
  have "iolink_master_poll_rx demo_stack ?p ([], []) = Some (STATUS_OK, ?p, [], [])"
    by (rule poll_nothing [where phy = demo_phy and recv = demo_recv and octet = 0])
      (simp_all add: demo_operate_fields demo_phy_def demo_recv_def)
  from stale_gate_blocks_port [of ?p 40, OF _ _ _ _ _ _ _ this] show ?thesis
    by (simp add: demo_operate_fields iolink_master_cycle_due_at_def cycle_unpaced_def due_event_def
        iolink_master_response_due_at_def)
qed

subsection \<open>The time base\<close>

text \<open>\<open>units\<close> is the least number of 100 us units that cover \<open>bits\<close> bit times.\<close>

definition covers :: "iolink_baudrate_t \<Rightarrow> nat \<Rightarrow> nat \<Rightarrow> bool" where
  "covers baudrate bits units \<longleftrightarrow> unat (iolink_master_t_bit_ns baudrate) * bits \<le> units * 100000"

lemma t_bit_bound: "unat (iolink_master_t_bit_ns baudrate) \<le> 208330"
  by (cases baudrate) simp_all

lemma unat_ucast_32_64: "unat (ucast (x :: u32) :: 64 word) = unat x"
  using unsigned_less [of x, where ?'a = nat] by (simp add: unsigned_ucast_eq take_bit_nat_eq_self)

lemma unat_ucast_64_32: "unat (x :: 64 word) < 2 ^ 32 \<Longrightarrow> unat (ucast x :: u32) = unat x"
  by (simp add: unsigned_ucast_eq take_bit_nat_eq_self)

lemma tbit_to_100us_ceiling:
  assumes "unat t_bit < 2 ^ 30"
  shows "unat (iolink_master_tbit_to_100us baudrate t_bit) =
    (unat (iolink_master_t_bit_ns baudrate) * unat t_bit + 99999) div 100000"
proof -
  let ?ns = "unat (iolink_master_t_bit_ns baudrate)"
  let ?w = "ucast (iolink_master_t_bit_ns baudrate) * ucast t_bit :: 64 word"
  have bound: "?ns * unat t_bit \<le> 208330 * 2 ^ 30"
    using mult_le_mono [OF t_bit_bound, of "unat t_bit" "2 ^ 30" baudrate] assms by simp
  have w: "unat ?w = ?ns * unat t_bit"
    using bound by (simp add: unat_word_ariths unat_ucast_32_64)
  have step: "unat (x + 100000 - 1) = unat x + 99999" if "unat x \<le> 208330 * 2 ^ 30" for x :: "64 word"
  proof -
    have "x + 100000 - 1 = x + 99999" by simp
    then show ?thesis using that by (simp add: unat_word_ariths)
  qed
  have "unat (?w + 100000 - 1) = ?ns * unat t_bit + 99999"
    using step [of ?w] bound unfolding w by blast
  then have "unat ((?w + 100000 - 1) div 100000) = (?ns * unat t_bit + 99999) div 100000"
    by (simp add: unat_div_distrib)
  moreover have "(?ns * unat t_bit + 99999) div 100000 < 2 ^ 32"
    using bound by simp
  ultimately show ?thesis
    by (simp add: iolink_master_tbit_to_100us_def Let_def unat_ucast_64_32)
qed

lemma tbit_to_100us_covers:
  assumes "unat t_bit < 2 ^ 30" and "0 < unat t_bit"
  shows "covers baudrate (unat t_bit) (unat (iolink_master_tbit_to_100us baudrate t_bit))"
    and "\<not> covers baudrate (unat t_bit) (unat (iolink_master_tbit_to_100us baudrate t_bit) - 1)"
    and "0 < unat (iolink_master_tbit_to_100us baudrate t_bit)"
proof -
  have "0 < unat (iolink_master_t_bit_ns baudrate) * unat t_bit"
    using assms(2) by (cases baudrate) simp_all
  moreover have "n \<le> (n + 99999) div 100000 * 100000 \<and> \<not> n \<le> ((n + 99999) div 100000 - 1) * 100000 \<and>
      0 < (n + 99999) div 100000" if "0 < n" for n :: nat
    using that by (auto simp: not_le)
  ultimately show "covers baudrate (unat t_bit) (unat (iolink_master_tbit_to_100us baudrate t_bit))"
    and "\<not> covers baudrate (unat t_bit) (unat (iolink_master_tbit_to_100us baudrate t_bit) - 1)"
    and "0 < unat (iolink_master_tbit_to_100us baudrate t_bit)"
    by (simp_all add: covers_def tbit_to_100us_ceiling [OF assms(1)])
qed

lemma windows_max:
  assumes b: "iolink_master_startup_baudrate p = Some b"
  shows "\<exists>t. iolink_master_response_timeout_100us p = Some t \<and>
      unat t = max (unat (iolink_master_tbit_to_100us b 21)) (unat (cfg_response_timeout_100us (st_config p)))"
    and "\<exists>t. iolink_master_test_message_timeout_100us p = Some t \<and>
      unat t = max (unat (iolink_master_tbit_to_100us b 58)) (unat (cfg_response_timeout_100us (st_config p)))"
proof -
  let ?c = "ucast (cfg_response_timeout_100us (st_config p)) :: u32"
  have nonzero: "iolink_master_tbit_to_100us b 21 \<noteq> 0" "iolink_master_tbit_to_100us b 58 \<noteq> 0"
    using tbit_to_100us_covers(3) [of 21 b] tbit_to_100us_covers(3) [of 58 b] by auto
  have largest: "unat (if x < y then y else x) = max (unat x) (unat y)" for x y :: u32
    by (auto simp: word_less_nat_alt)
  have "(if x < y then y else x) \<noteq> 0" if "y \<noteq> 0" for x y :: u32
    using that by (auto simp: word_less_nat_alt unat_eq_0)
  then show "\<exists>t. iolink_master_response_timeout_100us p = Some t \<and>
      unat t = max (unat (iolink_master_tbit_to_100us b 21)) (unat (cfg_response_timeout_100us (st_config p)))"
    using largest [of ?c "iolink_master_tbit_to_100us b 21"] nonzero
    by (auto simp: b iolink_master_response_timeout_100us_def Let_def max.commute)
  have "(if y < x then x else y) \<noteq> 0" if "y \<noteq> 0" for x y :: u32
    using that by (auto simp: word_less_nat_alt unat_eq_0)
  then show "\<exists>t. iolink_master_test_message_timeout_100us p = Some t \<and>
      unat t = max (unat (iolink_master_tbit_to_100us b 58)) (unat (cfg_response_timeout_100us (st_config p)))"
    using largest [of "iolink_master_tbit_to_100us b 58" ?c] nonzero
    by (auto simp: b iolink_master_test_message_timeout_100us_def Let_def)
qed

text \<open>
  The answer windows. At the rate in use the response window covers 21 bit times and the
  window of a test message covers 58; both are at least the configured response timeout and
  never zero, and a window above the configured value is the least one, rounded up to whole
  units of 100 us.
\<close>

theorem response_windows:
  assumes "port_wf L p"
  shows "ensures (do { baudrate \<leftarrow> iolink_master_startup_baudrate p;
      response \<leftarrow> iolink_master_response_timeout_100us p;
      test_message \<leftarrow> iolink_master_test_message_timeout_100us p;
      Some (baudrate, unat response, unat test_message) }) (\<lambda>(baudrate, response, test_message).
    let configured = unat (cfg_response_timeout_100us (st_config p))
    in covers baudrate 21 response \<and> covers baudrate 58 test_message \<and>
       0 < response \<and> 0 < test_message \<and> configured \<le> response \<and> configured \<le> test_message \<and>
       (configured < response \<longrightarrow> \<not> covers baudrate 21 (response - 1)) \<and>
       (configured < test_message \<longrightarrow> \<not> covers baudrate 58 (test_message - 1)))"
proof -
  obtain b where b: "iolink_master_startup_baudrate p = Some b" using startup_baudrate_defined [OF assms] ..
  have larger: "covers b n u \<Longrightarrow> u \<le> v \<Longrightarrow> covers b n v" for n u v
    by (auto simp: covers_def intro: order_trans)
  obtain t where t: "iolink_master_response_timeout_100us p = Some t"
    "unat t = max (unat (iolink_master_tbit_to_100us b 21)) (unat (cfg_response_timeout_100us (st_config p)))"
    using windows_max(1) [OF b] by blast
  obtain w where w: "iolink_master_test_message_timeout_100us p = Some w"
    "unat w = max (unat (iolink_master_tbit_to_100us b 58)) (unat (cfg_response_timeout_100us (st_config p)))"
    using windows_max(2) [OF b] by blast
  have window: "covers b (unat k) v \<and> 0 < v \<and> c \<le> v \<and> (c < v \<longrightarrow> \<not> covers b (unat k) (v - 1))"
    if "0 < unat k" "unat k < 2 ^ 30" "v = max (unat (iolink_master_tbit_to_100us b k)) c" for k v c
    using tbit_to_100us_covers [of k b, OF that(2,1)] that(3) larger [of "unat k" _ v]
    by (auto simp: max_def split: if_splits)
  show ?thesis
    using window [of 21, OF _ _ t(2)] window [of 58, OF _ _ w(2)] by (simp add: b t(1) w(1) Let_def)
qed

theorem response_windows_witness:
  "ensures (do { baudrate \<leftarrow> iolink_master_startup_baudrate demo_port;
      response \<leftarrow> iolink_master_response_timeout_100us demo_port;
      test_message \<leftarrow> iolink_master_test_message_timeout_100us demo_port;
      Some (baudrate, unat response, unat test_message) }) (\<lambda>(baudrate, response, test_message).
    covers baudrate 21 response \<and> covers baudrate 58 test_message)"
  by (rule ensures_mono [OF response_windows [OF demo_port_wf]]) (auto simp: Let_def)

text \<open>
  C29. A response timeout of zero does not fall back to the minimum cycle time. The response
  window is then 21 bit times whatever \<open>min_cycle_time\<close> says: 44, 6 and 1 units of 100 us at
  COM1, COM2 and COM3 (a rate out of the enumeration counts as COM3). It does not depend on the length of the message either: at no rate has it
  room for an OPERATE message with the two octets MC and CKT and the one octet of the shortest
  answer (11 bit times an octet): the window is over before such an exchange can be.
\<close>

theorem zero_timeout_window:
  assumes "port_wf L p" and "cfg_response_timeout_100us (st_config p) = 0"
  shows "ensures (do { baudrate \<leftarrow> iolink_master_startup_baudrate p;
      window \<leftarrow> iolink_master_response_timeout_100us
        (p\<lparr>st_config := (st_config p)\<lparr>cfg_min_cycle_time := any_cycle_time\<rparr>\<rparr>);
      Some (baudrate, unat window) }) (\<lambda>(baudrate, window).
    window = (case baudrate of BAUDRATE_COM1 \<Rightarrow> 44 | BAUDRATE_COM2 \<Rightarrow> 6 | _ \<Rightarrow> 1) \<and>
    (\<forall>octets. 3 \<le> octets \<longrightarrow> \<not> covers baudrate (11 * octets) window))"
proof -
  let ?p = "p\<lparr>st_config := (st_config p)\<lparr>cfg_min_cycle_time := any_cycle_time\<rparr>\<rparr>"
  obtain b where b: "iolink_master_startup_baudrate p = Some b" using startup_baudrate_defined [OF assms(1)] ..
  then have "iolink_master_startup_baudrate ?p = Some b"
    by (simp add: iolink_master_startup_baudrate_def split: if_splits)
  from windows_max(1) [OF this] assms(2) obtain t where t: "iolink_master_response_timeout_100us ?p = Some t"
    "unat t = unat (iolink_master_tbit_to_100us b 21)" by auto
  have "unat t = (case b of BAUDRATE_COM1 \<Rightarrow> 44 | BAUDRATE_COM2 \<Rightarrow> 6 | _ \<Rightarrow> 1)"
    using tbit_to_100us_ceiling [of 21 b] t(2) by (cases b) simp_all
  then show ?thesis using b t(1) by (cases b) (auto simp: covers_def)
qed

theorem zero_timeout_window_witness:
  "ensures (do { baudrate \<leftarrow> iolink_master_startup_baudrate
        (demo_port\<lparr>st_startup := (st_startup demo_port)\<lparr>su_baudrate_index := 2\<rparr>\<rparr>);
      window \<leftarrow> iolink_master_response_timeout_100us
        (demo_port\<lparr>st_startup := (st_startup demo_port)\<lparr>su_baudrate_index := 2\<rparr>,
          st_config := (st_config demo_port)\<lparr>cfg_min_cycle_time := 200\<rparr>\<rparr>);
      Some (baudrate, unat window) })
    (\<lambda>(baudrate, window). window \<in> {44, 6, 1} \<and> \<not> covers baudrate 44 window)"
proof -
  let ?p = "demo_port\<lparr>st_startup := (st_startup demo_port)\<lparr>su_baudrate_index := 2\<rparr>\<rparr>"
  have "port_wf demo_stack ?p" using demo_port_wf by (simp add: port_wf_defs)
  moreover have "cfg_response_timeout_100us (st_config ?p) = 0"
    by (simp add: demo_port_def demo_config_def zero_config_def)
  ultimately show ?thesis
    using zero_timeout_window [of demo_stack ?p 200]
    by (auto elim!: ensures_mono split: iolink_baudrate_t.splits dest: spec [of _ 4])
qed

end
