(* ===== verification/MasterGateway.thy ===== *)
theory MasterGateway
  imports MasterLifecycle MasterDemo
begin

text \<open>
  The gateway text line of \<open>src/master_gateway.c\<close>: one line per port with the identity of the
  device and its process data. Characters are appended to a scratch array of 128 characters
  that is kept terminated; the line is copied out when it fits the caller's buffer.

  The content of the uninitialised scratch arrays is an argument of the model.
\<close>

subsection \<open>Appending\<close>

abbreviation (input) NUL :: char where "NUL \<equiv> CHR 0x00"

text \<open>The line and the number of characters used; the flag is the result 0 of the function.\<close>

definition gateway_append ::
  "nat \<Rightarrow> char \<Rightarrow> char list \<times> nat \<Rightarrow> (bool \<times> char list \<times> nat) option" where
  "gateway_append out_len ch buf =
     (let (out, used) = buf
      in if used + 2 > out_len then Some (False, out, used)
         else do {
           out \<leftarrow> wr out used ch;
           out \<leftarrow> wr out (used + 1) NUL;
           Some (True, out, used + 1)
         })"

fun gateway_append_str ::
  "nat \<Rightarrow> char list \<Rightarrow> char list \<times> nat \<Rightarrow> (bool \<times> char list \<times> nat) option" where
  "gateway_append_str out_len [] buf = Some (True, buf)"
| "gateway_append_str out_len (ch # text) buf = do {
     (ok, buf) \<leftarrow> gateway_append out_len ch buf;
     if ok then gateway_append_str out_len text buf else Some (False, buf)
   }"

definition ascii_digit :: "nat \<Rightarrow> char" where
  "ascii_digit n = char_of (48 + n)"

text \<open>The digits of \<open>n\<close>, the lowest first, as the \<open>do\<close> loop fills the array \<open>digits\<close>.\<close>

fun u8_digits :: "nat \<Rightarrow> char list" where
  "u8_digits n = ascii_digit (n mod 10) # (if n div 10 = 0 then [] else u8_digits (n div 10))"

declare u8_digits.simps [simp del]

text \<open>The array holds three digits; the second loop appends them from the last one down.\<close>

definition gateway_append_u8_dec ::
  "nat \<Rightarrow> u8 \<Rightarrow> char list \<times> nat \<Rightarrow> (bool \<times> char list \<times> nat) option" where
  "gateway_append_u8_dec out_len value buf =
     (let digits = u8_digits (unat value)
      in if length digits > 3 then None else gateway_append_str out_len (rev digits) buf)"

definition k_hex :: "char list" where
  "k_hex = ''0123456789abcdef''"

fun gateway_append_hex ::
  "nat \<Rightarrow> u32 \<Rightarrow> nat \<Rightarrow> char list \<times> nat \<Rightarrow> (bool \<times> char list \<times> nat) option" where
  "gateway_append_hex out_len value 0 buf = Some (True, buf)"
| "gateway_append_hex out_len value (Suc i) buf = do {
     ch \<leftarrow> rd k_hex (unat (drop_bit (trunc8 (i * 4)) value AND 0x0F));
     (ok, buf) \<leftarrow> gateway_append out_len ch buf;
     if ok then gateway_append_hex out_len value i buf else Some (False, buf)
   }"

text \<open>\<open>a || b\<close> of two appends.\<close>

definition and_then ::
  "(char list \<times> nat \<Rightarrow> (bool \<times> char list \<times> nat) option) \<Rightarrow>
   (char list \<times> nat \<Rightarrow> (bool \<times> char list \<times> nat) option) \<Rightarrow>
   char list \<times> nat \<Rightarrow> (bool \<times> char list \<times> nat) option" where
  "and_then a b buf = do { (ok, buf) \<leftarrow> a buf; if ok then b buf else Some (False, buf) }"

fun gateway_append_pd ::
  "nat \<Rightarrow> u8 list \<Rightarrow> char list \<times> nat \<Rightarrow> (bool \<times> char list \<times> nat) option" where
  "gateway_append_pd out_len [] buf = Some (True, buf)"
| "gateway_append_pd out_len (octet # pd) buf =
     and_then (gateway_append_hex out_len (ucast octet) 2) (gateway_append_pd out_len pd) buf"

subsection \<open>The line\<close>

abbreviation (input) GATEWAY_LINE_MAX :: nat where "GATEWAY_LINE_MAX \<equiv> 128"

definition gateway_header ::
  "u8 \<Rightarrow> iolink_master_device_info_t \<Rightarrow> char list \<times> nat \<Rightarrow> (bool \<times> char list \<times> nat) option" where
  "gateway_header port_index info =
     and_then (gateway_append_str GATEWAY_LINE_MAX ''iolinki-gw/1 '')
    (and_then (gateway_append_u8_dec GATEWAY_LINE_MAX port_index)
    (and_then (gateway_append GATEWAY_LINE_MAX (CHR '' ''))
    (and_then (gateway_append_hex GATEWAY_LINE_MAX (ucast (di_vendor_id info)) 4)
    (and_then (gateway_append GATEWAY_LINE_MAX (CHR '' ''))
    (and_then (gateway_append_hex GATEWAY_LINE_MAX (di_device_id info) 8)
              (gateway_append GATEWAY_LINE_MAX (CHR '' '')))))))"

text \<open>The result is \<open>(ret, out)\<close>; \<open>scratch\<close> is the uninitialised array \<open>line\<close>.\<close>

definition iolink_master_format_gateway_line ::
  "iolinki \<Rightarrow> char list \<Rightarrow> u8 \<Rightarrow> iolink_master_device_info_t option \<Rightarrow> u8 list option \<Rightarrow> nat \<Rightarrow>
   char list option \<Rightarrow> nat \<Rightarrow> (int \<times> char list option) option" where
  "iolink_master_format_gateway_line L scratch port_index info pd_in pd_in_len out out_len =
     (case (info, out) of
        (Some info, Some dest) \<Rightarrow>
          if out_len = 0 \<or> \<not> di_valid info \<or> pd_in_len > PD_IN_MAX_SIZE L \<or>
             (pd_in_len > 0 \<and> pd_in = None)
          then Some (ERR_INVALID_ARG, out)
          else do {
            line \<leftarrow> wr scratch 0 NUL;
            (ok, buf) \<leftarrow> gateway_header port_index info (line, 0);
            if \<not> ok then Some (ERR_BUFFER_TOO_SMALL, out)
            else do {
              (ok, buf) \<leftarrow>
                (if pd_in_len = 0 then gateway_append GATEWAY_LINE_MAX (CHR ''-'') buf
                 else do {
                   src \<leftarrow> pd_in;
                   pd \<leftarrow> rd_slice src 0 pd_in_len;
                   gateway_append_pd GATEWAY_LINE_MAX pd buf
                 });
              if \<not> ok then Some (ERR_BUFFER_TOO_SMALL, out)
              else do {
                (ok, line, used) \<leftarrow> gateway_append GATEWAY_LINE_MAX (CHR 0x0A) buf;
                if \<not> ok then Some (ERR_BUFFER_TOO_SMALL, out)
                else if used + 1 > out_len then Some (ERR_BUFFER_TOO_SMALL, out)
                else do {
                  text \<leftarrow> rd_slice line 0 (used + 1);
                  dest \<leftarrow> wr_slice dest 0 text;
                  Some (STATUS_OK, Some dest)
                }
              }
            }
          }
      | _ \<Rightarrow> Some (ERR_INVALID_ARG, out))"

definition iolink_master_write_gateway_line ::
  "iolinki \<Rightarrow> char list \<Rightarrow> u8 list \<Rightarrow> 'e iolink_master_port_state_t \<Rightarrow> u8 \<Rightarrow> char list option \<Rightarrow> nat \<Rightarrow>
   (int \<times> char list option) option" where
  "iolink_master_write_gateway_line L scratch pd_scratch p port_index out out_len =
     (if out = None \<or> out_len = 0 then Some (ERR_INVALID_ARG, out)
      else let (ret, info) = iolink_master_get_device_info p
           in if ret \<noteq> STATUS_OK then Some (ret, out)
              else do {
                (ret, pd, pd_len) \<leftarrow>
                  iolink_master_get_pd_in pd_scratch (trunc8 (PD_IN_MAX_SIZE L)) p;
                if ret = STATUS_PENDING
                then iolink_master_format_gateway_line L scratch port_index (Some info) None 0 out out_len
                else if ret \<noteq> STATUS_OK then Some (ret, out)
                else iolink_master_format_gateway_line L scratch port_index (Some info) (Some pd) pd_len
                       out out_len
              })"

subsection \<open>The text of the line\<close>

fun dec_text :: "nat \<Rightarrow> char list" where
  "dec_text n = (if n < 10 then [ascii_digit n] else dec_text (n div 10) @ [ascii_digit (n mod 10)])"

declare dec_text.simps [simp del]

text \<open>A number in \<open>w\<close> hexadecimal digits.\<close>

fun hex_text :: "nat \<Rightarrow> nat \<Rightarrow> char list" where
  "hex_text 0 n = []"
| "hex_text (Suc w) n = k_hex ! (n div 16 ^ w mod 16) # hex_text w n"

definition gateway_text :: "u8 \<Rightarrow> u16 \<Rightarrow> u32 \<Rightarrow> u8 list \<Rightarrow> char list" where
  "gateway_text port_index vendor device pd =
     ''iolinki-gw/1 '' @ dec_text (unat port_index) @ '' '' @ hex_text 4 (unat vendor) @ '' '' @
     hex_text 8 (unat device) @ '' '' @
     (if pd = [] then ''-'' else concat (map (\<lambda>octet. hex_text 2 (unat octet)) pd)) @ [CHR 0x0A]"

text \<open>An append that writes \<open>text\<close> behind the part of the line written so far.\<close>

definition appends ::
  "(char list \<times> nat \<Rightarrow> (bool \<times> char list \<times> nat) option) \<Rightarrow> char list \<Rightarrow> bool" where
  "appends f text \<longleftrightarrow>
     (\<forall>xs (rest :: char list). length xs + length rest = 128 \<longrightarrow> length text < length rest \<longrightarrow>
        (\<exists>rest'. f (xs @ NUL # tl rest, length xs) = Some (True, (xs @ text) @ NUL # tl rest', length (xs @ text)) \<and>
           length rest' = length rest - length text))"

lemma appends_char: "appends (gateway_append 128 ch) [ch]"
proof -
  have "\<exists>rest'. gateway_append 128 ch (xs @ NUL # tl rest, length xs) =
      Some (True, (xs @ [ch]) @ NUL # tl rest', length (xs @ [ch])) \<and> length rest' = length rest - 1"
    if len: "length xs + length rest = 128 \<and> 1 < length rest" for xs and rest :: "char list"
  proof -
    obtain a b r where "rest = a # b # r" using len by (cases rest; cases "tl rest") auto
    then show ?thesis
      using len by (intro exI [of _ "b # r"]) (simp add: gateway_append_def wr_def list_update_append)
  qed
  then show ?thesis by (simp add: appends_def)
qed

lemma appends_Nil: "appends (\<lambda>buf. Some (True, buf)) []"
  unfolding appends_def by (metis append_Nil2 diff_zero list.size(3))

lemma appends_then: "appends f xs \<Longrightarrow> appends g ys \<Longrightarrow> appends (and_then f g) (xs @ ys)"
  unfolding appends_def and_then_def
proof (intro allI impI)
  fix pre rest :: "char list"
  assume f: "\<forall>pre rest. length pre + length rest = 128 \<longrightarrow> length xs < length rest \<longrightarrow>
      (\<exists>rest'. f (pre @ NUL # tl rest, length pre) =
        Some (True, (pre @ xs) @ NUL # tl rest', length (pre @ xs)) \<and> length rest' = length rest - length xs)"
    and g: "\<forall>pre rest. length pre + length rest = 128 \<longrightarrow> length ys < length rest \<longrightarrow>
      (\<exists>rest'. g (pre @ NUL # tl rest, length pre) =
        Some (True, (pre @ ys) @ NUL # tl rest', length (pre @ ys)) \<and> length rest' = length rest - length ys)"
    and len: "length pre + length rest = 128" "length (xs @ ys) < length rest"
  from f len obtain rest1 where f1: "f (pre @ NUL # tl rest, length pre) =
      Some (True, (pre @ xs) @ NUL # tl rest1, length (pre @ xs))" "length rest1 = length rest - length xs"
    by force
  from g [rule_format, of "pre @ xs" rest1] f1(2) len obtain rest2 where
    "g ((pre @ xs) @ NUL # tl rest1, length (pre @ xs)) =
      Some (True, ((pre @ xs) @ ys) @ NUL # tl rest2, length ((pre @ xs) @ ys))"
    "length rest2 = length rest1 - length ys"
    by force
  then show "\<exists>rest'. do { (ok, buf) \<leftarrow> f (pre @ NUL # tl rest, length pre); if ok then g buf else Some (False, buf) } =
      Some (True, (pre @ xs @ ys) @ NUL # tl rest', length (pre @ xs @ ys)) \<and>
      length rest' = length rest - length (xs @ ys)"
    using f1 by (intro exI [of _ rest2]) simp
qed

lemma appends_str: "appends (gateway_append_str 128 str) str"
proof (induction str)
  case Nil
  then show ?case using appends_Nil by (simp add: appends_def)
next
  case (Cons ch str)
  have "gateway_append_str 128 (ch # str) = and_then (gateway_append 128 ch) (gateway_append_str 128 str)"
    by (rule ext) (simp add: and_then_def)
  then show ?case using appends_then [OF appends_char Cons.IH, of ch] by simp
qed

lemma appends_hex: "w \<le> 8 \<Longrightarrow> appends (gateway_append_hex 128 v w) (hex_text w (unat v))"
proof (induction w)
  case 0
  then show ?case using appends_Nil by (simp add: appends_def)
next
  case (Suc w)
  have "unat (drop_bit (4 * w) v AND 15) = unat v div 2 ^ (4 * w) mod 16"
    using unat_and_mask [of "drop_bit (4 * w) v" 4] unat_drop_bit_div [of "4 * w" v]
    by (simp add: mask_eq_exp_minus_1)
  also have "(2::nat) ^ (4 * w) = 16 ^ w" by (simp add: power_mult)
  finally have "unat (drop_bit (trunc8 (w * 4)) v AND 15) = unat v div 16 ^ w mod 16"
    using Suc.prems by (simp add: mult.commute)
  moreover have "length k_hex = 16" by (simp add: k_hex_def)
  ultimately have "gateway_append_hex 128 v (Suc w) =
      and_then (gateway_append 128 (k_hex ! (unat v div 16 ^ w mod 16))) (gateway_append_hex 128 v w)"
    by (intro ext) (simp add: and_then_def rd_def)
  then show ?case using appends_then [OF appends_char Suc.IH] Suc.prems by simp
qed

lemma u8_digits_rev: "rev (u8_digits n) = dec_text n"
proof (induction n rule: u8_digits.induct)
  case (1 n)
  show ?case
  proof (cases "n div 10 = 0")
    case True
    then have "n < 10" by (simp add: div_eq_0_iff)
    then show ?thesis by (simp add: u8_digits.simps [of n] dec_text.simps [of n])
  next
    case False
    then have "\<not> n < 10" by (simp add: div_eq_0_iff)
    then show ?thesis using 1 False by (simp add: u8_digits.simps [of n] dec_text.simps [of n])
  qed
qed

lemma u8_digits_length: "n < 10 ^ Suc k \<Longrightarrow> length (u8_digits n) \<le> Suc k"
proof (induction k arbitrary: n)
  case 0
  then show ?case by (simp add: u8_digits.simps)
next
  case (Suc k)
  then have "n div 10 < 10 ^ Suc k" by (simp add: div_less_iff_less_mult)
  from Suc.IH [OF this] show ?case by (simp add: u8_digits.simps [of n])
qed

lemma appends_dec: "appends (gateway_append_u8_dec 128 v) (dec_text (unat v))"
  and dec_text_length: "length (dec_text (unat (v :: u8))) \<le> 3"
proof -
  have "length (u8_digits (unat v)) \<le> Suc 2"
    by (rule u8_digits_length) (use u8_bound [of v] in simp)
  then have le: "length (u8_digits (unat v)) \<le> 3" by simp
  then show "length (dec_text (unat v)) \<le> 3"
    unfolding u8_digits_rev [symmetric] by simp
  have "gateway_append_u8_dec 128 v = gateway_append_str 128 (dec_text (unat v))"
    using le by (intro ext) (simp add: gateway_append_u8_dec_def Let_def u8_digits_rev)
  then show "appends (gateway_append_u8_dec 128 v) (dec_text (unat v))"
    using appends_str by simp
qed

lemma appends_pd: "appends (gateway_append_pd 128 pd) (concat (map (\<lambda>octet. hex_text 2 (unat octet)) pd))"
proof (induction pd)
  case Nil
  then show ?case using appends_Nil by (simp add: appends_def)
next
  case (Cons octet pd)
  have "gateway_append_pd 128 (octet # pd) =
      and_then (gateway_append_hex 128 (ucast octet) 2) (gateway_append_pd 128 pd)"
    by (rule ext) simp
  then show ?case using appends_then [OF appends_hex [of 2 "ucast octet"] Cons.IH] by simp
qed

lemma hex_text_length [simp]: "length (hex_text w n) = w"
  by (induction w) simp_all

lemma pd_text_length: "length (concat (map (\<lambda>octet. hex_text 2 (unat octet)) pd)) = 2 * length pd"
  by (induction pd) simp_all

lemma gateway_text_length:
  "length (gateway_text port_index vendor device pd) \<le> 32 + max 1 (2 * length pd)"
  using dec_text_length [of port_index]
  by (auto simp: gateway_text_def pd_text_length max_def)

text \<open>The three appends of the function, together.\<close>

definition gateway_pd :: "u8 list \<Rightarrow> char list \<times> nat \<Rightarrow> (bool \<times> char list \<times> nat) option" where
  "gateway_pd pd = (if pd = [] then gateway_append 128 (CHR ''-'') else gateway_append_pd 128 pd)"

lemma appends_line:
  "appends (and_then (gateway_header port_index info)
     (and_then (gateway_pd pd) (gateway_append 128 (CHR 0x0A))))
   (gateway_text port_index (di_vendor_id info) (di_device_id info) pd)"
proof -
  have "appends (gateway_pd pd) (if pd = [] then ''-'' else concat (map (\<lambda>octet. hex_text 2 (unat octet)) pd))"
    using appends_char [of "CHR ''-''"] appends_pd [of pd] by (simp add: gateway_pd_def)
  note tail = appends_then [OF this appends_char [of "CHR 0x0A"]]
  have vendor: "appends (gateway_append_hex 128 (ucast (di_vendor_id info)) 4) (hex_text 4 (unat (di_vendor_id info)))"
  proof -
    have "unat (ucast (di_vendor_id info) :: u32) = unat (di_vendor_id info)"
      using unsigned_less [of "di_vendor_id info", where ?'a = nat]
      by (simp add: unsigned_ucast_eq take_bit_nat_eq_self)
    then show ?thesis using appends_hex [of 4 "ucast (di_vendor_id info)"] by simp
  qed
  have device: "appends (gateway_append_hex 128 (di_device_id info) 8) (hex_text 8 (unat (di_device_id info)))"
    by (rule appends_hex) simp
  have "appends (gateway_header port_index info)
    (''iolinki-gw/1 '' @ dec_text (unat port_index) @ '' '' @ hex_text 4 (unat (di_vendor_id info)) @ '' '' @
     hex_text 8 (unat (di_device_id info)) @ '' '')"
    unfolding gateway_header_def
    by (intro appends_then appends_str appends_dec appends_char vendor device)
  from appends_then [OF this tail] show ?thesis by (simp only: gateway_text_def append.assoc)
qed

lemma format_gateway_line:
  assumes "length scratch = 128" and "di_valid info" and "pd_in_len \<le> PD_IN_MAX_SIZE L"
    and src: "pd_in_len > 0 \<Longrightarrow> \<exists>src. pd_in = Some src \<and> pd_in_len \<le> length src \<and> take pd_in_len src = pd"
    and "length pd = pd_in_len" "pd_in_len \<le> 47" and out: "0 < out_len" "out_len \<le> length out"
    and line: "line = gateway_text port_index (di_vendor_id info) (di_device_id info) pd"
  shows "iolink_master_format_gateway_line L scratch port_index (Some info) pd_in pd_in_len (Some out) out_len =
    Some (if length line < out_len then (STATUS_OK, Some (line @ NUL # drop (length line + 1) out))
          else (ERR_BUFFER_TOO_SMALL, Some out))"
proof -
  define rest where "rest = scratch"
  have scratch: "wr scratch 0 NUL = Some (NUL # tl scratch)"
    using assms(1) by (cases scratch) (simp_all add: wr_def)
  have short: "length line < 128"
    using gateway_text_length [of port_index "di_vendor_id info" "di_device_id info" pd] assms(5,6) line
    by simp
  obtain rest' where "and_then (gateway_header port_index info)
      (and_then (gateway_pd pd) (gateway_append 128 (CHR 0x0A))) (NUL # tl scratch, 0) =
    Some (True, line @ NUL # tl rest', length line)"
    using appends_line [of port_index info pd] short assms(1) line unfolding appends_def
    by (metis (no_types, lifting) add_0 append_Nil list.size(3))
  then obtain buf1 buf2 where bufs:
    "gateway_header port_index info (NUL # tl scratch, 0) = Some (True, buf1)"
    "gateway_pd pd buf1 = Some (True, buf2)"
    "gateway_append 128 (CHR 0x0A) buf2 = Some (True, line @ NUL # tl rest', length line)"
    by (auto simp: and_then_def split: bind_splits if_splits)
  have pd: "(if pd_in_len = 0 then gateway_append 128 (CHR ''-'') buf1
      else do { src \<leftarrow> pd_in; pd \<leftarrow> rd_slice src 0 pd_in_len; gateway_append_pd 128 pd buf1 }) =
    Some (True, buf2)"
    using bufs(2) src assms(5) by (cases "pd_in_len = 0") (auto simp: gateway_pd_def rd_slice_def)
  have valid: "\<not> (out_len = 0 \<or> \<not> di_valid info \<or> pd_in_len > PD_IN_MAX_SIZE L \<or> (pd_in_len > 0 \<and> pd_in = None))"
    using assms src by auto
  show ?thesis
    unfolding iolink_master_format_gateway_line_def option.case prod.case if_not_P [OF valid]
      scratch bind.bind_lunit bufs(1) pd bufs(3)
    using out by (simp add: rd_slice_def wr_slice_def)
qed

text \<open>
  C26. The gateway line of a port. A port whose device information has been read gets the
  line that names the port in decimal, the vendor and the device in fixed-width hexadecimal
  and the valid process data (a dash without any), terminated; it is written exactly when
  line and terminator fit the caller's buffer, which is untouched otherwise, and nothing is
  ever written outside the scratch line of 128 characters.
\<close>

theorem gateway_line_of_port:
  assumes "port_wf L p" and "PD_IN_MAX_SIZE L \<le> 47"
    and "length scratch = 128" and "length pd_scratch = PD_IN_MAX_SIZE L"
    and "0 < out_len" and "out_len \<le> length out"
    and "line = gateway_text port_index (di_vendor_id (st_device_info p)) (di_device_id (st_device_info p))
      (if st_pd_valid p then take (st_pd_in_len p) (st_pd_in p) else [])"
  shows "iolink_master_write_gateway_line L scratch pd_scratch p port_index (Some out) out_len =
    Some (if \<not> di_valid (st_device_info p) then (STATUS_PENDING, Some out)
          else if length line < out_len
          then (STATUS_OK, Some (line @ NUL # drop (length line + 1) out))
          else (ERR_BUFFER_TOO_SMALL, Some out))"
proof (cases "di_valid (st_device_info p)")
  case False
  then show ?thesis
    using assms(5) by (simp add: iolink_master_write_gateway_line_def iolink_master_get_device_info_def Let_def)
next
  case True
  have len: "st_pd_in_len p \<le> PD_IN_MAX_SIZE L" "length (st_pd_in p) = PD_IN_MAX_SIZE L"
    using assms(1) by (simp_all add: port_wf_defs)
  have info: "iolink_master_get_device_info p = (STATUS_OK, st_device_info p)"
    using True by (simp add: iolink_master_get_device_info_def)
  show ?thesis
  proof (cases "st_pd_valid p")
    case True
    define pd where "pd = take (st_pd_in_len p) (st_pd_in p)"
    have "iolink_master_get_pd_in pd_scratch (trunc8 (PD_IN_MAX_SIZE L)) p =
        Some (STATUS_OK, pd @ drop (st_pd_in_len p) pd_scratch, st_pd_in_len p)"
      using len assms(2,4) True by (simp add: iolink_master_get_pd_in_def rd_slice_def wr_slice_def pd_def)
    moreover have "length pd = st_pd_in_len p" using len by (simp add: pd_def)
    ultimately show ?thesis
      using format_gateway_line [OF assms(3) \<open>di_valid (st_device_info p)\<close> len(1), of
          "Some (pd @ drop (st_pd_in_len p) pd_scratch)" pd out_len out line port_index]
        assms(2,5-7) len True \<open>di_valid (st_device_info p)\<close> info
      by (simp add: iolink_master_write_gateway_line_def pd_def)
  next
    case False
    then show ?thesis
      using format_gateway_line [OF assms(3) \<open>di_valid (st_device_info p)\<close>, of 0 L None "[]" out_len out line port_index]
        assms(2,4-7) len \<open>di_valid (st_device_info p)\<close> info
      by (simp add: iolink_master_write_gateway_line_def iolink_master_get_pd_in_def)
  qed
qed

lemma hex_text_numeral:
  "hex_text (numeral k) n = k_hex ! (n div 16 ^ pred_numeral k mod 16) # hex_text (pred_numeral k) n"
proof -
  have "hex_text (Suc (pred_numeral k)) n = k_hex ! (n div 16 ^ pred_numeral k mod 16) # hex_text (pred_numeral k) n"
    by simp
  then show ?thesis unfolding numeral_eq_Suc [of k, symmetric] .
qed

lemma ascii_one_two: "ascii_digit (Suc 0) = CHR ''1''" "ascii_digit 2 = CHR ''2''"
proof -
  have one: "48 + Suc 0 = of_char (CHR ''1'')" and two: "48 + 2 = (of_char (CHR ''2'') :: nat)"
    by simp_all
  show "ascii_digit (Suc 0) = CHR ''1''"
    unfolding ascii_digit_def one by (rule char_of_char)
  show "ascii_digit 2 = CHR ''2''"
    unfolding ascii_digit_def two by (rule char_of_char)
qed

theorem gateway_line_of_port_witness:
  "iolink_master_write_gateway_line demo_stack (replicate 128 (CHR ''x'')) (replicate 32 0)
     (demo_port\<lparr>st_device_info := zero_device_info\<lparr>di_valid := True, di_vendor_id := 0x03AB,
        di_device_id := 0x00123456\<rparr>, st_pd_in := 0xF7 # replicate 31 0, st_pd_valid := True\<rparr>)
     12 (Some (replicate 40 (CHR ''?''))) 40 =
   Some (STATUS_OK, Some (''iolinki-gw/1 12 03ab 00123456 f7'' @ [CHR 0x0A, CHR 0x00] @
     replicate 6 (CHR ''?'')))"
proof -
  define p where "p = demo_port\<lparr>st_device_info := zero_device_info\<lparr>di_valid := True, di_vendor_id := 0x03AB,
        di_device_id := 0x00123456\<rparr>, st_pd_in := 0xF7 # replicate 31 0, st_pd_valid := True\<rparr>"
  have wf: "port_wf demo_stack p"
    using demo_port_wf by (simp add: p_def port_wf_defs demo_stack_def)
  have fields: "st_device_info p = zero_device_info\<lparr>di_valid := True, di_vendor_id := 0x03AB, di_device_id := 0x00123456\<rparr>"
    "st_pd_in_len p = 1" "st_pd_in p = 0xF7 # replicate 31 0" "st_pd_valid p"
    by (simp_all add: p_def demo_port_def)
  have line: "gateway_text 12 0x03AB 0x00123456 [0xF7] = ''iolinki-gw/1 12 03ab 00123456 f7'' @ [CHR 0x0A]"
    by (simp add: gateway_text_def dec_text.simps k_hex_def hex_text_numeral ascii_one_two)
  show ?thesis
    unfolding p_def [symmetric]
    by (subst gateway_line_of_port [OF wf _ _ _ _ _ refl]) (simp_all add: fields line demo_stack_def)
qed

subsection \<open>The text can be read back\<close>

lemma dec_text_digits: "ch \<in> set (dec_text n) \<Longrightarrow> ch \<noteq> CHR '' ''"
proof (induction n rule: dec_text.induct)
  case (1 n)
  have "ascii_digit m \<noteq> CHR '' ''" if "m < 10" for m
  proof
    assume "ascii_digit m = CHR '' ''"
    then have "of_char (ascii_digit m) = (of_char (CHR '' '') :: nat)" by simp
    then show False using that by (simp add: ascii_digit_def)
  qed
  from this [of n] this [of "n mod 10"] 1 show ?case
    by (auto simp: dec_text.simps [of n] split: if_splits)
qed

text \<open>The value of a decimal text.\<close>

definition dec_value :: "char list \<Rightarrow> nat" where
  "dec_value = foldl (\<lambda>n ch. 10 * n + (of_char ch - 48)) 0"

lemma dec_value_text: "dec_value (dec_text n) = n"
proof (induction n rule: dec_text.induct)
  case (1 n)
  have "of_char (ascii_digit m) = 48 + m" if "m < 10" for m
    using that by (simp add: ascii_digit_def)
  with 1 show ?case by (simp add: dec_text.simps [of n] dec_value_def)
qed

lemma split_at_space:
  "xs @ CHR '' '' # as = ys @ CHR '' '' # bs \<Longrightarrow> CHR '' '' \<notin> set xs \<Longrightarrow> CHR '' '' \<notin> set ys \<Longrightarrow>
   xs = ys \<and> as = bs"
proof (induction xs arbitrary: ys)
  case Nil
  then show ?case by (cases ys) auto
next
  case (Cons x xs)
  then show ?case by (cases ys) auto
qed

lemma k_hex_inject: "i < 16 \<Longrightarrow> j < 16 \<Longrightarrow> k_hex ! i = k_hex ! j \<Longrightarrow> i = j"
proof -
  assume "i < 16" "j < 16" "k_hex ! i = k_hex ! j"
  moreover have "distinct k_hex" "length k_hex = 16" by (simp_all add: k_hex_def)
  ultimately show ?thesis using nth_eq_iff_index_eq by metis
qed

lemma hex_text_inject: "hex_text w m = hex_text w n \<Longrightarrow> m mod 16 ^ w = n mod 16 ^ w"
proof (induction w)
  case (Suc w)
  then have "m mod 16 ^ w = n mod 16 ^ w" and "k_hex ! (m div 16 ^ w mod 16) = k_hex ! (n div 16 ^ w mod 16)"
    by simp_all
  moreover from this(2) have "m div 16 ^ w mod 16 = n div 16 ^ w mod 16"
    by (rule k_hex_inject [rotated 2]) simp_all
  moreover have "k mod 16 ^ Suc w = 16 ^ w * (k div 16 ^ w mod 16) + k mod 16 ^ w" for k :: nat
    by (metis mod_mult2_eq power_Suc2)
  ultimately show ?case by simp
qed simp

lemma pd_text_inject:
  "concat (map (\<lambda>octet. hex_text 2 (unat (octet :: u8))) as) @ [CHR 0x0A] =
   concat (map (\<lambda>octet. hex_text 2 (unat octet)) bs) @ [CHR 0x0A] \<Longrightarrow> as = bs"
proof -
  assume eq: "concat (map (\<lambda>octet. hex_text 2 (unat (octet :: u8))) as) @ [CHR 0x0A] =
   concat (map (\<lambda>octet. hex_text 2 (unat octet)) bs) @ [CHR 0x0A]"
  then have "concat (map (\<lambda>octet. hex_text 2 (unat octet)) as) = concat (map (\<lambda>octet. hex_text 2 (unat octet)) bs)"
    by simp
  then show ?thesis
  proof (induction as arbitrary: bs)
    case Nil
    then show ?case by (cases bs) (auto simp: numeral_2_eq_2)
  next
    case (Cons a as)
    then obtain b bs' where bs: "bs = b # bs'" by (cases bs) (auto simp: numeral_2_eq_2)
    with Cons.prems have "hex_text 2 (unat a) = hex_text 2 (unat b)"
      "concat (map (\<lambda>octet. hex_text 2 (unat octet)) as) = concat (map (\<lambda>octet. hex_text 2 (unat octet)) bs')"
      by (auto simp: append_eq_append_conv)
    moreover have "unat a = unat b" if "hex_text 2 (unat a) = hex_text 2 (unat b)"
      using hex_text_inject [OF that] u8_bound [of a] u8_bound [of b] by (simp add: power2_eq_square)
    ultimately show ?case using Cons.IH [of bs'] bs by (simp add: word_unat_eq_iff)
  qed
qed

lemma pd_text_no_dash: "''-'' @ xs \<noteq> concat (map (\<lambda>octet. hex_text 2 (unat (octet :: u8))) (b # bs)) @ ys"
proof -
  have "k_hex ! (n mod 16) \<noteq> CHR ''-''" for n
  proof -
    have "k_hex ! (n mod 16) \<in> set k_hex" by (rule nth_mem) (simp add: k_hex_def)
    then show ?thesis by (auto simp: k_hex_def)
  qed
  then show ?thesis by (simp add: numeral_2_eq_2) (metis mod_div_trivial)
qed

text \<open>
  The text is unambiguous: it determines the number of the port, the vendor and device
  identifiers and the process data.
\<close>

lemma gateway_text_inject:
  assumes "gateway_text port1 vendor1 device1 pd1 = gateway_text port2 vendor2 device2 pd2"
  shows "port1 = port2 \<and> vendor1 = vendor2 \<and> device1 = device2 \<and> pd1 = pd2"
proof -
  let ?tail = "\<lambda>vendor device pd. hex_text 4 (unat (vendor :: u16)) @ '' '' @ hex_text 8 (unat (device :: u32)) @ '' '' @
     (if pd = [] then ''-'' else concat (map (\<lambda>octet. hex_text 2 (unat (octet :: u8))) pd)) @ [CHR 0x0A]"
  have "dec_text (unat port1) @ CHR '' '' # ?tail vendor1 device1 pd1 =
      dec_text (unat port2) @ CHR '' '' # ?tail vendor2 device2 pd2"
    using assms by (simp add: gateway_text_def)
  then have port: "dec_text (unat port1) = dec_text (unat port2)"
    and tail: "?tail vendor1 device1 pd1 = ?tail vendor2 device2 pd2"
    using split_at_space dec_text_digits by blast+
  from port have "unat port1 = unat port2" by (metis dec_value_text)
  moreover from tail have hex: "hex_text 4 (unat vendor1) = hex_text 4 (unat vendor2)"
    "hex_text 8 (unat device1) = hex_text 8 (unat device2)"
    and pd: "(if pd1 = [] then ''-'' else concat (map (\<lambda>octet. hex_text 2 (unat octet)) pd1)) @ [CHR 0x0A] =
      (if pd2 = [] then ''-'' else concat (map (\<lambda>octet. hex_text 2 (unat octet)) pd2)) @ [CHR 0x0A]"
    by (auto simp: append_eq_append_conv)
  have "unat vendor1 = unat vendor2"
    using hex_text_inject [OF hex(1)] unsigned_less [of vendor1, where ?'a = nat]
      unsigned_less [of vendor2, where ?'a = nat] by simp
  moreover have "unat device1 = unat device2"
    using hex_text_inject [OF hex(2)] unsigned_less [of device1, where ?'a = nat]
      unsigned_less [of device2, where ?'a = nat] by simp
  moreover have "pd1 = pd2"
  proof (cases pd1)
    case Nil
    then show ?thesis
      using pd pd_text_no_dash [of "[CHR 0x0A]" "hd pd2" "tl pd2" "[CHR 0x0A]"] by (cases pd2) simp_all
  next
    case (Cons a as)
    note pd1 = this
    show ?thesis
    proof (cases pd2)
      case Nil
      then show ?thesis using pd pd1 pd_text_no_dash [of "[CHR 0x0A]" a as "[CHR 0x0A]"] by simp
    next
      case (Cons b bs)
      then show ?thesis using pd pd1 pd_text_inject [of pd1 pd2] by simp
    qed
  qed
  ultimately show ?thesis by (simp add: word_unat_eq_iff)
qed

end
