(* ===== verification/MasterLoopback.thy ===== *)
theory MasterLoopback
  imports MasterLine
begin

text \<open>
  The two loopback programs of the repository, \<open>examples/master_loopback_demo.c\<close> and
  \<open>samples/iolink_master/src/main.c\<close>: a PHY that plays the device from a 64-octet queue, and
  a \<open>main\<close> that takes one port from its initialisation through STARTUP and PREOPERATE to one
  exchange in OPERATE.

  The environment of the port is the file-scope state of the program. A PHY function gets the
  address of an octet, never NULL, so the NULL checks of \<open>demo_phy_recv_byte\<close> and
  \<open>demo_phy_send\<close> have no counterpart; the queue holds at most three octets at a time. A
  \<open>main\<close> returns its exit code and, when it reaches its last line, what that line prints:
  the state, the process data and the OD status.
\<close>

subsection \<open>The PHY of the demo\<close>

record loopback_state =
  g_rx_queue :: "u8 list"
  g_rx_len :: nat
  g_rx_pos :: nat
  g_baudrate :: iolink_baudrate_t
  g_mode :: iolink_phy_mode_t

text \<open>File-scope objects start zeroed.\<close>

definition loopback_start :: loopback_state where
  "loopback_start = \<lparr>g_rx_queue = replicate 64 0, g_rx_len = 0, g_rx_pos = 0,
     g_baudrate = BAUDRATE_COM1, g_mode = PHY_MODE_INACTIVE\<rparr>"

definition queue_bytes :: "u8 list \<Rightarrow> loopback_state \<Rightarrow> loopback_state" where
  "queue_bytes octets g =
     g\<lparr>g_rx_queue := octets @ drop (length octets) (g_rx_queue g), g_rx_len := length octets,
       g_rx_pos := 0\<rparr>"

definition demo_phy_init :: "loopback_state \<Rightarrow> int \<times> loopback_state" where
  "demo_phy_init g =
     (0, g\<lparr>g_rx_len := 0, g_rx_pos := 0, g_baudrate := BAUDRATE_COM3, g_mode := PHY_MODE_INACTIVE\<rparr>)"

definition demo_phy_set_mode :: "iolink_phy_mode_t \<Rightarrow> loopback_state \<Rightarrow> loopback_state" where
  "demo_phy_set_mode mode g = g\<lparr>g_mode := mode\<rparr>"

definition demo_phy_set_baudrate :: "iolink_baudrate_t \<Rightarrow> loopback_state \<Rightarrow> loopback_state" where
  "demo_phy_set_baudrate baudrate g = g\<lparr>g_baudrate := baudrate\<rparr>"

definition demo_phy_recv_byte :: "loopback_state \<Rightarrow> int \<times> u8 \<times> loopback_state" where
  "demo_phy_recv_byte g =
     (if g_rx_pos g \<ge> g_rx_len g then (0, 0, g)
      else (1, g_rx_queue g ! g_rx_pos g, g\<lparr>g_rx_pos := trunc8 (g_rx_pos g + 1)\<rparr>))"

definition demo_phy_send :: "iolinki \<Rightarrow> u8 list \<Rightarrow> loopback_state \<Rightarrow> int \<times> loopback_state" where
  "demo_phy_send L octets g =
     (let len = length octets
      in if len = 0 then (-1, g)
         else if len = 1 \<and> octets ! 0 = 0x55 then (int len, g)
         else if len = M_SEQ_TYPE0_LEN L \<and> octets ! 0 AND MC_RW_MASK L \<noteq> 0 \<and>
                 octets ! 0 AND MC_COMM_CHANNEL_MASK L = 0x20
         then (int len, queue_bytes [0x00, checksum6 L [0x00, 0]] g)
         else if len = M_SEQ_MIN_LEN L \<and> octets ! 0 = 0x20 \<and>
                 octets ! M_SEQ_HEADER_LEN L = CMD_DEVICE_OPERATE L
         then (int len, queue_bytes [0x2D] g)
         else if len = 4 then (int len, queue_bytes [0x5A, checksum6 L [0x5A, 0]] g)
         else (-1, g))"

definition g_demo_phy :: "iolinki \<Rightarrow> loopback_state iolink_phy_api_t" where
  "g_demo_phy L =
     \<lparr>phy_init = Some demo_phy_init, phy_set_mode = Some demo_phy_set_mode,
      phy_set_baudrate = Some demo_phy_set_baudrate, phy_send = Some (demo_phy_send L),
      phy_recv_byte = Some demo_phy_recv_byte, phy_set_cq_line = None, phy_get_voltage_mv = None,
      phy_is_short_circuit = None\<rparr>"

subsection \<open>The main function of the demo\<close>

definition loopback_config :: "'e iolink_master_config_t" where
  "loopback_config = zero_config\<lparr>cfg_port_mode := PORT_MODE_IOLINK,
     cfg_m_seq_type := M_SEQ_TYPE_2_1, cfg_baudrate := BAUDRATE_COM3, cfg_min_cycle_time := 20,
     cfg_pd_in_len := 1, cfg_pd_out_len := 1, cfg_auto_baudrate := False\<rparr>"

type_synonym exit_result = "int \<times> (iolink_master_state_t \<times> u8 \<times> u8) option"

text \<open>The end of the demo: the exchange has been sent, its reply is read and printed.\<close>

definition loopback_read_back ::
  "iolinki \<Rightarrow> loopback_state iolink_master_port_state_t \<Rightarrow> loopback_state \<Rightarrow> exit_result option" where
  "loopback_read_back L port g = do {
     (ret, port, g) \<leftarrow> iolink_master_poll_rx L port g;
     if ret \<noteq> 1 then Some (7, None)
     else do {
       (ret, pd_in, pd_in_len) \<leftarrow> iolink_master_get_pd_in [0] 1 port;
       if ret \<noteq> 0 then Some (8, None)
       else if pd_in_len \<noteq> 1 \<or> pd_in ! 0 \<noteq> 0x5A then Some (9, None)
       else let (ret, od_status) = iolink_master_get_od_status port
            in if ret \<noteq> 0 then Some (10, None)
               else Some (0, Some (iolink_master_get_state port, pd_in ! 0, od_status))
     }
   }"

definition loopback_main ::
  "iolinki \<Rightarrow> loopback_state iolink_master_port_state_t \<Rightarrow> loopback_state \<Rightarrow> exit_result option" where
  "loopback_main L port g = do {
     (ret, port, g) \<leftarrow> iolink_master_init L (Some (g_demo_phy L)) (Some loopback_config) port g;
     if ret \<noteq> 0 then Some (1, None)
     else if g_mode g \<noteq> PHY_MODE_SDCI \<or> g_baudrate g \<noteq> BAUDRATE_COM3 then Some (2, None)
     else do {
       (ret, port) \<leftarrow> iolink_master_set_pd_out L (Some [0x11]) 1 port;
       if ret \<noteq> 0 then Some (3, None)
       else do {
         (port, g) \<leftarrow> iolink_master_process L port g;
         (port, g) \<leftarrow> iolink_master_process L port g;
         (ret, port, g) \<leftarrow> iolink_master_poll_rx L port g;
         if ret \<noteq> 1 then Some (4, None)
         else if iolink_master_get_state port \<noteq> STATE_PREOPERATE then Some (5, None)
         else do {
           (port, g) \<leftarrow> iolink_master_process L port g;
           (ret, port, g) \<leftarrow> iolink_master_poll_rx L port g;
           if ret \<noteq> 1 then Some (6, None)
           else if iolink_master_get_state port \<noteq> STATE_OPERATE then Some (6, None)
           else do {
             (port, g) \<leftarrow> iolink_master_process L port g;
             loopback_read_back L port g
           }
         }
       }
     }
   }"

subsection \<open>The queue and the frames\<close>

lemma queue_consumed:
  "n < 256 \<Longrightarrow> g_rx_len g = n \<Longrightarrow> n \<le> length (g_rx_queue g) \<Longrightarrow> g_rx_pos g \<le> n \<Longrightarrow>
   consumes demo_phy_recv_byte (drop (g_rx_pos g) (take n (g_rx_queue g))) g (g\<lparr>g_rx_pos := n\<rparr>)"
proof (induction "n - g_rx_pos g" arbitrary: g)
  case 0
  then show ?case by simp
next
  case (Suc m)
  let ?g = "g\<lparr>g_rx_pos := Suc (g_rx_pos g)\<rparr>"
  have "consumes demo_phy_recv_byte (drop (g_rx_pos ?g) (take n (g_rx_queue ?g))) ?g (?g\<lparr>g_rx_pos := n\<rparr>)"
    using Suc.hyps(2) Suc.prems by (intro Suc.hyps(1)) simp_all
  moreover have "drop (g_rx_pos g) (take n (g_rx_queue g)) =
      g_rx_queue g ! g_rx_pos g # drop (Suc (g_rx_pos g)) (take n (g_rx_queue g))"
    using Suc.hyps(2) Suc.prems by (subst Cons_nth_drop_Suc [symmetric]) simp_all
  moreover have "demo_phy_recv_byte g = (1, g_rx_queue g ! g_rx_pos g, ?g)"
    using Suc.hyps(2) Suc.prems by (simp add: demo_phy_recv_byte_def trunc8_def)
  ultimately show ?case by simp
qed

definition all_read :: "loopback_state \<Rightarrow> loopback_state" where
  "all_read g = g\<lparr>g_rx_pos := g_rx_len g\<rparr>"

lemma all_read_drained: "drained demo_phy_recv_byte (all_read g)"
  by (simp add: all_read_def drained_def demo_phy_recv_byte_def)

lemma queue_bytes_consumed:
  assumes "length octets \<le> 64" "length (g_rx_queue g) = 64"
  shows "consumes demo_phy_recv_byte octets (queue_bytes octets g) (all_read (queue_bytes octets g))"
    and "length (g_rx_queue (all_read (queue_bytes octets g))) = 64"
  using queue_consumed [of "length octets" "queue_bytes octets g"] assms
  by (simp_all add: queue_bytes_def all_read_def)

text \<open>
  What the programs need of the stack: the lengths and checksums their hard-coded answers
  are made for, and the decoder accepting the answer to the cyclic message.
\<close>

definition loopback_stack :: "iolinki \<Rightarrow> iolink_frame_operate_response_t \<Rightarrow> bool" where
  "loopback_stack L resp \<longleftrightarrow> iolinki_ok L \<and> type0_frames_ok L \<and> M_SEQ_MIN_LEN L = 3 \<and>
     1 \<le> PD_IN_MAX_SIZE L \<and> 1 \<le> PD_OUT_MAX_SIZE L \<and>
     (\<forall>octets. checksum6 L octets < 64) \<and> checksum6 L [0] = 0x2D \<and>
     frame_decode_operate_response L [0x5A, checksum6 L [0x5A, 0]] 1 0 = Some resp \<and>
     resp_checksum_ok resp \<and> resp_pd_valid resp \<and> resp_pd resp = [0x5A]"

subsection \<open>The calls of the programs\<close>

text \<open>The cyclic message of the programs, and a PHY that answers as both programs do.\<close>

definition loopback_request :: "iolinki \<Rightarrow> u8 list" where
  "loopback_request L =
     message L (iolink_master_encode_master_command L False MC_CHANNEL_PROCESS 0) 0x80 [0x11, 0]"

definition loopback_line :: "iolinki \<Rightarrow> loopback_state iolink_phy_api_t \<Rightarrow> bool" where
  "loopback_line L phy \<longleftrightarrow> phy_init phy = Some demo_phy_init \<and> phy_set_mode phy = Some demo_phy_set_mode \<and>
     phy_set_baudrate phy = Some demo_phy_set_baudrate \<and> phy_recv_byte phy = Some demo_phy_recv_byte \<and>
     (\<forall>g. accepts phy [0x55] g g \<and>
        accepts phy (test_message L) g (queue_bytes [0x00, checksum6 L [0x00, 0]] g) \<and>
        accepts phy (operate_command L) g (queue_bytes [0x2D] g) \<and>
        accepts phy (loopback_request L) g (queue_bytes [0x5A, checksum6 L [0x5A, 0]] g))"

text \<open>The port after its initialisation and the setting of its output.\<close>

definition loopback_port ::
  "iolinki \<Rightarrow> loopback_state iolink_phy_api_t \<Rightarrow> loopback_state iolink_master_port_state_t" where
  "loopback_port L phy = (initial_port L phy loopback_config)
     \<lparr>st_pd_out := 0x11 # replicate (PD_OUT_MAX_SIZE L - 1) 0, st_pd_out_len := 1\<rparr>"

definition started :: "loopback_state \<Rightarrow> loopback_state" where
  "started g = g\<lparr>g_rx_len := 0, g_rx_pos := 0, g_baudrate := BAUDRATE_COM3, g_mode := PHY_MODE_SDCI\<rparr>"

lemma loopback_init:
  assumes L: "loopback_stack L resp" and phy: "loopback_line L phy"
  shows "iolink_master_init L (Some phy) (Some loopback_config) port g =
      Some (STATUS_OK, initial_port L phy loopback_config, started g)"
    and "iolink_master_set_pd_out L (Some [0x11]) 1 (initial_port L phy loopback_config) =
      Some (STATUS_OK, loopback_port L phy)"
proof -
  have ok: "init_args_ok L (Some phy) (Some loopback_config)"
    using L by (simp add: init_args_ok_def loopback_stack_def loopback_config_def zero_config_def)
  show "iolink_master_init L (Some phy) (Some loopback_config) port g =
      Some (STATUS_OK, initial_port L phy loopback_config, started g)"
    using ok phy
    by (simp add: iolink_master_init_def init_step_def call_hook_def demo_phy_init_def loopback_line_def
        loopback_config_def zero_config_def initial_port_def zero_port_def iolink_master_flush_rx_def
        iolink_master_startup_baudrate_def iolink_master_set_baudrate_def iolink_master_set_mode_def
        demo_phy_set_baudrate_def demo_phy_set_mode_def started_def Let_def)
  have "1 \<le> PD_OUT_MAX_SIZE L" using L by (simp add: loopback_stack_def)
  then obtain n where "PD_OUT_MAX_SIZE L = Suc n" by (cases "PD_OUT_MAX_SIZE L") auto
  then show "iolink_master_set_pd_out L (Some [0x11]) 1 (initial_port L phy loopback_config) =
      Some (STATUS_OK, loopback_port L phy)"
    by (simp add: iolink_master_set_pd_out_def initial_port_def zero_port_def loopback_config_def zero_config_def
        rd_slice_def wr_slice_def loopback_port_def)
qed

lemma loopback_port_facts:
  assumes L: "loopback_stack L resp"
  shows "attached L phy (loopback_port L phy)" "services_idle (loopback_port L phy)"
    and "cyclic_message L (loopback_port L phy) = loopback_request L"
    and "st_state (loopback_port L phy) = STATE_STARTUP" "st_config (loopback_port L phy) = loopback_config"
    and "su_step (st_startup (loopback_port L phy)) = STARTUP_STEP_WAKE"
proof -
  have const: "stack_constants_ok L" and size: "1 \<le> PD_OUT_MAX_SIZE L" "1 \<le> PD_IN_MAX_SIZE L"
    using L by (simp_all add: loopback_stack_def iolinki_ok_def)
  have "init_args_ok L (Some phy) (Some loopback_config)"
    using L by (simp add: init_args_ok_def loopback_stack_def loopback_config_def zero_config_def)
  from initial_port_wf [OF const this] have wf: "port_wf L (loopback_port L phy)"
    using size by (simp add: loopback_port_def port_wf_defs)
  then show "attached L phy (loopback_port L phy)"
    by (simp add: attached_def) (simp add: loopback_port_def initial_port_def zero_port_def loopback_config_def zero_config_def)
  show "services_idle (loopback_port L phy)"
    by (simp add: services_idle_def loopback_port_def initial_port_def zero_port_def zero_event_def zero_isdu_def)
  show "cyclic_message L (loopback_port L phy) = loopback_request L"
    by (simp add: cyclic_message_def loopback_request_def type0_operate_def pd_out_octets_def loopback_port_def
        initial_port_def zero_port_def loopback_config_def zero_config_def)
qed (simp_all add: loopback_port_def initial_port_def zero_port_def loopback_config_def zero_config_def)

text \<open>From the wake-up request to the accepted command to operate.\<close>

lemma loopback_to_operate:
  assumes L: "loopback_stack L resp" and phy: "loopback_line L phy" and g: "length (g_rx_queue g) = 64"
  obtains p2 p3 p4 p5 p6 g3 g4 g5 g6 where
    "iolink_master_process L (loopback_port L phy) g = Some (p2, g)"
    and "iolink_master_process L p2 g = Some (p3, g3)"
    and "iolink_master_poll_rx L p3 g3 = Some (1, p4, g4)" and "st_state p4 = STATE_PREOPERATE"
    and "iolink_master_process L p4 g4 = Some (p5, g5)"
    and "iolink_master_poll_rx L p5 g5 = Some (1, p6, g6)" and "st_state p6 = STATE_OPERATE"
    and "attached L phy p6" "services_idle p6" "cyclic_message L p6 = loopback_request L"
      "st_config p6 = loopback_config" "length (g_rx_queue g6) = 64"
proof -
  have const: "stack_constants_ok L" and frames: "type0_frames_ok L" and n: "M_SEQ_TYPE0_LEN L = 2"
    using L by (simp_all add: loopback_stack_def iolinki_ok_def stack_constants_ok_def)
  have sums: "checksum6 L [0, checksum6 L [0, 0] AND 0xC0] = checksum6 L [0, 0] AND 0x3F"
    "checksum6 L [0x2D AND 0xC0] = 0x2D AND 0x3F"
    using L checksum_octet [of "checksum6 L [0, 0]"] by (simp_all add: loopback_stack_def)
  have recv: "phy_recv_byte phy = Some demo_phy_recv_byte" and sent: "accepts phy [0x55] g g"
    "\<And>g. accepts phy (test_message L) g (queue_bytes [0, checksum6 L [0, 0]] g)"
    "\<And>g. accepts phy (operate_command L) g (queue_bytes [0x2D] g)"
    using phy by (simp_all add: loopback_line_def)
  define p1 where "p1 = loopback_port L phy"
  note p1 = loopback_port_facts [OF L, of phy, folded p1_def]
  define p2 where "p2 = (sent_with L [0x55] p1)\<lparr>st_startup := (st_startup p1)\<lparr>su_step := STARTUP_STEP_SEND_TYPE0\<rparr>\<rparr>"
  have p2: "iolink_master_process L p1 g = Some (p2, g)" "attached L phy p2"
    using process_wake_attached [OF p1(1,4,6) sent(1)] attached_sent(1) [OF p1(1), of "[0x55]"]
    by (simp_all add: p2_def)
  define g3 where "g3 = queue_bytes [0, checksum6 L [0, 0]] g"
  define p3 where "p3 = (sent_with L (test_message L) p2)\<lparr>st_startup := (st_startup p2)\<lparr>su_step := STARTUP_STEP_AWAIT_RESPONSE\<rparr>\<rparr>"
  have p3: "iolink_master_process L p2 g = Some (p3, g3)" "attached L phy p3"
    using process_test_attached [OF p2(2) _ _ frames sent(2), of g] attached_sent(1) [OF p2(2), of "test_message L"] p1(4)
    by (simp_all add: p3_def g3_def p2_def test_message_def)
  have q3: "consumes demo_phy_recv_byte [0, checksum6 L [0, 0]] g3 (all_read g3)" "length (g_rx_queue (all_read g3)) = 64"
    using queue_bytes_consumed [of "[0, checksum6 L [0, 0]]" g] g by (simp_all add: g3_def)
  have s3: "st_state p3 = STATE_STARTUP" "su_step (st_startup p3) = STARTUP_STEP_AWAIT_RESPONSE"
    using p1(4) by (simp_all add: p3_def p2_def)
  obtain r where r: "attached L phy (p3\<lparr>st_rx := r\<rparr>)"
    "iolink_master_poll_rx L p3 g3 = Some (1, test_accepted 0 (p3\<lparr>st_rx := r\<rparr>), all_read g3)"
    by (rule poll_test_reply [OF p3(2) s3 recv q3(1) all_read_drained n sums(1)])
  define p4 where "p4 = test_accepted 0 (p3\<lparr>st_rx := r\<rparr>)"
  have p4: "attached L phy p4" "services_idle p4" "cyclic_message L p4 = loopback_request L"
    "st_config p4 = loopback_config" "st_state p4 = STATE_PREOPERATE"
    using attached_accepted(1) [OF r(1)] p1 by (simp_all add: p4_def p3_def p2_def)
  have checked: "\<not> iolink_master_startup_validation_required (st_config p4)"
    by (simp add: p4(4) iolink_master_startup_validation_required_def loopback_config_def zero_config_def)
  define g5 where "g5 = queue_bytes [0x2D] (all_read g3)"
  define p5 where "p5 = (sent_with L (operate_command L) p4)\<lparr>st_startup := (st_startup p4)\<lparr>su_step := STARTUP_STEP_AWAIT_OPERATE_ACK\<rparr>\<rparr>"
  have p5: "iolink_master_process L p4 (all_read g3) = Some (p5, g5)" "attached L phy p5"
    using process_preoperate_attached [OF p4(1,2,5) frames sent(3) checked, of "all_read g3"]
      attached_sent(1) [OF p4(1), of "operate_command L"]
    by (simp_all add: p5_def g5_def operate_command_def)
  have q5: "consumes demo_phy_recv_byte [0x2D] g5 (all_read g5)" "length (g_rx_queue (all_read g5)) = 64"
    using queue_bytes_consumed [of "[0x2D]" "all_read g3"] q3(2) by (simp_all add: g5_def)
  have s5: "st_state p5 = STATE_PREOPERATE" "su_step (st_startup p5) = STARTUP_STEP_AWAIT_OPERATE_ACK"
    using p4(5) by (simp_all add: p5_def)
  obtain r' where r': "attached L phy (p5\<lparr>st_rx := r'\<rparr>)"
    "iolink_master_poll_rx L p5 g5 = Some (1, ack_accepted 0x2D (p5\<lparr>st_rx := r'\<rparr>), all_read g5)"
    by (rule poll_ack [OF p5(2) s5 recv q5(1) all_read_drained sums(2)])
  show ?thesis
    by (rule that [OF p2(1) [unfolded p1_def] p3(1) r(2) [folded p4_def] p4(5) p5(1) r'(2)])
      (use attached_accepted(2) [OF r'(1)] p4 q5(2) in \<open>simp_all add: p5_def\<close>)
qed

text \<open>The exchange in OPERATE.\<close>

lemma loopback_exchange:
  assumes L: "loopback_stack L resp" and phy: "loopback_line L phy"
    and p: "attached L phy p" "services_idle p" "cyclic_message L p = loopback_request L"
      "st_config p = loopback_config" "st_state p = STATE_OPERATE" "length (g_rx_queue g) = 64"
  obtains p1 g1 p2 g2 where
    "iolink_master_process L p g = Some (p1, g1)" and "iolink_master_poll_rx L p1 g1 = Some (1, p2, g2)"
    and "iolink_master_get_pd_in [0] 1 p2 = Some (STATUS_OK, [0x5A], 1)" and "st_state p2 = STATE_OPERATE"
    and "iolink_master_get_od_status p2 = (STATUS_OK, resp_status resp)"
proof -
  have const: "stack_constants_ok L" and frames: "type0_frames_ok L" "stack_frames_ok L"
    and resp: "frame_decode_operate_response L [0x5A, checksum6 L [0x5A, 0]] 1 0 = Some resp"
      "resp_checksum_ok resp" "resp_pd_valid resp" "resp_pd resp = [0x5A]"
    using L by (simp_all add: loopback_stack_def iolinki_ok_def)
  have recv: "phy_recv_byte phy = Some demo_phy_recv_byte"
    and sent: "accepts phy (loopback_request L) g (queue_bytes [0x5A, checksum6 L [0x5A, 0]] g)"
    using phy by (simp_all add: loopback_line_def)
  define g1 where "g1 = queue_bytes [0x5A, checksum6 L [0x5A, 0]] g"
  define p1 where "p1 = (sent_with L (loopback_request L) p)\<lparr>st_cycle_count := st_cycle_count p + 1\<rparr>"
  have p1: "iolink_master_process L p g = Some (p1, g1)" "attached L phy p1"
    using process_cycle_attached [OF const frames(1) p(1,2,5) sent [folded p(3)]] attached_sent(1) [OF p(1), of "loopback_request L"]
    by (simp_all add: p1_def g1_def p(3) loopback_request_def)
  have request: "hd (loopback_request L) AND MC_RW_MASK L = 0"
    using const by (simp add: loopback_request_def message_def iolink_master_encode_master_command_def stack_constants_ok_def)
  have config: "cfg_pd_in_len (st_config p1) = 1" "cfg_event_pending_handler (st_config p1) = None"
    "\<not> type0_operate p1" "\<not> st_rx_od_expected p1" "services_idle p1" "st_state p1 = STATE_OPERATE"
    using p request by (simp_all add: p1_def type0_operate_def loopback_config_def zero_config_def)
  have queue: "consumes demo_phy_recv_byte [0x5A, checksum6 L [0x5A, 0]] g1 (all_read g1)"
    using queue_bytes_consumed [of "[0x5A, checksum6 L [0x5A, 0]]" g] p(6) by (simp add: g1_def)
  have reply: "length [0x5A, checksum6 L [0x5A, 0]] = cfg_pd_in_len (st_config p1) + 1"
    "frame_decode_operate_response L [0x5A, checksum6 L [0x5A, 0]] (cfg_pd_in_len (st_config p1)) 0 = Some resp"
    using resp config by simp_all
  obtain r where r: "iolink_master_poll_rx L p1 g1 = Some (1, reply_stored resp (p1\<lparr>st_rx := r\<rparr>), all_read g1)"
    "attached L phy (reply_stored resp (p1\<lparr>st_rx := r\<rparr>))"
    by (rule poll_pd_reply [OF const frames(2) p1(2) config(5,6,3,4,2) recv queue all_read_drained reply resp(2,3)])
  show ?thesis
  proof (rule that [OF p1(1) r(1)])
    show "iolink_master_get_pd_in [0] 1 (reply_stored resp (p1\<lparr>st_rx := r\<rparr>)) = Some (STATUS_OK, [0x5A], 1)"
      by (simp add: iolink_master_get_pd_in_def reply_stored_def resp(4) rd_slice_def wr_slice_def)
  qed (simp_all add: config reply_stored_def iolink_master_get_od_status_def)
qed

lemma demo_line:
  assumes L: "loopback_stack L resp"
  shows "loopback_line L (g_demo_phy L)"
proof -
  have "stack_constants_ok L" "M_SEQ_MIN_LEN L = 3"
    using L by (simp_all add: loopback_stack_def iolinki_ok_def)
  then show ?thesis
    by (simp add: loopback_line_def g_demo_phy_def accepts_def demo_phy_send_def stack_constants_ok_def
        test_message_def operate_command_def loopback_request_def message_def
        iolink_master_encode_master_command_def Let_def)
qed

lemma started_queue: "length (g_rx_queue g) = 64 \<Longrightarrow> length (g_rx_queue (started g)) = 64"
  by (simp add: started_def)

text \<open>
  C31. The loopback demo succeeds. With every device stack that has the documented frame
  layout and that accepts the two replies the demo has hard-coded, the program exits with 0
  and prints the OPERATE state, the process data 0x5A of the device and the status octet of
  the reply, whatever its uninitialised port holds.
\<close>

theorem loopback_demo_exits_0:
  assumes "loopback_stack L resp"
  shows "loopback_main L port loopback_start = Some (0, Some (STATE_OPERATE, 0x5A, resp_status resp))"
proof -
  note phy = demo_line [OF assms]
  define g where "g = started loopback_start"
  have g: "length (g_rx_queue g) = 64" by (simp add: g_def started_def loopback_start_def)
  obtain p2 p3 p4 p5 p6 g3 g4 g5 g6 where up:
    "iolink_master_process L (loopback_port L (g_demo_phy L)) g = Some (p2, g)"
    "iolink_master_process L p2 g = Some (p3, g3)"
    "iolink_master_poll_rx L p3 g3 = Some (1, p4, g4)" "st_state p4 = STATE_PREOPERATE"
    "iolink_master_process L p4 g4 = Some (p5, g5)"
    "iolink_master_poll_rx L p5 g5 = Some (1, p6, g6)" "st_state p6 = STATE_OPERATE"
    and p6: "attached L (g_demo_phy L) p6" "services_idle p6" "cyclic_message L p6 = loopback_request L"
      "st_config p6 = loopback_config" "length (g_rx_queue g6) = 64"
    by (rule loopback_to_operate [OF assms phy g])
  obtain p7 g7 p8 g8 where
    "iolink_master_process L p6 g6 = Some (p7, g7)" "iolink_master_poll_rx L p7 g7 = Some (1, p8, g8)"
    "iolink_master_get_pd_in [0] 1 p8 = Some (STATUS_OK, [0x5A], 1)" "st_state p8 = STATE_OPERATE"
    "iolink_master_get_od_status p8 = (STATUS_OK, resp_status resp)"
    by (rule loopback_exchange [OF assms phy p6(1-4) up(7) p6(5)])
  moreover have "g_mode g = PHY_MODE_SDCI" "g_baudrate g = BAUDRATE_COM3"
    by (simp_all add: g_def started_def)
  ultimately show ?thesis
    using up loopback_init(1) [OF assms phy, of port loopback_start] loopback_init(2) [OF assms phy]
    by (simp add: loopback_main_def loopback_read_back_def iolink_master_get_state_def g_def)
qed

lemma demo_loopback_stack:
  "loopback_stack demo_stack (the (demo_decode_operate_response [0x5A, 34] 1 0))" (is "loopback_stack _ ?resp")
proof -
  have sums: "demo_checksum6 [0x5A, 0] = 34" "demo_checksum6 [0] = 0x2D"
    by (simp_all add: demo_checksum6_def bit_iff_odd_drop_bit Let_def)
  then have "checksum6 demo_stack [0x5A, 0] = 34" "checksum6 demo_stack [0] = 0x2D"
    by (simp_all add: demo_stack_def)
  moreover have "frame_decode_operate_response demo_stack [0x5A, 34] 1 0 = Some ?resp"
    "resp_checksum_ok ?resp" "resp_pd_valid ?resp" "resp_pd ?resp = [0x5A]"
    using sums by (simp_all add: demo_stack_def demo_decode_operate_response_def Let_def bit_iff_odd_drop_bit)
  moreover have "checksum6 demo_stack octets < 64" for octets
    using demo_checksum6_small by (simp add: demo_stack_def)
  moreover have "M_SEQ_MIN_LEN demo_stack = 3" "1 \<le> PD_IN_MAX_SIZE demo_stack" "1 \<le> PD_OUT_MAX_SIZE demo_stack"
    by (simp_all add: demo_stack_def)
  ultimately show ?thesis
    using demo_stack_ok demo_frames by (simp add: loopback_stack_def)
qed

theorem loopback_demo_exits_0_witness:
  "loopback_main demo_stack (zero_port demo_stack) loopback_start = Some (0, Some (STATE_OPERATE, 0x5A, 34))"
  using loopback_demo_exits_0 [OF demo_loopback_stack] by (simp add: demo_decode_operate_response_def Let_def)

end
