(* ===== verification/MasterSample.thy ===== *)
theory MasterSample
  imports MasterLoopback
begin

text \<open>
  The Zephyr sample, \<open>samples/iolink_master/src/main.c\<close>. It has its own copy of the PHY of
  the loopback demo, with one more branch: a READ of four octets is answered with an OD octet.
  Its \<open>main\<close> checks the states the port goes through and not the results of the polls, and
  returns 0 or -1. The file-scope state and the configuration are those of the demo; the log
  messages are left out but for the last, whose three values are part of the result.
\<close>

definition sample_queue_bytes :: "u8 list \<Rightarrow> loopback_state \<Rightarrow> loopback_state" where
  "sample_queue_bytes octets g =
     g\<lparr>g_rx_queue := octets @ drop (length octets) (g_rx_queue g), g_rx_len := length octets,
       g_rx_pos := 0\<rparr>"

definition sample_phy_init :: "loopback_state \<Rightarrow> int \<times> loopback_state" where
  "sample_phy_init g =
     (0, g\<lparr>g_rx_len := 0, g_rx_pos := 0, g_baudrate := BAUDRATE_COM3, g_mode := PHY_MODE_INACTIVE\<rparr>)"

definition sample_phy_set_mode :: "iolink_phy_mode_t \<Rightarrow> loopback_state \<Rightarrow> loopback_state" where
  "sample_phy_set_mode mode g = g\<lparr>g_mode := mode\<rparr>"

definition sample_phy_set_baudrate :: "iolink_baudrate_t \<Rightarrow> loopback_state \<Rightarrow> loopback_state" where
  "sample_phy_set_baudrate baudrate g = g\<lparr>g_baudrate := baudrate\<rparr>"

definition sample_phy_recv_byte :: "loopback_state \<Rightarrow> int \<times> u8 \<times> loopback_state" where
  "sample_phy_recv_byte g =
     (if g_rx_pos g \<ge> g_rx_len g then (0, 0, g)
      else (1, g_rx_queue g ! g_rx_pos g, g\<lparr>g_rx_pos := trunc8 (g_rx_pos g + 1)\<rparr>))"

definition sample_phy_send :: "iolinki \<Rightarrow> u8 list \<Rightarrow> loopback_state \<Rightarrow> int \<times> loopback_state" where
  "sample_phy_send L octets g =
     (let len = length octets
      in if len = 0 then (-1, g)
         else if len = 1 \<and> octets ! 0 = 0x55 then (int len, g)
         else if len = M_SEQ_TYPE0_LEN L \<and> octets ! 0 AND MC_RW_MASK L \<noteq> 0 \<and>
                 octets ! 0 AND MC_COMM_CHANNEL_MASK L = 0x20
         then (int len, sample_queue_bytes [0x00, checksum6 L [0x00, 0]] g)
         else if len = M_SEQ_MIN_LEN L \<and> octets ! 0 = 0x20 \<and>
                 octets ! M_SEQ_HEADER_LEN L = CMD_DEVICE_OPERATE L
         then (int len, sample_queue_bytes [0x2D] g)
         else if len = 4
         then if octets ! 0 AND MC_RW_MASK L \<noteq> 0
              then (int len, sample_queue_bytes [0x00, 0x5A, checksum6 L [0x00, 0x5A, 0]] g)
              else (int len, sample_queue_bytes [0x5A, checksum6 L [0x5A, 0]] g)
         else (-1, g))"

definition sample_phy :: "iolinki \<Rightarrow> loopback_state iolink_phy_api_t" where
  "sample_phy L =
     \<lparr>phy_init = Some sample_phy_init, phy_set_mode = Some sample_phy_set_mode,
      phy_set_baudrate = Some sample_phy_set_baudrate, phy_send = Some (sample_phy_send L),
      phy_recv_byte = Some sample_phy_recv_byte, phy_set_cq_line = None, phy_get_voltage_mv = None,
      phy_is_short_circuit = None\<rparr>"

definition sample_main ::
  "iolinki \<Rightarrow> loopback_state iolink_master_port_state_t \<Rightarrow> loopback_state \<Rightarrow> exit_result option" where
  "sample_main L port g = do {
     (ret, port, g) \<leftarrow> iolink_master_init L (Some (sample_phy L)) (Some loopback_config) port g;
     if ret \<noteq> 0 then Some (-1, None)
     else if g_mode g \<noteq> PHY_MODE_SDCI \<or> g_baudrate g \<noteq> BAUDRATE_COM3 then Some (-1, None)
     else do {
       (ret, port) \<leftarrow> iolink_master_set_pd_out L (Some [0x11]) 1 port;
       if ret \<noteq> 0 then Some (-1, None)
       else do {
         (port, g) \<leftarrow> iolink_master_process L port g;
         (port, g) \<leftarrow> iolink_master_process L port g;
         (_, port, g) \<leftarrow> iolink_master_poll_rx L port g;
         if iolink_master_get_state port \<noteq> STATE_PREOPERATE then Some (-1, None)
         else do {
           (port, g) \<leftarrow> iolink_master_process L port g;
           (_, port, g) \<leftarrow> iolink_master_poll_rx L port g;
           if iolink_master_get_state port \<noteq> STATE_OPERATE then Some (-1, None)
           else do {
             (port, g) \<leftarrow> iolink_master_process L port g;
             (_, port, g) \<leftarrow> iolink_master_poll_rx L port g;
             (ret, pd_in, pd_in_len) \<leftarrow> iolink_master_get_pd_in [0] 1 port;
             if ret \<noteq> 0 then Some (-1, None)
             else let (_, od_status) = iolink_master_get_od_status port
                  in Some (0, Some (iolink_master_get_state port, pd_in ! 0, od_status))
           }
         }
       }
     }
   }"

text \<open>The copies are copies, and the frames a master without services sends see no difference.\<close>

lemma sample_copies:
  "sample_queue_bytes = queue_bytes" "sample_phy_init = demo_phy_init"
  "sample_phy_set_mode = demo_phy_set_mode" "sample_phy_set_baudrate = demo_phy_set_baudrate"
  "sample_phy_recv_byte = demo_phy_recv_byte"
  by (simp_all add: fun_eq_iff sample_queue_bytes_def queue_bytes_def sample_phy_init_def demo_phy_init_def
      sample_phy_set_mode_def demo_phy_set_mode_def sample_phy_set_baudrate_def demo_phy_set_baudrate_def
      sample_phy_recv_byte_def demo_phy_recv_byte_def)

lemma sample_line:
  assumes L: "loopback_stack L resp"
  shows "loopback_line L (sample_phy L)"
proof -
  have "stack_constants_ok L" "M_SEQ_MIN_LEN L = 3"
    using L by (simp_all add: loopback_stack_def iolinki_ok_def)
  then show ?thesis
    by (simp add: loopback_line_def sample_phy_def sample_copies accepts_def sample_phy_send_def
        stack_constants_ok_def test_message_def operate_command_def loopback_request_def message_def
        iolink_master_encode_master_command_def Let_def)
qed

text \<open>
  The Zephyr sample succeeds: it returns 0 and logs the OPERATE state, the process data
  0x5A and the status octet of the reply, for the stacks the loopback demo succeeds with.
\<close>

theorem sample_returns_0:
  assumes "loopback_stack L resp"
  shows "sample_main L port loopback_start = Some (0, Some (STATE_OPERATE, 0x5A, resp_status resp))"
proof -
  note phy = sample_line [OF assms]
  define g where "g = started loopback_start"
  have g: "length (g_rx_queue g) = 64" by (simp add: g_def started_def loopback_start_def)
  obtain p2 p3 p4 p5 p6 g3 g4 g5 g6 where up:
    "iolink_master_process L (loopback_port L (sample_phy L)) g = Some (p2, g)"
    "iolink_master_process L p2 g = Some (p3, g3)"
    "iolink_master_poll_rx L p3 g3 = Some (1, p4, g4)" "st_state p4 = STATE_PREOPERATE"
    "iolink_master_process L p4 g4 = Some (p5, g5)"
    "iolink_master_poll_rx L p5 g5 = Some (1, p6, g6)" "st_state p6 = STATE_OPERATE"
    and p6: "attached L (sample_phy L) p6" "services_idle p6" "cyclic_message L p6 = loopback_request L"
      "st_config p6 = loopback_config" "length (g_rx_queue g6) = 64"
    by (rule loopback_to_operate [OF assms phy g])
  obtain p7 g7 p8 g8 where
    "iolink_master_process L p6 g6 = Some (p7, g7)" "iolink_master_poll_rx L p7 g7 = Some (1, p8, g8)"
    "iolink_master_get_pd_in [0] 1 p8 = Some (STATUS_OK, [0x5A], 1)" "st_state p8 = STATE_OPERATE"
    "iolink_master_get_od_status p8 = (STATUS_OK, resp_status resp)"
    by (rule loopback_exchange [OF assms phy p6(1-4) up(7) p6(5)])
  moreover have "g_mode g = PHY_MODE_SDCI" "g_baudrate g = BAUDRATE_COM3"
    by (simp_all add: g_def started_def)
  ultimately show ?thesis
    using up loopback_init(1) [OF assms phy, of port loopback_start] loopback_init(2) [OF assms phy]
    by (simp add: sample_main_def iolink_master_get_state_def g_def)
qed

theorem sample_returns_0_witness:
  "sample_main demo_stack (zero_port demo_stack) loopback_start = Some (0, Some (STATE_OPERATE, 0x5A, 34))"
  using sample_returns_0 [OF demo_loopback_stack] by (simp add: demo_decode_operate_response_def Let_def)

end
