(* ===== verification/MasterFourPort.thy ===== *)
theory MasterFourPort
  imports MasterController MasterLine
begin

text \<open>
  The controller demo, \<open>examples/master_4port_controller_demo.c\<close>: four ports in the four port
  modes under one controller. The environment is the file-scope state of the program; the
  PHY functions are never called with NULL. The result of \<open>main\<close> is its exit code and, when
  it reaches its last line, what that line prints: the frames sent, the DI and the DQ level.
\<close>

subsection \<open>The PHYs\<close>

record four_port_state =
  g_iolink_sends :: int
  g_dq_level :: int
  g_di_level :: int
  g_modes :: "iolink_phy_mode_t list"

definition four_port_start :: four_port_state where
  "four_port_start = \<lparr>g_iolink_sends = 0, g_dq_level = 0, g_di_level = 1,
     g_modes = replicate 4 PHY_MODE_INACTIVE\<rparr>"

definition phy0_send :: "u8 list \<Rightarrow> four_port_state \<Rightarrow> int \<times> four_port_state" where
  "phy0_send octets g =
     (if length octets = 0 then (-1, g)
      else (int (length octets), g\<lparr>g_iolink_sends := g_iolink_sends g + 1\<rparr>))"

definition phy0_set_mode :: "iolink_phy_mode_t \<Rightarrow> four_port_state \<Rightarrow> four_port_state" where
  "phy0_set_mode mode g = g\<lparr>g_modes := (g_modes g)[0 := mode]\<rparr>"

definition phy1_set_mode :: "iolink_phy_mode_t \<Rightarrow> four_port_state \<Rightarrow> four_port_state" where
  "phy1_set_mode mode g = g\<lparr>g_modes := (g_modes g)[1 := mode]\<rparr>"

definition phy2_set_mode :: "iolink_phy_mode_t \<Rightarrow> four_port_state \<Rightarrow> four_port_state" where
  "phy2_set_mode mode g = g\<lparr>g_modes := (g_modes g)[2 := mode]\<rparr>"

definition phy3_set_mode :: "iolink_phy_mode_t \<Rightarrow> four_port_state \<Rightarrow> four_port_state" where
  "phy3_set_mode mode g = g\<lparr>g_modes := (g_modes g)[3 := mode]\<rparr>"

definition phy1_read_cq :: "four_port_state \<Rightarrow> int \<times> four_port_state" where
  "phy1_read_cq g = (g_di_level g, g)"

definition phy2_set_cq :: "u8 \<Rightarrow> four_port_state \<Rightarrow> four_port_state" where
  "phy2_set_cq level g = g\<lparr>g_dq_level := (if level \<noteq> 0 then 1 else 0)\<rparr>"

text \<open>The fields an initialiser does not name are NULL or zero.\<close>

definition null_phy :: "'e iolink_phy_api_t" where
  "null_phy = \<lparr>phy_init = None, phy_set_mode = None, phy_set_baudrate = None, phy_send = None,
     phy_recv_byte = None, phy_set_cq_line = None, phy_get_voltage_mv = None,
     phy_is_short_circuit = None\<rparr>"

definition four_phys :: "four_port_state iolink_phy_api_t list" where
  "four_phys =
     [null_phy\<lparr>phy_set_mode := Some phy0_set_mode, phy_send := Some phy0_send\<rparr>,
      null_phy\<lparr>phy_set_mode := Some phy1_set_mode\<rparr>,
      null_phy\<lparr>phy_set_mode := Some phy2_set_mode, phy_set_cq_line := Some phy2_set_cq\<rparr>,
      null_phy\<lparr>phy_set_mode := Some phy3_set_mode\<rparr>]"

definition four_configs :: "four_port_state iolink_master_config_t list" where
  "four_configs =
     [zero_config\<lparr>cfg_port_mode := PORT_MODE_IOLINK, cfg_m_seq_type := M_SEQ_TYPE_0,
        cfg_baudrate := BAUDRATE_COM3, cfg_min_cycle_time := 20\<rparr>,
      zero_config\<lparr>cfg_port_mode := PORT_MODE_DI, cfg_m_seq_type := M_SEQ_TYPE_0,
        cfg_baudrate := BAUDRATE_COM3, cfg_read_cq_line := Some phy1_read_cq\<rparr>,
      zero_config\<lparr>cfg_port_mode := PORT_MODE_DQ, cfg_m_seq_type := M_SEQ_TYPE_0,
        cfg_baudrate := BAUDRATE_COM3\<rparr>,
      zero_config\<lparr>cfg_port_mode := PORT_MODE_DEACTIVATED, cfg_m_seq_type := M_SEQ_TYPE_0,
        cfg_baudrate := BAUDRATE_COM3\<rparr>]"

subsection \<open>The main function\<close>

text \<open>
  \<open>main\<close> with the four ports zeroed and a controller of any content; the two inner \<open>set_dq\<close>
  and \<open>get_di\<close> calls act on ports of the caller's array, which the controller refers to.
\<close>

definition four_port_main ::
  "iolinki \<Rightarrow> four_port_state iolink_master_controller_state_t \<Rightarrow> four_port_state \<Rightarrow>
   (int \<times> (int \<times> int \<times> int) option) option" where
  "four_port_main L controller g = do {
     let ports = replicate 4 (zero_port L);
     let g = g\<lparr>g_modes := replicate 4 PHY_MODE_INACTIVE\<rparr>;
     (ret, controller, g) \<leftarrow> iolink_master_controller_init L ports 4 four_phys four_configs controller g;
     if ret \<noteq> STATUS_OK then Some (1, None)
     else if g_modes g ! 0 \<noteq> PHY_MODE_SDCI \<or> g_modes g ! 1 \<noteq> PHY_MODE_SIO \<or>
             g_modes g ! 2 \<noteq> PHY_MODE_SIO \<or> g_modes g ! 3 \<noteq> PHY_MODE_INACTIVE
     then Some (2, None)
     else do {
       port1 \<leftarrow> rd (cs_ports controller) 1;
       (ret, di_level, g) \<leftarrow> iolink_master_get_di False port1 g;
       if ret \<noteq> STATUS_OK then Some (3, None)
       else if \<not> di_level then Some (4, None)
       else do {
         port2 \<leftarrow> rd (cs_ports controller) 2;
         let (ret, g) = iolink_master_set_dq True port2 g;
         if ret \<noteq> STATUS_OK then Some (5, None)
         else if g_dq_level g \<noteq> 1 then Some (6, None)
         else do {
           (ret, controller, g) \<leftarrow> iolink_master_controller_tick_at L 100 controller g;
           if ret \<noteq> STATUS_OK then Some (7, None)
           else if g_iolink_sends g \<noteq> 1 then Some (8, None)
           else Some (0, Some (g_iolink_sends g, if di_level then 1 else 0, g_dq_level g))
         }
       }
     }
   }"

subsection \<open>The run\<close>

text \<open>The four ports after their initialisation.\<close>

definition four_ports :: "iolinki \<Rightarrow> four_port_state iolink_master_port_state_t list" where
  "four_ports L = map (\<lambda>(phy, config). initial_port L phy config) (zip four_phys four_configs)"

lemma four_init:
  "iolink_master_controller_init L (replicate 4 (zero_port L)) 4 four_phys four_configs c
     (g\<lparr>g_modes := replicate 4 PHY_MODE_INACTIVE\<rparr>) =
   Some (STATUS_OK, \<lparr>cs_ports = four_ports L, cs_port_count = 4\<rparr>,
     g\<lparr>g_modes := [PHY_MODE_SDCI, PHY_MODE_SIO, PHY_MODE_SIO, PHY_MODE_INACTIVE]\<rparr>)"
proof -
  have idx: "[0..<4] = [0, 1, 2, 3]" by (simp add: upt_rec)
  have init: "iolink_master_init L (Some phy) (Some config) p e =
     Some (STATUS_OK, initial_port L phy config,
       (case phy_set_mode phy of None \<Rightarrow> e | Some set_mode \<Rightarrow> set_mode
         (if cfg_port_mode config = PORT_MODE_DEACTIVATED then PHY_MODE_INACTIVE
          else if cfg_port_mode config = PORT_MODE_DI \<or> cfg_port_mode config = PORT_MODE_DQ then PHY_MODE_SIO
          else PHY_MODE_SDCI) e))"
    if "config \<in> set four_configs" "phy_init phy = None" "phy_set_baudrate phy = None" for phy config p and e :: four_port_state
    using that
    by (auto simp: four_configs_def iolink_master_init_def init_args_ok_def init_step_def call_hook_def zero_config_def
        initial_port_def zero_port_def iolink_master_flush_rx_def iolink_master_startup_baudrate_def
        iolink_master_set_baudrate_def iolink_master_set_mode_def Let_def)
  show ?thesis
    by (simp add: iolink_master_controller_init_def idx rd_def four_phys_def four_configs_def init null_phy_def
        four_ports_def phy0_set_mode_def phy1_set_mode_def phy2_set_mode_def phy3_set_mode_def numeral_eq_Suc)
qed

text \<open>A port that cannot send is not changed by a tick.\<close>

lemma tick_at_mute:
  assumes "st_phy p = Some phy" "phy_recv_byte phy = None" "phy_send phy = None"
    and "\<not> st_awaiting_response p" "st_state p \<noteq> STATE_OPERATE"
  shows "iolink_master_tick_at L TICK_CYCLE_DUE now p e = Some (STATUS_OK, p, e)"
  using assms
  by (simp add: iolink_master_tick_at_def iolink_master_tick_common_def iolink_master_poll_rx_def tick_cycle_def
      iolink_master_process_at_def can_send_def)

text \<open>The port in IO-Link mode sends its wake-up request.\<close>

lemma tick_at_waking:
  assumes phy: "attached L phy p" "phy_recv_byte phy = None" and sent: "accepts phy [0x55] e e'"
    and state: "st_state p = STATE_STARTUP" "su_step (st_startup p) = STARTUP_STEP_WAKE" "\<not> st_send_ready_valid p"
  shows "ensures (iolink_master_tick_at L TICK_CYCLE_DUE now p e) (\<lambda>(ret, p', e''). ret = STATUS_OK \<and> e'' = e')"
proof -
  have len: "length (st_tx_buf p) = 64" and hook: "cfg_wake_up (st_config p) = None" and idle: "\<not> st_awaiting_response p"
    and set: "st_phy p = Some phy"
    using phy(1) by (simp_all add: attached_def port_wf_defs)
  have buf: "p\<lparr>st_tx_buf := (st_tx_buf p)[0 := 0x55]\<rparr> = tx_with [0x55] p"
    using len by (cases "st_tx_buf p") (simp_all add: tx_with_def)
  have wake: "iolink_master_wake_up L p e = Some (True, sent_with L [0x55] p, e')"
    using attached_sent(3) [OF phy(1), of "[0x55]" e e'] sent len hook
    by (simp add: iolink_master_wake_up_def wr_def buf)
  define q where "q = (sent_with L [0x55] p)\<lparr>st_startup := (st_startup p)\<lparr>su_step := STARTUP_STEP_SEND_TYPE0\<rparr>\<rparr>"
  have "attached L phy q" using attached_sent(1) [OF phy(1), of "[0x55]"] by (simp add: q_def)
  then obtain b where b: "iolink_master_startup_baudrate q = Some b"
    using startup_baudrate_defined by (auto simp: attached_def)
  have "iolink_master_process_at L now True p e =
      Some (iolink_master_arm_send_gate now (5 + iolink_master_t_dmt_100us q b) True q, e')"
    using state attached_can_send [OF phy(1) sent] wake b
    by (simp add: iolink_master_process_at_def process_startup_def process_wake_def Let_def flip: q_def)
  moreover have "st_cycle_count (iolink_master_arm_send_gate now (5 + iolink_master_t_dmt_100us q b) True q) = st_cycle_count p"
    by (simp add: iolink_master_arm_send_gate_def q_def)
  ultimately show ?thesis
    using set phy(2) idle state(1)
    by (simp add: iolink_master_tick_at_def iolink_master_tick_common_def iolink_master_poll_rx_def tick_cycle_def
        iolink_master_cycle_due_at_def cycle_unpaced_def)
qed

text \<open>
  C32. The controller demo succeeds. With every device stack that has the documented
  constants, the program exits with 0: the four PHYs have been set to SDCI, SIO, SIO and
  inactive, the DI port reads the high level, the DQ port drives it, the first tick of the
  controller sends exactly one frame on the IO-Link port, and these values are printed.
\<close>

theorem four_port_demo_exits_0:
  assumes "stack_constants_ok L"
  shows "four_port_main L controller four_port_start = Some (0, Some (1, 1, 1))"
proof -
  define ports where "ports = four_ports L"
  define g where "g = four_port_start\<lparr>g_modes := [PHY_MODE_SDCI, PHY_MODE_SIO, PHY_MODE_SIO, PHY_MODE_INACTIVE],
      g_dq_level := 1\<rparr>"
  have ports: "ports = [ports ! 0, ports ! 1, ports ! 2, ports ! 3]"
    by (simp add: ports_def four_ports_def four_phys_def four_configs_def numeral_eq_Suc)
  have "init_args_ok L (Some (four_phys ! 0)) (Some (four_configs ! 0))"
    by (simp add: init_args_ok_def four_configs_def zero_config_def four_phys_def)
  from initial_port_wf [OF assms this] have attached: "attached L (four_phys ! 0) (ports ! 0)"
    by (simp add: attached_def ports_def four_ports_def four_phys_def four_configs_def)
      (simp add: initial_port_def zero_port_def zero_config_def)
  have sent: "accepts (four_phys ! 0) [0x55] g (g\<lparr>g_iolink_sends := 1\<rparr>)"
    by (simp add: accepts_def four_phys_def phy0_send_def g_def four_port_start_def)
  have waking: "st_state (ports ! 0) = STATE_STARTUP" "su_step (st_startup (ports ! 0)) = STARTUP_STEP_WAKE"
    "\<not> st_send_ready_valid (ports ! 0)" "phy_recv_byte (four_phys ! 0) = None"
    by (simp_all add: ports_def four_ports_def four_phys_def four_configs_def initial_port_def zero_port_def
        zero_config_def null_phy_def)
  obtain p0 where p0: "iolink_master_tick_at L TICK_CYCLE_DUE 100 (ports ! 0) g = Some (STATUS_OK, p0, g\<lparr>g_iolink_sends := 1\<rparr>)"
    using tick_at_waking [OF attached waking(4) sent waking(1-3), of 100] by (auto elim!: ensuresE)
  have mute: "iolink_master_tick_at L TICK_CYCLE_DUE 100 (ports ! i) e = Some (STATUS_OK, ports ! i, e)"
    if "i \<in> {1, 2, 3}" for i e
    by (rule tick_at_mute [where phy = "four_phys ! i"])
      (use that in \<open>auto simp: ports_def four_ports_def four_phys_def four_configs_def initial_port_def
        zero_port_def zero_config_def null_phy_def\<close>)
  have "\<not> iolink_master_response_due_at (ports ! i) 100" if "i < 4" for i
    using that by (auto simp: ports_def four_ports_def four_phys_def four_configs_def initial_port_def
        zero_port_def iolink_master_response_due_at_def nth_Cons')
  then have tick: "iolink_master_controller_tick_at L 100 \<lparr>cs_ports = ports, cs_port_count = 4\<rparr> g =
      Some (STATUS_OK, \<lparr>cs_ports = [p0, ports ! 1, ports ! 2, ports ! 3], cs_port_count = 4\<rparr>, g\<lparr>g_iolink_sends := 1\<rparr>)"
    using p0 mute
    by (subst ports) (simp add: iolink_master_controller_tick_at_def upt_rec rd_def numeral_eq_Suc)
  have di: "iolink_master_get_di False (ports ! 1) e = Some (STATUS_OK, g_di_level e \<noteq> 0, e)" if "0 \<le> g_di_level e" for e
    using that by (simp add: iolink_master_get_di_def ports_def four_ports_def four_phys_def four_configs_def initial_port_def
        zero_port_def zero_config_def phy1_read_cq_def)
  have dq: "iolink_master_set_dq True (ports ! 2) e = (STATUS_OK, e\<lparr>g_dq_level := 1\<rparr>)" for e
    by (simp add: iolink_master_set_dq_def ports_def four_ports_def four_phys_def four_configs_def initial_port_def
        zero_port_def zero_config_def phy2_set_cq_def)
  have rd: "rd ports 1 = Some (ports ! 1)" "rd ports 2 = Some (ports ! 2)"
    by (subst (1) ports; simp add: rd_def)+
  show ?thesis
    using tick di [of "four_port_start\<lparr>g_modes := [PHY_MODE_SDCI, PHY_MODE_SIO, PHY_MODE_SIO, PHY_MODE_INACTIVE]\<rparr>"] dq rd
    by (simp add: four_port_main_def four_init [of L controller four_port_start] ports_def [symmetric])
      (simp add: g_def four_port_start_def numeral_eq_Suc)
qed

theorem four_port_demo_exits_0_witness:
  "four_port_main demo_stack \<lparr>cs_ports = [], cs_port_count = 0\<rparr> four_port_start = Some (0, Some (1, 1, 1))"
  by (rule four_port_demo_exits_0 [OF demo_stack_constants])

end
