(* ===== verification/MasterWire.thy ===== *)
theory MasterWire
  imports MasterHandshake MasterBlock
begin

text \<open>
  ISDU services over the wire: the API, the tick engine, the message frames and the replies
  together (\<open>src/master_isdu.c\<close>, lines 196-592, and \<open>src/master_port.c\<close>, lines 238-350,
  916-1110 and 1285-1386). A tick of an OPERATE port is one step of the transport of
  \<open>MasterIsdu\<close>, so the services of a port that is ticked against a device on the line keep
  the contract of \<open>MasterBlock\<close>.

  The environment is the queue of the octets that have arrived and the state of the device.
\<close>

subsection \<open>A device on the line\<close>

definition wire_phy ::
  "(u8 list \<Rightarrow> 'd \<Rightarrow> u8 list \<times> 'd) \<Rightarrow> (u8 list \<times> 'd) iolink_phy_api_t" where
  "wire_phy device =
     \<lparr>phy_init = None, phy_set_mode = None, phy_set_baudrate = None,
      phy_send = Some (\<lambda>msg (queue, d). let (answer, d) = device msg d in (int (length msg), queue @ answer, d)),
      phy_recv_byte = Some queue_recv, phy_set_cq_line = None, phy_get_voltage_mv = None,
      phy_is_short_circuit = None\<rparr>"

text \<open>
  A device sees the OD octets of the ISDU channel: \<open>od_device True []\<close> is asked for the octets
  of its answer to a READ, \<open>od_device False od\<close> gets the octets of a WRITE. \<open>reply\<close> builds the
  reply that carries OD octets; a WRITE and a message on another channel get a reply without.
\<close>

definition frame_device ::
  "iolinki \<Rightarrow> nat \<Rightarrow> (u8 list \<Rightarrow> u8 list) \<Rightarrow> (bool \<Rightarrow> u8 list \<Rightarrow> 'd \<Rightarrow> u8 list \<times> 'd) \<Rightarrow>
   u8 list \<Rightarrow> 'd \<Rightarrow> u8 list \<times> 'd" where
  "frame_device L n reply od_device msg d =
     (if iolink_master_mc_channel L (hd msg) = MC_CHANNEL_ISDU
      then if iolink_master_mc_is_read L (hd msg)
           then let (od, d) = od_device True [] d in (reply od, d)
           else (reply [], snd (od_device False (drop (length msg - n) msg) d))
      else (reply [], d))"

text \<open>The decoder of the stack reads the replies of the device.\<close>

definition replies_ok :: "iolinki \<Rightarrow> nat \<Rightarrow> nat \<Rightarrow> (u8 list \<Rightarrow> u8 list) \<Rightarrow> bool" where
  "replies_ok L pd_len n reply \<longleftrightarrow> (\<forall>od. od = [] \<or> length od = n \<longrightarrow>
     length (reply od) = pd_len + length od + 1 \<and>
     (\<exists>resp. frame_decode_operate_response L (reply od) pd_len (length od) = Some resp \<and>
        resp_checksum_ok resp \<and> resp_od resp = od))"

text \<open>An OPERATE port with process data and a device on its line.\<close>

definition on_line ::
  "iolinki \<Rightarrow> (u8 list \<Rightarrow> u8 list) \<Rightarrow> (u8 list \<Rightarrow> 'd \<Rightarrow> u8 list \<times> 'd) \<Rightarrow>
   (u8 list \<times> 'd) iolink_master_port_state_t \<Rightarrow> bool" where
  "on_line L reply device p \<longleftrightarrow> attached L (wire_phy device) p \<and> st_state p = STATE_OPERATE \<and>
     cfg_m_seq_type (st_config p) \<noteq> M_SEQ_TYPE_0 \<and> cfg_event_pending_handler (st_config p) = None \<and>
     replies_ok L (cfg_pd_in_len (st_config p)) (st_od_len p) reply"

text \<open>The port of the ISDU services: no event transfer is in progress.\<close>

definition wired ::
  "iolinki \<Rightarrow> (u8 list \<Rightarrow> u8 list) \<Rightarrow> (bool \<Rightarrow> u8 list \<Rightarrow> 'd \<Rightarrow> u8 list \<times> 'd) \<Rightarrow>
   (u8 list \<times> 'd) iolink_master_port_state_t \<Rightarrow> bool" where
  "wired L reply od_device p \<longleftrightarrow> on_line L reply (frame_device L (st_od_len p) reply od_device) p \<and>
     ev_phase (st_event p) = EVENT_PHASE_NONE"

lemmas wired_defs = wired_def on_line_def

text \<open>
  What the ticks of an OPERATE port leave alone: the block transfer, the gate of the start-up and
  the outputs.
\<close>

abbreviation unticked ::
  "'e iolink_master_port_state_t \<Rightarrow> iolink_master_block_state_t \<times> bool \<times> u32 \<times> u8 list \<times> nat" where
  "unticked p \<equiv> (st_block p, st_send_ready_valid p, st_send_ready_at_100us p, st_pd_out p, st_pd_out_len p)"

lemma wire_recv: "phy_recv_byte (wire_phy device) = Some queue_recv"
  by (simp add: wire_phy_def)

lemma wire_accepts: "accepts (wire_phy device) msg (queue, d) (queue @ fst (device msg d), snd (device msg d))"
  by (simp add: accepts_def wire_phy_def case_prod_unfold Let_def)

text \<open>The OD octets of the reply that is due, none or those of a READ.\<close>

definition due :: "u8 list \<Rightarrow> 'e iolink_master_port_state_t \<Rightarrow> bool" where
  "due od p \<longleftrightarrow> length od = (if st_rx_od_expected p then st_od_len p else 0)"

subsection \<open>Reception\<close>

text \<open>
  The port after a reply with process data and OD octets; \<open>ev\<close> and \<open>isdu\<close> are the engines after
  the octets have been routed.
\<close>

definition od_reply_stored ::
  "iolink_frame_operate_response_t \<Rightarrow> iolink_master_event_state_t \<Rightarrow> iolink_master_isdu_state_t \<Rightarrow>
   'e iolink_master_port_state_t \<Rightarrow> 'e iolink_master_port_state_t" where
  "od_reply_stored resp ev isdu p =
     (let q = p\<lparr>st_diagnostics := (st_diagnostics p)\<lparr>dg_rx_retry_count := 0,
          dg_od_status := resp_status resp, dg_event_pending := resp_event_pending resp\<rparr>,
        st_awaiting_response := False, st_event := ev, st_isdu := isdu\<rparr>
      in if resp_pd_valid resp
         then q\<lparr>st_pd_in := resp_pd resp @ drop (length (resp_pd resp)) (st_pd_in p),
                st_pd_in_len := length (resp_pd resp), st_pd_valid := True\<rparr>
         else q)"

lemma poll_answer_waiting:
  fixes p :: "(u8 list \<times> 'd) iolink_master_port_state_t"
  assumes L: "iolinki_ok L" and p: "on_line L reply device (p\<lparr>st_awaiting_response := False\<rparr>)" and od: "due od p"
    and xs: "length xs = cfg_pd_in_len (st_config p) + length od + 1"
      "frame_decode_operate_response L xs (cfg_pd_in_len (st_config p)) (length od) = Some resp"
      "resp_checksum_ok resp" "resp_od resp = od"
    and route: "\<And>q :: (u8 list \<times> 'd) iolink_master_port_state_t. st_event q = st_event p \<Longrightarrow> st_isdu q = st_isdu p \<Longrightarrow> st_od_len q = st_od_len p \<Longrightarrow>
      iolink_master_route_od L od q = Some (q\<lparr>st_event := ev, st_isdu := isdu\<rparr>)"
    and engines: "event_wf ev" "isdu_wf L isdu"
  obtains p1 where "iolink_master_poll_rx L p (xs, d) = Some (1, p1, [], d)"
    and "on_line L reply device p1" and "st_event p1 = ev" and "st_isdu p1 = isdu"
    and "st_od_len p1 = st_od_len p" and "st_config p1 = st_config p" and "unticked p1 = unticked p"
    and "dg_rx_retry_count (st_diagnostics p1) = 0" and "st_rx_od_expected p1 = st_rx_od_expected p"
proof -
  have const: "stack_constants_ok L" and frames: "stack_frames_ok L"
    using L by (simp_all add: iolinki_ok_def)
  define pd where "pd = cfg_pd_in_len (st_config p)"
  have att: "attached L (wire_phy device) (p\<lparr>st_awaiting_response := False\<rparr>)"
    and state: "st_state p = STATE_OPERATE" "cfg_m_seq_type (st_config p) \<noteq> M_SEQ_TYPE_0"
    and none: "cfg_event_pending_handler (st_config p) = None"
    using p by (simp_all add: on_line_def)
  have len: "od = [] \<or> length od = st_od_len p" "length od = (if st_rx_od_expected p then st_od_len p else 0)"
    using od by (auto simp: due_def split: if_splits)
  have resp: "frame_decode_operate_response L xs pd (length od) = Some resp"
    "resp_checksum_ok resp" "resp_od resp = od" and size: "length xs = pd + length od + 1"
    using xs by (simp_all add: pd_def)
  have lens: "resp_pd_len resp = pd" "length (resp_pd resp) = pd" "resp_od_len resp = length od"
    using frames resp(1) by (force simp: stack_frames_ok_def)+
  have wf: "pd \<le> length (st_pd_in p)" "length (st_pd_in p) = PD_IN_MAX_SIZE L" "st_od_len p \<le> 8"
    using att by (simp_all add: attached_def port_wf_defs pd_def)
  then have small: "pd + length od + 1 \<le> 64" using const len(2) by (auto simp: stack_constants_ok_def)
  have on_rx: "iolink_master_on_rx L (Some (xs)) (p\<lparr>st_rx := r\<rparr>) ([], d) =
      Some (STATUS_OK, od_reply_stored resp ev isdu (p\<lparr>st_rx := r\<rparr>), [], d)" for r
  proof -
    have "iolink_master_on_rx L (Some (xs)) (p\<lparr>st_rx := r\<rparr>) ([], d) =
        on_rx_operate L (xs) (p\<lparr>st_rx := r\<rparr>) ([], d)"
      using state size by (auto simp: iolink_master_on_rx_def type0_operate_def)
    moreover have "(if st_rx_od_expected p then st_od_len (p\<lparr>st_rx := r\<rparr>) else 0) = length od" using len(2) by simp
    ultimately show ?thesis
      using none resp lens wf(1)
      by (cases "resp_pd_valid resp") (simp_all add: on_rx_operate_def rx_accepted_def rx_dispatch_event_def
          rx_store_pd_def rd_slice_def wr_slice_def route Let_def od_reply_stored_def pd_def)
  qed
  have "xs \<noteq> []" using size by auto
  moreover have "rx_expected_len L p = Some (length (xs))" "length (xs) \<le> 64"
    using state size small len(2) by (auto simp: rx_expected_len_def trunc8_def type0_operate_def pd_def)
  moreover have "rx_clear (od_reply_stored resp ev isdu q) = od_reply_stored resp ev isdu (rx_clear q)"
    for q :: "(u8 list \<times> 'd) iolink_master_port_state_t"
    by (simp add: od_reply_stored_def rx_clear_def Let_def)
  ultimately obtain r where r: "attached L (wire_phy device) (p\<lparr>st_awaiting_response := False, st_rx := r\<rparr>)"
    "iolink_master_poll_rx L p (xs, d) = Some (1, od_reply_stored resp ev isdu (p\<lparr>st_rx := r\<rparr>), [], d)"
    by (elim poll_reply_waiting [OF att wire_recv queue_consumes_all _ queue_drained _ _ on_rx])
  have "on_line L reply device (od_reply_stored resp ev isdu (p\<lparr>st_rx := r\<rparr>))"
    using r(1) p wf lens engines
    by (simp add: on_line_def od_reply_stored_def Let_def attached_def port_wf_defs pd_def)
  with r(2) show ?thesis using that by (simp add: od_reply_stored_def Let_def split: if_splits)
qed

lemma poll_on_line_waiting:
  fixes p :: "(u8 list \<times> 'd) iolink_master_port_state_t"
  assumes L: "iolinki_ok L" and p: "on_line L reply device (p\<lparr>st_awaiting_response := False\<rparr>)" and od: "due od p"
    and route: "\<And>q :: (u8 list \<times> 'd) iolink_master_port_state_t. st_event q = st_event p \<Longrightarrow> st_isdu q = st_isdu p \<Longrightarrow> st_od_len q = st_od_len p \<Longrightarrow>
      iolink_master_route_od L od q = Some (q\<lparr>st_event := ev, st_isdu := isdu\<rparr>)"
    and engines: "event_wf ev" "isdu_wf L isdu"
  obtains p1 where "iolink_master_poll_rx L p (reply od, d) = Some (1, p1, [], d)"
    and "on_line L reply device p1" and "st_event p1 = ev" and "st_isdu p1 = isdu"
    and "st_od_len p1 = st_od_len p" and "st_config p1 = st_config p" and "unticked p1 = unticked p"
proof -
  have "od = [] \<or> length od = st_od_len p" using od by (auto simp: due_def split: if_splits)
  then obtain resp where "length (reply od) = cfg_pd_in_len (st_config p) + length od + 1"
    "frame_decode_operate_response L (reply od) (cfg_pd_in_len (st_config p)) (length od) = Some resp"
    "resp_checksum_ok resp" "resp_od resp = od"
    using p by (auto simp: on_line_def replies_ok_def)
  from poll_answer_waiting [OF L p od this route engines] that show ?thesis by blast
qed

lemma on_line_settled: "on_line L reply device p \<Longrightarrow> p\<lparr>st_awaiting_response := False\<rparr> = p"
  by (cases p) (simp add: on_line_def attached_def)

lemma poll_on_line:
  fixes p :: "(u8 list \<times> 'd) iolink_master_port_state_t"
  assumes L: "iolinki_ok L" and p: "on_line L reply device p" and od: "due od p"
    and route: "\<And>q :: (u8 list \<times> 'd) iolink_master_port_state_t. st_event q = st_event p \<Longrightarrow> st_isdu q = st_isdu p \<Longrightarrow> st_od_len q = st_od_len p \<Longrightarrow>
      iolink_master_route_od L od q = Some (q\<lparr>st_event := ev, st_isdu := isdu\<rparr>)"
    and engines: "event_wf ev" "isdu_wf L isdu"
  obtains p1 where "iolink_master_poll_rx L p (reply od, d) = Some (1, p1, [], d)"
    and "on_line L reply device p1" and "st_event p1 = ev" and "st_isdu p1 = isdu"
    and "st_od_len p1 = st_od_len p" and "st_config p1 = st_config p" and "unticked p1 = unticked p"
proof -
  have "on_line L reply device (p\<lparr>st_awaiting_response := False\<rparr>)" using p by (simp add: on_line_settled)
  from poll_on_line_waiting [OF L this od route engines] that show ?thesis by blast
qed

text \<open>Without an event transfer the octets go to the ISDU engine.\<close>

lemma poll_isdu_waiting:
  fixes p :: "(u8 list \<times> 'd) iolink_master_port_state_t"
  assumes L: "iolinki_ok L" and p: "on_line L reply device (p\<lparr>st_awaiting_response := False\<rparr>)"
    and none: "ev_phase (st_event p) = EVENT_PHASE_NONE" and od: "due od p"
    and isdu: "iolink_master_isdu_on_od L od (st_isdu p) = Some isdu" "isdu_wf L isdu"
  obtains p1 where "iolink_master_poll_rx L p (reply od, d) = Some (1, p1, [], d)"
    and "on_line L reply device p1" and "st_event p1 = st_event p" and "st_isdu p1 = isdu"
    and "st_od_len p1 = st_od_len p" and "st_config p1 = st_config p" and "unticked p1 = unticked p"
proof -
  have route: "iolink_master_route_od L od q = Some (q\<lparr>st_event := st_event p, st_isdu := isdu\<rparr>)"
    if "st_event q = st_event p" "st_isdu q = st_isdu p" for q :: "(u8 list \<times> 'd) iolink_master_port_state_t"
    using that none isdu(1)
    by (cases q) (simp add: iolink_master_route_od_def iolink_master_event_channel_access_def)
  have "event_wf (st_event p)" using p by (simp add: on_line_def attached_def port_wf_def)
  from poll_on_line_waiting [OF L p od route this isdu(2)] that show ?thesis by blast
qed

lemma poll_wired_waiting:
  fixes p :: "(u8 list \<times> 'd) iolink_master_port_state_t"
  assumes L: "iolinki_ok L" and p: "wired L reply od_device (p\<lparr>st_awaiting_response := False\<rparr>)" and od: "due od p"
    and isdu: "iolink_master_isdu_on_od L od (st_isdu p) = Some isdu" "isdu_wf L isdu"
  obtains p1 where "iolink_master_poll_rx L p (reply od, d) = Some (1, p1, [], d)"
    and "wired L reply od_device p1" and "st_isdu p1 = isdu" and "st_od_len p1 = st_od_len p"
    and "st_config p1 = st_config p" and "unticked p1 = unticked p"
proof -
  have line: "on_line L reply (frame_device L (st_od_len p) reply od_device) (p\<lparr>st_awaiting_response := False\<rparr>)"
    and none: "ev_phase (st_event p) = EVENT_PHASE_NONE" using p by (simp_all add: wired_def)
  from poll_isdu_waiting [OF L line none od isdu]
  obtain p1 where "iolink_master_poll_rx L p (reply od, d) = Some (1, p1, [], d)"
    "on_line L reply (frame_device L (st_od_len p) reply od_device) p1" "st_event p1 = st_event p"
    "st_isdu p1 = isdu" "st_od_len p1 = st_od_len p" "st_config p1 = st_config p" "unticked p1 = unticked p" by blast
  with none show ?thesis by (intro that [of p1]) (simp_all add: wired_def)
qed

lemma wired_settled: "wired L reply od_device p \<Longrightarrow> p\<lparr>st_awaiting_response := False\<rparr> = p"
  by (auto simp: wired_def intro: on_line_settled)

lemma poll_wired:
  fixes p :: "(u8 list \<times> 'd) iolink_master_port_state_t"
  assumes L: "iolinki_ok L" and p: "wired L reply od_device p" and od: "due od p"
    and isdu: "iolink_master_isdu_on_od L od (st_isdu p) = Some isdu" "isdu_wf L isdu"
  obtains p1 where "iolink_master_poll_rx L p (reply od, d) = Some (1, p1, [], d)"
    and "wired L reply od_device p1" and "st_isdu p1 = isdu" and "st_od_len p1 = st_od_len p"
    and "st_config p1 = st_config p" and "unticked p1 = unticked p"
proof -
  have "wired L reply od_device (p\<lparr>st_awaiting_response := False\<rparr>)" using p by (simp add: wired_settled)
  from poll_wired_waiting [OF L this od isdu] that show ?thesis by blast
qed

subsection \<open>Transmission\<close>

lemma isdu_mc_decoded:
  assumes "stack_constants_ok L"
  shows "iolink_master_mc_channel L (isdu_mc L read flowctrl) = MC_CHANNEL_ISDU"
    and "iolink_master_mc_is_read L (isdu_mc L read flowctrl) = read"
  using master_command_fields [OF assms] by (simp_all add: isdu_mc_def)

lemma isdu_next_mc:
  "isdu_next L n isdu = Some (mc, od, isdu') \<Longrightarrow> \<exists>flowctrl. mc = isdu_mc L (od = None) flowctrl"
  by (auto simp: isdu_next_def split: if_splits option.splits)

text \<open>One frame of the ISDU channel: the device takes its OD octets or answers with its own.\<close>

definition answered_od :: "(bool \<Rightarrow> u8 list \<Rightarrow> 'd \<Rightarrow> u8 list \<times> 'd) \<Rightarrow> u8 list option \<Rightarrow> 'd \<Rightarrow> u8 list \<times> 'd" where
  "answered_od od_device od d =
     (case od of None \<Rightarrow> od_device True [] d | Some octets \<Rightarrow> ([], snd (od_device False octets d)))"

text \<open>The message that carries a frame of the ISDU channel, and what the port is after it.\<close>

abbreviation od_octets :: "u8 list option \<Rightarrow> u8 list" where
  "od_octets od \<equiv> (case od of None \<Rightarrow> [] | Some octets \<Rightarrow> octets)"

definition isdu_message :: "iolinki \<Rightarrow> 'e iolink_master_port_state_t \<Rightarrow> u8 \<Rightarrow> u8 list option \<Rightarrow> u8 list" where
  "isdu_message L p mc od = message L mc (type_bits_of p) (pd_out_octets p @ od_octets od)"

lemma isdu_message_head [simp]: "isdu_message L p mc od \<noteq> []" "hd (isdu_message L p mc od) = mc"
  by (simp_all add: isdu_message_def message_def)

lemma process_isdu_line:
  assumes L: "iolinki_ok L" and p: "on_line L reply device p" and none: "ev_phase (st_event p) = EVENT_PHASE_NONE"
    and "next": "isdu_next L (st_od_len p) (st_isdu p) = Some (mc, od, isdu)"
    and answer: "device (isdu_message L p mc od) d = (answer, d')"
  shows "ensures (iolink_master_process L p ([], d)) (\<lambda>(p', queue, d''). on_line L reply device p' \<and>
    st_isdu p' = isdu \<and> st_event p' = st_event p \<and> st_config p' = st_config p \<and> st_od_len p' = st_od_len p \<and>
    unticked p' = unticked p \<and> st_cycle_count p' = st_cycle_count p \<and> st_diagnostics p' = st_diagnostics p \<and>
    st_rx_od_expected p' = (od = None) \<and> queue = answer \<and> d'' = d')"
proof -
  have const: "stack_constants_ok L" using L by (simp add: iolinki_ok_def)
  have att: "attached L (wire_phy device) p" and state: "st_state p = STATE_OPERATE" "multi_frames p"
    using p by (simp_all add: on_line_def multi_frames_def)
  have wf: "port_wf L p" and isdu_wf: "isdu_wf L (st_isdu p)" using att by (simp_all add: attached_def port_wf_def)
  note next_wf = isdu_next_wf [OF isdu_wf const "next"]
  define q where "q = p\<lparr>st_isdu := isdu\<rparr>"
  have q: "attached L (wire_phy device) q" using attached_isdu [OF att next_wf(1)] by (simp add: q_def)
  define pad where "pad = map_option (\<lambda>octets. octets @ replicate (ISDU_BUFFER_SIZE L - length octets) (0::u8)) od"
  have frame_od: "frame_od q pad = od_octets od"
    using next_wf(2) by (cases od) (simp_all add: frame_od_def pad_def q_def)
  define msg where "msg = message L mc (type_bits_of q) (pd_out_octets q @ od_octets od)"
  have msg_eq: "msg = message L mc (if True then type_bits_of q else 0)
      ((if True then pd_out_octets q else []) @ frame_od q pad)"
    by (simp add: msg_def frame_od)
  have od_pad: "st_od_len q \<le> length o'" if "pad = Some o'" for o'
    using that next_wf(2) by (auto simp: pad_def q_def)
  have port_wf: "port_wf L q" using q by (simp add: attached_def)
  note build = build_isdu_frame_message(1) [OF const port_wf od_pad _ msg_eq, simplified]
    and small = build_isdu_frame_message(2) [OF const port_wf od_pad _ msg_eq, simplified]
  have msg: "msg \<noteq> []" "hd msg = mc" "msg = isdu_message L p mc od"
    by (simp_all add: msg_def message_def isdu_message_def q_def pd_out_octets_def)
  have mc: "iolink_master_mc_is_read L mc = (od = None)"
    using isdu_next_mc [OF "next"] isdu_mc_decoded [OF const] by auto
  have accepts: "accepts (wire_phy device) msg ([], d) (answer, d')"
    using wire_accepts [of device msg "[]" d] answer by (simp add: msg(3))
  have "send_frame L (int (length msg)) (tx_with msg q) ([], d) = Some (True, sent_with L msg q, answer, d')"
    using send_frame_message(1) [OF _ attached_can_send [OF q accepts] msg(1) small] q
      attached_sent(2) [OF q msg(1) small accepts] by (simp add: attached_def)
  then have "iolink_master_send_isdu L p ([], d) = Some (True, sent_with L msg q, answer, d')"
    using build state(2) unfolding send_isdu_next [OF const wf] "next" by (simp add: q_def pad_def)
  then have "iolink_master_process L p ([], d) = Some (sent_with L msg q, answer, d')"
    using state(1) attached_can_send [OF att accepts] none
    by (simp add: iolink_master_process_def iolink_master_process_at_def process_operate_def process_services_def
        iolink_master_send_event_def iolink_master_event_channel_access_def)
  moreover have "mc AND MC_RW_MASK L \<noteq> 0 \<longleftrightarrow> od = None"
    using mc by (simp add: iolink_master_mc_is_read_def)
  ultimately show ?thesis
    using attached_sent(1) [OF q msg(1) small] p by (simp add: on_line_def msg(2)) (simp add: q_def)
qed

lemma process_isdu_wired:
  assumes L: "iolinki_ok L" and p: "wired L reply od_device p"
    and "next": "isdu_next L (st_od_len p) (st_isdu p) = Some (mc, od, isdu)"
    and answer: "answered_od od_device od d = (rod, d')"
  shows "ensures (iolink_master_process L p ([], d)) (\<lambda>(p', queue, d''). wired L reply od_device p' \<and>
    st_isdu p' = isdu \<and> st_config p' = st_config p \<and> st_od_len p' = st_od_len p \<and> unticked p' = unticked p \<and>
    st_cycle_count p' = st_cycle_count p \<and>
    st_rx_od_expected p' = (od = None) \<and> queue = reply rod \<and> d'' = d')"
proof -
  let ?dev = "frame_device L (st_od_len p) reply od_device"
  have const: "stack_constants_ok L" using L by (simp add: iolinki_ok_def)
  have line: "on_line L reply ?dev p" and none: "ev_phase (st_event p) = EVENT_PHASE_NONE"
    using p by (simp_all add: wired_def)
  have "isdu_wf L (st_isdu p)" using line by (simp add: on_line_def attached_def port_wf_def)
  note next_wf = isdu_next_wf [OF this const "next"]
  have mc: "iolink_master_mc_channel L mc = MC_CHANNEL_ISDU" "iolink_master_mc_is_read L mc = (od = None)"
    using isdu_next_mc [OF "next"] isdu_mc_decoded [OF const] by auto
  have "drop (length (isdu_message L p mc od) - st_od_len p) (isdu_message L p mc od) = od_octets od" if "od \<noteq> None"
    using that next_wf(2) by (auto simp: isdu_message_def message_def)
  then have "?dev (isdu_message L p mc od) d = (reply rod, d')"
    using answer by (cases od) (auto simp: frame_device_def mc answered_od_def case_prod_unfold)
  from process_isdu_line [OF L line none "next" this] none show ?thesis
    by (auto simp: wired_def elim!: ensures_mono)
qed

text \<open>Without a frame for the ISDU channel the tick sends the cyclic message.\<close>

lemma isdu_next_none:
  assumes "stack_constants_ok L" "isdu_wf L isdu" "isdu_next L n isdu = None"
  shows "iolink_master_isdu_fill_od L m isdu = Some (replicate m 0, isdu)"
    and "\<not> isdu_abort_pending isdu" "\<not> isdu_idle_pending isdu"
  using isdu_wf_fill_od [OF assms(2,1), of n] assms(2,3)
  by (auto simp: isdu_next_def iolink_master_isdu_channel_access_def iolink_master_isdu_fill_od_def
      isdu_wf_def elim!: ensuresE split: if_splits)

lemma process_mc_decoded:
  assumes "stack_constants_ok L"
  shows "iolink_master_mc_channel L (iolink_master_encode_master_command L False MC_CHANNEL_PROCESS 0) = MC_CHANNEL_PROCESS"
    and "iolink_master_encode_master_command L False MC_CHANNEL_PROCESS 0 AND MC_RW_MASK L = 0"
  using master_command_fields(1,2) [OF assms, of MC_CHANNEL_PROCESS False 0]
  by (simp_all add: iolink_master_mc_is_read_def)

lemma cyclic_message_line:
  assumes "on_line L reply device p"
  shows "cyclic_message L p \<noteq> []"
    and "hd (cyclic_message L p) = iolink_master_encode_master_command L False MC_CHANNEL_PROCESS 0"
  using assms by (simp_all add: on_line_def cyclic_message_def type0_operate_def message_def)

lemma process_cycle_line:
  assumes L: "iolinki_ok L" and p: "on_line L reply device p" and none: "ev_phase (st_event p) = EVENT_PHASE_NONE"
    and "next": "isdu_next L (st_od_len p) (st_isdu p) = None"
    and answer: "device (cyclic_message L p) d = (answer, d')"
  shows "ensures (iolink_master_process L p ([], d)) (\<lambda>(p', queue, d''). on_line L reply device p' \<and>
    st_isdu p' = st_isdu p \<and> st_event p' = st_event p \<and> st_config p' = st_config p \<and> st_od_len p' = st_od_len p \<and>
    unticked p' = unticked p \<and> st_cycle_count p' = st_cycle_count p + 1 \<and> st_diagnostics p' = st_diagnostics p \<and>
    \<not> st_rx_od_expected p' \<and> queue = answer \<and> d'' = d')"
proof -
  let ?msg = "cyclic_message L p"
  have const: "stack_constants_ok L" using L by (simp add: iolinki_ok_def)
  have att: "attached L (wire_phy device) p" and state: "st_state p = STATE_OPERATE" "\<not> type0_operate p"
    using p by (simp_all add: on_line_def type0_operate_def)
  have wf: "port_wf L p" "isdu_wf L (st_isdu p)" using att by (simp_all add: attached_def port_wf_def)
  note quiet = isdu_next_none [OF const wf(2) "next"]
  have services: "process_services L p ([], d) = Some (False, p, [], d)"
    using none send_isdu_next [OF const wf(1), of "([], d)"] "next"
    by (simp add: process_services_def iolink_master_send_event_def iolink_master_event_channel_access_def)
  have "accepts (wire_phy device) ?msg ([], d) (answer, d')"
    using wire_accepts [of device ?msg "[]" d] by (simp add: answer)
  note process = process_cycle_quiet [OF const _ att services state(1) quiet(1) this]
  have "attached L (wire_phy device) (sent_with L ?msg p)"
    using attached_sent(1) [OF att cyclic_message_line(1) [OF p]] process(2) state(2) by simp
  with process(1) state(2) show ?thesis
    using p by (simp add: on_line_def cyclic_message_line [OF p] process_mc_decoded [OF const])
qed

lemma process_cycle_wired:
  assumes L: "iolinki_ok L" and p: "wired L reply od_device p" and "next": "isdu_next L (st_od_len p) (st_isdu p) = None"
  shows "ensures (iolink_master_process L p ([], d)) (\<lambda>(p', queue, d'). wired L reply od_device p' \<and>
    st_isdu p' = st_isdu p \<and> st_config p' = st_config p \<and> st_od_len p' = st_od_len p \<and>
    unticked p' = unticked p \<and> st_cycle_count p' = st_cycle_count p + 1 \<and> \<not> st_rx_od_expected p' \<and> queue = reply [] \<and> d' = d)"
proof -
  have line: "on_line L reply (frame_device L (st_od_len p) reply od_device) p"
    and none: "ev_phase (st_event p) = EVENT_PHASE_NONE" and const: "stack_constants_ok L"
    using p L by (simp_all add: wired_def iolinki_ok_def)
  have "frame_device L (st_od_len p) reply od_device (cyclic_message L p) d = (reply [], d)"
    by (simp add: frame_device_def cyclic_message_line [OF line] process_mc_decoded [OF const])
  from process_cycle_line [OF L line none "next" this] none show ?thesis
    by (auto simp: wired_def elim!: ensures_mono)
qed

subsection \<open>A tick is a step of the transport\<close>

text \<open>
  The transport and the device without a port: the octets of the last reply reach the ISDU
  engine, and its next frame reaches the device.
\<close>

definition wire_step ::
  "iolinki \<Rightarrow> nat \<Rightarrow> (bool \<Rightarrow> u8 list \<Rightarrow> 'd \<Rightarrow> u8 list \<times> 'd) \<Rightarrow>
   u8 list \<times> iolink_master_isdu_state_t \<times> 'd \<Rightarrow> (u8 list \<times> iolink_master_isdu_state_t \<times> 'd) option" where
  "wire_step L n od_device = (\<lambda>(od, isdu, d). do {
     isdu \<leftarrow> iolink_master_isdu_on_od L od isdu;
     case isdu_next L n isdu of
       None \<Rightarrow> Some ([], isdu, d)
     | Some (_, od, isdu) \<Rightarrow> (let (od, d) = answered_od od_device od d in Some (od, isdu, d))
   })"

fun wire_steps ::
  "iolinki \<Rightarrow> nat \<Rightarrow> (bool \<Rightarrow> u8 list \<Rightarrow> 'd \<Rightarrow> u8 list \<times> 'd) \<Rightarrow> nat \<Rightarrow>
   u8 list \<times> iolink_master_isdu_state_t \<times> 'd \<Rightarrow> (u8 list \<times> iolink_master_isdu_state_t \<times> 'd) option" where
  "wire_steps L n od_device 0 c = Some c"
| "wire_steps L n od_device (Suc k) c = Option.bind (wire_step L n od_device c) (wire_steps L n od_device k)"

text \<open>A port on the line and a state of the transport that correspond.\<close>

definition wire_rel ::
  "iolinki \<Rightarrow> (u8 list \<Rightarrow> u8 list) \<Rightarrow> (bool \<Rightarrow> u8 list \<Rightarrow> 'd \<Rightarrow> u8 list \<times> 'd) \<Rightarrow>
   (u8 list \<times> 'd) iolink_master_port_state_t \<times> u8 list \<times> 'd \<Rightarrow>
   u8 list \<times> iolink_master_isdu_state_t \<times> 'd \<Rightarrow> bool" where
  "wire_rel L reply od_device = (\<lambda>(p, queue, d) (od, isdu, d').
     wired L reply od_device p \<and> due od p \<and> queue = reply od \<and> d' = d \<and> isdu = st_isdu p)"

definition answers_reads :: "nat \<Rightarrow> (bool \<Rightarrow> u8 list \<Rightarrow> 'd \<Rightarrow> u8 list \<times> 'd) \<Rightarrow> bool" where
  "answers_reads n od_device \<longleftrightarrow> (\<forall>d. length (fst (od_device True [] d)) = n)"

lemma process_wired:
  assumes L: "iolinki_ok L" and p: "wired L reply od_device p" and reads: "answers_reads (st_od_len p) od_device"
    and stp: "(case isdu_next L (st_od_len p) (st_isdu p) of
       None \<Rightarrow> Some ([], st_isdu p, d)
     | Some (_, od, isdu) \<Rightarrow> (let (od, d) = answered_od od_device od d in Some (od, isdu, d))) = Some c"
  shows "ensures (iolink_master_process L p ([], d)) (\<lambda>(p', e'). wire_rel L reply od_device (p', e') c \<and>
    st_config p' = st_config p \<and> st_od_len p' = st_od_len p \<and> unticked p' = unticked p \<and>
    st_cycle_count p' = (if isdu_next L (st_od_len p) (st_isdu p) = None then st_cycle_count p + 1 else st_cycle_count p))"
proof (cases "isdu_next L (st_od_len p) (st_isdu p)")
  case None
  with process_cycle_wired [OF L p None, of d] stp show ?thesis
    by (auto simp: wire_rel_def due_def elim!: ensures_mono)
next
  case (Some a)
  then obtain mc od isdu where nxt: "isdu_next L (st_od_len p) (st_isdu p) = Some (mc, od, isdu)"
    by (cases a) auto
  obtain rod d' where answer: "answered_od od_device od d = (rod, d')" by fastforce
  have "length rod = (if od = None then st_od_len p else 0)"
    using answer reads [unfolded answers_reads_def, rule_format, of d]
    by (cases od) (auto simp: answered_od_def)
  with process_isdu_wired [OF L p nxt answer] stp show ?thesis
    by (auto simp: wire_rel_def due_def nxt answer elim!: ensures_mono)
qed

text \<open>A tick polls the reply that is due and transmits.\<close>

lemma tick_on_line:
  assumes "iolink_master_poll_rx L p e = Some (1, p1, e1)" "on_line L reply device p1"
  shows "iolink_master_tick L False p e = map_option (\<lambda>(p, e). (1, p, e)) (iolink_master_process L p1 e1)"
  using assms by (cases "iolink_master_process L p1 e1")
    (simp_all add: iolink_master_tick_def iolink_master_tick_event_def iolink_master_tick_common_def
      tick_cycle_def iolink_master_process_def on_line_def attached_def case_prod_unfold)

lemma tick_wired:
  assumes L: "iolinki_ok L" and rel: "wire_rel L reply od_device (p, e) c" and reads: "answers_reads (st_od_len p) od_device"
    and stp: "wire_step L (st_od_len p) od_device c = Some c'"
  shows "ensures (iolink_master_tick L False p e) (\<lambda>(ret, p', e'). ret = 1 \<and> wire_rel L reply od_device (p', e') c' \<and>
    st_config p' = st_config p \<and> st_od_len p' = st_od_len p \<and> unticked p' = unticked p)"
proof -
  obtain od d where c: "c = (od, st_isdu p, d)" and e: "e = (reply od, d)"
    and p: "wired L reply od_device p" "due od p"
    using rel by (cases c; cases e) (auto simp: wire_rel_def)
  have wf: "isdu_wf L (st_isdu p)" using p(1) by (simp add: wired_defs attached_def port_wf_def)
  obtain isdu where isdu: "iolink_master_isdu_on_od L od (st_isdu p) = Some isdu" "isdu_wf L isdu"
    using isdu_wf_on_od [OF wf, of od] L by (auto simp: iolinki_ok_def elim: ensuresE)
  obtain p1 where p1: "iolink_master_poll_rx L p (reply od, d) = Some (1, p1, [], d)"
    "wired L reply od_device p1" "st_isdu p1 = isdu" "st_od_len p1 = st_od_len p" "st_config p1 = st_config p"
    "unticked p1 = unticked p"
    by (rule poll_wired [OF L p isdu, of d])
  have "answers_reads (st_od_len p1) od_device" using reads p1(4) by simp
  moreover have "(case isdu_next L (st_od_len p1) (st_isdu p1) of
       None \<Rightarrow> Some ([], st_isdu p1, d)
     | Some (_, od, isdu) \<Rightarrow> (let (od, d) = answered_od od_device od d in Some (od, isdu, d))) = Some c'"
    unfolding p1(3,4) using stp by (simp add: wire_step_def c isdu(1))
  ultimately obtain p' e' where "iolink_master_process L p1 ([], d) = Some (p', e')"
    "wire_rel L reply od_device (p', e') c'" "st_config p' = st_config p" "st_od_len p' = st_od_len p"
    "unticked p' = unticked p"
    using process_wired [OF L p1(2), of d c'] p1(4-6) by (auto elim!: ensuresE)
  moreover have "iolink_master_tick L False p e =
      map_option (\<lambda>(p, e). (1, p, e)) (iolink_master_process L p1 ([], d))"
    using tick_on_line [OF p1(1), of reply "frame_device L (st_od_len p1) reply od_device"] p1(2)
    by (simp add: e wired_def)
  ultimately show ?thesis by simp
qed

text \<open>A step of the transport is always defined.\<close>

lemma wire_step_total:
  assumes "stack_constants_ok L" "isdu_wf L isdu"
  shows "ensures (wire_step L n od_device (od, isdu, d)) (\<lambda>_. True)"
  using isdu_wf_on_od [OF assms(2,1), of od]
  by (auto simp: wire_step_def ensures_iff split: option.splits prod.splits)

lemma ticks_wired:
  assumes "iolinki_ok L" and "wire_rel L reply od_device (p, e) c" and "answers_reads (st_od_len p) od_device"
  shows "ensures (untimed_ticks L k p e) (\<lambda>(rets, p', e'). rets = replicate k 1 \<and>
    st_config p' = st_config p \<and> st_od_len p' = st_od_len p \<and> unticked p' = unticked p \<and>
    ensures (wire_steps L (st_od_len p) od_device k c) (wire_rel L reply od_device (p', e')))"
  using assms(2,3)
proof (induction k arbitrary: p e c)
  case 0
  then show ?case by simp
next
  case (Suc k)
  obtain od isdu d where c: "c = (od, isdu, d)" by (cases c)
  have "isdu_wf L isdu" "stack_constants_ok L"
    using Suc.prems(1) assms(1) by (cases e, auto simp: c wire_rel_def wired_defs attached_def port_wf_def iolinki_ok_def)+
  then obtain c' where c': "wire_step L (st_od_len p) od_device c = Some c'"
    using wire_step_total [of L isdu "st_od_len p" od_device od d] by (auto simp: c ensures_iff)
  obtain p' e' where tick: "iolink_master_tick L False p e = Some (1, p', e')"
    "wire_rel L reply od_device (p', e') c'" "st_config p' = st_config p" "st_od_len p' = st_od_len p"
    "unticked p' = unticked p"
    using tick_wired [OF assms(1) Suc.prems c'] by (auto elim!: ensuresE)
  have "answers_reads (st_od_len p') od_device" using Suc.prems(2) tick(4) by simp
  from Suc.IH [OF tick(2) this] show ?case
    by (auto simp: tick c' elim!: ensuresE)
qed

subsection \<open>A line for the witnesses\<close>

text \<open>The replies carry the OD octets, one octet of process data and the checksum.\<close>

definition demo_reply :: "u8 list \<Rightarrow> u8 list" where
  "demo_reply od = od @ [7, demo_checksum6 (od @ [7, 0])]"

lemma demo_replies_ok: "replies_ok demo_stack 1 n demo_reply"
  by (simp add: replies_ok_def demo_reply_def demo_stack_def demo_decode_operate_response_def Let_def
      butlast_append checksum_octet demo_checksum6_small)

text \<open>The device of this port answers with the last octet it got.\<close>

definition demo_memory :: "bool \<Rightarrow> u8 list \<Rightarrow> u8 \<Rightarrow> u8 list \<times> u8" where
  "demo_memory read od octet = (if read then ([octet], octet) else ([], last od))"

definition demo_wired :: "(bool \<Rightarrow> u8 list \<Rightarrow> 'd \<Rightarrow> u8 list \<times> 'd) \<Rightarrow> (u8 list \<times> 'd) iolink_master_port_state_t" where
  "demo_wired od_device = (zero_port demo_stack)
     \<lparr>st_phy := Some (wire_phy (frame_device demo_stack 1 demo_reply od_device)),
      st_config := zero_config\<lparr>cfg_m_seq_type := M_SEQ_TYPE_2_1, cfg_min_cycle_time := 10,
        cfg_pd_in_len := 1, cfg_pd_out_len := 1\<rparr>,
      st_od_len := 1, st_pd_in_len := 1, st_pd_out_len := 1, st_state := STATE_OPERATE\<rparr>"

lemma demo_wired: "wired demo_stack demo_reply od_device (demo_wired od_device)"
  using demo_replies_ok [of 1]
  by (simp add: wired_defs demo_wired_def attached_def port_wf_defs demo_stack_def zero_port_def
      zero_config_def isdu_wf_zero event_wf_def block_wf_def zero_event_def zero_block_def)

subsection \<open>Every message on the line\<close>

text \<open>
  The same for a device that is an arbitrary function of the messages it gets, whole: it answers
  a message with the OD octets that its reply carries.
\<close>

definition answering ::
  "(u8 list \<Rightarrow> u8 list) \<Rightarrow> (u8 list \<Rightarrow> 'd \<Rightarrow> u8 list \<times> 'd) \<Rightarrow> u8 list \<Rightarrow> 'd \<Rightarrow> u8 list \<times> 'd" where
  "answering reply answer msg d = (let (od, d) = answer msg d in (reply od, d))"

text \<open>A READ is answered with as many octets as the M-sequence has, a WRITE with none.\<close>

definition answers_in_kind :: "iolinki \<Rightarrow> nat \<Rightarrow> (u8 list \<Rightarrow> 'd \<Rightarrow> u8 list \<times> 'd) \<Rightarrow> bool" where
  "answers_in_kind L n answer \<longleftrightarrow> (\<forall>msg d. msg \<noteq> [] \<longrightarrow>
     length (fst (answer msg d)) = (if hd msg AND MC_RW_MASK L \<noteq> 0 then n else 0))"

text \<open>
  The message of a tick: the next frame of the ISDU engine with the outputs of the port, or else the
  cyclic message, which has idle OD octets.
\<close>

definition line_message ::
  "iolinki \<Rightarrow> 'e iolink_master_port_state_t \<Rightarrow> iolink_master_isdu_state_t \<Rightarrow> u8 list \<times> iolink_master_isdu_state_t" where
  "line_message L p isdu = (case isdu_next L (st_od_len p) isdu of
     None \<Rightarrow> (cyclic_message L p, isdu)
   | Some (mc, od, isdu) \<Rightarrow> (isdu_message L p mc od, isdu))"

definition line_step ::
  "iolinki \<Rightarrow> 'e iolink_master_port_state_t \<Rightarrow> (u8 list \<Rightarrow> 'd \<Rightarrow> u8 list \<times> 'd) \<Rightarrow>
   u8 list \<times> iolink_master_isdu_state_t \<times> 'd \<Rightarrow> (u8 list \<times> iolink_master_isdu_state_t \<times> 'd) option" where
  "line_step L p answer = (\<lambda>(od, isdu, d). do {
     isdu \<leftarrow> iolink_master_isdu_on_od L od isdu;
     let (msg, isdu) = line_message L p isdu;
     let (od, d) = answer msg d;
     Some (od, isdu, d) })"

fun line_steps ::
  "iolinki \<Rightarrow> 'e iolink_master_port_state_t \<Rightarrow> (u8 list \<Rightarrow> 'd \<Rightarrow> u8 list \<times> 'd) \<Rightarrow> nat \<Rightarrow>
   u8 list \<times> iolink_master_isdu_state_t \<times> 'd \<Rightarrow> (u8 list \<times> iolink_master_isdu_state_t \<times> 'd) option" where
  "line_steps L p answer 0 c = Some c"
| "line_steps L p answer (Suc k) c = Option.bind (line_step L p answer c) (line_steps L p answer k)"

definition line_rel ::
  "iolinki \<Rightarrow> (u8 list \<Rightarrow> u8 list) \<Rightarrow> (u8 list \<Rightarrow> 'd \<Rightarrow> u8 list \<times> 'd) \<Rightarrow>
   (u8 list \<times> 'd) iolink_master_port_state_t \<times> u8 list \<times> 'd \<Rightarrow>
   u8 list \<times> iolink_master_isdu_state_t \<times> 'd \<Rightarrow> bool" where
  "line_rel L reply answer = (\<lambda>(p, queue, d) (od, isdu, d').
     on_line L reply (answering reply answer) p \<and> ev_phase (st_event p) = EVENT_PHASE_NONE \<and>
     due od p \<and> queue = reply od \<and> d' = d \<and> isdu = st_isdu p)"

text \<open>What the messages of a port depend on besides its ISDU engine.\<close>

definition same_messages :: "'e iolink_master_port_state_t \<Rightarrow> 'e iolink_master_port_state_t \<Rightarrow> bool" where
  "same_messages p p' \<longleftrightarrow> st_config p' = st_config p \<and> st_od_len p' = st_od_len p \<and> unticked p' = unticked p"

lemma same_messages_line: "same_messages p p' \<Longrightarrow> line_message L p' = line_message L p"
proof -
  assume same: "same_messages p p'"
  then have "cyclic_message L p' = cyclic_message L p" "isdu_message L p' mc od = isdu_message L p mc od" for mc od
    by (simp_all add: same_messages_def cyclic_message_def isdu_message_def type0_operate_def pd_out_octets_def)
  with same show ?thesis by (intro ext) (simp add: line_message_def same_messages_def split: option.split prod.split)
qed

lemma process_line:
  assumes L: "iolinki_ok L" and p: "on_line L reply (answering reply answer) p"
    and none: "ev_phase (st_event p) = EVENT_PHASE_NONE" and answers: "answers_in_kind L (st_od_len p) answer"
    and msg: "line_message L p (st_isdu p) = (msg, isdu)" and od: "answer msg d = (od, d')"
  shows "ensures (iolink_master_process L p ([], d)) (\<lambda>(p', e').
    line_rel L reply answer (p', e') (od, isdu, d') \<and> same_messages p p')"
proof -
  have const: "stack_constants_ok L" using L by (simp add: iolinki_ok_def)
  have length: "length od = (if hd msg AND MC_RW_MASK L \<noteq> 0 then st_od_len p else 0)" if "msg \<noteq> []"
    using answers that od by (metis answers_in_kind_def fst_conv)
  have device: "answering reply answer msg d = (reply od, d')" by (simp add: answering_def od)
  show ?thesis
  proof (cases "isdu_next L (st_od_len p) (st_isdu p)")
    case None
    then have "msg = cyclic_message L p" "isdu = st_isdu p" using msg by (simp_all add: line_message_def)
    with process_cycle_line [OF L p none None, of d] device length cyclic_message_line [OF p] none show ?thesis
      by (auto simp: line_rel_def same_messages_def due_def process_mc_decoded [OF const] elim!: ensures_mono)
  next
    case (Some a)
    then obtain mc o' where nxt: "isdu_next L (st_od_len p) (st_isdu p) = Some (mc, o', isdu)" and
      m: "msg = isdu_message L p mc o'"
      using msg by (cases a) (auto simp: line_message_def)
    have "mc AND MC_RW_MASK L \<noteq> 0 \<longleftrightarrow> o' = None"
      using isdu_next_mc [OF nxt] isdu_mc_decoded(2) [OF const] by (auto simp: iolink_master_mc_is_read_def)
    with process_isdu_line [OF L p none nxt, of d] device length m none show ?thesis
      by (auto simp: line_rel_def same_messages_def due_def elim!: ensures_mono)
  qed
qed

lemma tick_line:
  assumes L: "iolinki_ok L" and rel: "line_rel L reply answer (p, e) c" and answers: "answers_in_kind L (st_od_len p) answer"
  shows "ensures (iolink_master_tick L False p e) (\<lambda>(ret, p', e'). ret = 1 \<and> same_messages p p' \<and>
    ensures (line_step L p answer c) (line_rel L reply answer (p', e')))"
proof -
  obtain od d where c: "c = (od, st_isdu p, d)" and e: "e = (reply od, d)" and due: "due od p"
    and p: "on_line L reply (answering reply answer) p" and none: "ev_phase (st_event p) = EVENT_PHASE_NONE"
    using rel by (cases c; cases e) (auto simp: line_rel_def)
  have wf: "isdu_wf L (st_isdu p)" using p by (simp add: on_line_def attached_def port_wf_def)
  obtain isdu where isdu: "iolink_master_isdu_on_od L od (st_isdu p) = Some isdu" "isdu_wf L isdu"
    using isdu_wf_on_od [OF wf, of od] L by (auto simp: iolinki_ok_def elim: ensuresE)
  have waiting: "on_line L reply (answering reply answer) (p\<lparr>st_awaiting_response := False\<rparr>)"
    using p by (simp add: on_line_settled)
  from poll_isdu_waiting [OF L waiting none due isdu]
  obtain p1 where p1: "iolink_master_poll_rx L p (reply od, d) = Some (1, p1, [], d)"
    "on_line L reply (answering reply answer) p1" "st_event p1 = st_event p" "st_isdu p1 = isdu" "same_messages p p1"
    by (auto simp: same_messages_def)
  obtain msg isdu' where msg: "line_message L p isdu = (msg, isdu')" by fastforce
  obtain od' d' where od': "answer msg d = (od', d')" by fastforce
  have "line_message L p1 (st_isdu p1) = (msg, isdu')" using msg same_messages_line [OF p1(5)] by (simp add: p1(4))
  moreover have "answers_in_kind L (st_od_len p1) answer" using answers p1(5) by (simp add: same_messages_def)
  ultimately obtain p' e' where process: "iolink_master_process L p1 ([], d) = Some (p', e')"
    "line_rel L reply answer (p', e') (od', isdu', d')" "same_messages p1 p'"
    using process_line [OF L p1(2) _ _ _ od'] none p1(3) by (auto elim!: ensuresE)
  have "iolink_master_tick L False p e = Some (1, p', e')"
    using tick_on_line [OF p1(1,2)] process(1) by (simp add: e)
  moreover have "same_messages p p'" using p1(5) process(3) by (simp add: same_messages_def)
  ultimately show ?thesis using process(2) by (simp add: line_step_def c isdu(1) msg od')
qed

text \<open>
  C8. The tick engine refines the transport at the level of the messages. The device is an
  arbitrary function of the octets of each message. On an OPERATE port every tick reports the reply
  that was due, hands its OD octets to the ISDU engine, and puts exactly one message on the line:
  the next frame of the ISDU engine with the outputs of the port or, without one, the cyclic message
  with the outputs and idle OD octets. Any number of ticks simulates as many steps.
\<close>

theorem ticks_refine_transport:
  assumes "iolinki_ok L" and "line_rel L reply answer (p, e) c" and "answers_in_kind L (st_od_len p) answer"
  shows "ensures (untimed_ticks L k p e) (\<lambda>(rets, p', e'). rets = replicate k 1 \<and>
    st_config p' = st_config p \<and>
    ensures (line_steps L p answer k c) (line_rel L reply answer (p', e')))"
proof -
  have "ensures (untimed_ticks L k q e) (\<lambda>(rets, p', e'). rets = replicate k 1 \<and> same_messages p p' \<and>
    ensures (line_steps L p answer k c) (line_rel L reply answer (p', e')))"
    if "line_rel L reply answer (q, e) c" "same_messages p q" for q e
    using that
  proof (induction k arbitrary: q e c)
    case (Suc k)
    have "answers_in_kind L (st_od_len q) answer" using assms(3) Suc.prems(2) by (simp add: same_messages_def)
    from tick_line [OF assms(1) Suc.prems(1) this] obtain p1 e1 c1 where 1:
      "iolink_master_tick L False q e = Some (1, p1, e1)" "same_messages q p1"
      "line_step L q answer c = Some c1" "line_rel L reply answer (p1, e1) c1"
      by (auto elim!: ensuresE)
    have "same_messages p p1" using 1(2) Suc.prems(2) by (simp add: same_messages_def)
    moreover have "line_step L p answer c = Some c1"
      using 1(3) same_messages_line [OF Suc.prems(2), of L] by (simp add: line_step_def)
    ultimately show ?case
      using Suc.IH [OF 1(4)] by (auto simp: 1(1) elim!: ensuresE)
  qed simp
  from this [OF assms(2)] show ?thesis by (auto simp: same_messages_def elim!: ensures_mono)
qed

text \<open>A device that keeps the messages it gets: three ticks send the output 9 three times.\<close>

definition demo_log :: "u8 list \<Rightarrow> u8 list list \<Rightarrow> u8 list \<times> u8 list list" where
  "demo_log msg log = (if hd msg AND MC_RW_MASK demo_stack \<noteq> 0 then [0] else [], log @ [msg])"

definition demo_logged :: "(u8 list \<times> u8 list list) iolink_master_port_state_t" where
  "demo_logged = (demo_wired (\<lambda>_ _ d. ([], d)))
     \<lparr>st_phy := Some (wire_phy (answering demo_reply demo_log)), st_pd_out := 9 # replicate 31 0\<rparr>"

lemma demo_logged_line: "on_line demo_stack demo_reply (answering demo_reply demo_log) demo_logged"
  using demo_replies_ok [of 1]
  by (simp add: on_line_def demo_logged_def demo_wired_def attached_def port_wf_defs demo_stack_def zero_port_def
      zero_config_def isdu_wf_zero event_wf_def block_wf_def zero_event_def zero_block_def)

lemma demo_logged_idle:
  "iolink_master_isdu_on_od demo_stack [] (st_isdu demo_logged) = Some (st_isdu demo_logged)"
  "isdu_next demo_stack n (st_isdu demo_logged) = None"
  by (simp_all add: demo_logged_def demo_wired_def zero_port_def zero_isdu_def iolink_master_isdu_on_od_def
      isdu_next_def iolink_master_isdu_channel_access_def)

theorem ticks_refine_transport_witness:
  "ensures (untimed_ticks demo_stack 3 demo_logged (demo_reply [], []))
    (\<lambda>(rets, p', queue, log). rets = [1, 1, 1] \<and> log = replicate 3 (cyclic_message demo_stack demo_logged) \<and>
       drop 2 (cyclic_message demo_stack demo_logged) = [9, 0])"
proof -
  have rel: "line_rel demo_stack demo_reply demo_log (demo_logged, demo_reply [], []) ([], st_isdu demo_logged, [])"
    using demo_logged_line
    by (simp add: line_rel_def due_def) (simp add: demo_logged_def demo_wired_def zero_port_def zero_event_def)
  have "answers_in_kind demo_stack (st_od_len demo_logged) demo_log"
    by (simp add: answers_in_kind_def demo_log_def demo_logged_def demo_wired_def)
  have msg: "cyclic_message demo_stack demo_logged \<noteq> []" "drop 2 (cyclic_message demo_stack demo_logged) = [9, 0]"
    "hd (cyclic_message demo_stack demo_logged) AND MC_RW_MASK demo_stack = 0"
    using process_mc_decoded(2) [of demo_stack] demo_stack_ok
    by (simp_all add: cyclic_message_def message_def type0_operate_def pd_out_octets_def demo_logged_def demo_wired_def
        zero_port_def iolinki_ok_def)
  have "line_step demo_stack demo_logged demo_log ([], st_isdu demo_logged, log) =
      Some ([], st_isdu demo_logged, log @ [cyclic_message demo_stack demo_logged])" for log
    using msg(3) by (simp add: line_step_def demo_logged_idle line_message_def demo_log_def)
  then have "line_steps demo_stack demo_logged demo_log 3 ([], st_isdu demo_logged, []) =
      Some ([], st_isdu demo_logged, replicate 3 (cyclic_message demo_stack demo_logged))"
    by (simp add: numeral_3_eq_3)
  then show ?thesis
    using ticks_refine_transport [OF demo_stack_ok rel \<open>answers_in_kind _ _ _\<close>, of 3] msg(2)
    by (auto simp: line_rel_def numeral_3_eq_3 elim!: ensures_mono)
qed

end
