(* ===== verification/MasterDiagnosis.thy ===== *)
theory MasterDiagnosis
  imports MasterWire
begin

text \<open>
  The acknowledgement of an event over the line (\<open>src/master_isdu.c\<close>, lines 782-964, and
  \<open>src/master_port.c\<close>, lines 353-425 and 1059-1110): the ticks of an OPERATE port read the
  event memory of the device octet by octet on the diagnosis channel and write its StatusCode.
\<close>

subsection \<open>A device with an event memory\<close>

text \<open>Its state: the event memory, and the addresses that have been written on the channel.\<close>

definition event_device ::
  "iolinki \<Rightarrow> nat \<Rightarrow> (u8 list \<Rightarrow> u8 list) \<Rightarrow> u8 list \<Rightarrow> u8 list \<times> u8 list \<Rightarrow> u8 list \<times> u8 list \<times> u8 list" where
  "event_device L n reply msg = (\<lambda>(memory, written).
     let mc = hd msg; addr = iolink_master_mc_address L mc;
         diagnosis = (iolink_master_mc_channel L mc = MC_CHANNEL_DIAGNOSIS)
     in if iolink_master_mc_is_read L mc
        then (reply (if diagnosis then take n (drop (unat addr) memory @ replicate n 0) else replicate n 0),
              memory, written)
        else (reply [], memory, if diagnosis then written @ [addr] else written))"

subsection \<open>Transmission\<close>

definition event_message :: "iolinki \<Rightarrow> bool \<Rightarrow> nat \<Rightarrow> 'e iolink_master_port_state_t \<Rightarrow> u8 list" where
  "event_message L read addr p =
     message L (iolink_master_encode_master_command L read MC_CHANNEL_DIAGNOSIS (of_nat addr)) (type_bits_of p)
       (pd_out_octets p @ (if read then [] else replicate (st_od_len p) 0))"

lemma process_event_line:
  assumes L: "iolinki_ok L" and p: "on_line L reply device p"
    and access: "iolink_master_event_channel_access p = Some (read, addr, st_od_len p)"
    and answer: "device (event_message L read addr p) d = (answer, d')"
  shows "ensures (iolink_master_process L p ([], d)) (\<lambda>(p', queue, d''). on_line L reply device p' \<and>
    st_isdu p' = st_isdu p \<and> st_event p' = (if read then (st_event p)\<lparr>ev_od_expected := True\<rparr>
      else iolink_master_event_on_written (st_event p)) \<and> st_config p' = st_config p \<and>
    st_od_len p' = st_od_len p \<and> st_rx_od_expected p' = read \<and> queue = answer \<and> d'' = d')"
proof -
  let ?msg = "event_message L read addr p"
  have const: "stack_constants_ok L" using L by (simp add: iolinki_ok_def)
  have att: "attached L (wire_phy device) p" and state: "st_state p = STATE_OPERATE"
    "cfg_m_seq_type (st_config p) \<noteq> M_SEQ_TYPE_0" using p by (simp_all add: on_line_def)
  have wf: "port_wf L p" using att by (simp add: attached_def)
  note build = build_event_frame_message [OF const wf refl state(2) event_message_def [of L read addr p]]
  have msg: "?msg \<noteq> []" "hd ?msg = iolink_master_encode_master_command L read MC_CHANNEL_DIAGNOSIS (of_nat addr)"
    by (simp_all add: event_message_def message_def)
  have accepts: "accepts (wire_phy device) ?msg ([], d) (answer, d')"
    using wire_accepts [of device ?msg "[]" d] by (simp add: answer)
  note sent = attached_sent [OF att msg(1) build(2)]
  define ev where "ev = (if read then (st_event p)\<lparr>ev_od_expected := True\<rparr>
      else iolink_master_event_on_written (st_event p))"
  have "iolink_master_send_event L p ([], d) =
      Some (True, (sent_with L ?msg p)\<lparr>st_event := ev\<rparr>, answer, d')"
    using sent(3) [OF accepts] msg(1) build(1) access
    by (cases read) (simp_all add: iolink_master_send_event_def ev_def)
  then have "iolink_master_process L p ([], d) = Some ((sent_with L ?msg p)\<lparr>st_event := ev\<rparr>, answer, d')"
    using state(1) attached_can_send [OF att accepts]
    by (simp add: iolink_master_process_def iolink_master_process_at_def process_operate_def process_services_def)
  moreover have "event_wf ev"
    using wf by (simp add: ev_def port_wf_def event_wf_def iolink_master_event_on_written_def iolink_master_event_finish_def)
  then have "attached L (wire_phy device) ((sent_with L ?msg p)\<lparr>st_event := ev\<rparr>)"
    using sent(1) by (simp add: attached_def port_wf_defs)
  ultimately show ?thesis
    using p master_command_fields(1) [OF const, of MC_CHANNEL_DIAGNOSIS read "of_nat addr"]
    by (simp add: on_line_def msg(2) ev_def iolink_master_mc_is_read_def)
qed

subsection \<open>The ticks of a readout\<close>

text \<open>A port and a device: the reply that is due, and the state of the event engine.\<close>

definition diagnosing ::
  "iolinki \<Rightarrow> nat \<Rightarrow> (u8 list \<Rightarrow> u8 list) \<Rightarrow> u8 list \<Rightarrow> iolink_master_event_state_t \<Rightarrow>
   (u8 list \<times> u8 list \<times> u8 list) iolink_master_port_state_t \<Rightarrow> bool" where
  "diagnosing L n reply od ev p \<longleftrightarrow> on_line L reply (event_device L n reply) p \<and> st_od_len p = n \<and>
     due od p \<and> st_event p = ev \<and> isdu_op (st_isdu p) = ISDU_OP_NONE \<and>
     \<not> isdu_abort_pending (st_isdu p) \<and> \<not> isdu_idle_pending (st_isdu p)"

lemma diagnosing_facts:
  assumes "diagnosing L n reply od ev p"
  shows "on_line L reply (event_device L n reply) p" "st_od_len p = n" "due od p" "st_event p = ev"
    "event_wf ev" "isdu_wf L (st_isdu p)" "isdu_next L n (st_isdu p) = None"
  using assms
  by (auto simp: diagnosing_def on_line_def attached_def port_wf_def isdu_next_def iolink_master_isdu_channel_access_def)

text \<open>A tick: the octets of the reply go to the event engine, which sends its next message.\<close>

lemma poll_diagnosing:
  assumes L: "iolinki_ok L" and p: "diagnosing L n reply od ev p"
    and ev1: "(if ev_phase ev = EVENT_PHASE_READ \<and> ev_od_expected ev
      then iolink_master_event_on_od od (ev\<lparr>ev_od_expected := False\<rparr>) else Some ev) = Some ev1"
  obtains p1 where "iolink_master_poll_rx L p (reply od, d) = Some (1, p1, [], d)"
    and "on_line L reply (event_device L n reply) p1" "st_od_len p1 = n" "st_event p1 = ev1" "st_isdu p1 = st_isdu p"
proof -
  note facts = diagnosing_facts [OF p]
  have route: "iolink_master_route_od L od q = Some (q\<lparr>st_event := ev1, st_isdu := st_isdu p\<rparr>)"
    if "st_event q = st_event p" "st_isdu q = st_isdu p"
    for q :: "(u8 list \<times> u8 list \<times> u8 list) iolink_master_port_state_t"
    using that ev1 p
    by (cases q) (auto simp: iolink_master_route_od_def iolink_master_event_channel_access_def diagnosing_def
        iolink_master_isdu_on_od_def Let_def split: if_splits Option.bind_splits)
  have "event_wf ev1"
    using ev1 facts(5) event_wf_on_od [of "ev\<lparr>ev_od_expected := False\<rparr>" od]
    by (auto simp: event_wf_def split: if_splits)
  from poll_on_line [OF L facts(1,3) route this facts(6)]
  obtain p1 where "iolink_master_poll_rx L p (reply od, d) = Some (1, p1, [], d)"
    "on_line L reply (event_device L n reply) p1" "st_event p1 = ev1" "st_isdu p1 = st_isdu p"
    "st_od_len p1 = st_od_len p" by blast
  with facts(2) show ?thesis by (intro that [of p1]) simp_all
qed

lemma tick_idle_event:
  assumes L: "iolinki_ok L" and p: "diagnosing L n reply od ev p" and none: "ev_phase ev = EVENT_PHASE_NONE"
  shows "ensures (iolink_master_tick L False p (reply od, d)) (\<lambda>(ret, p', queue, d'). ret = 1 \<and>
    diagnosing L n reply [] ev p' \<and> queue = reply [] \<and> d' = d)"
proof -
  have "stack_constants_ok L" using L by (simp add: iolinki_ok_def)
  note mc = process_mc_decoded [OF this] master_command_fields [OF this, of MC_CHANNEL_PROCESS False 0]
  obtain p1 where p1: "iolink_master_poll_rx L p (reply od, d) = Some (1, p1, [], d)"
    "on_line L reply (event_device L n reply) p1" "st_od_len p1 = n" "st_event p1 = ev" "st_isdu p1 = st_isdu p"
    by (rule poll_diagnosing [OF L p, of ev d]) (use none in auto)
  have "event_device L n reply (cyclic_message L p1) d = (reply [], d)"
    by (cases d) (simp add: event_device_def cyclic_message_line [OF p1(2)] mc Let_def)
  from process_cycle_line [OF L p1(2) _ _ this] tick_on_line [OF p1(1,2)] none p1(3-5) diagnosing_facts(7) [OF p]
    p show ?thesis
    by (auto simp: ensures_map diagnosing_def due_def elim!: ensures_mono)
qed

text \<open>A tick that goes on reading, and the tick that writes the StatusCode.\<close>

definition memory_at :: "nat \<Rightarrow> nat \<Rightarrow> u8 list \<Rightarrow> u8 list" where
  "memory_at n addr memory = take n (drop addr memory @ replicate n 0)"

lemma memory_at_length [simp]: "length (memory_at n addr memory) = n"
  by (simp add: memory_at_def)

lemma tick_reading:
  assumes L: "iolinki_ok L" and p: "diagnosing L n reply od ev p"
    and ev1: "(if ev_phase ev = EVENT_PHASE_READ \<and> ev_od_expected ev
      then iolink_master_event_on_od od (ev\<lparr>ev_od_expected := False\<rparr>) else Some ev) =
      Some (event_collecting request False xs)" and xs: "length xs \<le> 19"
  shows "ensures (iolink_master_tick L False p (reply od, memory, written)) (\<lambda>(ret, p', e'). ret = 1 \<and>
    diagnosing L n reply (memory_at n (length xs) memory) (event_collecting request True xs) p' \<and>
    e' = (reply (memory_at n (length xs) memory), memory, written))"
proof -
  have "stack_constants_ok L" using L by (simp add: iolinki_ok_def)
  note mc = master_command_fields [OF this, of MC_CHANNEL_DIAGNOSIS True "of_nat (length xs)"]
  obtain p1 where p1: "iolink_master_poll_rx L p (reply od, memory, written) = Some (1, p1, [], memory, written)"
    "on_line L reply (event_device L n reply) p1" "st_od_len p1 = n" "st_event p1 = event_collecting request False xs"
    "st_isdu p1 = st_isdu p"
    by (rule poll_diagnosing [OF L p ev1])
  have "unat ((of_nat (length xs) :: u8) AND 31) = length xs"
    using xs by (simp add: octet_and_31 unat_of_nat)
  then have answer: "event_device L n reply (event_message L True (length xs) p1) (memory, written) =
      (reply (memory_at n (length xs) memory), memory, written)"
    by (simp add: event_device_def event_message_def message_def mc Let_def memory_at_def)
  have access: "iolink_master_event_channel_access p1 = Some (True, length xs, st_od_len p1)"
    by (simp add: iolink_master_event_channel_access_def p1(4) event_collecting_def)
  have "(event_collecting request False xs)\<lparr>ev_od_expected := True\<rparr> = event_collecting request True xs"
    by (simp add: event_collecting_def)
  then show ?thesis
    using process_event_line [OF L p1(2) access answer] tick_on_line [OF p1(1,2)] p1(3-5) p
    by (auto simp: ensures_map diagnosing_def due_def elim!: ensures_mono)
qed

lemma tick_written:
  assumes L: "iolinki_ok L" and p: "diagnosing L n reply od ev p"
    and ev1: "(if ev_phase ev = EVENT_PHASE_READ \<and> ev_od_expected ev
      then iolink_master_event_on_od od (ev\<lparr>ev_od_expected := False\<rparr>) else Some ev) = Some ev1"
    and writing: "ev_phase ev1 = EVENT_PHASE_WRITE" "ev_addr ev1 = 0"
  shows "ensures (iolink_master_tick L False p (reply od, memory, written)) (\<lambda>(ret, p', e'). ret = 1 \<and>
    diagnosing L n reply [] (iolink_master_event_on_written ev1) p' \<and> e' = (reply [], memory, written @ [0]))"
proof -
  have "stack_constants_ok L" using L by (simp add: iolinki_ok_def)
  note mc = master_command_fields [OF this, of MC_CHANNEL_DIAGNOSIS False 0]
  obtain p1 where p1: "iolink_master_poll_rx L p (reply od, memory, written) = Some (1, p1, [], memory, written)"
    "on_line L reply (event_device L n reply) p1" "st_od_len p1 = n" "st_event p1 = ev1" "st_isdu p1 = st_isdu p"
    by (rule poll_diagnosing [OF L p ev1])
  have answer: "event_device L n reply (event_message L False 0 p1) (memory, written) = (reply [], memory, written @ [0])"
    by (simp add: event_device_def event_message_def message_def mc Let_def)
  have access: "iolink_master_event_channel_access p1 = Some (False, 0, st_od_len p1)"
    by (simp add: iolink_master_event_channel_access_def p1(4) writing)
  from process_event_line [OF L p1(2) access answer] tick_on_line [OF p1(1,2)] p1(3-5) p show ?thesis
    by (auto simp: ensures_map diagnosing_def due_def elim!: ensures_mono)
qed

text \<open>An acknowledgement that has been written.\<close>

definition event_acknowledged :: "u8 list \<Rightarrow> iolink_master_event_state_t \<Rightarrow> bool" where
  "event_acknowledged img ev \<longleftrightarrow> ev_phase ev = EVENT_PHASE_NONE \<and> ev_request ev = EVENT_REQ_ACK \<and>
     take (length img) (ev_memory ev) = img \<and> length img \<le> length (ev_memory ev)"

lemma idle_ticks:
  assumes L: "iolinki_ok L" and none: "ev_phase ev = EVENT_PHASE_NONE"
  shows "diagnosing L n reply od ev p \<Longrightarrow>
    ensures (untimed_ticks L k p (reply od, d)) (\<lambda>(rets, p', queue, d'). rets = replicate k 1 \<and>
      (\<exists>od'. diagnosing L n reply od' ev p') \<and> d' = d)"
proof (induction k arbitrary: p od)
  case 0
  then show ?case by auto
next
  case (Suc k)
  obtain p' where tick: "iolink_master_tick L False p (reply od, d) = Some (1, p', reply [], d)"
    "diagnosing L n reply [] ev p'"
    using tick_idle_event [OF L Suc.prems none, of d] by (auto elim!: ensuresE)
  from Suc.IH [OF tick(2)] show ?case by (auto simp: tick(1) elim!: ensuresE)
qed

lemma readout_ticks:
  assumes L: "iolinki_ok L" and img: "event_image img"
  shows "diagnosing L n reply (memory_at n (length xs) (img @ rest)) (event_collecting EVENT_REQ_ACK True xs) p \<Longrightarrow>
    xs = take (length xs) img \<Longrightarrow> length xs < length img \<Longrightarrow> length img \<le> length xs + n * k \<Longrightarrow>
    ensures (untimed_ticks L k p (reply (memory_at n (length xs) (img @ rest)), img @ rest, written))
      (\<lambda>(rets, p', queue, memory, written'). rets = replicate k 1 \<and> written' = written @ [0] \<and>
        (\<exists>od' ev'. diagnosing L n reply od' ev' p' \<and> event_acknowledged img ev'))"
proof (induction k arbitrary: p xs)
  case 0
  then show ?case by simp
next
  case (Suc k)
  define od where "od = memory_at n (length xs) (img @ rest)"
  have sizes: "length img \<le> 19" using img event_image_len_bounds by (simp add: event_image_def)
  define line where "line = drop (length xs) img @ rest @ replicate n 0"
  have "od = take n line" using Suc.prems(3) by (simp add: od_def memory_at_def line_def)
  then have "od @ drop n line = line" by simp
  moreover have "xs @ line = img @ rest @ replicate n 0"
    using Suc.prems(2) by (metis append.assoc append_take_drop_id line_def)
  ultimately have all: "(xs @ od) @ drop n line = img @ (rest @ replicate n 0)" by simp
  have len: "length od = n" by (simp add: od_def)
  have ev: "(event_collecting EVENT_REQ_ACK True xs)\<lparr>ev_od_expected := False\<rparr> = event_collecting EVENT_REQ_ACK False xs"
    "ev_phase (event_collecting EVENT_REQ_ACK True xs) = EVENT_PHASE_READ"
    "ev_od_expected (event_collecting EVENT_REQ_ACK True xs)" by (simp_all add: event_collecting_def)
  note step = collecting_step [OF img Suc.prems(3) all, of EVENT_REQ_ACK False]
  show ?case
  proof (cases "length img \<le> length (xs @ od)")
    case True
    then obtain ev1 where ev1: "iolink_master_event_on_od od (event_collecting EVENT_REQ_ACK False xs) = Some ev1"
      "event_readout_done EVENT_REQ_ACK img ev1" using step(1) by (auto elim: ensuresE)
    then have "ev_phase ev1 = EVENT_PHASE_WRITE" "ev_addr ev1 = 0" by (simp_all add: event_readout_done_def)
    from tick_written [OF L Suc.prems(1) [folded od_def] _ this, of "img @ rest" written] ev1(1) ev
    obtain p' where tick: "iolink_master_tick L False p (reply od, img @ rest, written) =
        Some (1, p', reply [], img @ rest, written @ [0])"
      "diagnosing L n reply [] (iolink_master_event_on_written ev1) p'" by (auto elim!: ensuresE)
    have ack: "event_acknowledged img (iolink_master_event_on_written ev1)"
      using ev1(2) sizes by (simp add: event_acknowledged_def event_readout_done_def iolink_master_event_on_written_def
          iolink_master_event_finish_def)
    then have "ev_phase (iolink_master_event_on_written ev1) = EVENT_PHASE_NONE" by (simp add: event_acknowledged_def)
    from idle_ticks [OF L this tick(2), of k "(img @ rest, written @ [0])"] ack show ?thesis
      by (auto simp: od_def [symmetric] tick(1) elim!: ensuresE) blast
  next
    case False
    from tick_reading [OF L Suc.prems(1) [folded od_def], of EVENT_REQ_ACK "xs @ od" "img @ rest" written] step(2) [OF False] ev
      False sizes
    obtain p' where tick: "iolink_master_tick L False p (reply od, img @ rest, written) =
        Some (1, p', reply (memory_at n (length (xs @ od)) (img @ rest)), img @ rest, written)"
      "diagnosing L n reply (memory_at n (length (xs @ od)) (img @ rest)) (event_collecting EVENT_REQ_ACK True (xs @ od)) p'"
      by (auto elim!: ensuresE)
    have "xs @ od = take (length (xs @ od)) ((xs @ od) @ drop n line)" by simp
    then have "xs @ od = take (length (xs @ od)) img" unfolding all using False by simp
    moreover have "length (xs @ od) < length img" "length img \<le> length (xs @ od) + n * k"
      using False Suc.prems(4) len by simp_all
    ultimately have "ensures (untimed_ticks L k p' (reply (memory_at n (length (xs @ od)) (img @ rest)), img @ rest, written))
      (\<lambda>(rets, p', queue, memory, written'). rets = replicate k 1 \<and> written' = written @ [0] \<and>
        (\<exists>od' ev'. diagnosing L n reply od' ev' p' \<and> event_acknowledged img ev'))"
      by (intro Suc.IH [OF tick(2)])
    then show ?thesis by (auto simp: od_def [symmetric] tick(1) elim!: ensuresE) blast
  qed
qed

subsection \<open>The acknowledgement\<close>

text \<open>
  C16. An event is acknowledged over the line. An application that asks an OPERATE port to
  acknowledge, ticks it and asks again gets OK and the code of the lowest active slot of the
  device's event memory: the ticks have read the memory from its start, the OD width at a time,
  and have written the StatusCode (address 0) exactly once. One tick more than the messages that
  carry the image is enough, whatever the OD width, the octets behind the image and the reply
  that was due before.
\<close>

theorem event_acknowledged_over_the_line:
  assumes "iolinki_ok L" and "diagnosing L n reply od ev p"
    and "ev_phase ev = EVENT_PHASE_NONE" and "ev_request ev = EVENT_REQ_NONE"
    and "event_image img" and "length img \<le> n * k"
  shows "ensures (do {
      (ret1, code, p) \<leftarrow> iolink_master_ack_event code p;
      (rets, p, queue, memory, written) \<leftarrow> untimed_ticks L (Suc k) p (reply od, img @ rest, []);
      (ret2, code, p) \<leftarrow> iolink_master_ack_event code p;
      Some (ret1, rets, ret2, code, written, p) })
    (\<lambda>(ret1, rets, ret2, code, written, p'). ret1 = STATUS_PENDING \<and> rets = replicate (Suc k) 1 \<and>
       ret2 = STATUS_OK \<and> code = (case decode_events img of [] \<Rightarrow> 0 | event # _ \<Rightarrow> evt_code event) \<and>
       written = [0] \<and> st_state p' = STATE_OPERATE \<and> ev_request (st_event p') = EVENT_REQ_NONE)"
proof -
  note p = assms(2) [unfolded diagnosing_def on_line_def]
  let ?p = "p\<lparr>st_event := event_collecting EVENT_REQ_ACK False []\<rparr>"
  have start: "iolink_master_ack_event code p = Some (STATUS_PENDING, code, ?p)"
    using p assms(3,4)
    by (simp add: iolink_master_ack_event_def event_service_entry_def isdu_service_state_def
        iolink_master_event_complete_def event_start_collecting)
  have reading: "diagnosing L n reply od (event_collecting EVENT_REQ_ACK False []) ?p"
    using p by (auto simp: diagnosing_def on_line_def attached_def port_wf_defs due_def event_collecting_def event_wf_def)
  have "img \<noteq> []" using assms(5) by (simp add: event_image_def)
  obtain p1 where first: "iolink_master_tick L False ?p (reply od, img @ rest, []) =
      Some (1, p1, reply (memory_at n 0 (img @ rest)), img @ rest, [])"
    "diagnosing L n reply (memory_at n 0 (img @ rest)) (event_collecting EVENT_REQ_ACK True []) p1"
    using tick_reading [OF assms(1) reading, of EVENT_REQ_ACK "[]" "img @ rest" "[]"]
    by (auto simp: event_collecting_def elim!: ensuresE)
  obtain p2 e2 od2 ev2 where ticks: "untimed_ticks L k p1 (reply (memory_at n 0 (img @ rest)), img @ rest, []) =
      Some (replicate k 1, p2, fst e2, snd e2, [0])"
    and p2: "diagnosing L n reply od2 ev2 p2" "event_acknowledged img ev2"
    using readout_ticks [OF assms(1,5), of n reply "[]" rest p1 k "[]"] first(2) assms(6) \<open>img \<noteq> []\<close>
    by (force elim!: ensuresE)
  have "isdu_service_state p2" "st_event p2 = ev2" "st_state p2 = STATE_OPERATE"
    using p2(1) by (simp_all add: diagnosing_def on_line_def isdu_service_state_def)
  with p2(2) event_first_code_eq [OF assms(5), of "ev_memory ev2"]
  have "iolink_master_ack_event code p2 = Some (STATUS_OK, case decode_events img of [] \<Rightarrow> 0 | event # _ \<Rightarrow> evt_code event,
      event_consumed (p2\<lparr>st_diagnostics := (st_diagnostics p2)
        \<lparr>dg_last_event_code := case decode_events img of [] \<Rightarrow> 0 | event # _ \<Rightarrow> evt_code event\<rparr>\<rparr>))"
    by (simp add: iolink_master_ack_event_def event_service_entry_def iolink_master_event_complete_def event_acknowledged_def)
  with \<open>st_state p2 = STATE_OPERATE\<close> show ?thesis
    by (simp add: start first(1) ticks event_consumed_def)
qed

text \<open>The line of the witness: one event in slot 0, OD octets of width 1.\<close>

definition demo_diagnosed :: "(u8 list \<times> u8 list \<times> u8 list) iolink_master_port_state_t" where
  "demo_diagnosed = (demo_wired (\<lambda>read od d. ([], d)))\<lparr>st_phy := Some (wire_phy (event_device demo_stack 1 demo_reply))\<rparr>"

theorem event_acknowledged_over_the_line_witness:
  "ensures (do {
      (ret1, code, p) \<leftarrow> iolink_master_ack_event 0 demo_diagnosed;
      (rets, p, queue, memory, written) \<leftarrow> untimed_ticks demo_stack 5 p (demo_reply [], [0x81, 0xE4, 0x8C, 0x10] @ [9], []);
      (ret2, code, p) \<leftarrow> iolink_master_ack_event code p;
      Some (ret1, rets, ret2, code, written, p) })
    (\<lambda>(ret1, rets, ret2, code, written, p'). ret2 = STATUS_OK \<and> code = 0x8C10 \<and> written = [0])"
proof -
  have "diagnosing demo_stack 1 demo_reply [] zero_event demo_diagnosed"
    using demo_wired [of "\<lambda>read od d. ([], d)"]
    by (simp add: diagnosing_def wired_defs demo_diagnosed_def attached_def due_def)
      (auto simp: demo_wired_def zero_port_def zero_isdu_def port_wf_defs)
  from event_acknowledged_over_the_line [OF demo_stack_ok this _ _ demo_image(1), of 4 0 "[9]"]
  show ?thesis by (auto simp: zero_event_def demo_image(2) elim!: ensures_mono)
qed

end
