(* ===== verification/MasterServices.thy ===== *)
theory MasterServices
  imports MasterWire
begin

text \<open>
  The ISDU services of a port that is ticked against a device on the line
  (\<open>src/master_isdu.c\<close>, lines 196-592 and 866-941, with the tick engine of
  \<open>src/master_port.c\<close>). The device collects the octets of a request, answers it in segments of
  the OD width and keeps a log of the requests. It is the second provider of the contract
  \<open>exchanged_service\<close> of \<open>MasterBlock\<close>: there the exchange is the transport of the ISDU
  engine alone, here it is a number of ticks of the port.
\<close>

subsection \<open>A device with an ISDU server\<close>

text \<open>The octets of the request so far, the segments still to send, the requests so far.\<close>

type_synonym isdu_server = "u8 list \<times> u8 list list \<times> isdu_request_t list"

definition isdu_serve :: "(isdu_request_t \<Rightarrow> u8 list list) \<Rightarrow> isdu_server \<Rightarrow> isdu_server" where
  "isdu_serve device = (\<lambda>(received, segs, log).
     if received = [] then (received, segs, log)
     else case parse_request received of
            None \<Rightarrow> ([], [], log)
          | Some request \<Rightarrow> ([], device request, log @ [request]))"

definition isdu_device ::
  "nat \<Rightarrow> (isdu_request_t \<Rightarrow> u8 list list) \<Rightarrow> bool \<Rightarrow> u8 list \<Rightarrow> isdu_server \<Rightarrow> u8 list \<times> isdu_server" where
  "isdu_device n device read od s =
     (if read
      then case isdu_serve device s of
             (received, [], log) \<Rightarrow> (replicate n 0, received, [], log)
           | (received, seg # segs, log) \<Rightarrow> (take n (seg @ replicate n 0), received, segs, log)
      else case s of (received, segs, log) \<Rightarrow> ([], received @ od, segs, log))"

definition segments_of :: "nat \<Rightarrow> (isdu_request_t \<Rightarrow> u8 list list) \<Rightarrow> bool" where
  "segments_of n device \<longleftrightarrow> (\<forall>request. \<forall>seg \<in> set (device request). length seg = n)"

subsection \<open>What the transport keeps apart from its flow control\<close>

definition isdu_core :: "iolink_master_isdu_state_t \<Rightarrow> iolink_master_isdu_state_t" where
  "isdu_core isdu = isdu\<lparr>isdu_flowctrl := 0, isdu_idle_pending := False, isdu_abort_pending := False\<rparr>"

definition flow_with :: "u8 \<Rightarrow> bool \<Rightarrow> bool \<Rightarrow> iolink_master_isdu_state_t \<Rightarrow> iolink_master_isdu_state_t" where
  "flow_with f i a isdu = isdu\<lparr>isdu_flowctrl := f, isdu_idle_pending := i, isdu_abort_pending := a\<rparr>"

lemma core_eq_flow: "isdu_core a = isdu_core b \<longleftrightarrow> (\<exists>f i t. a = flow_with f i t b)"
proof
  assume eq: "isdu_core a = isdu_core b"
  have "a = flow_with (isdu_flowctrl a) (isdu_idle_pending a) (isdu_abort_pending a) b"
    using eq by (cases a; cases b) (simp add: isdu_core_def flow_with_def)
  then show "\<exists>f i t. a = flow_with f i t b" by blast
qed (auto simp: isdu_core_def flow_with_def)

lemma flow_with_fields [simp]:
  "isdu_op (flow_with f i t isdu) = isdu_op isdu" "isdu_phase (flow_with f i t isdu) = isdu_phase isdu"
  "isdu_index (flow_with f i t isdu) = isdu_index isdu" "isdu_subindex (flow_with f i t isdu) = isdu_subindex isdu"
  "isdu_response (flow_with f i t isdu) = isdu_response isdu"
  "isdu_response_len (flow_with f i t isdu) = isdu_response_len isdu"
  "isdu_expected_len (flow_with f i t isdu) = isdu_expected_len isdu"
  "isdu_done (flow_with f i t isdu) = isdu_done isdu" "isdu_error (flow_with f i t isdu) = isdu_error isdu"
  by (simp_all add: flow_with_def)

lemma decode_core:
  "map_option isdu_core (iolink_master_isdu_decode_response L (flow_with f i t isdu)) =
   map_option isdu_core (iolink_master_isdu_decode_response L isdu)"
  by (simp add: iolink_master_isdu_decode_response_def flow_with_def isdu_core_def Let_def
      split: Option.bind_split)

lemma flow_with_updates:
  "(flow_with f i t isdu)\<lparr>isdu_response := r\<rparr> = flow_with f i t (isdu\<lparr>isdu_response := r\<rparr>)"
  "(flow_with f i t isdu)\<lparr>isdu_response_len := n\<rparr> = flow_with f i t (isdu\<lparr>isdu_response_len := n\<rparr>)"
  "(flow_with f i t isdu)\<lparr>isdu_response_pos := n\<rparr> = flow_with f i t (isdu\<lparr>isdu_response_pos := n\<rparr>)"
  "(flow_with f i t isdu)\<lparr>isdu_expected_len := n\<rparr> = flow_with f i t (isdu\<lparr>isdu_expected_len := n\<rparr>)"
  "(flow_with f i t isdu)\<lparr>isdu_phase := phase\<rparr> = flow_with f i t (isdu\<lparr>isdu_phase := phase\<rparr>)"
  "(flow_with f i t isdu)\<lparr>isdu_error := err\<rparr> = flow_with f i t (isdu\<lparr>isdu_error := err\<rparr>)"
  "(flow_with f i t isdu)\<lparr>isdu_done := b\<rparr> = flow_with f i t (isdu\<lparr>isdu_done := b\<rparr>)"
  "(flow_with f i t isdu)\<lparr>isdu_flowctrl := c\<rparr> = flow_with c i t (isdu\<lparr>isdu_flowctrl := c\<rparr>)"
  by (simp_all add: flow_with_def)

lemma core_flow_with [simp]: "isdu_core (flow_with f i t isdu) = isdu_core isdu"
  by (simp add: isdu_core_def flow_with_def)

lemma complete_core:
  "map_option (map_prod id isdu_core) (isdu_check_complete L (flow_with f i t isdu)) =
   map_option (map_prod id isdu_core) (isdu_check_complete L isdu)"
  using arg_cong [OF decode_core [of L f i t isdu], of "map_option (Pair True)"]
  by (simp add: isdu_check_complete_def option.map_comp comp_def)

lemma store_core:
  "map_option (map_prod id isdu_core) (isdu_store_octet L octet (flow_with f i t isdu)) =
   map_option (map_prod id isdu_core) (isdu_store_octet L octet isdu)"
  by (simp add: isdu_store_octet_def isdu_fail_def flow_with_updates complete_core Let_def split: Option.bind_split)

lemma octet_core:
  "map_option (map_prod id isdu_core) (isdu_on_octet L octet (flow_with f i t isdu)) =
   map_option (map_prod id isdu_core) (isdu_on_octet L octet isdu)"
  by (simp add: isdu_on_octet_def store_core flow_with_updates)

lemma loop_core:
  "isdu_core a = isdu_core b \<Longrightarrow>
   map_option isdu_core (isdu_od_loop L od a) = map_option isdu_core (isdu_od_loop L od b)"
proof (induction od arbitrary: a b)
  case Nil
  then show ?case by simp
next
  case (Cons octet od)
  then obtain f i t where a: "a = flow_with f i t b" by (auto simp: core_eq_flow)
  have "map_option (map_prod id isdu_core) (isdu_on_octet L octet a) =
      map_option (map_prod id isdu_core) (isdu_on_octet L octet b)"
    unfolding a by (rule octet_core)
  then show ?case
    by (cases "isdu_on_octet L octet a"; cases "isdu_on_octet L octet b") (auto intro: Cons.IH)
qed

lemma core_fields:
  assumes "isdu_core a = isdu_core b"
  shows "isdu_op a = isdu_op b" "isdu_phase a = isdu_phase b" "isdu_done a = isdu_done b"
    "isdu_index a = isdu_index b" "isdu_subindex a = isdu_subindex b" "isdu_error a = isdu_error b"
    "isdu_response a = isdu_response b" "isdu_response_len a = isdu_response_len b"
  using assms unfolding core_eq_flow by auto

lemma on_od_core:
  "isdu_core a = isdu_core b \<Longrightarrow>
   map_option isdu_core (iolink_master_isdu_on_od L od a) = map_option isdu_core (iolink_master_isdu_on_od L od b)"
  using core_fields [of a b] loop_core [of a b L od] by (simp add: iolink_master_isdu_on_od_def)

lemma feed_core:
  "isdu_core a = isdu_core b \<Longrightarrow> feed (iolink_master_isdu_on_od L) segs b = Some out \<Longrightarrow>
   \<exists>out'. feed (iolink_master_isdu_on_od L) segs a = Some out' \<and> isdu_core out' = isdu_core out"
  using on_od_core [of a b L "concat segs"] by (auto simp: isdu_stream.feed_concat)

text \<open>An answer does not restart the request.\<close>

lemma decode_kept:
  "iolink_master_isdu_decode_response L isdu = Some isdu' \<Longrightarrow>
   isdu_op isdu' = isdu_op isdu \<and> isdu_phase isdu' = ISDU_PHASE_NONE"
  by (auto simp: iolink_master_isdu_decode_response_def Let_def split: if_splits Option.bind_splits)

lemma complete_kept:
  "isdu_check_complete L isdu = Some (return, isdu') \<Longrightarrow>
   isdu_op isdu' = isdu_op isdu \<and> (isdu_phase isdu' = isdu_phase isdu \<or> isdu_phase isdu' = ISDU_PHASE_NONE)"
  by (auto simp: isdu_check_complete_def split: if_splits dest: decode_kept)

lemma store_kept:
  assumes "isdu_store_octet L octet isdu = Some (return, isdu')"
  shows "isdu_op isdu' = isdu_op isdu" "isdu_phase isdu' = isdu_phase isdu \<or> isdu_phase isdu' = ISDU_PHASE_NONE"
  using assms
  by (auto simp: isdu_store_octet_def isdu_fail_def Let_def split: if_splits Option.bind_splits dest!: complete_kept)

lemma octet_kept:
  "isdu_on_octet L octet isdu = Some (return, isdu') \<Longrightarrow> isdu_phase isdu \<noteq> ISDU_PHASE_REQUEST \<Longrightarrow>
   isdu_op isdu' = isdu_op isdu \<and> isdu_phase isdu' \<noteq> ISDU_PHASE_REQUEST"
  using store_kept [of L octet _ return isdu'] by (fastforce simp: isdu_on_octet_def split: if_splits)

lemma loop_kept:
  "isdu_od_loop L od isdu = Some isdu' \<Longrightarrow> isdu_phase isdu \<noteq> ISDU_PHASE_REQUEST \<Longrightarrow>
   isdu_op isdu' = isdu_op isdu \<and> isdu_phase isdu' \<noteq> ISDU_PHASE_REQUEST"
  by (induction od arbitrary: isdu) (auto split: Option.bind_splits if_splits dest!: octet_kept)

lemma on_od_kept:
  "iolink_master_isdu_on_od L od isdu = Some isdu' \<Longrightarrow> isdu_phase isdu \<noteq> ISDU_PHASE_REQUEST \<Longrightarrow>
   isdu_op isdu' = isdu_op isdu \<and> isdu_phase isdu' \<noteq> ISDU_PHASE_REQUEST"
  by (auto simp: iolink_master_isdu_on_od_def split: if_splits dest: loop_kept)

text \<open>While it waits for the answer the engine reads, and its frames change the flow control only.\<close>

lemma next_reading:
  assumes "isdu_next L n isdu = Some (mc, od, isdu')" "isdu_phase isdu \<noteq> ISDU_PHASE_REQUEST"
  shows "od = None" "isdu_core isdu' = isdu_core isdu"
  using assms
  by (auto simp: isdu_next_def iolink_master_isdu_channel_access_def iolink_master_isdu_fill_od_def
      isdu_core_def split: if_splits iolink_master_isdu_phase_t.splits)

lemma next_none_done:
  assumes "isdu_next L n isdu = None" "isdu_wf L isdu" "stack_constants_ok L" "isdu_op isdu \<noteq> ISDU_OP_NONE"
  shows "isdu_done isdu"
  using isdu_wf_fill_od [OF assms(2,3), of n] assms(1,4)
  by (auto simp: isdu_next_def iolink_master_isdu_channel_access_def elim!: ensuresE split: if_splits)

subsection \<open>The response\<close>

text \<open>A finished service stays as it is.\<close>

lemma done_steps:
  assumes L: "stack_constants_ok L"
  shows "isdu_wf L isdu \<Longrightarrow> isdu_done isdu \<Longrightarrow> isdu_phase isdu \<noteq> ISDU_PHASE_REQUEST \<Longrightarrow>
    \<exists>od' isdu' rest'. wire_steps L n (isdu_device n device) k (od, isdu, [], rest, log) =
        Some (od', isdu', [], rest', log) \<and> isdu_core isdu' = isdu_core isdu"
proof (induction k arbitrary: od isdu rest)
  case 0
  then show ?case by simp
next
  case (Suc k)
  note on_od = isdu_on_od_done [OF Suc.prems(2), of L od]
  show ?case
  proof (cases "isdu_next L n isdu")
    case None
    then show ?thesis using Suc.IH [OF Suc.prems, of "[]" rest] by (simp add: wire_step_def on_od)
  next
    case (Some a)
    then obtain mc od1 isdu1 where nxt: "isdu_next L n isdu = Some (mc, od1, isdu1)" by (cases a) auto
    note reading = next_reading [OF nxt Suc.prems(3)]
    have isdu1: "isdu_wf L isdu1" "isdu_done isdu1" "isdu_phase isdu1 \<noteq> ISDU_PHASE_REQUEST"
      using isdu_next_wf(1) [OF Suc.prems(1) L nxt] core_fields [OF reading(2)] Suc.prems by simp_all
    show ?thesis
      using Suc.IH [OF isdu1] reading
      by (cases rest) (simp_all add: wire_step_def on_od nxt answered_od_def isdu_device_def isdu_serve_def)
  qed
qed

lemma response_steps:
  assumes L: "stack_constants_ok L"
  shows "isdu_wf L isdu \<Longrightarrow> isdu_op isdu \<noteq> ISDU_OP_NONE \<Longrightarrow> isdu_phase isdu \<noteq> ISDU_PHASE_REQUEST \<Longrightarrow>
    feed (iolink_master_isdu_on_od L) (od # rest) isdu = Some out \<Longrightarrow> isdu_done out \<Longrightarrow> length rest < k \<Longrightarrow>
    \<forall>seg \<in> set rest. length seg = n \<Longrightarrow> \<exists>od' isdu' rest'. wire_steps L n (isdu_device n device) k (od, isdu, [], rest, log) =
        Some (od', isdu', [], rest', log) \<and> isdu_core isdu' = isdu_core out"
proof (induction k arbitrary: od isdu rest out)
  case 0
  then show ?case by simp
next
  case (Suc k)
  obtain isdu1 where on_od: "iolink_master_isdu_on_od L od isdu = Some isdu1" "isdu_wf L isdu1"
    using isdu_wf_on_od [OF Suc.prems(1) L, of od] by (auto elim: ensuresE)
  have isdu1: "isdu_op isdu1 \<noteq> ISDU_OP_NONE" "isdu_phase isdu1 \<noteq> ISDU_PHASE_REQUEST"
    using on_od_kept [OF on_od(1) Suc.prems(3)] Suc.prems(2) by simp_all
  have out: "feed (iolink_master_isdu_on_od L) rest isdu1 = Some out" using Suc.prems(4) on_od(1) by simp
  show ?case
  proof (cases "isdu_done isdu1")
    case True
    then have "out = isdu1" using out isdu_on_od_done [OF True] by (simp add: isdu_stream.feed_concat)
    moreover have "wire_steps L n (isdu_device n device) (Suc k) (od, isdu, [], rest, log) =
        wire_steps L n (isdu_device n device) (Suc k) ([], isdu1, [], rest, log)"
      using isdu_on_od_done [OF True, of L "[]"] by (simp add: wire_step_def on_od(1))
    ultimately show ?thesis using done_steps [OF L on_od(2) True isdu1(2), of n device "Suc k" "[]" rest log] by simp
  next
    case False
    then obtain mc od1 isdu2 where nxt: "isdu_next L n isdu1 = Some (mc, od1, isdu2)"
      using next_none_done [OF _ on_od(2) L isdu1(1), of n] by (cases "isdu_next L n isdu1") auto
    note reading = next_reading [OF nxt isdu1(2)]
    obtain seg rest' where rest: "rest = seg # rest'" using out False Suc.prems(5) by (cases rest) auto
    have isdu2: "isdu_wf L isdu2" "isdu_op isdu2 \<noteq> ISDU_OP_NONE" "isdu_phase isdu2 \<noteq> ISDU_PHASE_REQUEST"
      using isdu_next_wf(1) [OF on_od(2) L nxt] core_fields [OF reading(2)] isdu1 by simp_all
    obtain out' where out': "feed (iolink_master_isdu_on_od L) (seg # rest') isdu2 = Some out'"
      "isdu_core out' = isdu_core out"
      using feed_core [OF reading(2) out] by (auto simp: rest)
    have "isdu_done out'" "length rest' < k" "\<forall>seg \<in> set rest'. length seg = n"
      using core_fields(3) [OF out'(2)] Suc.prems(5-7) by (simp_all add: rest)
    from Suc.IH [OF isdu2 out'(1) this] show ?thesis
      by (simp add: wire_step_def on_od(1) nxt reading(1) answered_od_def isdu_device_def isdu_serve_def rest out'(2)
        Suc.prems(7) [unfolded rest])
  qed
qed

subsection \<open>The request\<close>

lemma fill_flags:
  "iolink_master_isdu_fill_od L n isdu = Some (od, isdu') \<Longrightarrow>
   isdu_idle_pending isdu' = isdu_idle_pending isdu \<and> isdu_abort_pending isdu' = isdu_abort_pending isdu"
  by (auto simp: iolink_master_isdu_fill_od_def Let_def split: if_splits iolink_master_isdu_phase_t.splits
      Option.bind_splits)

lemma request_step:
  assumes "isdu_frames L n (Suc k) isdu = Some (frames, isdu')" "list_all (\<lambda>(read, flowctrl, od). \<not> read) frames"
    and "\<not> isdu_idle_pending isdu" "\<not> isdu_abort_pending isdu"
  obtains mc flowctrl od1 isdu1 frames1 where "frames = (False, flowctrl, od1) # frames1"
    "isdu_frames L n k isdu1 = Some (frames1, isdu')" "iolink_master_isdu_on_od L od isdu = Some isdu"
    "isdu_next L n isdu = Some (mc, Some od1, isdu1)" "\<not> isdu_idle_pending isdu1" "\<not> isdu_abort_pending isdu1"
    "wire_step L n (isdu_device n device) (od, isdu, received, segs, log) = Some ([], isdu1, received @ od1, segs, log)"
proof -
  obtain flowctrl od1 isdu1 frames1 where frame: "iolink_master_isdu_channel_access L isdu = Some (False, flowctrl)"
    "iolink_master_isdu_fill_od L n isdu = Some (od1, isdu1)" "isdu_frames L n k isdu1 = Some (frames1, isdu')"
    and frames: "frames = (False, flowctrl, od1) # frames1"
    using assms(1,2) by (auto split: Option.bind_splits)
  have "isdu_phase isdu = ISDU_PHASE_REQUEST"
    using frame(1) by (auto simp: iolink_master_isdu_channel_access_def split: if_splits)
  then have on_od: "iolink_master_isdu_on_od L od isdu = Some isdu" by (simp add: iolink_master_isdu_on_od_def)
  moreover have nxt: "isdu_next L n isdu = Some (isdu_mc L False flowctrl, Some od1, isdu1)"
    using assms(3,4) frame(1,2) by (simp add: isdu_next_def)
  ultimately have "wire_step L n (isdu_device n device) (od, isdu, received, segs, log) =
      Some ([], isdu1, received @ od1, segs, log)"
    by (simp add: wire_step_def answered_od_def isdu_device_def)
  with that [OF frames frame(3) on_od nxt] fill_flags [OF frame(2)] assms(3,4) show ?thesis by simp
qed

lemma request_steps:
  "isdu_frames L n k isdu = Some (frames, isdu') \<Longrightarrow> list_all (\<lambda>(read, flowctrl, od). \<not> read) frames \<Longrightarrow>
   \<not> isdu_idle_pending isdu \<Longrightarrow> \<not> isdu_abort_pending isdu \<Longrightarrow>
   wire_steps L n (isdu_device n device) k (od, isdu, received, segs, log) =
     Some (if k = 0 then od else [], isdu', received @ concat (map (\<lambda>(read, flowctrl, od). od) frames), segs, log)"
proof (induction k arbitrary: isdu frames od received)
  case 0
  then show ?case by simp
next
  case (Suc k)
  obtain mc flowctrl od1 isdu1 frames1 where stp: "frames = (False, flowctrl, od1) # frames1"
    "isdu_frames L n k isdu1 = Some (frames1, isdu')" "iolink_master_isdu_on_od L od isdu = Some isdu"
    "isdu_next L n isdu = Some (mc, Some od1, isdu1)" "\<not> isdu_idle_pending isdu1" "\<not> isdu_abort_pending isdu1"
    "wire_step L n (isdu_device n device) (od, isdu, received, segs, log) = Some ([], isdu1, received @ od1, segs, log)"
    by (rule request_step [OF Suc.prems])
  then show ?case
    using Suc.IH [OF stp(2) _ stp(5,6), of "[]" "received @ od1"] Suc.prems(2) by simp
qed

text \<open>The messages of a request that has been built.\<close>

lemma request_frames:
  assumes L: "stack_constants_ok L" and n: "0 < n" and started: "isdu_started L request isdu"
  shows "\<exists>frames. isdu_frames L n (frames_needed n (isdu_request_len isdu)) isdu = Some (frames, isdu_request_sent L isdu) \<and>
    list_all (\<lambda>(read, flowctrl, od). \<not> read) frames \<and>
    parse_request (concat (map (\<lambda>(read, flowctrl, od). od) frames)) = Some request"
proof -
  define j where "j = frames_needed n (isdu_request_len isdu)"
  have isdu: "isdu_wf L isdu" "isdu_phase isdu = ISDU_PHASE_REQUEST" "isdu_request_pos isdu = 0"
    "isdu_flowctrl isdu = FLOWCTRL_START L"
    and parse: "parse_request (take (isdu_request_len isdu) (isdu_request isdu) @ padding) = Some request" for padding
    using started by (simp_all add: isdu_started_def)
  obtain frames where frames: "isdu_frames L n j isdu = Some (frames, isdu_request_sent L isdu)"
    "map (\<lambda>(read, flowctrl, od). (read, flowctrl)) frames = map (\<lambda>i. (False, flow_count L i)) [0..<j]"
    "concat (map (\<lambda>(read, flowctrl, od). od) frames) =
       take (isdu_request_len isdu) (isdu_request isdu) @ replicate (n * j - isdu_request_len isdu) 0"
    using request_transmission [OF L isdu n] by (auto simp: j_def)
  have "list_all (\<lambda>(read, flowctrl). \<not> read) (map (\<lambda>(read, flowctrl, od). (read, flowctrl)) frames)"
    unfolding frames(2) by (simp add: list_all_iff)
  then have "list_all (\<lambda>(read, flowctrl, od). \<not> read) frames"
    by (simp add: list.pred_map comp_def case_prod_unfold)
  with frames parse show ?thesis by (auto simp: j_def)
qed

lemma wire_steps_add:
  "wire_steps L n od_device (j + k) c = do { c \<leftarrow> wire_steps L n od_device j c; wire_steps L n od_device k c }"
proof (induction j arbitrary: c)
  case (Suc j)
  then show ?case by (cases "wire_step L n od_device c") simp_all
qed simp

subsection \<open>A whole service\<close>

text \<open>The first READ makes the device take the request.\<close>

lemma serve_request:
  assumes L: "stack_constants_ok L" and isdu: "isdu_wf L isdu" "isdu_phase isdu = ISDU_PHASE_WAIT"
    and request: "parse_request received = Some request" and k: "0 < k"
  shows "wire_steps L n (isdu_device n device) k ([], isdu, received, segs, log) =
    wire_steps L n (isdu_device n device) k ([], isdu, [], device request, log @ [request])"
proof -
  have op: "isdu_op isdu \<noteq> ISDU_OP_NONE" "\<not> isdu_done isdu" using isdu by (auto simp: isdu_wf_def)
  obtain mc od isdu1 where nxt: "isdu_next L n isdu = Some (mc, od, isdu1)"
    using next_none_done [OF _ isdu(1) L op(1)] op(2) by (cases "isdu_next L n isdu") auto
  have "received \<noteq> []" using request by (auto simp: parse_request_def)
  then have "isdu_device n device True [] (received, segs, log) =
      isdu_device n device True [] ([], device request, log @ [request])"
    by (simp add: isdu_device_def isdu_serve_def request)
  moreover have "od = None" using next_reading(1) [OF nxt] isdu(2) by simp
  ultimately have "wire_step L n (isdu_device n device) ([], isdu, received, segs, log) =
      wire_step L n (isdu_device n device) ([], isdu, [], device request, log @ [request])"
    by (simp add: wire_step_def isdu_stream.consume_Nil nxt answered_od_def)
  with k show ?thesis by (cases k) simp_all
qed

lemma service_steps:
  assumes L: "stack_constants_ok L" and n: "0 < n" and device: "device_answers L answer device" "segments_of n device"
    and started: "isdu_started L (Isdu_Request read index subindex payload) isdu"
    and request: "request = Isdu_Request read index subindex payload"
    and k: "frames_needed n (isdu_request_len isdu) + length (device request) < k"
  shows "\<exists>od' isdu' rest'. wire_steps L n (isdu_device n device) k (od, isdu, [], segs, log) =
      Some (od', isdu', [], rest', log @ [request]) \<and>
    isdu_done isdu' \<and> isdu_error isdu' = ISDU_ERROR_NONE L \<and>
    take (isdu_response_len isdu') (isdu_response isdu') = answer request \<and>
    isdu_response_len isdu' = length (answer request) \<and>
    iolink_master_isdu_matches (if read then ISDU_OP_READ else ISDU_OP_WRITE) index subindex isdu'"
proof -
  define j where "j = frames_needed n (isdu_request_len isdu)"
  define sent where "sent = isdu_request_sent L isdu"
  have isdu: "isdu_wf L isdu" "isdu_phase isdu = ISDU_PHASE_REQUEST" "isdu_error isdu = ISDU_ERROR_NONE L"
    "\<not> isdu_idle_pending isdu" "\<not> isdu_abort_pending isdu"
    and matches: "iolink_master_isdu_matches (if read then ISDU_OP_READ else ISDU_OP_WRITE) index subindex isdu"
    using started by (simp_all add: isdu_started_def)
  obtain frames where frames: "isdu_frames L n j isdu = Some (frames, sent)"
    and writes: "list_all (\<lambda>(read, flowctrl, od). \<not> read) frames"
    and parse: "parse_request (concat (map (\<lambda>(read, flowctrl, od). od) frames)) = Some request"
    using request_frames [OF L n started] by (auto simp: j_def sent_def request)
  have j: "0 < j"
    using n isdu(1,2) by (auto simp: j_def frames_needed_def isdu_wf_def div_greater_zero_iff)
  have req: "wire_steps L n (isdu_device n device) j (od, isdu, [], segs, log) =
      Some ([], sent, concat (map (\<lambda>(read, flowctrl, od). od) frames), segs, log)"
    using request_steps [OF frames writes isdu(4,5), of device od "[]" segs log] j by simp
  have sent: "isdu_wf L sent" "isdu_phase sent = ISDU_PHASE_WAIT" "isdu_error sent = ISDU_ERROR_NONE L"
    "\<not> isdu_idle_pending sent" "\<not> isdu_abort_pending sent" "isdu_op sent \<noteq> ISDU_OP_NONE"
    "iolink_master_isdu_matches (if read then ISDU_OP_READ else ISDU_OP_WRITE) index subindex sent"
    using isdu matches by (auto simp: sent_def isdu_request_sent_def isdu_wf_def iolink_master_isdu_matches_def)
  obtain busy r trailing where dev: "complete_response r" "length r \<le> ISDU_BUFFER_SIZE L"
    "set busy \<subseteq> {0, 1}" "concat (device request) = busy @ r @ trailing"
    "parse_response L r = Response_Payload (answer request)"
    using device(1) unfolding device_answers_def by metis
  obtain out where out: "feed (iolink_master_isdu_on_od L) ([] # device request) sent = Some out"
    "isdu_outcome_is L (Response_Payload (answer request)) out" "isdu_op out = isdu_op sent"
    "isdu_index out = isdu_index sent" "isdu_subindex out = isdu_subindex sent"
    using response_stream_outcome [OF L sent(1-5) dev(1-4)]
    by (auto simp: dev(5) isdu_stream.consume_Nil elim!: ensuresE)
  have "isdu_phase sent \<noteq> ISDU_PHASE_REQUEST" "isdu_done out" "length (device request) < k - j"
    "\<forall>seg \<in> set (device request). length seg = n"
    using sent(2) out(2) k device(2) by (simp_all add: isdu_outcome_is_def j_def segments_of_def)
  from response_steps [OF L sent(1,6) this(1) out(1) this(2-4), of device "log @ [request]"]
  obtain od' isdu' rest' where resp: "wire_steps L n (isdu_device n device) (k - j)
      ([], sent, [], device request, log @ [request]) = Some (od', isdu', [], rest', log @ [request])"
    "isdu_core isdu' = isdu_core out" by auto
  have "k = j + (k - j)" "0 < k - j" using k by (simp_all add: j_def)
  then have "wire_steps L n (isdu_device n device) k (od, isdu, [], segs, log) =
      Some (od', isdu', [], rest', log @ [request])"
    using wire_steps_add [of L n "isdu_device n device" j "k - j"] req resp(1)
      serve_request [OF L sent(1,2) parse] by simp
  with core_fields [OF resp(2)] out(2-5) sent(7) show ?thesis
    by (auto simp: isdu_outcome_is_def iolink_master_isdu_matches_def)
qed

subsection \<open>The services of a ticked port\<close>

text \<open>
  The application calls a service on the port; an exchange ticks the port \<open>K\<close> times and takes the
  log of the device.
\<close>

type_synonym wire_state = "(u8 list \<times> isdu_server) iolink_master_port_state_t \<times> u8 list \<times> isdu_server"

definition port_call ::
  "((u8 list \<times> isdu_server) iolink_master_port_state_t \<Rightarrow>
      ('r \<times> (u8 list \<times> isdu_server) iolink_master_port_state_t) option) \<Rightarrow>
   wire_state \<Rightarrow> ('r \<times> wire_state) option" where
  "port_call call = (\<lambda>(p, e). map_option (\<lambda>(r, p). (r, p, e)) (call p))"

definition wire_call :: "iolinki \<Rightarrow> isdu_request_t \<Rightarrow> wire_state \<Rightarrow> ((int \<times> u8 list) \<times> wire_state) option" where
  "wire_call L request = port_call (isdu_call L request)"

definition wire_exchange :: "iolinki \<Rightarrow> nat \<Rightarrow> wire_state \<Rightarrow> (isdu_request_t list \<times> wire_state) option" where
  "wire_exchange L K = (\<lambda>(p, e). map_option
     (\<lambda>(rets, p, queue, received, segs, log). (log, p, queue, received, segs, [])) (untimed_ticks L K p e))"

definition wire_at ::
  "iolinki \<Rightarrow> nat \<Rightarrow> (u8 list \<Rightarrow> u8 list) \<Rightarrow> (isdu_request_t \<Rightarrow> u8 list list) \<Rightarrow>
   ((u8 list \<times> isdu_server) iolink_master_port_state_t \<Rightarrow> bool) \<Rightarrow> wire_state \<Rightarrow> bool" where
  "wire_at L n reply device holds = (\<lambda>(p, queue, received, segs, log). holds p \<and>
     wired L reply (isdu_device n device) p \<and> st_od_len p = n \<and> received = [] \<and> log = [] \<and>
     (\<exists>od. due od p \<and> queue = reply od))"

definition services_fit :: "iolinki \<Rightarrow> nat \<Rightarrow> (isdu_request_t \<Rightarrow> u8 list list) \<Rightarrow> nat \<Rightarrow> bool" where
  "services_fit L n device K \<longleftrightarrow>
     (\<forall>request. frames_needed n (ISDU_BUFFER_SIZE L) + length (device request) < K)"

text \<open>The services keep the line.\<close>

lemma wire_at_serviced:
  assumes "wire_at L n reply device holds (p, e)" "serviced p p'" "port_wf L p'" "holds' p'"
  shows "wire_at L n reply device holds' (p', e)"
proof -
  obtain isdu block d where p': "p' = p\<lparr>st_isdu := isdu, st_block := block, st_diagnostics := d\<rparr>"
    using assms(2) unfolding serviced_def by metis
  from assms(1,3,4) show ?thesis
    by (cases e) (auto simp: wire_at_def wired_defs attached_def due_def p')
qed

lemma wire_at_wf: "wire_at L n reply device holds (p, e) \<Longrightarrow> port_wf L p"
  by (cases e) (simp add: wire_at_def wired_defs attached_def)

lemma wire_at_started:
  assumes "wire_at L n reply device holds (p, e)" "isdu_started L request isdu"
  shows "wire_at L n reply device (\<lambda>p. isdu_started L request (st_isdu p)) (p\<lparr>st_isdu := isdu\<rparr>, e)"
  using assms(2) wire_at_wf [OF assms(1)]
  by (intro wire_at_serviced [OF assms(1)]) (simp_all add: serviced_update isdu_started_def port_wf_isdu)

lemma wire_at_collected:
  assumes "wire_at L n reply device holds (p, e)" "isdu_idle L (isdu_collected L p)"
  shows "wire_at L n reply device (isdu_idle L) (isdu_collected L p, e)"
proof -
  have "port_wf L (isdu_collected L p)"
    using assms(2) wire_at_wf [OF assms(1)]
    by (simp add: isdu_idle_def isdu_collected_def port_wf_isdu port_wf_diagnostics)
  with assms(2) show ?thesis by (intro wire_at_serviced [OF assms(1)]) (simp_all add: serviced_update)
qed

lemma isdu_device_reads: "answers_reads n (isdu_device n device)"
  by (auto simp: answers_reads_def isdu_device_def split: prod.split list.split)

text \<open>\<open>K\<close> steps are enough for every service, and more do no harm.\<close>

lemma service_steps_fit:
  assumes L: "stack_constants_ok L" and n: "0 < n" and device: "device_answers L answer device" "segments_of n device"
    and K: "services_fit L n device K" "K \<le> k" and started: "isdu_started L request isdu"
  shows "\<exists>od' isdu' rest'. wire_steps L n (isdu_device n device) k (od, isdu, [], segs, log) =
      Some (od', isdu', [], rest', log @ [request]) \<and> isdu_done isdu' \<and>
    (\<forall>p :: 'e iolink_master_port_state_t. isdu_service_state p \<longrightarrow> st_isdu p = isdu' \<longrightarrow> isdu_wf L isdu' \<longrightarrow>
       isdu_answered L request (answer request) p)"
proof -
  obtain read index subindex payload where request: "request = Isdu_Request read index subindex payload"
    by (cases request)
  have "isdu_request_len isdu \<le> ISDU_BUFFER_SIZE L" using started by (simp add: isdu_started_def isdu_wf_def)
  then have "frames_needed n (isdu_request_len isdu) \<le> frames_needed n (ISDU_BUFFER_SIZE L)"
    by (simp add: frames_needed_def div_le_mono)
  then have "frames_needed n (isdu_request_len isdu) + length (device request) < k"
    using K(1) [unfolded services_fit_def, rule_format, of request] K(2) by linarith
  from service_steps [OF L n device started [unfolded request] request this, of od segs log] show ?thesis
    by (auto simp: isdu_answered_def request)
qed

lemma wire_exchange_answers:
  assumes L: "iolinki_ok L" and n: "0 < n" and device: "device_answers L answer device" "segments_of n device"
    and K: "services_fit L n device K"
    and at: "wire_at L n reply device (\<lambda>p. isdu_started L request (st_isdu p)) s"
  shows "ensures (wire_exchange L K s) (\<lambda>(log, s'). log = [request] \<and>
    wire_at L n reply device (\<lambda>p. isdu_answered L request (answer request) p \<and> st_block p = st_block (fst s)) s')"
proof -
  have const: "stack_constants_ok L" using L by (simp add: iolinki_ok_def)
  obtain p od segs where s: "s = (p, reply od, [], segs, [])" and p: "wired L reply (isdu_device n device) p"
    "st_od_len p = n" "due od p" and started: "isdu_started L request (st_isdu p)"
    using at by (cases s) (auto simp: wire_at_def)
  obtain od' isdu rest where steps: "wire_steps L n (isdu_device n device) K (od, st_isdu p, [], segs, []) =
      Some (od', isdu, [], rest, [request])"
    and answered: "isdu_service_state q \<Longrightarrow> st_isdu q = isdu \<Longrightarrow> isdu_wf L isdu \<Longrightarrow>
      isdu_answered L request (answer request) q" for q :: "(u8 list \<times> isdu_server) iolink_master_port_state_t"
    using service_steps_fit [OF const n device K order_refl started, of od segs "[]"] by auto
  have rel: "wire_rel L reply (isdu_device n device) (p, reply od, [], segs, []) (od, st_isdu p, [], segs, [])"
    using p by (simp add: wire_rel_def)
  have "answers_reads (st_od_len p) (isdu_device n device)" by (simp add: p(2) isdu_device_reads)
  from ticks_wired [OF L rel this, of K] obtain rets p' e'
    where ticks: "untimed_ticks L K p (reply od, [], segs, []) = Some (rets, p', e')" "st_od_len p' = n"
      "unticked p' = unticked p"
      "wire_rel L reply (isdu_device n device) (p', e') (od', isdu, [], rest, [request])"
    using steps p(2) by (auto elim!: ensuresE)
  then have p': "wired L reply (isdu_device n device) p'" "due od' p'" "e' = (reply od', [], rest, [request])"
    "st_isdu p' = isdu" by (cases e', auto simp: wire_rel_def)+
  have "isdu_service_state p'" "isdu_wf L isdu"
    using p'(1,4) by (auto simp: wired_defs isdu_service_state_def attached_def port_wf_def)
  with answered p'(4) have "isdu_answered L request (answer request) p'" by simp
  with ticks p' show ?thesis by (auto simp: s wire_exchange_def wire_at_def)
qed

lemma isdu_call_started:
  assumes L: "stack_constants_ok L" and idle: "isdu_idle L p" and ok: "isdu_request_ok L answer request"
  shows "ensures (isdu_call L request p) (\<lambda>(r, p'). fst r = STATUS_PENDING \<and>
    (\<exists>isdu. p' = p\<lparr>st_isdu := isdu\<rparr> \<and> isdu_started L request isdu))"
proof (cases request)
  case (Isdu_Request read index subindex payload)
  then show ?thesis
    using write_service_start [OF L idle, of payload index subindex "[]"] ok
      read_service_start [OF L idle, of index subindex "replicate 255 0" 255]
    by (cases read) (auto simp: isdu_call_def isdu_request_ok_def isdu_requested_def)
qed

interpretation wire_client: exchanged_service "wire_call L" "wire_exchange L K" "\<lambda>q. [q]"
  "\<lambda>q. iolinki_ok L \<and> 0 < n \<and> device_answers L answer device \<and> segments_of n device \<and> services_fit L n device K \<and>
     isdu_request_ok L answer q"
  "wire_at L n reply device (isdu_idle L)" "\<lambda>q. wire_at L n reply device (\<lambda>p. isdu_started L q (st_isdu p))"
  "\<lambda>q. wire_at L n reply device (isdu_answered L q (answer q))" "\<lambda>r. fst r = STATUS_PENDING" "isdu_result_ok answer"
proof
  fix q and s :: wire_state
  obtain read index subindex payload where q: "q = Isdu_Request read index subindex payload" by (cases q)
  obtain p e where s: "s = (p, e)" by (cases s)
  assume ok: "iolinki_ok L \<and> 0 < n \<and> device_answers L answer device \<and> segments_of n device \<and> services_fit L n device K \<and>
    isdu_request_ok L answer q"
  then have L: "stack_constants_ok L" by (simp add: iolinki_ok_def)
  {
    assume at: "wire_at L n reply device (isdu_idle L) s"
    then have idle: "isdu_idle L p" by (cases e) (simp add: s wire_at_def)
    have "ensures (isdu_call L q p) (\<lambda>(r, p'). fst r = STATUS_PENDING \<and>
        (\<exists>isdu. p' = p\<lparr>st_isdu := isdu\<rparr> \<and> isdu_started L q isdu))"
      using ok idle by (intro isdu_call_started [OF L]) auto
    then show "ensures (wire_call L q s) (\<lambda>(r, s'). fst r = STATUS_PENDING \<and>
        wire_at L n reply device (\<lambda>p. isdu_started L q (st_isdu p)) s')"
      using wire_at_started [OF at [unfolded s]] by (auto simp: s wire_call_def port_call_def ensures_map elim!: ensuresE)
  next
    assume "wire_at L n reply device (\<lambda>p. isdu_started L q (st_isdu p)) s"
    with ok show "ensures (wire_exchange L K s) (\<lambda>(t, s'). t = [q] \<and>
        wire_at L n reply device (isdu_answered L q (answer q)) s')"
      by (intro ensures_mono [OF wire_exchange_answers]) (auto simp: wire_at_def)
  next
    assume at: "wire_at L n reply device (isdu_answered L q (answer q)) s"
    then have answered: "isdu_answered L q (answer q) p" by (cases e) (simp add: s wire_at_def)
    have "ensures (isdu_call L q p) (\<lambda>(r, p'). isdu_result_ok answer q r \<and> p' = isdu_collected L p \<and>
        isdu_idle L (isdu_collected L p))"
    proof (cases read)
      case True
      then have "payload = []" "length (answer q) < 256" using ok by (auto simp: isdu_request_ok_def q)
      with True answered read_service_finish [of L index subindex "answer q" p 255 "replicate 255 0"]
        answered_read_back(2) [of L index subindex "answer q" p]
      show ?thesis by (auto simp: isdu_call_def q isdu_result_ok_def)
    next
      case False
      with answered write_service_finish [of L index subindex payload "answer q" p "Some payload" "length payload"]
      show ?thesis by (auto simp: isdu_call_def q isdu_result_ok_def)
    qed
    then show "ensures (wire_call L q s) (\<lambda>(r, s'). isdu_result_ok answer q r \<and> wire_at L n reply device (isdu_idle L) s')"
      using wire_at_collected [OF at [unfolded s]] by (auto simp: s wire_call_def port_call_def ensures_map elim!: ensuresE)
  }
qed

text \<open>
  C2. ISDU services over the line. An application that calls any sequence of ISDU reads and writes
  on an OPERATE port, ticking the port between the two calls of each, gets exactly the payloads of
  the device for its reads and OK for its writes, and the device receives exactly these requests,
  in order. \<open>K\<close> ticks per service are enough when the frames of the longest request and the
  segments of each answer fit into them; the port stays in OPERATE, its engine is idle again.
\<close>

theorem isdu_services_over_the_line:
  assumes "iolinki_ok L" and "0 < n" and "device_answers L answer device" and "segments_of n device"
    and "services_fit L n device K" and "list_all (isdu_request_ok L answer) requests"
    and "wired L reply (isdu_device n device) p" and "st_od_len p = n" and "isdu_idle L p" and "due od p"
  shows "ensures (services (wire_call L) (wire_exchange L K) requests (p, reply od, [], segs, []))
    (\<lambda>(log, p', e'). concat (map fst log) = requests \<and> list_all2 (isdu_result_ok answer) requests (map snd log) \<and>
      st_state p' = STATE_OPERATE \<and> isdu_idle L p')"
proof -
  have "wire_at L n reply device (isdu_idle L) (p, reply od, [], segs, [])"
    using assms(7-10) by (auto simp: wire_at_def)
  from wire_client.services_in_order [where qs = requests and answer = answer and K = K, OF _ this] show ?thesis
    by (rule ensures_mono) (use assms(1-6) in \<open>auto simp: list_all_iff wire_at_def wired_defs comp_def\<close>)
qed

text \<open>The line of the witness: a port with one octet of process data and OD octets of width 1.\<close>

definition demo_server :: "isdu_request_t \<Rightarrow> u8 list list" where
  "demo_server request =
     (case request of Isdu_Request read _ _ _ \<Rightarrow>
        if read then [[1], [0xD5], [1], [2], [3], [0xD5]] else [[0], [0x52], [0x52]])"

lemma demo_server: "device_answers demo_stack demo_answer demo_server" "segments_of 1 demo_server"
    "services_fit demo_stack 1 demo_server 71"
proof -
  have "concat (demo_server request) = concat (demo_device request)" for request
    by (simp add: demo_server_def demo_device_def split: isdu_request_t.split)
  then show "device_answers demo_stack demo_answer demo_server"
    using demo_device by (simp add: device_answers_def)
  have "set (demo_server request) \<subseteq> {[0], [1], [2], [3], [0x52], [0xD5]}" for request
    by (cases request) (simp add: demo_server_def)
  then have "length seg = 1" if "seg \<in> set (demo_server request)" for request seg using that by fastforce
  then show "segments_of 1 demo_server" by (simp add: segments_of_def)
  show "services_fit demo_stack 1 demo_server 71"
    by (simp add: services_fit_def demo_server_def frames_needed_def demo_stack_def split: isdu_request_t.split)
qed

lemma demo_wired_idle:
  "st_od_len (demo_wired od_device) = 1" "isdu_idle demo_stack (demo_wired od_device)" "due [] (demo_wired od_device)"
  by (simp_all add: demo_wired_def due_def zero_port_def isdu_idle_def isdu_service_state_def isdu_wf_zero)
    (simp add: zero_isdu_def)

theorem isdu_services_over_the_line_witness:
  "ensures (services (wire_call demo_stack) (wire_exchange demo_stack 71)
      [Isdu_Request True 0x10 0 [], Isdu_Request False 0x18 0 [7, 8], Isdu_Request True 0x1234 5 []]
      (demo_wired (isdu_device 1 demo_server), demo_reply [], [], [], []))
    (\<lambda>(log, p', e'). map snd log = [(STATUS_OK, [1, 2, 3]), (STATUS_OK, []), (STATUS_OK, [1, 2, 3])])"
  by (rule ensures_mono [OF isdu_services_over_the_line [OF demo_stack_ok _ demo_server _ demo_wired demo_wired_idle]])
    (auto simp: isdu_request_ok_def demo_answer_def write_accepted_def demo_stack_def
      iolink_master_isdu_index_len_def isdu_result_ok_def list_all2_Cons1)

end
