(* ===== verification/MasterDownload.thy ===== *)
theory MasterDownload
  imports MasterServices MasterApi
begin

text \<open>
  Parameter-block transfers and the Data Storage restore of a port that is ticked against a device
  on the line (\<open>src/master_isdu.c\<close>, lines 1078-1180, with the tick engine of
  \<open>src/master_port.c\<close>). The line is the second provider of the contract \<open>polled_operation\<close> of
  \<open>MasterBlock\<close>: there a request is exchanged on the transport of the ISDU engine, here by a number
  of ticks of the port.
\<close>

subsection \<open>The transfer of a ticked port\<close>

abbreviation wire_block ::
  "iolinki \<Rightarrow> u16 \<Rightarrow> u8 \<Rightarrow> u8 list \<Rightarrow> wire_state \<Rightarrow> (int \<times> wire_state) option" where
  "wire_block L index subindex payload \<equiv>
     port_call (iolink_master_write_parameter_block L index subindex (Some payload) (length payload))"

text \<open>A call of the transfer keeps the line.\<close>

lemma wire_block_call:
  assumes L: "stack_constants_ok L" and at: "wire_at L n reply device holds s"
    and call: "ensures (iolink_master_write_parameter_block L index subindex (Some payload) (length payload) (fst s))
      (\<lambda>(ret, p'). serviced (fst s) p' \<and> R ret p')"
  shows "ensures (wire_block L index subindex payload s) (\<lambda>(ret, s'). R ret (fst s') \<and>
    wire_at L n reply device (R ret) s')"
proof -
  obtain p e where s: "s = (p, e)" by (cases s)
  have "ensures (iolink_master_write_parameter_block L index subindex (Some payload) (length payload) p)
      (\<lambda>(ret, p'). port_kept L p p')"
    using wire_at_wf [OF at [unfolded s]] by (intro write_parameter_block_kept [OF L]) simp_all
  with call obtain ret p' where p': "serviced p p'" "R ret p'" "port_wf L p'"
    "iolink_master_write_parameter_block L index subindex (Some payload) (length payload) p = Some (ret, p')"
    by (auto simp: s port_kept_def elim!: ensuresE)
  with wire_at_serviced [OF at [unfolded s] p'(1,3), of "R ret"] show ?thesis
    by (simp add: s port_call_def)
qed

interpretation wire_block_client: polled_operation
  "wire_block L index subindex payload" "wire_exchange L K" "\<lambda>q. [q]" "block_requests L index subindex payload"
  "block_fits L answer index subindex payload \<and> iolinki_ok L \<and> 0 < n \<and> device_answers L answer device \<and>
     segments_of n device \<and> services_fit L n device K"
  "\<lambda>i. wire_at L n reply device (block_before L answer index subindex payload i)"
  "\<lambda>i. wire_at L n reply device (\<lambda>p. isdu_requested L (block_requests L index subindex payload ! i) p \<and>
     block_at L (block_steps ! i) index subindex payload p)"
  "\<lambda>ret. wire_at L n reply device (block_final L answer index subindex payload ret)"
proof
  fix i and s :: wire_state
  assume ok: "block_fits L answer index subindex payload \<and> iolinki_ok L \<and> 0 < n \<and>
    device_answers L answer device \<and> segments_of n device \<and> services_fit L n device K"
  then have L: "stack_constants_ok L" by (simp add: iolinki_ok_def)
  have holds: "holds (fst s)" if "wire_at L n reply device holds s" for holds
    using that by (auto simp: wire_at_def split: prod.splits)
  let ?request = "block_requests L index subindex payload ! i"
  let ?requested = "\<lambda>p. isdu_requested L ?request p \<and> block_at L (block_steps ! i) index subindex payload p"
  {
    assume i: "i < length (block_requests L index subindex payload)"
      and at: "wire_at L n reply device (block_before L answer index subindex payload i) s"
    from block_call_pending [OF conjunct1 [OF ok] i holds [OF at]]
    have "ensures (iolink_master_write_parameter_block L index subindex (Some payload) (length payload) (fst s))
        (\<lambda>(ret, p'). serviced (fst s) p' \<and> ret = STATUS_PENDING \<and> ?requested p')"
      by (auto simp: block_waits_def elim!: ensures_mono)
    from wire_block_call [OF L at this] show "ensures (wire_block L index subindex payload s)
        (\<lambda>(ret, s'). ret = STATUS_PENDING \<and> wire_at L n reply device ?requested s')"
      by (rule ensures_mono) auto
  next
    assume at: "wire_at L n reply device ?requested s"
    have "ensures (wire_exchange L K s) (\<lambda>(log, s'). log = [?request] \<and>
        wire_at L n reply device (\<lambda>p. isdu_answered L ?request (answer ?request) p \<and> st_block p = st_block (fst s)) s')"
      using at ok by (intro wire_exchange_answers) (auto simp: wire_at_def isdu_requested_def)
    then show "ensures (wire_exchange L K s) (\<lambda>(t, s'). t = [?request] \<and>
        wire_at L n reply device (block_before L answer index subindex payload (Suc i)) s')"
      by (rule ensures_mono) (use holds [OF at] in \<open>auto simp: wire_at_def block_before_def Let_def block_at_def\<close>)
  next
    assume at: "wire_at L n reply device
      (block_before L answer index subindex payload (length (block_requests L index subindex payload))) s"
    from block_call_final [OF conjunct1 [OF ok] holds [OF at]]
    have "ensures (iolink_master_write_parameter_block L index subindex (Some payload) (length payload) (fst s))
        (\<lambda>(ret, p'). serviced (fst s) p' \<and> ret \<noteq> STATUS_PENDING \<and> block_final L answer index subindex payload ret p')"
      by (auto elim!: ensures_mono)
    from wire_block_call [OF L at this] show "ensures (wire_block L index subindex payload s)
        (\<lambda>(ret, s'). ret \<noteq> STATUS_PENDING \<and>
           wire_at L n reply device (block_final L answer index subindex payload ret) s')"
      by (rule ensures_mono) (auto simp: wire_at_def)
  }
qed

text \<open>Both properties of the transfer follow from this run of it.\<close>

lemma wire_block_run:
  assumes "iolinki_ok L" and "0 < n" and "device_answers L answer device" and "segments_of n device"
    and "services_fit L n device K" and "length payload < 256" and "write_accepted L index subindex (length payload)"
    and "length (answer (Isdu_Request True index subindex [])) < 256"
    and "wired L reply (isdu_device n device) p" and "st_od_len p = n" and "isdu_idle L p" and "due od p"
    and "blk_step (st_block p) = BLOCK_STEP_NONE"
  shows "ensures (polled (wire_block L index subindex payload) (wire_exchange L K) 5 (p, reply od, [], segs, []))
    (\<lambda>(log, ret, s). concat log = block_requests L index subindex payload \<and>
       wire_at L n reply device (block_final L answer index subindex payload ret) s)"
proof -
  have fits: "block_fits L answer index subindex payload"
    using assms(1,6-8) by (simp add: block_fits_def iolinki_ok_def)
  have "port_wf L p" using assms(9) by (simp add: wired_defs attached_def)
  then have "block_free L p" using assms(11,13) block_wf_args(1) by (simp add: block_free_def)
  then have "wire_at L n reply device (block_before L answer index subindex payload 0) (p, reply od, [], segs, [])"
    using assms(9,10,12) by (auto simp: wire_at_def block_before_def)
  from wire_block_client.polled_in_order [where K = K, OF _ this]
  have "ensures (polled (wire_block L index subindex payload) (wire_exchange L K)
      (Suc (length (block_requests L index subindex payload))) (p, reply od, [], segs, []))
    (\<lambda>(log, ret, s). log = map (\<lambda>q. [q]) (block_requests L index subindex payload) \<and>
       wire_at L n reply device (block_final L answer index subindex payload ret) s)"
    using fits assms(1-5) by blast
  moreover have "5 = Suc (length (block_requests L index subindex payload))" by (simp add: block_requests_def)
  ultimately show ?thesis by (auto simp del: polled.simps elim!: ensures_mono)
qed

text \<open>
  C11. Parameter blocks over the line. An application that calls the transfer with the same
  arguments until it is not pending any more, and ticks the OPERATE port \<open>K\<close> times after each
  pending call, needs five calls. The device receives exactly four requests, in this order: the
  DownloadStart command, the parameter, the DownloadEnd command and the read-back. The result is
  OK exactly when the octets read back verify, and VERIFY_FAILED otherwise; the port stays in
  OPERATE, and its transfer and its ISDU engine are free again.
\<close>

theorem block_transfer_over_the_line:
  assumes "iolinki_ok L" and "0 < n" and "device_answers L answer device" and "segments_of n device"
    and "services_fit L n device K" and "length payload < 256" and "write_accepted L index subindex (length payload)"
    and "length (answer (Isdu_Request True index subindex [])) < 256"
    and "wired L reply (isdu_device n device) p" and "st_od_len p = n" and "isdu_idle L p" and "due od p"
    and "blk_step (st_block p) = BLOCK_STEP_NONE"
  shows "ensures (polled
      (port_call (iolink_master_write_parameter_block L index subindex (Some payload) (length payload)))
      (wire_exchange L K) 5 (p, reply od, [], segs, []))
    (\<lambda>(log, ret, p', e'). concat log =
       [Isdu_Request False (IDX_SYSTEM_COMMAND L) 0 [CMD_PARAM_DOWNLOAD_START L],
        Isdu_Request False index subindex payload,
        Isdu_Request False (IDX_SYSTEM_COMMAND L) 0 [CMD_PARAM_DOWNLOAD_END L],
        Isdu_Request True index subindex []] \<and>
     ret = (if block_verified L index subindex payload (answer (Isdu_Request True index subindex []))
            then STATUS_OK else ISDU_ERR_VERIFY_FAILED) \<and>
     st_state p' = STATE_OPERATE \<and> blk_step (st_block p') = BLOCK_STEP_NONE \<and>
     isdu_op (st_isdu p') = ISDU_OP_NONE)"
  by (rule ensures_mono [OF wire_block_run [OF assms]])
    (auto simp: wire_at_def wired_defs block_final_def block_requests_def)

lemma demo_wired_block: "blk_step (st_block (demo_wired od_device)) = BLOCK_STEP_NONE"
  by (simp add: demo_wired_def zero_port_def zero_block_def)

text \<open>The device of the witness returns the octets that were written.\<close>

theorem block_transfer_over_the_line_witness:
  "ensures (polled (port_call (iolink_master_write_parameter_block demo_stack 0x18 0 (Some [1, 2, 3])
        (length [1, 2, 3 :: u8])))
      (wire_exchange demo_stack 71) 5 (demo_wired (isdu_device 1 demo_server), demo_reply [], [], [], []))
    (\<lambda>(log, ret, p', e'). length (concat log) = 4 \<and> ret = STATUS_OK \<and> st_state p' = STATE_OPERATE)"
  by (rule ensures_mono [OF block_transfer_over_the_line [OF demo_stack_ok _ demo_server _ _ _ demo_wired
        demo_wired_idle demo_wired_block]])
    (auto simp: demo_answer_def block_verified_def write_accepted_def demo_stack_def iolink_master_isdu_index_len_def)

subsection \<open>Data Storage\<close>

definition ds_image :: "ds_parameter list \<Rightarrow> u8 list" where
  "ds_image parameters = concat (map ds_encode parameters)"

text \<open>
  C12. Data Storage restore over the line. The application restores an image of parameters
  (Index, Subindex, value) to a device that afterwards stores the image \<open>stored\<close>. The restore ends
  after five calls with \<open>K\<close> ticks after each pending one; it reports OK exactly when every
  parameter of the image is in the device with its value, whatever the order of the records and
  whatever else the device stores, and VERIFY_FAILED otherwise.
\<close>

theorem data_storage_restored_over_the_line:
  fixes wanted stored :: "ds_parameter list"
  assumes "iolinki_ok L" and "0 < n" and "device_answers L answer device" and "segments_of n device"
    and "services_fit L n device K" and "write_accepted L (IDX_DATA_STORAGE L) 0 (length (ds_image wanted))"
    and "answer (Isdu_Request True (IDX_DATA_STORAGE L) 0 []) = ds_image stored"
    and "length (ds_image wanted) < 256" and "length (ds_image stored) < 256"
    and "\<forall>d \<in> set stored. length (ds_value d) < 256" and "\<forall>d \<in> set wanted. length (ds_value d) < 256"
    and "wired L reply (isdu_device n device) p" and "st_od_len p = n" and "isdu_idle L p" and "due od p"
    and "blk_step (st_block p) = BLOCK_STEP_NONE"
  shows "ensures (polled (port_call (iolink_master_restore_data_storage L (Some (ds_image wanted)) (length (ds_image wanted))))
      (wire_exchange L K) 5 (p, reply od, [], segs, []))
    (\<lambda>(log, ret, p', e'). concat log = block_requests L (IDX_DATA_STORAGE L) 0 (ds_image wanted) \<and>
       ret = (if set wanted \<subseteq> set stored then STATUS_OK else ISDU_ERR_VERIFY_FAILED) \<and>
       st_state p' = STATE_OPERATE)"
proof -
  let ?restored = "Isdu_Request True (IDX_DATA_STORAGE L) 0 []"
  have restore: "iolink_master_restore_data_storage L (Some (ds_image wanted)) (length (ds_image wanted)) =
      (iolink_master_write_parameter_block L (IDX_DATA_STORAGE L) 0 (Some (ds_image wanted)) (length (ds_image wanted))
        :: (u8 list \<times> isdu_server) iolink_master_port_state_t \<Rightarrow> _)"
    by (rule ext) (simp add: iolink_master_restore_data_storage_def)
  have "length (answer ?restored) < 256" using assms(7,9) by simp
  note run = wire_block_run [OF assms(1-5,8,6) this assms(12-16)]
  have "block_verified L (IDX_DATA_STORAGE L) 0 (ds_image wanted) (answer ?restored) \<longleftrightarrow> set wanted \<subseteq> set stored"
    using ds_verifies_encode [OF assms(10,11)] by (simp add: block_verified_def assms(7) ds_image_def)
  then show ?thesis
    unfolding restore by (intro ensures_mono [OF run]) (auto simp: wire_at_def wired_defs block_final_def)
qed

text \<open>
  The device of the witness stores two parameters, and the image to restore has one of them.
\<close>

definition demo_stored :: "ds_parameter list" where
  "demo_stored = [\<lparr>ds_index = 0x20, ds_subindex = 1, ds_value = [7]\<rparr>, \<lparr>ds_index = 0x18, ds_subindex = 0, ds_value = [5]\<rparr>]"

definition demo_storage :: "isdu_request_t \<Rightarrow> u8 list list" where
  "demo_storage request =
     (case request of Isdu_Request read index _ _ \<Rightarrow>
        if read \<and> index = 3
        then map (\<lambda>octet. [octet]) ([1, 0xDC] @ ds_image demo_stored @ [0xE7])
        else [[0], [0x52], [0x52]])"

definition demo_storage_answer :: "isdu_request_t \<Rightarrow> u8 list" where
  "demo_storage_answer request =
     (case request of Isdu_Request read index _ _ \<Rightarrow> if read \<and> index = 3 then ds_image demo_stored else [])"

lemma demo_stored_image: "ds_image demo_stored = [0, 0x20, 1, 1, 7, 0, 0x18, 0, 1, 5]"
  by (simp add: ds_image_def demo_stored_def ds_encode_def hi_octet_def lo_octet_ucast)

lemma demo_storage:
  "device_answers demo_stack demo_storage_answer demo_storage" "segments_of 1 demo_storage"
  "services_fit demo_stack 1 demo_storage 78"
proof -
  have "\<exists>busy r trailing. concat (demo_storage request) = busy @ r @ trailing \<and> set busy \<subseteq> {0, 1} \<and>
    complete_response r \<and> length r \<le> ISDU_BUFFER_SIZE demo_stack \<and>
    parse_response demo_stack r = Response_Payload (demo_storage_answer request)" for request
  proof (cases request)
    case (Isdu_Request read index subindex payload)
    then show ?thesis
      by (intro exI [of _ "[if read \<and> index = 3 then 1 else 0]"]
          exI [of _ "if read \<and> index = 3 then 0xDC # ds_image demo_stored @ [0xE7] else [0x52, 0x52]"] exI [of _ "[]"])
        (simp add: demo_storage_def demo_storage_answer_def demo_stored_image demo_stack_def complete_response_def
          response_length_def parse_response_def xor_octets_def)
  qed
  then show "device_answers demo_stack demo_storage_answer demo_storage" by (simp add: device_answers_def)
  show "segments_of 1 demo_storage"
    by (auto simp: segments_of_def demo_storage_def split: isdu_request_t.split if_splits)
  show "services_fit demo_stack 1 demo_storage 78"
    by (simp add: services_fit_def demo_storage_def demo_stored_image frames_needed_def demo_stack_def split: isdu_request_t.split)
qed

theorem data_storage_restored_over_the_line_witness:
  "ensures (polled (port_call (iolink_master_restore_data_storage demo_stack (Some (ds_image [demo_stored ! 1]))
        (length (ds_image [demo_stored ! 1]))))
      (wire_exchange demo_stack 78) 5 (demo_wired (isdu_device 1 demo_storage), demo_reply [], [], [], []))
    (\<lambda>(log, ret, p', e'). length (concat log) = 4 \<and> ret = STATUS_OK \<and> st_state p' = STATE_OPERATE)"
  by (rule ensures_mono [OF data_storage_restored_over_the_line [where stored = demo_stored, OF demo_stack_ok _ demo_storage _ _ _ _ _ _
        demo_wired demo_wired_idle demo_wired_block]])
    (auto simp: demo_storage_answer_def demo_stored_image demo_stack_def write_accepted_def iolink_master_isdu_index_len_def
      demo_stored_def ds_image_def ds_encode_def hi_octet_def lo_octet_ucast block_requests_def)

end
