(* ===== verification/MasterCycle.thy ===== *)
theory MasterCycle
  imports MasterWire MasterSchedule
begin

text \<open>
  Timed cycles of an OPERATE port with a device on its line (\<open>src/master_port.c\<close>, lines 428-602,
  820-872 and 1285-1386): what a timed tick puts on the line, what a response that does not come
  does, and when the port gives its device up.
\<close>

subsection \<open>What a timed tick sends\<close>

lemma tick_received:
  assumes "iolink_master_poll_rx L p e = Some (ret, p1, e1)" "ret \<in> {0, 1}" "attached L phy p1" "event \<noteq> TICK_OTHER"
  shows "iolink_master_tick_at L event now p e =
    (if event = TICK_CYCLE_DUE then tick_cycle L True now ret p1 e1 else Some (ret, p1, e1))"
  using assms
  by (auto simp: iolink_master_tick_at_def iolink_master_tick_common_def tick_timeout_def attached_def)

lemma process_operate_timed:
  assumes "st_state p = STATE_OPERATE" "\<not> gate_closed p now"
  shows "iolink_master_process_at L now True p e = iolink_master_process L p e"
  using assms by (auto simp: iolink_master_process_def iolink_master_process_at_def gate_closed_def)

text \<open>The next message of the port, for an arbitrary device.\<close>

lemma process_message:
  assumes L: "iolinki_ok L" and p: "on_line L reply device p" and none: "ev_phase (st_event p) = EVENT_PHASE_NONE"
    and msg: "line_message L p (st_isdu p) = (msg, isdu)"
  shows "ensures (iolink_master_process L p ([], d)) (\<lambda>(p', e'). on_line L reply device p' \<and>
    st_isdu p' = isdu \<and> st_event p' = st_event p \<and> st_config p' = st_config p \<and> st_od_len p' = st_od_len p \<and>
    unticked p' = unticked p \<and> st_diagnostics p' = st_diagnostics p \<and>
    st_cycle_count p' = (if isdu_next L (st_od_len p) (st_isdu p) = None then st_cycle_count p + 1 else st_cycle_count p) \<and>
    (isdu_next L (st_od_len p) (st_isdu p) = None \<longrightarrow> \<not> st_rx_od_expected p') \<and> e' = device msg d)"
proof -
  obtain answer d' where answer: "device msg d = (answer, d')" by fastforce
  show ?thesis
  proof (cases "isdu_next L (st_od_len p) (st_isdu p)")
    case None
    with msg have "msg = cyclic_message L p" "isdu = st_isdu p" by (simp_all add: line_message_def)
    with process_cycle_line [OF L p none None, of d] answer None show ?thesis by (auto elim!: ensures_mono)
  next
    case (Some a)
    then obtain mc od where nxt: "isdu_next L (st_od_len p) (st_isdu p) = Some (mc, od, isdu)"
      and "msg = isdu_message L p mc od" using msg by (cases a) (auto simp: line_message_def)
    with process_isdu_line [OF L p none nxt, of d] answer show ?thesis by (auto elim!: ensures_mono)
  qed
qed

text \<open>The port has sent a cyclic message at \<open>now\<close> and waits for the reply.\<close>

definition cycle_started :: "u32 \<Rightarrow> 'e iolink_master_port_state_t \<Rightarrow> 'e iolink_master_port_state_t \<Rightarrow> bool" where
  "cycle_started now p p' \<longleftrightarrow> st_awaiting_response p' \<and> st_last_cycle_start_100us p' = now \<and>
     st_cycle_timer_valid p' \<and> st_cycle_count p' = st_cycle_count p + 1"

lemma tick_sends:
  assumes L: "iolinki_ok L" and p: "on_line L reply device p" and none: "ev_phase (st_event p) = EVENT_PHASE_NONE"
    and msg: "line_message L p (st_isdu p) = (msg, isdu)"
    and poll: "iolink_master_poll_rx L p e = Some (ret, p, [], d)" "ret \<in> {0, 1}"
    and due: "iolink_master_cycle_due_at p now" "\<not> gate_closed p now"
  shows "ensures (iolink_master_tick_at L TICK_CYCLE_DUE now p e) (\<lambda>(ret', p', e'). ret' = ret \<and> e' = device msg d \<and>
    on_line L reply device (p'\<lparr>st_awaiting_response := False\<rparr>) \<and> st_isdu p' = isdu \<and> st_event p' = st_event p \<and>
    st_config p' = st_config p \<and> st_od_len p' = st_od_len p \<and> unticked p' = unticked p \<and>
    dg_rx_retry_count (st_diagnostics p') = dg_rx_retry_count (st_diagnostics p) \<and>
    (isdu_next L (st_od_len p) (st_isdu p) = None \<longrightarrow> cycle_started now p p' \<and> \<not> st_rx_od_expected p'))"
proof -
  have att: "attached L (wire_phy device) p" and state: "st_state p = STATE_OPERATE" using p by (simp_all add: on_line_def)
  obtain p2 where p2: "iolink_master_process L p ([], d) = Some (p2, device msg d)"
    "on_line L reply device p2" "st_isdu p2 = isdu" "st_event p2 = st_event p" "st_config p2 = st_config p"
    "st_od_len p2 = st_od_len p" "unticked p2 = unticked p" "st_diagnostics p2 = st_diagnostics p"
    "st_cycle_count p2 = (if isdu_next L (st_od_len p) (st_isdu p) = None then st_cycle_count p + 1 else st_cycle_count p)"
    "isdu_next L (st_od_len p) (st_isdu p) = None \<longrightarrow> \<not> st_rx_od_expected p2"
    using process_message [OF L p none msg, of d] by (auto elim!: ensuresE)
  have wf: "port_wf L p2" using p2(2) by (simp add: on_line_def attached_def)
  obtain t where t: "iolink_master_response_timeout_100us p2 = Some t" using timeouts_defined(1) [OF wf] by blast
  have at: "iolink_master_process_at L now True p ([], d) = Some (p2, device msg d)"
    using process_operate_timed [OF state due(2)] p2(1) by simp
  have diag: "dg_rx_retry_count (cycle_diagnostics now p2) = dg_rx_retry_count (st_diagnostics p)"
    using p2(8) by (simp add: cycle_diagnostics_def)
  have tick: "iolink_master_tick_at L TICK_CYCLE_DUE now p e = tick_cycle L True now ret p ([], d)"
    using tick_received [OF poll att, of TICK_CYCLE_DUE now] by simp
  have line: "on_line L reply device (p2\<lparr>st_diagnostics := d, st_last_cycle_start_100us := now,
      st_response_deadline_100us := t, st_cycle_timer_valid := True, st_awaiting_response := False\<rparr>)" for d t
    using p2(2) by (simp add: on_line_def attached_def port_wf_defs)
  show ?thesis
  proof (cases "isdu_next L (st_od_len p) (st_isdu p) = None")
    case True
    then have "st_cycle_count p2 \<noteq> st_cycle_count p" using p2(9) by simp
    then have "iolink_master_tick_at L TICK_CYCLE_DUE now p e =
        map_option (\<lambda>p. (ret, p, device msg d)) (tick_cycle_sent now p2)"
      unfolding tick using due att by (cases "tick_cycle_sent now p2") (simp_all add: tick_cycle_def at attached_def)
    with True p2 line diag t show ?thesis by (simp add: tick_cycle_sent_eq cycle_started_def)
  next
    case False
    then have "st_cycle_count p2 = st_cycle_count p" using p2(9) by auto
    then have "iolink_master_tick_at L TICK_CYCLE_DUE now p e = Some (ret, p2, device msg d)"
      unfolding tick using due att by (simp add: tick_cycle_def at attached_def)
    with False p2 show ?thesis by (simp add: on_line_settled del: not_None_eq)
  qed
qed

subsection \<open>A response that does not come\<close>

lemma restart_establish_ok:
  assumes "port_wf L p" "line_ok p"
  shows "ensures (iolink_master_restart_establish now timed p e) (\<lambda>(ret, p', e').
    ret = STATUS_PENDING \<and> st_state p' = STATE_STARTUP \<and> su_step (st_startup p') = STARTUP_STEP_WAKE \<and>
    \<not> st_awaiting_response p' \<and> st_cycle_count p' = st_cycle_count p \<and>
    dg_response_timeouts (st_diagnostics p') = dg_response_timeouts (st_diagnostics p) \<and> st_phy p' = st_phy p)"
proof -
  define q where "q = p\<lparr>st_state := STATE_STARTUP,
    st_startup := (st_startup p)\<lparr>su_step := STARTUP_STEP_WAKE, su_wake_attempts := 0\<rparr>,
    st_diagnostics := (st_diagnostics p)\<lparr>dg_rx_retry_count := 0\<rparr>, st_awaiting_response := False\<rparr>"
  define r where "r = q\<lparr>st_startup := (st_startup q)\<lparr>su_baudrate_index := 0\<rparr>\<rparr>"
  have "line_ok r" using line_ok_kept [OF assms(2)] by (simp add: q_def r_def)
  from line_ok_hooks(2) [OF this]
  have baud: "fst (iolink_master_set_baudrate b r e) = STATUS_OK" for b by simp
  have rate: "iolink_master_startup_baudrate r \<noteq> None"
    using assms(1) by (auto simp: iolink_master_startup_baudrate_def rd_def r_def g_iolink_master_baudrate_scan_def)
  have "ensures (iolink_master_reset_rate_scan q e) (\<lambda>(ret, p', e'). ret = STATUS_OK \<and> (p' = q \<or> p' = r))"
    using baud rate
    by (auto simp: iolink_master_reset_rate_scan_def r_def [symmetric] ensures_simps case_prod_unfold Let_def)
  moreover have "iolink_master_restart_establish now timed p e = do {
     (ret, p, e) \<leftarrow> iolink_master_reset_rate_scan q e;
     if ret \<noteq> STATUS_OK then Some (ret, set_error p, e)
     else Some (STATUS_PENDING, iolink_master_arm_send_gate now (iolink_master_t_dwu_100us p) timed p, e) }"
    by (simp add: iolink_master_restart_establish_def q_def)
  ultimately show ?thesis
    by (auto simp: ensures_simps iolink_master_arm_send_gate_def q_def r_def split: if_splits elim!: ensures_mono)
qed

text \<open>The deadline has passed: the cycle is counted as failed, and the third failure ends the communication.\<close>

lemma tick_times_out:
  assumes p: "on_line L reply device (p\<lparr>st_awaiting_response := False\<rparr>)" and line: "line_ok p"
    and waiting: "st_awaiting_response p"
    and poll: "iolink_master_poll_rx L p e = Some (ret, p, e1)" "0 \<le> ret"
  shows "ensures (iolink_master_tick_at L TICK_RESPONSE_TIMEOUT now p e) (\<lambda>(ret', p', e'). ret' = STATUS_PENDING \<and>
    \<not> st_awaiting_response p' \<and> st_cycle_count p' = st_cycle_count p \<and>
    dg_response_timeouts (st_diagnostics p') = dg_response_timeouts (st_diagnostics p) + 1 \<and>
    (if dg_rx_retry_count (st_diagnostics p) < 2
     then on_line L reply device p' \<and> line_ok p' \<and> st_isdu p' = st_isdu p \<and> st_event p' = st_event p \<and>
       st_config p' = st_config p \<and> st_od_len p' = st_od_len p \<and> unticked p' = unticked p \<and>
       st_rx_od_expected p' = st_rx_od_expected p \<and> (cfg_flush_rx (st_config p) = None \<longrightarrow> e' = e1) \<and>
       dg_rx_retry_count (st_diagnostics p') = dg_rx_retry_count (st_diagnostics p) + 1
     else st_state p' = STATE_STARTUP \<and> su_step (st_startup p') = STARTUP_STEP_WAKE \<and> st_phy p' = st_phy p))"
proof -
  let ?d = "st_diagnostics p"
  have att: "attached L (wire_phy device) (p\<lparr>st_awaiting_response := False\<rparr>)" and state: "st_state p = STATE_OPERATE"
    using p by (simp_all add: on_line_def)
  have settled: "(st_rx p)\<lparr>rx_len := 0\<rparr> = st_rx p" using att by (cases "st_rx p") (simp add: attached_def)
  then have "p\<lparr>st_rx := (st_rx p)\<lparr>rx_len := 0\<rparr>\<rparr> = p" by (cases p) simp
  then obtain e2 where flush: "iolink_master_flush_rx p e1 = (STATUS_OK, p, e2)"
    using line_ok_hooks(3) [OF line, of e1] by auto
  define q where "q = p\<lparr>st_awaiting_response := False\<rparr>"
  have "line_ok q" using line_ok_kept [OF line] by (simp add: q_def)
  moreover have "q\<lparr>st_rx := (st_rx q)\<lparr>rx_len := 0\<rparr>\<rparr> = q" using settled by (cases p) (simp add: q_def)
  ultimately obtain e3 where flush2: "iolink_master_flush_rx q e2 = (STATUS_OK, q, e3)"
    using line_ok_hooks(3) [of q e2] by auto
  define r where "r = q\<lparr>st_diagnostics := ?d\<lparr>dg_response_timeouts := dg_response_timeouts ?d + 1\<rparr>\<rparr>"
  have timeout: "iolink_master_on_timeout_at now True q e2 = (if dg_rx_retry_count ?d < 2
      then Some (STATUS_PENDING, r\<lparr>st_diagnostics := (st_diagnostics r)
        \<lparr>dg_rx_retry_count := trunc8 (dg_rx_retry_count ?d + 1)\<rparr>\<rparr>, e3)
      else iolink_master_restart_establish now True r e3)"
    using state by (simp add: iolink_master_on_timeout_at_def flush2 Let_def r_def) (simp add: q_def)
  have tick: "iolink_master_tick_at L TICK_RESPONSE_TIMEOUT now p e =
      map_option (\<lambda>(ret', p', e'). (ret', p', e')) (iolink_master_on_timeout_at now True q e2)"
    if "ensures (iolink_master_on_timeout_at now True q e2) (\<lambda>(ret', _). ret' \<noteq> STATUS_OK)"
    using that waiting poll
    by (auto simp: iolink_master_tick_at_def iolink_master_tick_common_def tick_timeout_def flush q_def [symmetric] Let_def
        elim!: ensuresE)
  show ?thesis
  proof (cases "dg_rx_retry_count ?d < 2")
    case True
    have "e3 = e1" if "cfg_flush_rx (st_config p) = None"
      using that flush flush2 by (simp add: iolink_master_flush_rx_def call_hook_def Let_def q_def)
    moreover have "on_line L reply device (r\<lparr>st_diagnostics := d\<rparr>)" for d
      using p by (simp add: r_def q_def on_line_def)
    moreover have "line_ok (r\<lparr>st_diagnostics := d\<rparr>)" for d
      using line_ok_kept [OF line] by (simp add: r_def q_def)
    ultimately show ?thesis
      using True tick timeout by (simp add: trunc8_def) (simp add: r_def q_def)
  next
    case False
    have "port_wf L r" "line_ok r"
      using att line_ok_kept [OF line] by (simp_all add: r_def q_def attached_def port_wf_defs)
    from restart_establish_ok [OF this, of now True e3] False tick timeout show ?thesis
      by (auto simp: r_def q_def elim!: ensuresE)
  qed
qed

subsection \<open>The next tick time\<close>

text \<open>
  C18. The next tick time is sound and exact. A caller that has polled at \<open>now\<close> and sleeps until
  the time it is given misses nothing: a tick before that time does nothing but poll the receiver.
  And at that time, or any later one, the tick of a port in OPERATE acts: a port that waits for a
  reply gives the response up, reports PENDING and counts the timeout; one that does not wait puts
  its next message on the line, the next ISDU frame or the cyclic message, and a cyclic message
  starts a cycle at the time of the tick. (The port is one that communicates, its last cycle started
  no later than \<open>now\<close>, no send gate is left from the start-up; for the second part no hook fails, no
  event is being read and the clock does not pass its end within the cycle.)
\<close>

theorem next_tick_exact:
  fixes p :: "(u8 list \<times> 'd) iolink_master_port_state_t"
  assumes "st_state p \<noteq> STATE_INACTIVE" and "st_state p \<noteq> STATE_ERROR"
    and "st_state p = STATE_STARTUP \<or> \<not> gate_closed p now"
    and "st_last_cycle_start_100us p \<le> now" and "now \<le> x"
    and "iolink_master_poll_rx L p e = Some (ret, p, e1)" and "0 \<le> ret"
  shows "(x < snd (iolink_master_get_next_tick_time p now) \<longrightarrow>
       iolink_master_tick_at L (due_event p x) x p e = Some (ret, p, e1)) \<and>
    (snd (iolink_master_get_next_tick_time p now) \<le> x \<and>
       unat (st_last_cycle_start_100us p) + unat (cfg_min_cycle_time (st_config p)) < 2 ^ 32 \<and>
       iolinki_ok L \<and> on_line L reply device (p\<lparr>st_awaiting_response := False\<rparr>) \<and> line_ok p \<and>
       ev_phase (st_event p) = EVENT_PHASE_NONE \<and> ret = STATUS_OK \<and> e1 = ([], d) \<longrightarrow>
     ensures (iolink_master_tick_at L (due_event p x) x p e) (\<lambda>(ret', p', e').
       if st_awaiting_response p
       then ret' = STATUS_PENDING \<and> \<not> st_awaiting_response p' \<and>
         dg_response_timeouts (st_diagnostics p') = dg_response_timeouts (st_diagnostics p) + 1
       else ret' = STATUS_OK \<and> e' = device (fst (line_message L p (st_isdu p))) d \<and>
         (isdu_next L (st_od_len p) (st_isdu p) = None \<longrightarrow> cycle_started x p p')))"
proof (intro conjI impI)
  let ?t = "snd (iolink_master_get_next_tick_time p now)"
  assume "x < ?t"
  then show "iolink_master_tick_at L (due_event p x) x p e = Some (ret, p, e1)"
    using next_tick_acts(1) [OF assms(1-5)] tick_idle [OF assms(6,7)] by blast
next
  assume late: "snd (iolink_master_get_next_tick_time p now) \<le> x \<and>
    unat (st_last_cycle_start_100us p) + unat (cfg_min_cycle_time (st_config p)) < 2 ^ 32 \<and>
    iolinki_ok L \<and> on_line L reply device (p\<lparr>st_awaiting_response := False\<rparr>) \<and> line_ok p \<and>
    ev_phase (st_event p) = EVENT_PHASE_NONE \<and> ret = STATUS_OK \<and> e1 = ([], d)"
  then have acts: "tick_acts p x" using next_tick_acts(2) [OF assms(1-5)] by blast
  from late have line: "iolinki_ok L" "on_line L reply device (p\<lparr>st_awaiting_response := False\<rparr>)" "line_ok p"
    "ev_phase (st_event p) = EVENT_PHASE_NONE" "ret = STATUS_OK" "e1 = ([], d)" by simp_all
  show "ensures (iolink_master_tick_at L (due_event p x) x p e) (\<lambda>(ret', p', e').
      if st_awaiting_response p
      then ret' = STATUS_PENDING \<and> \<not> st_awaiting_response p' \<and>
        dg_response_timeouts (st_diagnostics p') = dg_response_timeouts (st_diagnostics p) + 1
      else ret' = STATUS_OK \<and> e' = device (fst (line_message L p (st_isdu p))) d \<and>
        (isdu_next L (st_od_len p) (st_isdu p) = None \<longrightarrow> cycle_started x p p'))"
  proof (cases "st_awaiting_response p")
    case True
    then have "due_event p x = TICK_RESPONSE_TIMEOUT" using acts by (simp add: tick_acts_def due_event_def)
    with tick_times_out [OF line(2,3) True assms(6,7), of x] True show ?thesis
      by (auto elim!: ensures_mono)
  next
    case False
    then have "p\<lparr>st_awaiting_response := False\<rparr> = p" by (cases p) simp
    then have p: "on_line L reply device p" using line(2) by simp
    have due: "iolink_master_cycle_due_at p x" "\<not> gate_closed p x" "due_event p x = TICK_CYCLE_DUE"
      using acts False by (auto simp: tick_acts_def due_event_def iolink_master_response_due_at_def)
    obtain msg isdu where msg: "line_message L p (st_isdu p) = (msg, isdu)" by fastforce
    have poll: "iolink_master_poll_rx L p e = Some (STATUS_OK, p, [], d)" using assms(6) line(5,6) by simp
    show ?thesis
      unfolding due(3) using tick_sends [OF line(1) p line(4) msg poll _ due(1,2)]
      by (rule ensures_mono) (use False msg in auto)
  qed
qed

text \<open>A port whose last cycle started at 3 with a minimum cycle time of 10, and the same port waiting until 20.\<close>

definition demo_paced :: "(u8 list \<times> u8 list list) iolink_master_port_state_t" where
  "demo_paced = demo_logged\<lparr>st_cycle_timer_valid := True, st_last_cycle_start_100us := 3\<rparr>"

theorem next_tick_exact_witness:
  "snd (iolink_master_get_next_tick_time demo_paced 5) = 13 \<and>
   iolink_master_tick_at demo_stack TICK_CYCLE_DUE 12 demo_paced ([], []) = Some (STATUS_OK, demo_paced, [], []) \<and>
   ensures (iolink_master_tick_at demo_stack TICK_CYCLE_DUE 13 demo_paced ([], [])) (\<lambda>(ret, p', queue, log).
     log = [cyclic_message demo_stack demo_paced] \<and> st_last_cycle_start_100us p' = 13)"
proof -
  have fields: "st_state demo_paced = STATE_OPERATE" "st_cycle_timer_valid demo_paced" "\<not> st_send_ready_valid demo_paced"
    "st_last_cycle_start_100us demo_paced = 3" "cfg_min_cycle_time (st_config demo_paced) = 10"
    "\<not> st_awaiting_response demo_paced" "ev_phase (st_event demo_paced) = EVENT_PHASE_NONE"
    by (simp_all add: demo_paced_def demo_logged_def demo_wired_def zero_port_def zero_event_def)
  have line: "on_line demo_stack demo_reply (answering demo_reply demo_log) demo_paced"
    using demo_logged_line by (simp add: demo_paced_def on_line_def attached_def port_wf_defs)
  then have settled: "demo_paced\<lparr>st_awaiting_response := False\<rparr> = demo_paced" by (rule on_line_settled)
  have "attached demo_stack (wire_phy (answering demo_reply demo_log)) demo_paced" using line by (simp add: on_line_def)
  from attached_poll [OF this wire_recv queue_drained]
  have poll: "iolink_master_poll_rx demo_stack demo_paced ([], []) = Some (STATUS_OK, demo_paced, [], [])" .
  have ok: "line_ok demo_paced"
    by (simp add: line_ok_def demo_paced_def demo_logged_def demo_wired_def zero_config_def hook_ok_def wire_phy_def
        case_prod_unfold Let_def)
  have time: "snd (iolink_master_get_next_tick_time demo_paced 5) = 13"
    by (simp add: iolink_master_get_next_tick_time_def cycle_unpaced_def fields)
  have idle: "isdu_next demo_stack n (st_isdu demo_paced) = None" for n
    using demo_logged_idle(2) by (simp add: demo_paced_def)
  have event: "due_event demo_paced x = TICK_CYCLE_DUE" for x
    by (simp add: due_event_def iolink_master_response_due_at_def fields)
  show ?thesis
    using next_tick_exact [of demo_paced 5 12 demo_stack "([], [])" STATUS_OK "([], [])"]
      next_tick_exact [of demo_paced 5 13 demo_stack "([], [])" STATUS_OK "([], [])" demo_reply "answering demo_reply demo_log" "[]"]
      time poll line settled ok demo_stack_ok
    by (auto simp: fields gate_closed_def event idle line_message_def answering_def demo_log_def cycle_started_def elim!: ensures_mono)
qed

subsection \<open>Cycles that fail\<close>

text \<open>
  A device that answers the messages from a script: nothing, or the octets of a reply of the right
  length. How the port judges a cycle with this answer.
\<close>

definition scripted :: "u8 list \<Rightarrow> u8 list list \<Rightarrow> u8 list \<times> u8 list list" where
  "scripted msg script = (case script of [] \<Rightarrow> ([], []) | answer # rest \<Rightarrow> (answer, rest))"

datatype verdict = Good | Missed | Garbled

definition verdict_of :: "iolinki \<Rightarrow> nat \<Rightarrow> u8 list \<Rightarrow> verdict" where
  "verdict_of L pd_len answer =
     (if answer = [] then Missed
      else case frame_decode_operate_response L answer pd_len 0 of
        None \<Rightarrow> Missed
      | Some resp \<Rightarrow> if resp_checksum_ok resp then Good else Garbled)"

text \<open>The failures in a row, at each end of a cycle, and whether they reach three.\<close>

fun gives_up :: "nat \<Rightarrow> verdict list \<Rightarrow> bool" where
  "gives_up k [] = False"
| "gives_up k (v # vs) =
     (let k = (case v of Good \<Rightarrow> 0 | Missed \<Rightarrow> k + 1 | Garbled \<Rightarrow> k + 2) in 3 \<le> k \<or> gives_up k vs)"

text \<open>The ticks of a cycle: one that sends, one that receives, one at the deadline of the response.\<close>

fun line_cycles ::
  "iolinki \<Rightarrow> (u32 \<times> u32 \<times> u32) list \<Rightarrow> 'e iolink_master_port_state_t \<Rightarrow> 'e \<Rightarrow>
   ('e iolink_master_port_state_t \<times> 'e) option" where
  "line_cycles L [] p e = Some (p, e)"
| "line_cycles L ((t, t1, t2) # schedule) p e =
     (if st_state p \<noteq> STATE_OPERATE then Some (p, e)
      else do {
        (_, p, e) \<leftarrow> iolink_master_tick_at L TICK_CYCLE_DUE t p e;
        (_, p, e) \<leftarrow> iolink_master_tick_at L TICK_NONE t1 p e;
        (_, p, e) \<leftarrow> iolink_master_tick_at L TICK_RESPONSE_TIMEOUT t2 p e;
        line_cycles L schedule p e })"

text \<open>The port between two cycles, after \<open>k\<close> failures in a row, and while it waits for a reply.\<close>

definition cycling ::
  "iolinki \<Rightarrow> (u8 list \<Rightarrow> u8 list) \<Rightarrow> nat \<Rightarrow> (u8 list \<times> u8 list list) iolink_master_port_state_t \<Rightarrow> bool" where
  "cycling L reply k p \<longleftrightarrow> on_line L reply scripted p \<and> line_ok p \<and> services_idle p \<and>
     cfg_flush_rx (st_config p) = None \<and> cfg_min_cycle_time (st_config p) = 0 \<and>
     dg_rx_retry_count (st_diagnostics p) = k"

definition waiting ::
  "iolinki \<Rightarrow> (u8 list \<Rightarrow> u8 list) \<Rightarrow> nat \<Rightarrow> (u8 list \<times> u8 list list) iolink_master_port_state_t \<Rightarrow> bool" where
  "waiting L reply k p \<longleftrightarrow> cycling L reply k (p\<lparr>st_awaiting_response := False\<rparr>) \<and> st_awaiting_response p \<and>
     \<not> st_rx_od_expected p"

definition same_setup :: "'e iolink_master_port_state_t \<Rightarrow> 'e iolink_master_port_state_t \<Rightarrow> bool" where
  "same_setup p p' \<longleftrightarrow> st_config p' = st_config p \<and> unticked p' = unticked p"

definition fallen_back :: "'e iolink_master_port_state_t \<Rightarrow> bool" where
  "fallen_back p \<longleftrightarrow> st_state p = STATE_STARTUP \<and> su_step (st_startup p) = STARTUP_STEP_WAKE \<and>
     \<not> st_awaiting_response p \<and> st_phy p \<noteq> None"

lemma idle_next: "services_idle p \<Longrightarrow> isdu_next L n (st_isdu p) = None"
  by (simp add: services_idle_def isdu_next_def iolink_master_isdu_channel_access_def)

lemma on_line_nothing: "on_line L reply device (p\<lparr>st_awaiting_response := False\<rparr>) \<Longrightarrow>
    iolink_master_poll_rx L p ([], d) = Some (STATUS_OK, p, [], d)"
proof -
  assume p: "on_line L reply device (p\<lparr>st_awaiting_response := False\<rparr>)"
  obtain x where "queue_recv ([], d) = (0, x, [], d)" using queue_drained [of d] by (auto simp: drained_def)
  then show ?thesis
    using p by (intro poll_nothing [where phy = "wire_phy device" and recv = queue_recv and octet = x])
      (simp_all add: on_line_def attached_def wire_recv)
qed

lemma cycle_sends:
  assumes L: "iolinki_ok L" and p: "cycling L reply k p" and gate: "\<not> gate_closed p t"
  shows "ensures (iolink_master_tick_at L TICK_CYCLE_DUE t p ([], answer # script)) (\<lambda>(ret, p', e').
    waiting L reply k p' \<and> same_setup p p' \<and> e' = (answer, script))"
proof -
  have line: "on_line L reply scripted p" and idle: "services_idle p" using p by (simp_all add: cycling_def)
  have settled: "p\<lparr>st_awaiting_response := False\<rparr> = p" using line by (rule on_line_settled)
  have none: "ev_phase (st_event p) = EVENT_PHASE_NONE" using idle by (simp add: services_idle_def)
  have msg: "line_message L p (st_isdu p) = (cyclic_message L p, st_isdu p)"
    by (simp add: line_message_def idle_next [OF idle])
  have due: "iolink_master_cycle_due_at p t"
    using p by (simp add: cycling_def iolink_master_cycle_due_at_def cycle_unpaced_def)
  have poll: "iolink_master_poll_rx L p ([], answer # script) = Some (STATUS_OK, p, [], answer # script)"
    using line settled by (intro on_line_nothing) simp
  show ?thesis
    using tick_sends [OF L line none msg poll _ due gate]
    by (rule ensures_mono) (use p idle_next [OF idle] none line_ok_kept [of p] in \<open>auto simp: waiting_def cycling_def
      same_setup_def cycle_started_def services_idle_def scripted_def on_line_def attached_def\<close>)
qed

text \<open>A complete reply that the state machine does not accept: its octets are dropped.\<close>

lemma poll_rejected:
  assumes p: "on_line L reply device (p\<lparr>st_awaiting_response := False\<rparr>)" and none: "\<not> st_rx_od_expected p"
    and xs: "length xs = cfg_pd_in_len (st_config p) + 1" and const: "stack_constants_ok L"
    and rx: "\<And>r. length (rx_buf r) = 64 \<and> rx_len r \<le> 64 \<Longrightarrow>
      ensures (iolink_master_on_rx L (Some xs) (p\<lparr>st_rx := r\<rparr>) ([], d)) (\<lambda>(ret, q, e'). ret < 0 \<and> Q q e')"
  shows "ensures (iolink_master_poll_rx L p (xs, d)) (\<lambda>(ret, p', e'). ret < 0 \<and> (\<exists>q. p' = rx_clear q \<and> Q q e'))"
proof -
  have att: "attached L (wire_phy device) (p\<lparr>st_awaiting_response := False\<rparr>)"
    and state: "st_state p = STATE_OPERATE" "cfg_m_seq_type (st_config p) \<noteq> M_SEQ_TYPE_0"
    using p by (simp_all add: on_line_def)
  have wf: "rx_len (st_rx p) = 0" "length (rx_buf (st_rx p)) = 64" "st_phy p = Some (wire_phy device)"
    "cfg_pd_in_len (st_config p) < 64"
    using att const by (auto simp: attached_def port_wf_defs stack_constants_ok_def)
  have split: "butlast xs @ [last xs] = xs" using xs by (intro append_butlast_last_id) auto
  define r where "r = st_rx (rx_store xs p)"
  have store: "rx_store xs p = p\<lparr>st_rx := r\<rparr>" unfolding r_def by (rule rx_store_rest)
  have "length (rx_buf r) = 64 \<and> rx_len r \<le> 64" using wf xs by (simp add: r_def)
  from rx [OF this] obtain ret q e' where on_rx:
    "iolink_master_on_rx L (Some xs) (p\<lparr>st_rx := r\<rparr>) ([], d) = Some (ret, q, e')" "ret < 0" "Q q e'"
    by (auto elim!: ensuresE)
  have "rx_expected_len L p = Some (length xs)"
    using state none xs wf(4) by (simp add: rx_expected_len_def trunc8_def type0_operate_def)
  moreover have "consumes queue_recv (butlast xs @ [last xs]) (xs, d) ([], d)"
    unfolding split by (rule queue_consumes_all)
  ultimately show ?thesis
    using poll_completes [of queue_recv "butlast xs" "last xs" "(xs, d)" "([], d)" p "length xs" L 0] wf xs on_rx
    unfolding split by (auto simp: iolink_master_poll_rx_def wire_recv store)
qed

text \<open>The port after a reply that did not count as an answer.\<close>

lemma waiting_rejected:
  assumes "waiting L reply k p" "length (rx_buf r) = 64" "dg_rx_retry_count dg = k'"
  shows "waiting L reply k' (rx_clear (p\<lparr>st_rx := r, st_diagnostics := dg\<rparr>))"
    and "same_setup p (rx_clear (p\<lparr>st_rx := r, st_diagnostics := dg\<rparr>))"
  using assms line_ok_kept [of p]
  by (auto simp: waiting_def cycling_def on_line_def attached_def port_wf_defs rx_clear_def same_setup_def
      services_idle_def line_ok_def)

lemma tick_none:
  "iolink_master_poll_rx L p e = Some (ret, p1, e1) \<Longrightarrow> iolink_master_tick_at L TICK_NONE now p e = Some (ret, p1, e1)"
  by (simp add: iolink_master_tick_at_def iolink_master_tick_common_def)

lemma restart_fallen:
  assumes "port_wf L p" "line_ok p"
  shows "ensures (iolink_master_restart_establish now timed p e) (\<lambda>(ret, p', e'). ret = STATUS_PENDING \<and> fallen_back p')"
  using restart_establish_ok [OF assms, of now timed e] line_ok_hooks(5) [OF assms(2)]
  by (auto simp: fallen_back_def elim!: ensures_mono)

text \<open>The tick in the response window, for each kind of answer.\<close>

lemma cycle_receives:
  assumes L: "iolinki_ok L" and p: "waiting L reply k p" "k \<le> 2"
    and answer: "answer = [] \<or> length answer = cfg_pd_in_len (st_config p) + 1"
  shows "ensures (iolink_master_tick_at L TICK_NONE t p (answer, script)) (\<lambda>(ret, p', e').
    case verdict_of L (cfg_pd_in_len (st_config p)) answer of
      Good \<Rightarrow> cycling L reply 0 p' \<and> same_setup p p' \<and> e' = ([], script)
    | Missed \<Rightarrow> waiting L reply k p' \<and> same_setup p p' \<and> e' = ([], script)
    | Garbled \<Rightarrow> if k < 2 then waiting L reply (k + 1) p' \<and> same_setup p p' \<and> e' = ([], script) else fallen_back p')"
proof -
  let ?n = "cfg_pd_in_len (st_config p)"
  have const: "stack_constants_ok L" using L by (simp add: iolinki_ok_def)
  have line: "on_line L reply scripted (p\<lparr>st_awaiting_response := False\<rparr>)" and none: "\<not> st_rx_od_expected p"
    and ok: "line_ok p" and state: "st_state p = STATE_OPERATE" "cfg_m_seq_type (st_config p) \<noteq> M_SEQ_TYPE_0"
    and retry: "dg_rx_retry_count (st_diagnostics p) = k" and wf: "port_wf L p"
    using p(1) by (auto simp: waiting_def cycling_def on_line_def line_ok_def attached_def port_wf_defs)
  have on_rx: "iolink_master_on_rx L (Some answer) (p\<lparr>st_rx := r\<rparr>) e = on_rx_operate L answer (p\<lparr>st_rx := r\<rparr>) e"
    if "answer \<noteq> []" for r e
    using that state by (simp add: iolink_master_on_rx_def type0_operate_def)
  have rejected: "ensures (iolink_master_tick_at L TICK_NONE t p (answer, script)) (\<lambda>(ret, p', e').
      waiting L reply k' p' \<and> same_setup p p' \<and> e' = ([], script))"
    if rx: "\<And>r. length (rx_buf r) = 64 \<and> rx_len r \<le> 64 \<Longrightarrow> ensures (iolink_master_on_rx L (Some answer) (p\<lparr>st_rx := r\<rparr>) ([], script))
        (\<lambda>(ret, q, e'). ret < 0 \<and> (\<exists>r dg. length (rx_buf r) = 64 \<and> q = p\<lparr>st_rx := r, st_diagnostics := dg\<rparr> \<and>
          dg_rx_retry_count dg = k' \<and> e' = ([], script)))" and filled: "answer \<noteq> []" for k'
  proof -
    obtain ret r dg where poll: "iolink_master_poll_rx L p (answer, script) =
        Some (ret, rx_clear (p\<lparr>st_rx := r, st_diagnostics := dg\<rparr>), [], script)"
      "length (rx_buf r) = 64" "dg_rx_retry_count dg = k'"
      using poll_rejected [OF line none _ const rx] answer filled by (auto elim!: ensuresE)
    from tick_none [OF poll(1)] waiting_rejected [OF p(1) poll(2,3)] show ?thesis by simp
  qed
  consider (silent) "answer = []" | (undecoded) "answer \<noteq> []" "frame_decode_operate_response L answer ?n 0 = None"
    | (good) resp where "answer \<noteq> []" "frame_decode_operate_response L answer ?n 0 = Some resp" "resp_checksum_ok resp"
    | (garbled) resp where "answer \<noteq> []" "frame_decode_operate_response L answer ?n 0 = Some resp" "\<not> resp_checksum_ok resp"
    by blast
  then show ?thesis
  proof cases
    case silent
    then show ?thesis
      using tick_none [OF on_line_nothing [OF line]] p(1) by (simp add: verdict_of_def same_setup_def)
  next
    case undecoded
    have "ensures (iolink_master_on_rx L (Some answer) (p\<lparr>st_rx := r\<rparr>) ([], script))
        (\<lambda>(ret, q, e'). ret < 0 \<and> (\<exists>r dg. length (rx_buf r) = 64 \<and> q = p\<lparr>st_rx := r, st_diagnostics := dg\<rparr> \<and>
          dg_rx_retry_count dg = k \<and> e' = ([], script)))" if "length (rx_buf r) = 64 \<and> rx_len r \<le> 64" for r
    proof -
      have "p\<lparr>st_rx := r\<rparr> = p\<lparr>st_rx := r, st_diagnostics := st_diagnostics p\<rparr>" by (cases p) simp
      moreover have "iolink_master_on_rx L (Some answer) (p\<lparr>st_rx := r\<rparr>) ([], script) =
          Some (ERR_FRAME, p\<lparr>st_rx := r\<rparr>, [], script)"
        using undecoded none by (simp add: on_rx on_rx_operate_def)
      ultimately show ?thesis using that retry by (auto intro!: exI [of _ r] exI [of _ "st_diagnostics p"])
    qed
    from rejected [OF this] undecoded show ?thesis by (simp add: verdict_of_def)
  next
    case good
    have isdu: "iolink_master_isdu_on_od L [] (st_isdu p) = Some (st_isdu p)" "ev_phase (st_event p) = EVENT_PHASE_NONE"
      using p(1) by (simp_all add: waiting_def cycling_def services_idle_def iolink_master_isdu_on_od_def)
    have route: "iolink_master_route_od L [] q = Some (q\<lparr>st_event := st_event p, st_isdu := st_isdu p\<rparr>)"
      if "st_event q = st_event p" "st_isdu q = st_isdu p" for q :: "(u8 list \<times> u8 list list) iolink_master_port_state_t"
      using that isdu by (cases q) (simp add: iolink_master_route_od_def iolink_master_event_channel_access_def)
    have engines: "event_wf (st_event p)" "isdu_wf L (st_isdu p)" using wf by (simp_all add: port_wf_def)
    have "length (resp_od resp) = 0" using good(2) L unfolding iolinki_ok_def stack_frames_ok_def by blast
    then have od: "resp_od resp = []" by simp
    have "length answer = ?n + length [] + 1" "frame_decode_operate_response L answer ?n (length []) = Some resp" "due [] p"
      using good answer none by (auto simp: due_def)
    from poll_answer_waiting [OF L line this(3,1,2) good(3) od route engines, of script]
    obtain p1 where p1: "iolink_master_poll_rx L p (answer, script) = Some (1, p1, [], script)"
      "on_line L reply scripted p1" "st_event p1 = st_event p" "st_isdu p1 = st_isdu p"
      "st_config p1 = st_config p" "unticked p1 = unticked p" "dg_rx_retry_count (st_diagnostics p1) = 0"
      by blast
    have "st_phy p1 = st_phy p" using p1(2) line by (simp add: on_line_def attached_def)
    from line_ok_kept [OF ok this p1(5)] have "cycling L reply 0 p1"
      using p1 p(1) by (simp add: waiting_def cycling_def services_idle_def)
    then show ?thesis
      using tick_none [OF p1(1)] p1(5,6) good by (simp add: verdict_of_def same_setup_def)
  next
    case garbled
    have retry_rx: "iolink_master_on_rx L (Some answer) (p\<lparr>st_rx := r\<rparr>) ([], script) = rx_retry (p\<lparr>st_rx := r\<rparr>) ([], script)" for r
      using garbled none on_rx by (simp add: on_rx_operate_def)
    have verdict: "verdict_of L ?n answer = Garbled" using garbled by (simp add: verdict_of_def)
    show ?thesis
    proof (cases "k < 2")
      case True
      then have "ensures (iolink_master_on_rx L (Some answer) (p\<lparr>st_rx := r\<rparr>) ([], script))
        (\<lambda>(ret, q, e'). ret < 0 \<and> (\<exists>r dg. length (rx_buf r) = 64 \<and> q = p\<lparr>st_rx := r, st_diagnostics := dg\<rparr> \<and>
          dg_rx_retry_count dg = k + 1 \<and> e' = ([], script)))" if "length (rx_buf r) = 64 \<and> rx_len r \<le> 64" for r
        using that retry
        by (auto simp: retry_rx rx_retry_def rx_checksum_error_def Let_def trunc8_def intro!: exI [of _ r])
      from rejected [OF this] garbled(1) verdict True show ?thesis by simp
    next
      case False
      have "ensures (iolink_master_on_rx L (Some answer) (p\<lparr>st_rx := r\<rparr>) ([], script))
        (\<lambda>(ret, q, e'). ret < 0 \<and> fallen_back q)" if "length (rx_buf r) = 64 \<and> rx_len r \<le> 64" for r
      proof -
        have "port_wf L (rx_checksum_error (p\<lparr>st_rx := r\<rparr>))" "line_ok (rx_checksum_error (p\<lparr>st_rx := r\<rparr>))"
          using wf ok that line_ok_kept [OF ok] by (simp_all add: rx_checksum_error_def port_wf_defs)
        from restart_fallen [OF this, of 0 False "([], script)"] obtain ret q e' where
          "iolink_master_restart_establish 0 False (rx_checksum_error (p\<lparr>st_rx := r\<rparr>)) ([], script) = Some (ret, q, e')"
          "fallen_back q" by (auto elim!: ensuresE)
        moreover have "dg_rx_retry_count (st_diagnostics (rx_checksum_error (p\<lparr>st_rx := r\<rparr>))) = k"
          using retry by (simp add: rx_checksum_error_def)
        ultimately show ?thesis using False by (simp add: retry_rx rx_retry_def Let_def)
      qed
      from poll_rejected [OF line none _ const this] answer garbled(1) obtain ret q e' where
        "iolink_master_poll_rx L p (answer, script) = Some (ret, rx_clear q, e')" "fallen_back q"
        by (auto elim!: ensuresE)
      moreover have "fallen_back (rx_clear q)" using \<open>fallen_back q\<close> by (simp add: fallen_back_def rx_clear_def)
      ultimately show ?thesis using tick_none [of L p "(answer, script)" ret "rx_clear q" e' t] verdict False by simp
    qed
  qed
qed

text \<open>The tick at the deadline.\<close>

lemma cycle_deadline:
  assumes p: "waiting L reply k p"
  shows "ensures (iolink_master_tick_at L TICK_RESPONSE_TIMEOUT t p ([], script)) (\<lambda>(ret, p', e').
    if k < 2 then cycling L reply (k + 1) p' \<and> same_setup p p' \<and> e' = ([], script) else fallen_back p')"
proof -
  have line: "on_line L reply scripted (p\<lparr>st_awaiting_response := False\<rparr>)" and ok: "line_ok p"
    using p line_ok_kept [of "p\<lparr>st_awaiting_response := False\<rparr>" p] by (simp_all add: waiting_def cycling_def)
  from tick_times_out [OF line ok _ on_line_nothing [OF line], of t script] p line_ok_hooks(5) [OF ok] show ?thesis
    by (auto simp: waiting_def cycling_def same_setup_def services_idle_def fallen_back_def split: if_splits elim!: ensures_mono)
qed

lemma answered_deadline:
  assumes "cycling L reply k p"
  shows "iolink_master_tick_at L TICK_RESPONSE_TIMEOUT t p ([], script) = Some (STATUS_OK, p, [], script)"
proof -
  have line: "on_line L reply scripted p" using assms by (simp add: cycling_def)
  then have "p\<lparr>st_awaiting_response := False\<rparr> = p" by (rule on_line_settled)
  with line have "iolink_master_poll_rx L p ([], script) = Some (STATUS_OK, p, [], script)"
    by (intro on_line_nothing) simp
  with line show ?thesis
    by (simp add: iolink_master_tick_at_def iolink_master_tick_common_def tick_timeout_def on_line_def attached_def)
qed

lemma fallen_back_deadline:
  assumes "fallen_back p"
  shows "iolink_master_tick_at L TICK_RESPONSE_TIMEOUT t p e = Some (STATUS_OK, p, e)"
proof -
  have "iolink_master_poll_rx L p e = Some (STATUS_OK, p, e)"
    using assms by (auto simp: fallen_back_def iolink_master_poll_rx_def rx_expected_len_def split: option.split)
  then show ?thesis
    using assms by (simp add: iolink_master_tick_at_def iolink_master_tick_common_def tick_timeout_def fallen_back_def)
qed

lemma line_cycles_left: "st_state p \<noteq> STATE_OPERATE \<Longrightarrow> line_cycles L schedule p e = Some (p, e)"
  by (cases schedule) auto

text \<open>One cycle: the count of failures in a row, or the loss.\<close>

lemma cycle_counts:
  assumes L: "iolinki_ok L" and p: "cycling L reply k p" "k \<le> 2" and gate: "\<not> gate_closed p t"
    and answer: "answer = [] \<or> length answer = cfg_pd_in_len (st_config p) + 1"
    and k': "k' = (case verdict_of L (cfg_pd_in_len (st_config p)) answer of Good \<Rightarrow> 0 | Missed \<Rightarrow> k + 1 | Garbled \<Rightarrow> k + 2)"
  obtains p' e' where "line_cycles L ((t, t1, t2) # schedule) p ([], answer # script) = line_cycles L schedule p' e'"
    and "if 3 \<le> k' then st_state p' = STATE_STARTUP else cycling L reply k' p' \<and> same_setup p p' \<and> e' = ([], script)"
proof -
  have state: "st_state p = STATE_OPERATE" using p(1) by (simp add: cycling_def on_line_def)
  obtain r1 p1 where 1: "iolink_master_tick_at L TICK_CYCLE_DUE t p ([], answer # script) = Some (r1, p1, answer, script)"
    "waiting L reply k p1" "same_setup p p1"
    using cycle_sends [OF L p(1) gate, of answer script] by (auto elim!: ensuresE)
  have config: "st_config p1 = st_config p" using 1(3) by (simp add: same_setup_def)
  obtain r2 p2 e2 where 2: "iolink_master_tick_at L TICK_NONE t1 p1 (answer, script) = Some (r2, p2, e2)"
    "case verdict_of L (cfg_pd_in_len (st_config p)) answer of
      Good \<Rightarrow> cycling L reply 0 p2 \<and> same_setup p1 p2 \<and> e2 = ([], script)
    | Missed \<Rightarrow> waiting L reply k p2 \<and> same_setup p1 p2 \<and> e2 = ([], script)
    | Garbled \<Rightarrow> if k < 2 then waiting L reply (k + 1) p2 \<and> same_setup p1 p2 \<and> e2 = ([], script) else fallen_back p2"
    using cycle_receives [OF L 1(2) p(2), of answer t1 script] answer config by (auto elim!: ensuresE simp del: if_split_mem1 split del: if_split)
  have trans: "same_setup p q" if "same_setup p1 p2" "same_setup p2 q" for q
    using that 1(3) by (simp add: same_setup_def)
  have run: "line_cycles L ((t, t1, t2) # schedule) p ([], answer # script) = line_cycles L schedule p3 e3"
    if "iolink_master_tick_at L TICK_RESPONSE_TIMEOUT t2 p2 e2 = Some (r3, p3, e3)" for r3 p3 e3
    using that state by (simp add: 1(1) 2(1))
  note result = that
  have late: thesis if w: "waiting L reply j p2" "same_setup p1 p2" "e2 = ([], script)" "k' = j + 1" for j
  proof -
    obtain r3 p3 e3 where 3: "iolink_master_tick_at L TICK_RESPONSE_TIMEOUT t2 p2 e2 = Some (r3, p3, e3)"
      "if j < 2 then cycling L reply (j + 1) p3 \<and> same_setup p2 p3 \<and> e3 = ([], script) else fallen_back p3"
      using cycle_deadline [OF w(1), of t2 script] w(3) by (auto elim!: ensuresE simp del: if_split_mem1 split del: if_split)
    then show thesis
      using result [OF run [OF 3(1)]] w(4) trans [OF w(2)] by (auto simp: fallen_back_def split: if_splits)
  qed
  show thesis
  proof (cases "verdict_of L (cfg_pd_in_len (st_config p)) answer")
    case Good
    then have "cycling L reply 0 p2" "same_setup p1 p2" "e2 = ([], script)" "k' = 0" using 2(2) k' by simp_all
    then show thesis
      using result [OF run [of STATUS_OK p2 "([], script)"]] answered_deadline [of L reply 0 p2] trans [of p2]
      by (simp add: same_setup_def)
  next
    case Missed
    then show thesis using 2(2) k' late [of k] by simp
  next
    case Garbled
    show thesis
    proof (cases "k < 2")
      case True
      then show thesis using Garbled 2(2) k' late [of "k + 1"] by simp
    next
      case False
      then have "fallen_back p2" "3 \<le> k'" using Garbled 2(2) k' by simp_all
      then show thesis
        using result [OF run [OF fallen_back_deadline]] by (simp add: fallen_back_def)
    qed
  qed
qed

lemma line_cycles_state:
  assumes L: "iolinki_ok L"
  shows "\<lbrakk>cycling L reply k p; k \<le> 2; length script = length schedule; \<forall>(t, _) \<in> set schedule. \<not> gate_closed p t;
     \<forall>answer \<in> set script. answer = [] \<or> length answer = cfg_pd_in_len (st_config p) + 1\<rbrakk> \<Longrightarrow>
    ensures (line_cycles L schedule p ([], script)) (\<lambda>(p', e'). st_state p' =
      (if gives_up k (map (verdict_of L (cfg_pd_in_len (st_config p))) script) then STATE_STARTUP else STATE_OPERATE))"
proof (induction schedule arbitrary: k p script)
  case Nil
  then show ?case by (simp add: cycling_def on_line_def)
next
  case (Cons slot schedule)
  obtain t t1 t2 where slot: "slot = (t, t1, t2)" by (cases slot)
  obtain answer rest where script: "script = answer # rest" using Cons.prems(3) by (cases script) auto
  define k' where "k' = (case verdict_of L (cfg_pd_in_len (st_config p)) answer of Good \<Rightarrow> 0 | Missed \<Rightarrow> k + 1 | Garbled \<Rightarrow> k + 2)"
  obtain p' e' where cycle: "line_cycles L (slot # schedule) p ([], script) = line_cycles L schedule p' e'"
    "if 3 \<le> k' then st_state p' = STATE_STARTUP else cycling L reply k' p' \<and> same_setup p p' \<and> e' = ([], rest)"
    using cycle_counts [OF L Cons.prems(1,2) _ _ k'_def, of t t1 t2 schedule rest] Cons.prems(4,5)
    by (auto simp: slot script simp del: if_split_mem1 split del: if_split)
  have step: "gives_up k (map (verdict_of L (cfg_pd_in_len (st_config p))) script) =
      (3 \<le> k' \<or> gives_up k' (map (verdict_of L (cfg_pd_in_len (st_config p))) rest))"
    by (simp add: script k'_def Let_def)
  show ?case
  proof (cases "3 \<le> k'")
    case True
    then show ?thesis using cycle step by (simp add: line_cycles_left)
  next
    case False
    then have next_cycle: "cycling L reply k' p'" "same_setup p p'" "e' = ([], rest)" "k' \<le> 2" using cycle(2) by simp_all
    have "gate_closed p' = gate_closed p" "st_config p' = st_config p"
      using next_cycle(2) by (auto simp: same_setup_def gate_closed_def fun_eq_iff)
    with Cons.IH [OF next_cycle(1,4), of rest] Cons.prems(3-5)
    have "ensures (line_cycles L schedule p' ([], rest)) (\<lambda>(p', e'). st_state p' =
        (if gives_up k' (map (verdict_of L (cfg_pd_in_len (st_config p))) rest) then STATE_STARTUP else STATE_OPERATE))"
      by (simp add: script)
    then show ?thesis unfolding cycle(1) next_cycle(3) step using False by simp
  qed
qed

text \<open>
  C5. When an OPERATE port gives its device up. In every run of timed cycles, whatever the answers
  are, the port is back at STARTUP if the failures in a row have reached three, and in OPERATE
  otherwise. A cycle without a reply, or with one that is no frame, counts one failure, at the
  deadline of the response. But a cycle whose reply has a wrong checksum counts two: the reply
  counts, the port goes on waiting, and the deadline counts again. So two such cycles in a row, or
  one and a missed one, already end the communication. (The M-sequence has process data, no service
  is active, the cycles are not paced and the gate of the start-up is open.)
\<close>

theorem lost_after_three_failures:
  assumes "iolinki_ok L" and "cycling L reply 0 p" and "length script = length schedule"
    and "\<forall>(t, _) \<in> set schedule. \<not> gate_closed p t"
    and "\<forall>answer \<in> set script. answer = [] \<or> length answer = cfg_pd_in_len (st_config p) + 1"
  shows "ensures (line_cycles L schedule p ([], script)) (\<lambda>(p', e'). st_state p' =
    (if gives_up 0 (map (verdict_of L (cfg_pd_in_len (st_config p))) script) then STATE_STARTUP else STATE_OPERATE))"
  using line_cycles_state [OF assms(1,2) _ assms(3-5)] by simp

text \<open>Two replies with a wrong checksum are enough; two missed cycles and a good one are not.\<close>

definition demo_cycling :: "(u8 list \<times> u8 list list) iolink_master_port_state_t" where
  "demo_cycling = (demo_wired (\<lambda>_ _ d. ([], d)))
     \<lparr>st_phy := Some (wire_phy scripted), st_config := (st_config (demo_wired (\<lambda>_ _ d. ([], d))))\<lparr>cfg_min_cycle_time := 0\<rparr>\<rparr>"

theorem lost_after_three_failures_witness:
  "ensures (line_cycles demo_stack [(1, 2, 3), (4, 5, 6)] demo_cycling ([], [[7, 0], [7, 0]]))
     (\<lambda>(p', e'). st_state p' = STATE_STARTUP) \<and>
   ensures (line_cycles demo_stack [(1, 2, 3), (4, 5, 6), (7, 8, 9)] demo_cycling ([], [[], [], demo_reply []]))
     (\<lambda>(p', e'). st_state p' = STATE_OPERATE)"
proof -
  have "on_line demo_stack demo_reply scripted demo_cycling"
    using demo_replies_ok [of 1]
    by (simp add: on_line_def demo_cycling_def demo_wired_def attached_def port_wf_defs demo_stack_def zero_port_def
        zero_config_def isdu_wf_zero event_wf_def block_wf_def zero_event_def zero_block_def)
  moreover have "line_ok demo_cycling"
    by (simp add: line_ok_def demo_cycling_def demo_wired_def zero_config_def hook_ok_def wire_phy_def case_prod_unfold Let_def)
  ultimately have p: "cycling demo_stack demo_reply 0 demo_cycling"
    by (simp add: cycling_def services_idle_def)
      (simp add: demo_cycling_def demo_wired_def zero_port_def zero_isdu_def zero_event_def zero_config_def zero_diagnostics_def)
  have fields: "cfg_pd_in_len (st_config demo_cycling) = Suc 0" "\<not> gate_closed demo_cycling t" for t
    by (simp_all add: demo_cycling_def demo_wired_def zero_config_def gate_closed_def zero_port_def)
  have sum: "demo_checksum6 [7, 0] = 15"
    by (simp add: demo_checksum6_def bit_iff_odd_drop_bit Let_def)
  have verdicts: "verdict_of demo_stack (Suc 0) [7, 0] = Garbled"
    "verdict_of demo_stack (Suc 0) [] = Missed" "verdict_of demo_stack (Suc 0) (demo_reply []) = Good"
    by (simp_all add: verdict_of_def demo_reply_def demo_stack_def demo_decode_operate_response_def sum)
  show ?thesis
    using lost_after_three_failures [OF demo_stack_ok p, of "[[7, 0], [7, 0]]" "[(1, 2, 3), (4, 5, 6)]"]
      lost_after_three_failures [OF demo_stack_ok p, of "[[], [], demo_reply []]" "[(1, 2, 3), (4, 5, 6), (7, 8, 9)]"]
    by (simp add: fields verdicts del: line_cycles.simps) (simp add: demo_reply_def)
qed

end
