(* ===== verification/MasterTimed.thy ===== *)
theory MasterTimed
  imports MasterServices MasterCycle
begin

text \<open>
  Timed ticks of an OPERATE port with a device on the line (\<open>src/master_port.c\<close>, lines 486-603 and
  1084-1109, with the ISDU engine of \<open>src/master_isdu.c\<close>): the tick engine with cycle pacing and
  response windows against the transport of \<open>MasterWire\<close>, whose steps it takes one by one.
\<close>

subsection \<open>Timed runs\<close>

fun timed_ticks ::
  "iolinki \<Rightarrow> (iolink_master_tick_event_t \<times> u32) list \<Rightarrow> 'e iolink_master_port_state_t \<Rightarrow> 'e \<Rightarrow>
   (int list \<times> 'e iolink_master_port_state_t \<times> 'e) option" where
  "timed_ticks L [] p e = Some ([], p, e)"
| "timed_ticks L ((event, now) # schedule) p e = do {
     (ret, p, e) \<leftarrow> iolink_master_tick_at L event now p e;
     (rets, p, e) \<leftarrow> timed_ticks L schedule p e;
     Some (ret # rets, p, e) }"

text \<open>
  A port in a timed run and the transport: either the reply is still on the line, and the port may
  be waiting for it, or the port has received it and may not send yet.
\<close>

definition reply_taken ::
  "iolinki \<Rightarrow> (u8 list \<Rightarrow> u8 list) \<Rightarrow> (bool \<Rightarrow> u8 list \<Rightarrow> 'd \<Rightarrow> u8 list \<times> 'd) \<Rightarrow>
   (u8 list \<times> 'd) iolink_master_port_state_t \<times> u8 list \<times> 'd \<Rightarrow>
   u8 list \<times> iolink_master_isdu_state_t \<times> 'd \<Rightarrow> bool" where
  "reply_taken L reply od_device = (\<lambda>(p, queue, d) (od, isdu, d'). wired L reply od_device p \<and> queue = [] \<and> d' = d \<and>
     iolink_master_isdu_on_od L od isdu = Some (st_isdu p))"

definition timed_rel ::
  "iolinki \<Rightarrow> (u8 list \<Rightarrow> u8 list) \<Rightarrow> (bool \<Rightarrow> u8 list \<Rightarrow> 'd \<Rightarrow> u8 list \<times> 'd) \<Rightarrow>
   (u8 list \<times> 'd) iolink_master_port_state_t \<times> u8 list \<times> 'd \<Rightarrow>
   u8 list \<times> iolink_master_isdu_state_t \<times> 'd \<Rightarrow> bool" where
  "timed_rel L reply od_device = (\<lambda>(p, e) c. reply_taken L reply od_device (p, e) c \<or>
     wire_rel L reply od_device (p\<lparr>st_awaiting_response := False\<rparr>, e) c)"

lemma timed_rel_wired: "wire_rel L reply od_device (p, e) c \<Longrightarrow> timed_rel L reply od_device (p, e) c"
  by (cases e; cases c) (auto simp: timed_rel_def wire_rel_def wired_settled)

lemma timed_rel_taken: "reply_taken L reply od_device (p, e) c \<Longrightarrow> timed_rel L reply od_device (p, e) c"
  by (simp add: timed_rel_def)

lemma timed_rel_operate: "timed_rel L reply od_device (p, e) c \<Longrightarrow> st_state p = STATE_OPERATE"
  by (cases e; cases c) (auto simp: timed_rel_def wire_rel_def reply_taken_def wired_defs)

lemma timed_rel_done:
  assumes "timed_rel L reply od_device (p, e) (od, isdu, d)" "isdu_done isdu"
  shows "st_isdu p = isdu \<and> snd e = d \<and> wired L reply od_device (p\<lparr>st_awaiting_response := False\<rparr>)"
proof -
  obtain queue d' where e: "e = (queue, d')" by (cases e)
  consider "reply_taken L reply od_device (p, e) (od, isdu, d)"
    | "wire_rel L reply od_device (p\<lparr>st_awaiting_response := False\<rparr>, e) (od, isdu, d)"
    using assms(1) by (auto simp: timed_rel_def)
  then show ?thesis
  proof cases
    case 1
    then have "wired L reply od_device p" by (simp add: reply_taken_def e)
    with 1 show ?thesis
      using isdu_on_od_done [OF assms(2), of L od] by (simp add: wired_settled reply_taken_def e)
  qed (simp add: wire_rel_def e)
qed

text \<open>A poll brings the port to the point where the reply has been received.\<close>

lemma poll_timed:
  assumes L: "iolinki_ok L" and rel: "timed_rel L reply od_device (p, e) c"
  shows "\<exists>ret p1 e1. iolink_master_poll_rx L p e = Some (ret, p1, e1) \<and> ret \<in> {0, 1} \<and>
    reply_taken L reply od_device (p1, e1) c \<and> st_od_len p1 = st_od_len p \<and> unticked p1 = unticked p \<and> clock p1 = clock p"
proof -
  obtain od isdu d where c: "c = (od, isdu, d)" by (cases c)
  consider (received) "reply_taken L reply od_device (p, e) c"
    | (due) "wire_rel L reply od_device (p\<lparr>st_awaiting_response := False\<rparr>, e) c"
    using rel by (auto simp: timed_rel_def)
  then show ?thesis
  proof cases
    case received
    then have e: "e = ([], d)" and "wired L reply od_device p" by (cases e, auto simp: reply_taken_def c)+
    then have "attached L (wire_phy (frame_device L (st_od_len p) reply od_device)) p" by (simp add: wired_defs)
    from attached_poll [OF this wire_recv queue_drained] received show ?thesis by (simp add: e)
  next
    case due
    then have e: "e = (reply od, d)" and p: "wired L reply od_device (p\<lparr>st_awaiting_response := False\<rparr>)" "due od p"
      "isdu = st_isdu p" by (cases e, auto simp: wire_rel_def c due_def)+
    have wf: "isdu_wf L isdu" using p(1,3) by (simp add: wired_defs attached_def port_wf_def)
    obtain isdu' where isdu': "iolink_master_isdu_on_od L od (st_isdu p) = Some isdu'" "isdu_wf L isdu'"
      using isdu_wf_on_od [OF wf, of od] L p(3) by (auto simp: iolinki_ok_def elim: ensuresE)
    obtain p1 where p1: "iolink_master_poll_rx L p (reply od, d) = Some (1, p1, [], d)" "wired L reply od_device p1"
      "st_isdu p1 = isdu'" "st_od_len p1 = st_od_len p" "st_config p1 = st_config p" "unticked p1 = unticked p"
      by (rule poll_wired_waiting [OF L p(1,2) isdu', of d])
    have "clock p1 = clock p" using poll_rx_moves [OF p1(1)] by (simp add: moves_def)
    with p1 isdu' p(3) show ?thesis by (simp add: e reply_taken_def c)
  qed
qed

subsection \<open>A timed tick\<close>

definition sends_at :: "iolink_master_tick_event_t \<Rightarrow> u32 \<Rightarrow> 'e iolink_master_port_state_t \<Rightarrow> bool" where
  "sends_at event now p \<longleftrightarrow> event = TICK_CYCLE_DUE \<and> iolink_master_cycle_due_at p now \<and> \<not> gate_closed p now"

lemma clock_config: "clock p' = clock p \<Longrightarrow> st_config p' = st_config p"
  by (simp add: clock_def)

lemma sends_at_same:
  "clock p1 = clock p \<Longrightarrow> unticked p1 = unticked p \<Longrightarrow> st_state p1 = st_state p \<Longrightarrow> sends_at event now p1 = sends_at event now p"
  by (simp add: sends_at_def clock_def iolink_master_cycle_due_at_def cycle_unpaced_def gate_closed_def)

text \<open>A response window is at most 25.5 ms long.\<close>

lemma response_window_short:
  assumes "port_wf L p"
  shows "\<exists>t. iolink_master_response_timeout_100us p = Some t \<and> unat t \<le> 255"
proof -
  obtain b where b: "iolink_master_startup_baudrate p = Some b"
    using startup_baudrate_defined [OF assms] by blast
  have "unat (iolink_master_tbit_to_100us b 21) \<le> 255"
    using tbit_to_100us_ceiling [of 21 b] by (cases b) simp_all
  moreover have "unat (cfg_response_timeout_100us (st_config p)) \<le> 255"
    using unsigned_less [of "cfg_response_timeout_100us (st_config p)", where ?'a = nat] by simp
  ultimately show ?thesis using windows_max(1) [OF b] by auto
qed

lemma add_u32_le: "unat (a + b :: u32) \<le> unat a + unat b"
  by (simp add: unat_word_ariths)

lemma cycle_sent_timed:
  assumes "stack_constants_ok L" "wire_rel L reply od_device (p, e) c"
  shows "ensures (tick_cycle_sent now p) (\<lambda>p'. timed_rel L reply od_device (p', e) c \<and> st_config p' = st_config p \<and>
    st_od_len p' = st_od_len p \<and> unticked p' = unticked p \<and> st_last_cycle_start_100us p' = now \<and>
    unat (st_response_deadline_100us p') \<le> unat now + 255)"
proof -
  have wired: "wired L reply od_device p" using assms(2) by (cases e; cases c) (simp add: wire_rel_def)
  then have "port_wf L p" by (simp add: wired_defs attached_def)
  from response_window_short [OF this]
  obtain t where t: "iolink_master_response_timeout_100us p = Some t" "unat t \<le> 255" by blast
  have "wired L reply od_device (p\<lparr>st_diagnostics := d, st_last_cycle_start_100us := now,
      st_response_deadline_100us := t, st_cycle_timer_valid := True, st_awaiting_response := False\<rparr>)" for d t
    using wired by (simp add: wired_defs attached_def port_wf_defs)
  moreover have "unat (now + t) \<le> unat now + 255" using add_u32_le [of now t] t(2) by simp
  ultimately show ?thesis
    using t(1) assms(2) by (cases e; cases c) (simp add: tick_cycle_sent_eq timed_rel_def wire_rel_def due_def)
qed

text \<open>The next message of the transport is one of the ISDU channel.\<close>

definition sends_isdu :: "iolinki \<Rightarrow> nat \<Rightarrow> u8 list \<times> iolink_master_isdu_state_t \<times> 'd \<Rightarrow> bool" where
  "sends_isdu L n = (\<lambda>(od, isdu, d).
     (case iolink_master_isdu_on_od L od isdu of None \<Rightarrow> False | Some isdu \<Rightarrow> isdu_next L n isdu \<noteq> None))"

lemma tick_timed:
  assumes L: "iolinki_ok L" and rel: "timed_rel L reply od_device (p, e) c"
    and reads: "answers_reads (st_od_len p) od_device" and event: "event \<noteq> TICK_OTHER"
  shows "ensures (iolink_master_tick_at L event now p e) (\<lambda>(ret, p', e'). ret \<in> {0, 1} \<and>
    st_od_len p' = st_od_len p \<and> unticked p' = unticked p \<and> st_config p' = st_config p \<and>
    (if sends_at event now p
     then ensures (wire_step L (st_od_len p) od_device c) (\<lambda>c'. if sends_isdu L (st_od_len p) c
       then wire_rel L reply od_device (p', e') c' \<and> clock p' = clock p
       else timed_rel L reply od_device (p', e') c' \<and> st_last_cycle_start_100us p' = now \<and>
         unat (st_response_deadline_100us p') \<le> unat now + 255)
     else reply_taken L reply od_device (p', e') c \<and> clock p' = clock p))"
proof -
  have const: "stack_constants_ok L" using L by (simp add: iolinki_ok_def)
  obtain od isdu d where c: "c = (od, isdu, d)" by (cases c)
  obtain ret p1 e1 where poll: "iolink_master_poll_rx L p e = Some (ret, p1, e1)" "ret \<in> {0, 1}"
    "reply_taken L reply od_device (p1, e1) c" "st_od_len p1 = st_od_len p" "unticked p1 = unticked p" "clock p1 = clock p"
    using poll_timed [OF L rel] by auto
  have e1: "e1 = ([], d)" and p1: "wired L reply od_device p1" "iolink_master_isdu_on_od L od isdu = Some (st_isdu p1)"
    using poll(3) by (cases e1, auto simp: reply_taken_def c)+
  have att: "attached L (wire_phy (frame_device L (st_od_len p1) reply od_device)) p1"
    and state: "st_state p1 = STATE_OPERATE" using p1(1) by (simp_all add: wired_defs)
  note tick = tick_received [OF poll(1,2) att event, of now]
  have "st_state p1 = st_state p" using state timed_rel_operate [OF rel] by simp
  note same = clock_config [OF poll(6)] sends_at_same [OF poll(6,5) this, of event now]
  show ?thesis
  proof (cases "sends_at event now p")
    case False
    then have "iolink_master_tick_at L event now p e = Some (ret, p1, e1)"
      unfolding tick using same(2) state
      by (auto simp: sends_at_def tick_cycle_def iolink_master_process_at_def gate_closed_def Let_def)
    with False poll same(1) show ?thesis by auto
  next
    case True
    then have sends: "event = TICK_CYCLE_DUE" "iolink_master_cycle_due_at p1 now" "\<not> gate_closed p1 now"
      using same(2) by (simp_all add: sends_at_def)
    obtain c' where c': "wire_step L (st_od_len p) od_device c = Some c'"
      by (cases "isdu_next L (st_od_len p) (st_isdu p1)") (auto simp: c wire_step_def p1(2) case_prod_unfold Let_def)
    have reads1: "answers_reads (st_od_len p1) od_device" using reads poll(4) by simp
    have "(case isdu_next L (st_od_len p1) (st_isdu p1) of
        None \<Rightarrow> Some ([], st_isdu p1, d)
      | Some (_, od, isdu) \<Rightarrow> (let (od, d) = answered_od od_device od d in Some (od, isdu, d))) = Some c'"
      using c' by (simp add: wire_step_def c p1(2) poll(4))
    from process_wired [OF L p1(1) reads1 this] obtain p2 e2 where p2: "iolink_master_process L p1 ([], d) = Some (p2, e2)"
      "wire_rel L reply od_device (p2, e2) c'" "st_config p2 = st_config p1" "st_od_len p2 = st_od_len p1"
      "unticked p2 = unticked p1"
      "st_cycle_count p2 = (if isdu_next L (st_od_len p1) (st_isdu p1) = None then st_cycle_count p1 + 1 else st_cycle_count p1)"
      by (auto elim!: ensuresE)
    have sent: "sends_isdu L (st_od_len p) c = (st_cycle_count p2 = st_cycle_count p1)"
      using p2(6) poll(4) by (simp add: sends_isdu_def c p1(2))
    have at: "iolink_master_process_at L now True p1 e1 = Some (p2, e2)"
      unfolding process_operate_timed [OF state sends(3)] e1 by (rule p2(1))
    show ?thesis
    proof (cases "st_cycle_count p2 = st_cycle_count p1")
      case same_count: True
      then have "iolink_master_tick_at L event now p e = Some (ret, p2, e2)"
        unfolding tick using sends att by (simp add: tick_cycle_def at attached_def)
      moreover have "clock p2 = clock p"
        using process_at_transmits [OF at] same_count poll(6) by (simp add: transmits_def clock_def)
      ultimately show ?thesis using True c' p2(1-5) poll same sent same_count by auto
    next
      case False
      then have "iolink_master_tick_at L event now p e =
          map_option (\<lambda>p. (ret, p, e2)) (tick_cycle_sent now p2)"
        unfolding tick using sends att by (cases "tick_cycle_sent now p2") (simp_all add: tick_cycle_def at attached_def)
      with True c' p2(1-5) poll same(1) cycle_sent_timed [OF const p2(2), of now] False sent show ?thesis
        by (auto elim!: ensuresE)
    qed
  qed
qed

text \<open>It does one step of the transport or none.\<close>

lemma tick_steps:
  assumes "iolinki_ok L" and "timed_rel L reply od_device (p, e) c"
    and "answers_reads (st_od_len p) od_device" and "event \<noteq> TICK_OTHER"
  shows "ensures (iolink_master_tick_at L event now p e) (\<lambda>(ret, p', e'). ret \<in> {0, 1} \<and> st_od_len p' = st_od_len p \<and>
    (\<exists>i \<le> 1. ensures (wire_steps L (st_od_len p) od_device i c) (timed_rel L reply od_device (p', e'))))"
proof -
  obtain ret p1 e1 where tick: "iolink_master_tick_at L event now p e = Some (ret, p1, e1)" "ret \<in> {0, 1}"
    "st_od_len p1 = st_od_len p"
    and stp: "if sends_at event now p
      then ensures (wire_step L (st_od_len p) od_device c) (\<lambda>c'. if sends_isdu L (st_od_len p) c
        then wire_rel L reply od_device (p1, e1) c' \<and> clock p1 = clock p
        else timed_rel L reply od_device (p1, e1) c' \<and> st_last_cycle_start_100us p1 = now \<and>
          unat (st_response_deadline_100us p1) \<le> unat now + 255)
      else reply_taken L reply od_device (p1, e1) c \<and> clock p1 = clock p"
    using tick_timed [OF assms, of now] by (auto elim!: ensuresE simp del: if_split_mem1 split del: if_split)
  have "\<exists>i \<le> 1. ensures (wire_steps L (st_od_len p) od_device i c) (timed_rel L reply od_device (p1, e1))"
  proof (cases "sends_at event now p")
    case True
    with stp have "ensures (wire_step L (st_od_len p) od_device c) (timed_rel L reply od_device (p1, e1))"
      by (auto intro: timed_rel_wired elim!: ensures_mono split: if_splits)
    then show ?thesis by (intro exI [of _ 1]) (auto elim!: ensuresE)
  next
    case False
    with stp show ?thesis by (intro exI [of _ 0]) (simp add: timed_rel_taken)
  qed
  with tick show ?thesis by simp
qed

subsection \<open>The timed tick engine refines the transport\<close>

text \<open>
  C9. The timed tick engine refines the transport of the ISDU services. On an OPERATE port whose
  device answers each message, a run of timed ticks at any times, with any events of the enumeration,
  in order or not, late or early, never loses the device: every tick reports no error, the port stays in OPERATE, and
  the run is a simulation with stuttering, in which a tick does either one step of the transport
  or none.
\<close>

theorem timed_ticks_refine_transport:
  assumes "iolinki_ok L" and "timed_rel L reply od_device (p, e) c" and "answers_reads (st_od_len p) od_device"
    and "TICK_OTHER \<notin> fst ` set schedule"
  shows "ensures (timed_ticks L schedule p e) (\<lambda>(rets, p', e'). set rets \<subseteq> {0, 1} \<and> st_state p' = STATE_OPERATE \<and>
    (\<exists>j \<le> length schedule. ensures (wire_steps L (st_od_len p) od_device j c) (timed_rel L reply od_device (p', e'))))"
  using assms(2-4)
proof (induction schedule arbitrary: p e c)
  case Nil
  then show ?case using timed_rel_operate [OF Nil(1)] by simp
next
  case (Cons op schedule)
  obtain event now where op: "op = (event, now)" by (cases op)
  have event: "event \<noteq> TICK_OTHER" using Cons.prems(3) by (auto simp: op)
  obtain ret p1 e1 i c1 where tick: "iolink_master_tick_at L event now p e = Some (ret, p1, e1)" "ret \<in> {0, 1}"
    "st_od_len p1 = st_od_len p"
    and c1: "i \<le> 1" "wire_steps L (st_od_len p) od_device i c = Some c1" "timed_rel L reply od_device (p1, e1) c1"
    using tick_steps [OF assms(1) Cons.prems(1,2) event, of now] by (fastforce elim!: ensuresE)
  have "answers_reads (st_od_len p1) od_device" using Cons.prems(2) tick(3) by simp
  from Cons.IH [OF c1(3) this] Cons.prems(3) obtain rets p' e' j where
    run: "timed_ticks L schedule p1 e1 = Some (rets, p', e')" "set rets \<subseteq> {0, 1}" "st_state p' = STATE_OPERATE"
    "j \<le> length schedule" "ensures (wire_steps L (st_od_len p) od_device j c1) (timed_rel L reply od_device (p', e'))"
    unfolding tick(3) by (fastforce elim!: ensuresE)
  have "ensures (wire_steps L (st_od_len p) od_device (i + j) c) (timed_rel L reply od_device (p', e'))"
    using run(5) by (simp add: wire_steps_add c1(2))
  moreover have "i + j \<le> length (op # schedule)" using c1(1) run(4) by simp
  ultimately have "\<exists>j \<le> length (op # schedule).
      ensures (wire_steps L (st_od_len p) od_device j c) (timed_rel L reply od_device (p', e'))" by blast
  with tick(1,2) run(1-3) show ?case by (simp add: op)
qed

theorem timed_ticks_refine_transport_witness:
  "ensures (timed_ticks demo_stack [(TICK_CYCLE_DUE, 5), (TICK_RESPONSE_TIMEOUT, 3), (TICK_NONE, 9), (TICK_CYCLE_DUE, 100)]
      (demo_wired demo_memory) (demo_reply [], 5))
    (\<lambda>(rets, p', e'). set rets \<subseteq> {0, 1} \<and> st_state p' = STATE_OPERATE)"
proof -
  let ?p = "demo_wired demo_memory"
  have rel: "timed_rel demo_stack demo_reply demo_memory (?p, demo_reply [], 5) ([], st_isdu ?p, 5)"
    by (intro timed_rel_wired) (simp add: wire_rel_def demo_wired demo_wired_idle(3))
  have reads: "answers_reads (st_od_len ?p) demo_memory"
    by (simp add: answers_reads_def demo_memory_def demo_wired_def)
  show ?thesis
    by (rule ensures_mono [OF timed_ticks_refine_transport [OF demo_stack_ok rel reads]]) auto
qed

subsection \<open>An application that sleeps\<close>

text \<open>
  The loop of an application or of the controller: it sleeps until the next tick time of the port,
  and then passes the event that is due.
\<close>

fun sleeping_ticks ::
  "iolinki \<Rightarrow> nat \<Rightarrow> u32 \<Rightarrow> 'e iolink_master_port_state_t \<Rightarrow> 'e \<Rightarrow>
   (int list \<times> u32 \<times> 'e iolink_master_port_state_t \<times> 'e) option" where
  "sleeping_ticks L 0 now p e = Some ([], now, p, e)"
| "sleeping_ticks L (Suc k) now p e = do {
     let now = snd (iolink_master_get_next_tick_time p now);
     (ret, p, e) \<leftarrow> iolink_master_tick_at L (due_event p now) now p e;
     (rets, now, p, e) \<leftarrow> sleeping_ticks L k now p e;
     Some (ret # rets, now, p, e) }"

text \<open>No instant of the port lies more than 25.5 ms ahead, and the gate of the start-up is open.\<close>

definition on_time :: "u32 \<Rightarrow> 'e iolink_master_port_state_t \<Rightarrow> bool" where
  "on_time now p \<longleftrightarrow> st_last_cycle_start_100us p \<le> now \<and> \<not> gate_closed p now \<and>
     (st_awaiting_response p \<longrightarrow> unat (st_response_deadline_100us p) \<le> unat now + 255)"

lemma next_tick_bounds:
  assumes "on_time now p" "st_state p = STATE_OPERATE"
  defines "t \<equiv> snd (iolink_master_get_next_tick_time p now)"
  shows "now \<le> t" "unat t \<le> unat now + 255" "st_awaiting_response p \<Longrightarrow> st_response_deadline_100us p \<le> t"
proof -
  let ?due = "st_last_cycle_start_100us p + ucast (cfg_min_cycle_time (st_config p))"
  have "unat (ucast (cfg_min_cycle_time (st_config p)) :: u32) \<le> 255"
    using unsigned_less [of "cfg_min_cycle_time (st_config p)", where ?'a = nat] by simp
  moreover have "unat (st_last_cycle_start_100us p) \<le> unat now"
    using assms(1) by (simp add: on_time_def word_le_nat_alt)
  ultimately have "unat ?due \<le> unat now + 255"
    using add_u32_le [of "st_last_cycle_start_100us p" "ucast (cfg_min_cycle_time (st_config p))"] by linarith
  with assms show "now \<le> t" "unat t \<le> unat now + 255" "st_awaiting_response p \<Longrightarrow> st_response_deadline_100us p \<le> t"
    by (auto simp: t_def iolink_master_get_next_tick_time_def on_time_def Let_def)
qed

text \<open>
  A tick of this loop either takes the reply the port has waited for, or does a step of the
  transport.
\<close>

lemma sleeping_tick:
  assumes L: "iolinki_ok L" and rel: "timed_rel L reply od_device (p, e) c"
    and reads: "answers_reads (st_od_len p) od_device" and on_time: "on_time now p" "unat now + 255 < 2 ^ 32"
  defines "t \<equiv> snd (iolink_master_get_next_tick_time p now)"
  shows "ensures (iolink_master_tick_at L (due_event p t) t p e) (\<lambda>(ret, p', e'). ret \<in> {0, 1} \<and>
    st_od_len p' = st_od_len p \<and> unticked p' = unticked p \<and> on_time t p' \<and>
    (if st_awaiting_response p then timed_rel L reply od_device (p', e') c \<and> \<not> st_awaiting_response p'
     else ensures (wire_step L (st_od_len p) od_device c) (timed_rel L reply od_device (p', e'))))"
proof -
  have state: "st_state p = STATE_OPERATE" by (rule timed_rel_operate [OF rel])
  note bounds = next_tick_bounds [OF on_time(1) state, folded t_def]
  have last: "st_last_cycle_start_100us p \<le> t" and gate: "\<not> gate_closed p t"
    using on_time(1) bounds(1) by (auto simp: on_time_def gate_closed_def)
  have event: "due_event p t = (if st_awaiting_response p then TICK_RESPONSE_TIMEOUT else TICK_CYCLE_DUE)"
    using bounds(3) by (simp add: due_event_def iolink_master_response_due_at_def)
  have sends: "sends_at (due_event p t) t p = (\<not> st_awaiting_response p)"
  proof (cases "st_awaiting_response p")
    case False
    have "unat (st_last_cycle_start_100us p) + unat (cfg_min_cycle_time (st_config p)) < 2 ^ 32"
      using on_time unsigned_less [of "cfg_min_cycle_time (st_config p)", where ?'a = nat]
      by (simp add: on_time_def word_le_nat_alt)
    then have "tick_acts p t"
      using on_time(1) state bounds(1) by (intro next_tick_acts(2) [where now = now]) (auto simp: on_time_def t_def)
    with False show ?thesis by (simp add: event sends_at_def tick_acts_def iolink_master_response_due_at_def)
  qed (simp add: event sends_at_def)
  have "due_event p t \<noteq> TICK_OTHER" by (simp add: event)
  from tick_timed [OF L rel reads this, of t] obtain ret p1 e1
    where tick: "iolink_master_tick_at L (due_event p t) t p e = Some (ret, p1, e1)" "ret \<in> {0, 1}"
      "st_od_len p1 = st_od_len p" "unticked p1 = unticked p"
    and stp: "if sends_at (due_event p t) t p
      then ensures (wire_step L (st_od_len p) od_device c) (\<lambda>c'. if sends_isdu L (st_od_len p) c
        then wire_rel L reply od_device (p1, e1) c' \<and> clock p1 = clock p
        else timed_rel L reply od_device (p1, e1) c' \<and> st_last_cycle_start_100us p1 = t \<and>
          unat (st_response_deadline_100us p1) \<le> unat t + 255)
      else reply_taken L reply od_device (p1, e1) c \<and> clock p1 = clock p"
    by (auto elim!: ensuresE simp del: if_split_mem1 split del: if_split)
  have gate1: "\<not> gate_closed p1 t" using gate tick(4) by (simp add: gate_closed_def)
  have still: "on_time t p1" if "clock p1 = clock p" "\<not> st_awaiting_response p1"
    using that gate1 last by (simp add: on_time_def clock_def)
  have settled: "\<not> st_awaiting_response p1" if "wired L reply od_device p1"
    using that by (simp add: wired_defs attached_def)
  show ?thesis
  proof (cases "st_awaiting_response p")
    case True
    with stp sends have taken: "reply_taken L reply od_device (p1, e1) c" "clock p1 = clock p" by simp_all
    then have "\<not> st_awaiting_response p1" by (intro settled) (cases e1; cases c; simp add: reply_taken_def)
    with tick taken True still show ?thesis by (auto intro: timed_rel_taken)
  next
    case False
    with stp sends obtain c' where c': "wire_step L (st_od_len p) od_device c = Some c'"
      and sent: "if sends_isdu L (st_od_len p) c then wire_rel L reply od_device (p1, e1) c' \<and> clock p1 = clock p
        else timed_rel L reply od_device (p1, e1) c' \<and> st_last_cycle_start_100us p1 = t \<and>
          unat (st_response_deadline_100us p1) \<le> unat t + 255"
      by (auto elim!: ensuresE split del: if_split)
    have "timed_rel L reply od_device (p1, e1) c' \<and> on_time t p1"
    proof (cases "sends_isdu L (st_od_len p) c")
      case True
      with sent have wire: "wire_rel L reply od_device (p1, e1) c'" "clock p1 = clock p" by simp_all
      then have "\<not> st_awaiting_response p1" by (intro settled) (cases e1; cases c'; simp add: wire_rel_def)
      with wire still show ?thesis by (auto intro: timed_rel_wired)
    qed (use sent gate1 in \<open>simp add: on_time_def\<close>)
    with tick False c' show ?thesis by auto
  qed
qed

text \<open>So two of its ticks do at least one step, and at most two.\<close>

lemma two_sleeping_ticks:
  assumes L: "iolinki_ok L" and rel: "timed_rel L reply od_device (p, e) c"
    and reads: "answers_reads (st_od_len p) od_device" and on_time: "on_time now p" "unat now + 510 < 2 ^ 32"
  shows "\<exists>rets now' p' e' j c'. sleeping_ticks L 2 now p e = Some (rets, now', p', e') \<and> set rets \<subseteq> {0, 1} \<and>
    st_od_len p' = st_od_len p \<and> unticked p' = unticked p \<and> on_time now' p' \<and> unat now' \<le> unat now + 510 \<and>
    1 \<le> j \<and> j \<le> 2 \<and> wire_steps L (st_od_len p) od_device j c = Some c' \<and> timed_rel L reply od_device (p', e') c'"
proof -
  define t where "t = snd (iolink_master_get_next_tick_time p now)"
  obtain ret p1 e1 where tick: "iolink_master_tick_at L (due_event p t) t p e = Some (ret, p1, e1)" "ret \<in> {0, 1}"
    "st_od_len p1 = st_od_len p" "unticked p1 = unticked p" "on_time t p1"
    and stp: "if st_awaiting_response p then timed_rel L reply od_device (p1, e1) c \<and> \<not> st_awaiting_response p1
      else ensures (wire_step L (st_od_len p) od_device c) (timed_rel L reply od_device (p1, e1))"
    using sleeping_tick [OF L rel reads on_time(1)] on_time(2) unfolding t_def
    by (auto elim!: ensuresE simp del: if_split_mem1 split del: if_split)
  have t: "unat t \<le> unat now + 255"
    using next_tick_bounds(2) [OF on_time(1) timed_rel_operate [OF rel]] by (simp add: t_def)
  obtain i c1 where c1: "wire_steps L (st_od_len p) od_device i c = Some c1" "timed_rel L reply od_device (p1, e1) c1"
    "i = (if st_awaiting_response p then 0 else 1)" "st_awaiting_response p \<Longrightarrow> \<not> st_awaiting_response p1"
    using stp that [of 0 c] that [of 1] by (cases "st_awaiting_response p") (auto elim!: ensuresE)
  define u where "u = snd (iolink_master_get_next_tick_time p1 t)"
  have reads1: "answers_reads (st_od_len p1) od_device" using reads tick(3) by simp
  obtain ret2 p2 e2 where tick2: "iolink_master_tick_at L (due_event p1 u) u p1 e1 = Some (ret2, p2, e2)" "ret2 \<in> {0, 1}"
    "st_od_len p2 = st_od_len p1" "unticked p2 = unticked p1" "on_time u p2"
    and stp2: "if st_awaiting_response p1 then timed_rel L reply od_device (p2, e2) c1 \<and> \<not> st_awaiting_response p2
      else ensures (wire_step L (st_od_len p1) od_device c1) (timed_rel L reply od_device (p2, e2))"
    using sleeping_tick [OF L c1(2) reads1 tick(5)] t on_time(2) unfolding u_def
    by (auto elim!: ensuresE simp del: if_split_mem1 split del: if_split)
  have u: "unat u \<le> unat now + 510"
    using next_tick_bounds(2) [OF tick(5) timed_rel_operate [OF c1(2)]] t by (simp add: u_def)
  obtain i' c2 where c2: "wire_steps L (st_od_len p) od_device i' c1 = Some c2" "timed_rel L reply od_device (p2, e2) c2"
    "i' = (if st_awaiting_response p1 then 0 else 1)"
    using stp2 that [of 0 c1] that [of 1] tick(3) by (cases "st_awaiting_response p1") (auto elim!: ensuresE)
  have "wire_steps L (st_od_len p) od_device (i + i') c = Some c2"
    using c1(1) c2(1) by (simp add: wire_steps_add)
  moreover have "sleeping_ticks L 2 now p e = Some ([ret, ret2], u, p2, e2)"
    using tick(1) tick2(1) by (simp add: numeral_2_eq_2 flip: t_def u_def)
  moreover have "1 \<le> i + i'" "i + i' \<le> 2" using c1(3,4) c2(3) by auto
  moreover have "set [ret, ret2] \<subseteq> {0, 1}" "st_od_len p2 = st_od_len p" "unticked p2 = unticked p"
    using tick(2-4) tick2(2-4) by auto
  ultimately show ?thesis using u tick2(5) c2(2) by blast
qed

lemma sleeping_ticks_add:
  "sleeping_ticks L (j + k) now p e = do {
     (rets, now, p, e) \<leftarrow> sleeping_ticks L j now p e;
     (rets', now, p, e) \<leftarrow> sleeping_ticks L k now p e;
     Some (rets @ rets', now, p, e) }"
  by (induction j arbitrary: now p e) (simp_all add: Let_def case_prod_unfold split: Option.bind_split)

lemma sleeping_run:
  assumes L: "iolinki_ok L"
  shows "timed_rel L reply od_device (p, e) c \<Longrightarrow> answers_reads (st_od_len p) od_device \<Longrightarrow> on_time now p \<Longrightarrow>
    unat now + 510 * k < 2 ^ 32 \<Longrightarrow>
    \<exists>rets now' p' e' j c'. sleeping_ticks L (2 * k) now p e = Some (rets, now', p', e') \<and> set rets \<subseteq> {0, 1} \<and>
      k \<le> j \<and> wire_steps L (st_od_len p) od_device j c = Some c' \<and> timed_rel L reply od_device (p', e') c'"
proof (induction k arbitrary: now p e c)
  case 0
  then show ?case
    by (intro exI [where x = "[]"] exI [where x = now] exI [where x = p] exI [where x = e]
        exI [where x = "0 :: nat"] exI [where x = c]) simp
next
  case (Suc k)
  have "unat now + 510 < 2 ^ 32" using Suc.prems(4) by simp
  from two_sleeping_ticks [OF L Suc.prems(1-3) this] obtain rets now1 p1 e1 i c1
    where ticks: "sleeping_ticks L 2 now p e = Some (rets, now1, p1, e1)" "set rets \<subseteq> {0, 1}"
      "st_od_len p1 = st_od_len p" "on_time now1 p1" "unat now1 \<le> unat now + 510" "1 \<le> i"
      "wire_steps L (st_od_len p) od_device i c = Some c1" "timed_rel L reply od_device (p1, e1) c1" by blast
  have "answers_reads (st_od_len p1) od_device" "unat now1 + 510 * k < 2 ^ 32"
    using Suc.prems(2,4) ticks(3,5) by simp_all
  from Suc.IH [OF ticks(8) this(1) ticks(4) this(2)] obtain rets' now' p' e' j c'
    where run: "sleeping_ticks L (2 * k) now1 p1 e1 = Some (rets', now', p', e')" "set rets' \<subseteq> {0, 1}" "k \<le> j"
      "wire_steps L (st_od_len p) od_device j c1 = Some c'" "timed_rel L reply od_device (p', e') c'"
    unfolding ticks(3) by blast
  have "sleeping_ticks L (2 * Suc k) now p e = Some (rets @ rets', now', p', e')"
    using sleeping_ticks_add [of L 2 "2 * k" now p e] ticks(1) run(1) by simp
  moreover have "wire_steps L (st_od_len p) od_device (i + j) c = Some c'"
    using ticks(7) run(4) by (simp add: wire_steps_add)
  moreover have "set (rets @ rets') \<subseteq> {0, 1}" "Suc k \<le> i + j" using ticks(2,6) run(2,3) by auto
  ultimately show ?case using run(5) by blast
qed

text \<open>
  C3. ISDU services of an application that sleeps. It calls a service on an OPERATE port, sleeps until
  each next tick time and passes the event that is due, \<open>2 K\<close> times, and calls the service again:
  whatever the minimum cycle time, the response window and the baudrate of the port, the first call
  is pending, no tick reports an error, the device receives exactly this request, and the second call
  returns its payload or OK. \<open>K\<close> steps of the transport are enough when the frames of the longest
  request and the segments of each answer fit into them. The port is \<open>on_time\<close> at the start, and the clock does not
  pass its end.
\<close>

theorem isdu_service_while_sleeping:
  assumes "iolinki_ok L" and "0 < n" and "device_answers L answer device" and "segments_of n device"
    and "services_fit L n device K" and "isdu_request_ok L answer request"
    and "wired L reply (isdu_device n device) p" and "st_od_len p = n" and "isdu_idle L p" and "due od p"
    and "on_time now p" and "unat now + 510 * K < 2 ^ 32"
  shows "ensures (do {
      (first, p) \<leftarrow> isdu_call L request p;
      (rets, now, p, queue, received, segs, log) \<leftarrow> sleeping_ticks L (2 * K) now p (reply od, [], segs, []);
      (second, p) \<leftarrow> isdu_call L request p;
      Some (first, rets, log, second, p) })
    (\<lambda>(first, rets, log, second, p'). fst first = STATUS_PENDING \<and> set rets \<subseteq> {0, 1} \<and> log = [request] \<and>
      isdu_result_ok answer request second \<and> isdu_idle L p')"
proof -
  have const: "stack_constants_ok L" using assms(1) by (simp add: iolinki_ok_def)
  obtain r1 isdu where call: "isdu_call L request p = Some (r1, p\<lparr>st_isdu := isdu\<rparr>)" "fst r1 = STATUS_PENDING"
    "isdu_started L request isdu"
    using isdu_call_started [OF const assms(9,6)] by (auto elim!: ensuresE)
  let ?p = "p\<lparr>st_isdu := isdu\<rparr>" and ?dev = "isdu_device n device"
  have "wired L reply ?dev ?p" "isdu_wf L isdu"
    using assms(7) call(3) by (simp_all add: wired_defs attached_isdu isdu_started_def)
  then have rel: "timed_rel L reply ?dev (?p, reply od, [], segs, []) (od, isdu, [], segs, [])"
    using assms(10) by (intro timed_rel_wired) (simp add: wire_rel_def due_def)
  have od_len: "st_od_len ?p = n" using assms(8) by simp
  have reads: "answers_reads (st_od_len ?p) ?dev" unfolding od_len by (rule isdu_device_reads)
  have "on_time now ?p" using assms(11) by (simp add: on_time_def gate_closed_def)
  from sleeping_run [OF assms(1) rel reads this assms(12)] obtain rets now' p' e' j c' where
    run: "sleeping_ticks L (2 * K) now ?p (reply od, [], segs, []) = Some (rets, now', p', e')" "set rets \<subseteq> {0, 1}"
    "K \<le> j" "wire_steps L n ?dev j (od, isdu, [], segs, []) = Some c'" "timed_rel L reply ?dev (p', e') c'"
    unfolding od_len by blast
  obtain od' isdu' rest where c': "c' = (od', isdu', [], rest, [request])" "isdu_done isdu'"
    and answered: "isdu_service_state q \<Longrightarrow> st_isdu q = isdu' \<Longrightarrow> isdu_wf L isdu' \<Longrightarrow>
      isdu_answered L request (answer request) q" for q :: "(u8 list \<times> isdu_server) iolink_master_port_state_t"
    using service_steps_fit [OF const assms(2-5) run(3) call(3), of od segs "[]"] run(4) by auto
  have p': "st_isdu p' = isdu'" "snd e' = ([], rest, [request])" "wired L reply ?dev (p'\<lparr>st_awaiting_response := False\<rparr>)"
    using timed_rel_done [OF run(5) [unfolded c'(1)] c'(2)] by simp_all
  then have "isdu_service_state p'" "isdu_wf L isdu'"
    by (auto simp: isdu_service_state_def wired_defs attached_def port_wf_def)
  with answered p'(1) have "isdu_answered L request (answer request) p'" by simp
  from isdu_client.call_answered [where answer = answer and device = device and n = n, OF _ this] obtain r2 p2
    where "isdu_call L request p' = Some (r2, p2)" "isdu_result_ok answer request r2" "isdu_idle L p2"
    using assms(2,3,6) const by (auto elim!: ensuresE)
  with call(1,2) run(1,2) p'(2) show ?thesis by (cases e') simp
qed

theorem isdu_service_while_sleeping_witness:
  "ensures (do {
      (first, p) \<leftarrow> isdu_call demo_stack (Isdu_Request True 0x10 0 []) (demo_wired (isdu_device 1 demo_server));
      (rets, now, p, queue, received, segs, log) \<leftarrow> sleeping_ticks demo_stack (2 * 71) 7 p (demo_reply [], [], [], []);
      (second, p) \<leftarrow> isdu_call demo_stack (Isdu_Request True 0x10 0 []) p;
      Some (first, rets, log, second, p) })
    (\<lambda>(first, rets, log, second, p'). second = (STATUS_OK, [1, 2, 3]))"
proof -
  have on_time: "on_time 7 (demo_wired (isdu_device 1 demo_server))"
    by (simp add: on_time_def gate_closed_def demo_wired_def zero_port_def)
  have ok: "isdu_request_ok demo_stack demo_answer (Isdu_Request True 0x10 0 [])"
    by (simp add: isdu_request_ok_def demo_answer_def)
  show ?thesis
    by (rule ensures_mono [OF isdu_service_while_sleeping [OF demo_stack_ok _ demo_server ok demo_wired demo_wired_idle on_time]])
      (auto simp: isdu_result_ok_def demo_answer_def)
qed

subsection \<open>ISDU messages are not paced\<close>

lemma request_at_one_instant:
  fixes p :: "(u8 list \<times> isdu_server) iolink_master_port_state_t"
  assumes L: "iolinki_ok L" and n: "st_od_len p = n"
  shows "isdu_frames L n k isdu = Some (frames, isdu') \<Longrightarrow> list_all (\<lambda>(read, flowctrl, od). \<not> read) frames \<Longrightarrow>
    \<not> isdu_idle_pending isdu \<Longrightarrow> \<not> isdu_abort_pending isdu \<Longrightarrow>
    wire_rel L reply (isdu_device n device) (p, e) (od, isdu, received, segs, log) \<Longrightarrow> sends_at TICK_CYCLE_DUE now p \<Longrightarrow>
    ensures (timed_ticks L (replicate k (TICK_CYCLE_DUE, now)) p e) (\<lambda>(rets, p', e').
      sends_at TICK_CYCLE_DUE now p' \<and> clock p' = clock p \<and>
      wire_rel L reply (isdu_device n device) (p', e') (if k = 0 then od else [], isdu',
        received @ concat (map (\<lambda>(read, flowctrl, od). od) frames), segs, log))"
  using n
proof (induction k arbitrary: p e isdu frames od received)
  case 0
  then show ?case by simp
next
  case (Suc k)
  obtain mc flowctrl od1 isdu1 frames1 where stp: "frames = (False, flowctrl, od1) # frames1"
    "isdu_frames L n k isdu1 = Some (frames1, isdu')" "iolink_master_isdu_on_od L od isdu = Some isdu"
    "isdu_next L n isdu = Some (mc, Some od1, isdu1)" "\<not> isdu_idle_pending isdu1" "\<not> isdu_abort_pending isdu1"
    "wire_step L n (isdu_device n device) (od, isdu, received, segs, log) = Some ([], isdu1, received @ od1, segs, log)"
    by (rule request_step [OF Suc.prems(1-4)])
  have "sends_isdu L (st_od_len p) (od, isdu, received, segs, log)"
    using stp(3,4) Suc.prems(7) by (simp add: sends_isdu_def)
  moreover have "answers_reads (st_od_len p) (isdu_device n device)" by (simp add: Suc.prems(7) isdu_device_reads)
  ultimately obtain ret p1 e1 where tick: "iolink_master_tick_at L TICK_CYCLE_DUE now p e = Some (ret, p1, e1)"
    "st_od_len p1 = n" "unticked p1 = unticked p" "clock p1 = clock p"
    "wire_rel L reply (isdu_device n device) (p1, e1) ([], isdu1, received @ od1, segs, log)"
    using tick_timed [OF L timed_rel_wired [OF Suc.prems(5)], of TICK_CYCLE_DUE now] Suc.prems(6,7)
    by (auto simp: stp(7) elim!: ensuresE)
  have "st_state p1 = st_state p"
    using timed_rel_operate [OF timed_rel_wired [OF Suc.prems(5)]] timed_rel_operate [OF timed_rel_wired [OF tick(5)]] by simp
  from sends_at_same [OF tick(4,3) this, of TICK_CYCLE_DUE now] Suc.prems(6) have "sends_at TICK_CYCLE_DUE now p1" by simp
  from Suc.IH [OF stp(2) _ stp(5,6) tick(5) this tick(2)] Suc.prems(2) tick(1,4) show ?case
    by (auto simp: stp(1) elim!: ensuresE)
qed

text \<open>
  C39. ISDU messages are not paced. When a cycle is due, an application that ticks the port again
  and again at one and the same time sends a whole ISDU request, message after message: only cyclic
  messages restart the cycle timer and open the response window. The device has got the complete
  request at this instant, the next message is due at once, and the port waits for no reply,
  whatever the minimum cycle time of the device.
\<close>

theorem isdu_messages_unpaced:
  assumes "iolinki_ok L" and "0 < n" and "wired L reply (isdu_device n device) p" and "st_od_len p = n" and "due od p"
    and "isdu_started L request (st_isdu p)"
    and "iolink_master_cycle_due_at p now" and "\<not> gate_closed p now"
  shows "ensures (timed_ticks L (replicate (frames_needed n (isdu_request_len (st_isdu p))) (TICK_CYCLE_DUE, now)) p
      (reply od, [], segs, log)) (\<lambda>(rets, p', queue, received, segs', log').
    parse_request received = Some request \<and> iolink_master_cycle_due_at p' now \<and> \<not> st_awaiting_response p' \<and>
    st_last_cycle_start_100us p' = st_last_cycle_start_100us p \<and> st_cycle_count p' = st_cycle_count p)"
proof -
  define k where "k = frames_needed n (isdu_request_len (st_isdu p))"
  have const: "stack_constants_ok L" using assms(1) by (simp add: iolinki_ok_def)
  have flags: "\<not> isdu_idle_pending (st_isdu p)" "\<not> isdu_abort_pending (st_isdu p)"
    using assms(6) by (simp_all add: isdu_started_def)
  obtain frames where frames: "isdu_frames L n k (st_isdu p) = Some (frames, isdu_request_sent L (st_isdu p))"
    "list_all (\<lambda>(read, flowctrl, od). \<not> read) frames"
    "parse_request (concat (map (\<lambda>(read, flowctrl, od). od) frames)) = Some request"
    using request_frames [OF const assms(2,6)] by (auto simp: k_def)
  have "wire_rel L reply (isdu_device n device) (p, reply od, [], segs, log) (od, st_isdu p, [], segs, log)"
    using assms(3,5) by (simp add: wire_rel_def)
  moreover have "sends_at TICK_CYCLE_DUE now p" using assms(7,8) by (simp add: sends_at_def)
  ultimately show ?thesis
    unfolding k_def [symmetric]
    by (intro ensures_mono [OF request_at_one_instant [OF assms(1,4) frames(1,2) flags]])
      (auto simp: wire_rel_def wired_defs attached_def sends_at_def clock_def frames(3))
qed

text \<open>
  The port of the witness has a minimum cycle time of 10, and its last cycle started at 90. A read
  service of it is sent at 100.
\<close>

definition demo_cycle :: "(u8 list \<times> isdu_server) iolink_master_port_state_t" where
  "demo_cycle = (demo_wired (isdu_device 1 demo_server))\<lparr>st_last_cycle_start_100us := 90, st_cycle_timer_valid := True\<rparr>"

theorem isdu_messages_unpaced_witness:
  "ensures (do {
      (ret, data, len, p) \<leftarrow> iolink_master_read_isdu demo_stack 0x10 0 (replicate 8 0) 8 demo_cycle;
      timed_ticks demo_stack (replicate (frames_needed 1 (isdu_request_len (st_isdu p))) (TICK_CYCLE_DUE, 100)) p
        (demo_reply [], [], [], []) })
    (\<lambda>(rets, p', queue, received, segs, log). parse_request received = Some (Isdu_Request True 0x10 0 []) \<and>
       iolink_master_cycle_due_at p' 100 \<and> st_last_cycle_start_100us p' = 90)"
proof -
  have wired: "wired demo_stack demo_reply (isdu_device 1 demo_server) demo_cycle"
    using demo_wired [of "isdu_device 1 demo_server"]
    by (simp add: demo_cycle_def wired_defs attached_def port_wf_defs)
  have p: "isdu_wf demo_stack (st_isdu demo_cycle)" "isdu_service_state demo_cycle"
    "isdu_op (st_isdu demo_cycle) = ISDU_OP_NONE"
    using demo_wired_idle(2) [of "isdu_device 1 demo_server"]
    by (simp_all add: demo_cycle_def isdu_idle_def isdu_service_state_def)
  obtain isdu where read: "iolink_master_read_isdu demo_stack 0x10 0 (replicate 8 0) 8 demo_cycle =
      Some (STATUS_PENDING, replicate 8 0, 8, demo_cycle\<lparr>st_isdu := isdu\<rparr>)"
    "isdu_started demo_stack (Isdu_Request True 0x10 0 []) isdu"
    using read_started [OF demo_stack_constants p] by blast
  let ?p = "demo_cycle\<lparr>st_isdu := isdu\<rparr>"
  have line: "wired demo_stack demo_reply (isdu_device 1 demo_server) ?p"
    using wired read(2) by (simp add: wired_defs attached_isdu isdu_started_def)
  have facts: "st_od_len ?p = 1" "due [] ?p" "isdu_started demo_stack (Isdu_Request True 0x10 0 []) (st_isdu ?p)"
    "iolink_master_cycle_due_at ?p 100" "\<not> gate_closed ?p 100" "st_last_cycle_start_100us ?p = 90"
    using read(2)
    by (simp_all add: demo_cycle_def demo_wired_def due_def zero_port_def iolink_master_cycle_due_at_def gate_closed_def)
  show ?thesis
    using isdu_messages_unpaced [OF demo_stack_ok _ line facts(1-5), of "[]" "[]"] facts(6)
    by (auto simp: read(1) elim!: ensures_mono)
qed

end
