(* ===== verification/Spec2Isabelle.thy ===== *)
theory Spec2Isabelle
  imports MasterLoss MasterSchedule MasterGateway MasterSample MasterFourPort MasterDiagnosis
    MasterDownload MasterTimed
begin

text \<open>
  A model of the IO-Link master library (directory \<open>src/\<close>), a portable C core that drives
  one IO-Link port, or a group of ports, over a PHY supplied by the user.

  \<^bold>\<open>The program.\<close> A port (\<open>src/master_port.c\<close>) wakes the line, scans the three baud rates
  with a test message, switches the device to OPERATE and then exchanges process data in
  cycles. Between the cycles it carries acyclic services (\<open>src/master_isdu.c\<close>): ISDU reads
  and writes, cut into the OD octets of the messages; the readout of the event memory;
  parameter blocks and the comparison of Data Storage images. \<open>src/master_parameters.c\<close>
  decodes the Direct Parameter Page and checks a configuration against it,
  \<open>src/master_sio.c\<close> has the SIO modes, \<open>src/master_gateway.c\<close> prints a port as a text line
  and \<open>src/master_controller.c\<close> runs a group of ports on one timer. The application calls
  these functions from one loop; the PHY and the hooks of the configuration are called back.
  Three programs under \<open>examples/\<close> and \<open>samples/\<close> are such applications.

  \<^bold>\<open>The model.\<close> A structure of the code is a record with the fields of the code
  (\<open>MasterTypes\<close>: \<open>iolink_master_port_state_t\<close> and its parts; \<open>MasterController\<close>:
  \<open>iolink_master_controller_state_t\<close>), an enumeration is a datatype, a C function is a
  definition of the same name. A function takes the port and returns its result with the
  new port; one that may reach the PHY or a hook also passes on an environment of arbitrary
  type \<open>'e\<close>, on which the PHY functions act. Octets, codes, counters and time stamps are words
  of their width; lengths and positions are natural numbers reduced by \<open>trunc8\<close> or \<open>trunc16\<close>
  where they are stored. The value \<open>None\<close> of a definition stands for undefined behaviour
  (an access outside an array, a call of a NULL function) or for a loop that does not end;
  \<open>ensures m Q\<close> says that there is a result and that \<open>Q\<close> holds of it. The device stack
  \<open>iolinki\<close>, which is another repository, is the record of the same name: checksum, frame
  encoders, frame decoder and constants are arguments, and \<open>iolinki_ok\<close> and
  \<open>type0_frames_ok\<close> state what the code relies on.

  \<^bold>\<open>The theories\<close>, in the order of the imports:

    \<^item> \<open>MasterPrelude\<close>: integers, memory accesses, \<open>ensures\<close>, runs of operations; the locales
      \<open>invariant_machine\<close> (operations that keep an invariant) and \<open>stream_consumer\<close> (a
      consumer of octets that does not depend on their segmentation).
    \<^item> \<open>MasterStack\<close>, \<open>MasterTypes\<close>: the parameters of the model and the data of the program.
    \<^item> \<open>MasterParameters\<close>: \<open>src/master_parameters.c\<close>. Codes and decoders, their tables, bounds
      and round trips; the check of a configuration.
    \<^item> \<open>MasterIsdu\<close>, \<open>MasterDataStorage\<close>, \<open>MasterEvents\<close>, \<open>MasterBlock\<close>: \<open>src/master_isdu.c\<close>. The
      transport and its invariant, the octets a device gets and the result the application
      gets for every segmentation; Data Storage images against their sets of records; the
      event memory; services in sequence against a device (locale \<open>exchanged_service\<close>) and
      the parameter block built on them (locale \<open>polled_operation\<close>).
    \<^item> \<open>MasterFrames\<close>, \<open>MasterStartup\<close>, \<open>MasterReceive\<close>, \<open>MasterPort\<close>, \<open>MasterLifecycle\<close>:
      \<open>src/master_port.c\<close> and \<open>src/master_sio.c\<close>. Frames and sending, the establish scan,
      reception, the transmission in each state and the ticks, initialisation and access. The
      lemmas \<open>*_kept\<close> show that each function has a result and keeps the invariant \<open>port_wf\<close>.
    \<^item> \<open>MasterDemo\<close>: the line of the witnesses. \<open>MasterApi\<close>: every call of the programming
      interface that changes a port, calls the PHY or moves octets to or from the caller as one
      step; sequences of calls are safe.
    \<^item> \<open>MasterStates\<close>: the abstract state machine and its refinement by the ticks, of which each is
      one edge of \<open>tick_edge\<close>; polls end. \<open>MasterSchedule\<close>: time, pacing, sleeping, the response
      windows, the end of the 32-bit clock.
    \<^item> \<open>MasterEstablish\<close>, \<open>MasterLine\<close>, \<open>MasterHandshake\<close>, \<open>MasterExchange\<close>, \<open>MasterLoss\<close>: the
      life of a connection: the scan of a silent line, with what an observer at the PHY sees of it
      (\<open>observed\<close>), replies in pieces, what a port on a PHY that accepts its frames sends and
      receives in each state (\<open>attached\<close>, \<open>accepts\<close>), the way to OPERATE, process data in lock step,
      and what the port does not notice of a lost device.
    \<^item> \<open>MasterWire\<close>, \<open>MasterServices\<close>, \<open>MasterDiagnosis\<close>: acyclic services on the line. A tick of
      an OPERATE port is a step of the ISDU transport and of the device (\<open>wire_step\<close>; octet for
      octet of the messages: \<open>line_step\<close>), so a ticked port is a second provider of
      \<open>exchanged_service\<close>; its ticks also read the event memory of the device and write the
      StatusCode. \<open>MasterDownload\<close>: the parameter block and the Data Storage restore of a ticked
      port, the second provider of \<open>polled_operation\<close>.
    \<^item> \<open>MasterCycle\<close>: timed cycles on the line. What a tick at the next tick time does, and when
      failed cycles end the communication (\<open>line_cycles\<close>, \<open>gives_up\<close>).
    \<^item> \<open>MasterTimed\<close>: timed ticks on the line, with cycle pacing and response windows. They simulate
      the transport with stuttering (\<open>timed_rel\<close>); an application that sleeps until each next tick
      time makes progress (\<open>sleeping_ticks\<close>); ISDU messages are not paced.
    \<^item> \<open>MasterLoopback\<close>, \<open>MasterSample\<close>, \<open>MasterFourPort\<close>: the programs
      \<open>examples/master_loopback_demo.c\<close>, \<open>samples/iolink_master/src/main.c\<close> and
      \<open>examples/master_4port_controller_demo.c\<close> with their simulated PHYs, on the model of the
      library: each returns 0 and prints what it is meant to.
    \<^item> \<open>MasterController\<close>: \<open>src/master_controller.c\<close>, on the ports of \<open>MasterLifecycle\<close> (locale
      \<open>port_bank\<close>). \<open>MasterGateway\<close>: \<open>src/master_gateway.c\<close>.

  \<^bold>\<open>Loops.\<close> Loops over arrays are structural recursions. The loops over Data Storage images and
  the receive loop are partial functions in the option monad; that they end is proved
  (\<open>verify_data_storage_result\<close>, \<open>polling_ends\<close>), the latter for a PHY whose receive queue runs
  dry (\<open>quiet\<close>). There is no fuel in the model. The number of ticks in
  \<open>isdu_services_over_the_line\<close> is the frames of the longest request and the segments of the
  longest answer, plus one (\<open>services_fit\<close>); in \<open>event_acknowledged_over_the_line\<close> it is the
  messages that carry the event memory, plus one. An application that sleeps (\<open>MasterTimed\<close>) needs
  at most twice the ticks: one that takes the reply of a cyclic message and one that sends; the
  clock advances by at most 25.5 ms with each.

  \<^bold>\<open>What the model shows of the code's limits.\<close> Theorems of kind error exhibit behaviour that the
  code does not intend or its documents rule out: a parameter block of one length blocks the
  latch, a readout with capacity zero stores outside the array and one with a small capacity drops
  events with OK, an acknowledgement that writes nothing, a stale send gate, a response window that
  has no room for the messages and does not fall back to the cycle time, ISDU messages without
  pacing, the retry limit 255, a device that is lost in PREOPERATE, process data that stay valid;
  the link quality is right up to a cycle count only. A reply with a wrong checksum counts as two
  failed cycles (\<open>lost_after_three_failures\<close>), and the minimum cycle time is not decoded
  (\<open>cycles_are_paced\<close>).

  \<^bold>\<open>Assumptions of the connection theorems.\<close> The line of \<open>MasterHandshake\<close> and
  \<open>MasterExchange\<close> has no PHY adapter hooks, a device that answers a frame at once (its answer
  is a function of the frame) and a start-up without inspection; the device of \<open>MasterWire\<close> has
  a state, and its port is in OPERATE with an M-sequence that is not TYPE_0 and without event
  handler; ISDU services and event transfers are shown one at a time there; \<open>MasterEstablish\<close> and
  \<open>MasterCycle\<close> allow hooks that succeed. The ticks there are the untimed ones; timed ticks are
  the subject of \<open>MasterStates\<close>, \<open>MasterSchedule\<close>, \<open>MasterLoss\<close> and, on the line of \<open>MasterWire\<close>,
  of \<open>MasterCycle\<close> and \<open>MasterTimed\<close>; in \<open>MasterTimed\<close> the clock does not pass its end.

  \<^bold>\<open>Not modelled.\<close> NULL ports, controllers and output pointers (early returns only); the
  contents of uninitialised storage, which are arguments where they matter; concurrent calls,
  which the code excludes; console output and log messages but for the last line of each
  program; tests, tools and Zephyr glue; the device stack. What else the headers hold are
  prototypes and comments, the storage of the opaque types, the casts to the private structures
  and constants that no function reads.
\<close>

end
